(* ===== verification/Prelude.thy ===== *)
theory Prelude
  imports Main "HOL-Library.Word"
begin

text \<open>
  The vocabulary the components share: the machine integers of the C and C++ sources as words of
  their width, octet strings as lists, the results of operations that may fail, big-endian
  conversions, and the induction principle for xor-linear functions that the cipher and checksum
  theories use.
\<close>

unbundle bit_operations_syntax

section \<open>Types\<close>

type_synonym u8 = "8 word"
type_synonym u16 = "16 word"
type_synonym u32 = "32 word"
type_synonym u64 = "64 word"
type_synonym octets = "u8 list"

text \<open>
  How an operation of the sources can fail to return: an access outside an array (undefined
  behaviour in C), other undefined behaviour (a value that was never set, an overflow of a signed integer),
  a call of the TITAN runtime's \<^verbatim>\<open>TTCN_error\<close> (which throws), a C++ exception
  thrown by the code itself, or \<^verbatim>\<open>exit\<close>.
\<close>

datatype failure = OutOfBounds | Undefined | TtcnError | Thrown | ProcessExit

type_synonym 'a result = "failure + 'a"

definition bind_result :: "'a result \<Rightarrow> ('a \<Rightarrow> 'b result) \<Rightarrow> 'b result" where
  "bind_result r f = (case r of Inl e \<Rightarrow> Inl e | Inr a \<Rightarrow> f a)"

definition map_result :: "('a \<Rightarrow> 'b) \<Rightarrow> 'a result \<Rightarrow> 'b result" where
  "map_result f r = (case r of Inl e \<Rightarrow> Inl e | Inr a \<Rightarrow> Inr (f a))"

named_theorems result_simps \<open>evaluation of the result combinators\<close>

lemma bind_result_Inl [simp, result_simps]: "bind_result (Inl e) f = Inl e"
  by (simp add: bind_result_def)

lemma bind_result_Inr [simp, result_simps]: "bind_result (Inr a) f = f a"
  by (simp add: bind_result_def)

lemma map_result_Inl [simp, result_simps]: "map_result f (Inl e) = Inl e"
  by (simp add: map_result_def)

lemma map_result_Inr [simp, result_simps]: "map_result f (Inr a) = Inr (f a)"
  by (simp add: map_result_def)

lemma bind_result_eq_Inr [simp]:
  "bind_result r f = Inr b \<longleftrightarrow> (\<exists>a. r = Inr a \<and> f a = Inr b)"
  by (cases r) simp_all

lemma map_result_eq_Inr [simp]:
  "map_result f r = Inr b \<longleftrightarrow> (\<exists>a. r = Inr a \<and> b = f a)"
  by (cases r) auto

section \<open>Lists\<close>

abbreviation xor_list :: "octets \<Rightarrow> octets \<Rightarrow> octets" where
  "xor_list xs ys \<equiv> map2 (XOR) xs ys"

lemma length_xor_list: "length (xor_list xs ys) = min (length xs) (length ys)"
  by simp

lemma xor_list_cancel:
  "length xs = length ys \<Longrightarrow> xor_list (xor_list xs ys) ys = xs"
  by (induction xs ys rule: list_induct2) (simp_all add: xor.assoc)

lemma xor_list_comm: "xor_list xs ys = xor_list ys xs"
  by (rule nth_equalityI) (simp_all add: xor.commute)

lemma take_replicate_append [simp]: "take n (replicate n x @ ys) = replicate n x"
  by simp

lemma dropWhile_replicate_append:
  "P x \<Longrightarrow> dropWhile P (replicate n x @ ys) = dropWhile P ys"
  by (induction n) simp_all

text \<open>A list is determined by a prefix of known length and the rest.\<close>

lemma append_eq_same_length:
  "length xs = length us \<Longrightarrow> xs @ ys = us @ vs \<longleftrightarrow> xs = us \<and> ys = vs"
  by simp

section \<open>Words\<close>

text \<open>
  A property of words that holds of 0 and of every single bit, and that xor preserves, holds of
  every word. This is how an identity between xor-linear functions is reduced to the bits.
\<close>

lemma take_bit_Suc_xor:
  fixes w :: "'a::len word"
  shows "take_bit (Suc k) w = take_bit k w XOR (if bit w k then 2 ^ k else 0)"
  by (rule bit_word_eqI) (auto simp: bit_simps less_Suc_eq)

lemma word_xor_induct [case_names zero xor single]:
  fixes w :: "'a::len word"
  assumes zero: "P 0"
    and xor: "\<And>a b. P a \<Longrightarrow> P b \<Longrightarrow> P (a XOR b)"
    and single: "\<And>n. n < LENGTH('a) \<Longrightarrow> P (2 ^ n)"
  shows "P w"
proof -
  have "P (take_bit k w)" if "k \<le> LENGTH('a)" for k
    using that
  proof (induction k)
    case 0
    then show ?case by (simp add: zero)
  next
    case (Suc k)
    then have "P (take_bit k w)" and "P (if bit w k then 2 ^ k else 0)"
      by (simp_all add: zero single)
    then show ?case by (subst take_bit_Suc_xor) (rule xor)
  qed
  from this [of "LENGTH('a)"] show ?thesis by (simp add: take_bit_length_eq)
qed

text \<open>Two functions that commute with xor and agree on single bits are equal.\<close>

lemma xor_linear_eqI:
  fixes f g :: "'a::len word \<Rightarrow> 'b::len word"
  assumes "\<And>a b. f (a XOR b) = f a XOR f b" and "\<And>a b. g (a XOR b) = g a XOR g b"
    and "\<And>n. n < LENGTH('a) \<Longrightarrow> f (2 ^ n) = g (2 ^ n)"
  shows "f w = g w"
proof (induction w rule: word_xor_induct)
  case zero
  have "f (0 XOR 0) = f 0 XOR f 0" and "g (0 XOR 0) = g 0 XOR g 0"
    by (rule assms)+
  then show ?case by simp
qed (simp_all add: assms)

lemma xor_eq_0_iff_word [simp]: "(a::'a::len word) XOR b = 0 \<longleftrightarrow> a = b"
  by (auto simp: bit_eq_iff bit_simps)

lemma xor_left_cancel_word [simp]: "(a::'a::len word) XOR b = a XOR c \<longleftrightarrow> b = c"
  by (auto simp: bit_eq_iff bit_simps)

lemma xor_right_cancel_word [simp]: "(b::'a::len word) XOR a = c XOR a \<longleftrightarrow> b = c"
  by (simp add: xor.commute [of _ a])

text \<open>Big-endian conversions, as the shifts of the sources write them.\<close>

definition be32 :: "u8 \<Rightarrow> u8 \<Rightarrow> u8 \<Rightarrow> u8 \<Rightarrow> u32" where
  "be32 a b c d = push_bit 24 (ucast a) OR push_bit 16 (ucast b) OR push_bit 8 (ucast c) OR ucast d"

definition octet_of :: "nat \<Rightarrow> 'a::len word \<Rightarrow> u8" where
  "octet_of k w = ucast (drop_bit (8 * k) w)"

lemma bit_octet_of [bit_simps]: "bit (octet_of k w) n \<longleftrightarrow> n < 8 \<and> bit w (8 * k + n)"
  by (auto simp: octet_of_def bit_simps)

lemma octet_of_xor [simp]: "octet_of k (a XOR b) = octet_of k a XOR octet_of k b"
  by (rule bit_word_eqI) (auto simp: bit_simps)

lemma bit_be32 [bit_simps]:
  "bit (be32 a b c d) n \<longleftrightarrow>
     (n < 8 \<and> bit d n) \<or> (8 \<le> n \<and> n < 16 \<and> bit c (n - 8)) \<or> (16 \<le> n \<and> n < 24 \<and> bit b (n - 16)) \<or>
     (24 \<le> n \<and> n < 32 \<and> bit a (n - 24))"
  by (auto simp: be32_def bit_simps dest: bit_imp_le_length)

lemma octet_of_be32 [simp]:
  "octet_of 0 (be32 a b c d) = d" "octet_of 1 (be32 a b c d) = c" "octet_of (Suc 0) (be32 a b c d) = c"
  "octet_of 2 (be32 a b c d) = b" "octet_of 3 (be32 a b c d) = a"
  by (rule bit_word_eqI, auto simp: bit_simps dest: bit_imp_le_length)+

lemma be32_of_octets [simp]: "be32 (octet_of 3 w) (octet_of 2 w) (octet_of 1 w) (octet_of 0 w) = w"
proof (rule bit_word_eqI)
  fix n assume "n < LENGTH(32)"
  then consider "n < 8" | "8 \<le> n" "n < 16" | "16 \<le> n" "n < 24" | "24 \<le> n" "n < 32" by fastforce
  then show "bit (be32 (octet_of 3 w) (octet_of 2 w) (octet_of 1 w) (octet_of 0 w)) n \<longleftrightarrow> bit w n"
    by cases (auto simp: bit_simps)
qed

lemma be32_xor: "be32 a b c d XOR be32 a' b' c' d' = be32 (a XOR a') (b XOR b') (c XOR c') (d XOR d')"
  by (rule bit_word_eqI) (auto simp: bit_simps)

lemma be32_inject: "be32 a b c d = be32 a' b' c' d' \<longleftrightarrow> a = a' \<and> b = b' \<and> c = c' \<and> d = d'"
  by (metis octet_of_be32)

lemma octets_eqI:
  "octet_of 3 v = octet_of 3 w \<Longrightarrow> octet_of 2 v = octet_of 2 w \<Longrightarrow> octet_of 1 v = octet_of 1 w \<Longrightarrow>
   octet_of 0 v = octet_of 0 w \<Longrightarrow> v = w" for v w :: u32
  by (metis be32_of_octets)

lemma and_ones [simp]: "w AND 0xffffffff = w" for w :: u32
  proof -
  have "(0xffffffff :: u32) = - 1" by simp
  then show ?thesis by (simp only: and.right_neutral)
qed

lemma unat_u8: "unat v < 256" for v :: u8
  using unsigned_less [of v] by simp

text \<open>The two octets of a 16-bit value, high octet first (\<^verbatim>\<open>htons\<close> and a two-octet copy).\<close>

definition be16_octets :: "u16 \<Rightarrow> octets" where
  "be16_octets w = [octet_of 1 w, octet_of 0 w]"

definition be32_octets :: "u32 \<Rightarrow> octets" where
  "be32_octets w = [octet_of 3 w, octet_of 2 w, octet_of 1 w, octet_of 0 w]"

lemma length_be16_octets [simp]: "length (be16_octets w) = 2"
  by (simp add: be16_octets_def)

lemma length_be32_octets [simp]: "length (be32_octets w) = 4"
  by (simp add: be32_octets_def)

lemma be32_octets_inject [simp]: "be32_octets v = be32_octets w \<longleftrightarrow> v = w"
proof
  assume "be32_octets v = be32_octets w"
  then have "be32 (octet_of 3 v) (octet_of 2 v) (octet_of 1 v) (octet_of 0 v)
    = be32 (octet_of 3 w) (octet_of 2 w) (octet_of 1 w) (octet_of 0 w)"
    by (simp add: be32_octets_def)
  then show "v = w" by (simp only: be32_of_octets)
qed simp

lemma be16_octets_inject [simp]: "be16_octets v = be16_octets w \<longleftrightarrow> v = w"
proof
  assume *: "be16_octets v = be16_octets w"
  show "v = w"
  proof (rule bit_word_eqI)
    fix n assume "n < LENGTH(16)"
    from * have "octet_of (n div 8) v = octet_of (n div 8) w" if "n div 8 = 0 \<or> n div 8 = 1"
      using that by (auto simp: be16_octets_def)
    moreover from \<open>n < LENGTH(16)\<close> have "n div 8 = 0 \<or> n div 8 = 1" by auto
    ultimately have "bit (octet_of (n div 8) v) (n mod 8) = bit (octet_of (n div 8) w) (n mod 8)"
      by simp
    then show "bit v n \<longleftrightarrow> bit w n" by (simp add: bit_simps)
  qed
qed simp

section \<open>More octets and lists\<close>

lemma bit_0x80: "bit (0x80 :: u8) n \<longleftrightarrow> n = 7"
proof -
  have e: "(0x80 :: u8) = 2 ^ 7" by simp
  show ?thesis unfolding e bit_exp_iff by auto
qed

lemma unat_ucast_16: "unat (ucast x :: u16) = unat x" for x :: u8
  using unat_u8 [of x] by (simp add: unsigned_ucast_eq take_bit_nat_eq_self)

lemma append_Cons_fun: "(@) (x # xs) = (\<lambda>ys. x # (xs @ ys))"
  by (simp add: fun_eq_iff)

lemma drop_after: "drop n xs = us @ vs \<Longrightarrow> drop (n + length us) xs = vs"
proof -
  assume "drop n xs = us @ vs"
  then have "drop (length us) (drop n xs) = vs" by simp
  then show ?thesis by (simp add: add.commute)
qed

lemma or_octets_16: "push_bit 8 (ucast (octet_of 1 w)) OR ucast (octet_of 0 w) = w" for w :: u16
proof (rule bit_word_eqI)
  fix n assume "n < LENGTH(16)"
  then consider "n < 8" | "8 \<le> n" "n < 16" by fastforce
  then show "bit (push_bit 8 (ucast (octet_of 1 w)) OR ucast (octet_of 0 w) :: u16) n \<longleftrightarrow> bit w n"
    by cases (auto simp: bit_simps dest: bit_imp_le_length)
qed

lemma octets_of_or_16:
  "octet_of 1 (push_bit 8 (ucast a) OR ucast b :: u16) = a" "octet_of 0 (push_bit 8 (ucast a) OR ucast b :: u16) = b"
  for a b :: u8
  by (rule bit_word_eqI, auto simp: bit_simps dest: bit_imp_le_length)+

lemma nth_of_drop: "drop ofs xs = ys \<Longrightarrow> k < length ys \<Longrightarrow> xs ! (ofs + k) = ys ! k"
  by (auto simp: nth_drop)

lemma length_of_drop: "drop ofs xs = ys \<Longrightarrow> ys \<noteq> [] \<Longrightarrow> length xs = ofs + length ys"
  by (cases "ofs < length xs") auto

lemma take_of_drop: "drop ofs xs = ys \<Longrightarrow> take n (drop (ofs + k) xs) = take n (drop k ys)"
  by (auto simp: add.commute)

lemma drop_eq_Cons2:
  "ofs + 1 < length xs \<Longrightarrow> drop ofs xs = xs ! ofs # xs ! (ofs + 1) # drop (ofs + 2) xs"
  by (simp add: Cons_nth_drop_Suc)

lemma drop_eq_Cons3:
  "ofs + 2 < length xs \<Longrightarrow> drop ofs xs = xs ! ofs # xs ! (ofs + 1) # xs ! (ofs + 2) # drop (ofs + 3) xs"
  using drop_eq_Cons2 [of ofs xs] Cons_nth_drop_Suc [of "ofs + 2" xs] by (simp add: eval_nat_numeral)

lemma and_1_bit: "drop_bit i P AND 0x1 \<noteq> 0 \<longleftrightarrow> bit P i" for P :: "'a::len word"
  by (simp add: and_one_eq bit_iff_odd_drop_bit odd_iff_mod_2_eq_one)

lemma shift_left_lost: "push_bit 1 a = 0 \<Longrightarrow> \<not> bit a (LENGTH('a) - 1) \<Longrightarrow> a = 0" for a :: "'a::len word"
proof -
  assume z: "push_bit 1 a = 0" and top: "\<not> bit a (LENGTH('a) - 1)"
  have "\<not> bit a n" for n
  proof (cases "Suc n < LENGTH('a)")
    case True
    then have "bit a n \<longleftrightarrow> bit (push_bit 1 a) (Suc n)" by (simp add: bit_push_bit_iff del: push_bit_Suc)
    with z show ?thesis by simp
  next
    case False
    then have "n = LENGTH('a) - 1 \<or> LENGTH('a) \<le> n" by linarith
    with top show ?thesis by (metis bit_imp_le_length not_less)
  qed
  then show "a = 0" by (simp add: bit_eq_iff)
qed

lemma ucast_and_1: "ucast (b AND 1) = (if bit b 0 then 1 else 0)" for b :: "'a::len word"
  by (simp add: and_one_eq bit_0 mod_2_eq_odd)

lemma uint_ucast_up: "LENGTH('a) \<le> LENGTH('b) \<Longrightarrow> uint (ucast (r :: 'a::len word) :: 'b::len word) = uint r"
  by (simp add: unsigned_ucast_eq take_bit_eq_mod) (metis mod_pos_pos_trivial order.strict_trans2 power_increasing uint_lt2p unsigned_greater_eq one_le_numeral)

text \<open>Reading the first \<open>n\<close> octets of a buffer.\<close>

definition have_octets :: "nat \<Rightarrow> octets \<Rightarrow> 'a result \<Rightarrow> 'a result" where
  "have_octets n xs r = (if length xs < n then Inl OutOfBounds else r)"

end
