(* ===== verification/Xor_Linear.thy ===== *)
theory Xor_Linear
  imports Prelude
begin

text \<open>
  Functions on words that commute with xor, as interfaces: the shift registers of the stream
  cipher and of the checksums are instances. A component that provides such a step proves the
  laws once and obtains linearity of every iterate, injectivity, periods and the commutativity of
  the multiplication that the register defines.
\<close>

unbundle bit_operations_syntax

section \<open>Xor-linear functions\<close>

locale xor_linear =
  fixes f :: "'a::len word \<Rightarrow> 'b::len word"
  assumes f_xor: "f (a XOR b) = f a XOR f b"
begin

lemma f_zero [simp]: "f 0 = 0"
  using f_xor [of 0 0] by simp

lemma f_eq_iff: "f a = f b \<longleftrightarrow> f (a XOR b) = 0"
  by (simp add: f_xor)

lemma f_if: "f (if p then a else 0) = (if p then f a else 0)"
  by simp

end

section \<open>Registers\<close>

text \<open>A register is clocked by a linear step; all its iterates are linear.\<close>

locale xor_register = xor_linear step
  for step :: "'a::len word \<Rightarrow> 'a word"
begin

lemma iterate_xor: "(step ^^ n) (a XOR b) = (step ^^ n) a XOR (step ^^ n) b"
  by (induction n) (simp_all add: f_xor)

lemma iterate_zero [simp]: "(step ^^ n) 0 = 0"
  by (induction n) simp_all

lemma iterate_numeral: "(step ^^ numeral n) v = (step ^^ pred_numeral n) (step v)"
  by (simp add: numeral_eq_Suc funpow_Suc_right del: funpow.simps)

lemma iterate_add: "(step ^^ m) ((step ^^ n) v) = (step ^^ (m + n)) v"
  by (simp add: funpow_add)

end

text \<open>A register whose step loses nothing: only 0 goes to 0.\<close>

locale reversible_register = xor_register step
  for step :: "'a::len word \<Rightarrow> 'a word" +
  assumes step_nonzero: "step a = 0 \<Longrightarrow> a = 0"
begin

lemma step_inject: "step a = step b \<longleftrightarrow> a = b"
  using step_nonzero [of "a XOR b"] by (auto simp: f_xor)

lemma iterate_inject: "(step ^^ n) a = (step ^^ n) b \<longleftrightarrow> a = b"
  by (induction n) (simp_all add: step_inject)

end

text \<open>
  A register that shifts left and feeds back at the top: it multiplies by the generator of the
  field whose elements are the words. The product of two elements sums the iterates of one at the
  bits of the other.
\<close>

primrec xor_upto :: "nat \<Rightarrow> (nat \<Rightarrow> 'a::len word) \<Rightarrow> 'a word" where
  "xor_upto 0 g = 0"
| "xor_upto (Suc n) g = xor_upto n g XOR g n"

lemma xor_upto_cong: "(\<And>i. i < n \<Longrightarrow> g i = h i) \<Longrightarrow> xor_upto n g = xor_upto n h"
  by (induction n) simp_all

lemma xor_upto_zero [simp]: "xor_upto n (\<lambda>i. 0) = 0"
  by (induction n) simp_all

lemma xor_upto_xor: "xor_upto n (\<lambda>i. g i XOR h i) = xor_upto n g XOR xor_upto n h"
  by (induction n) (simp_all add: xor.assoc xor.left_commute)

lemma xor_upto_single: "k < n \<Longrightarrow> xor_upto n (\<lambda>i. if i = k then g i else 0) = g k"
proof (induction n)
  case (Suc n)
  show ?case
  proof (cases "k = n")
    case True
    have "xor_upto n (\<lambda>i. if i = k then g i else 0) = xor_upto n (\<lambda>i. 0)"
      by (rule xor_upto_cong) (simp add: True)
    with True show ?thesis by simp
  next
    case False
    with Suc show ?thesis by simp
  qed
qed simp

definition register_product :: "('a::len word \<Rightarrow> 'a word) \<Rightarrow> 'a word \<Rightarrow> 'a word \<Rightarrow> 'a word" where
  "register_product step V P = xor_upto LENGTH('a) (\<lambda>i. if bit P i then (step ^^ i) V else 0)"

locale shift_register = xor_register step
  for step :: "'a::len word \<Rightarrow> 'a word" +
  assumes step_shift: "Suc n < LENGTH('a) \<Longrightarrow> step (2 ^ n) = 2 ^ Suc n"
begin

lemma iterate_one: "n < LENGTH('a) \<Longrightarrow> (step ^^ n) 1 = 2 ^ n"
proof (induction n)
  case (Suc n)
  then show ?case using step_shift [of n] by simp
qed simp

lemma period_from_one:
  assumes "(step ^^ N) 1 = 1"
  shows "(step ^^ N) v = v"
proof (rule xor_linear_eqI [where g = "\<lambda>v. v"])
  fix n assume "n < LENGTH('a)"
  then have "(2 ^ n :: 'a word) = (step ^^ n) 1" by (simp add: iterate_one)
  then show "(step ^^ N) (2 ^ n) = 2 ^ n"
    by (metis iterate_add assms add.commute)
qed (simp_all add: iterate_xor)

lemma product_xor_left:
  "register_product step (a XOR b) P = register_product step a P XOR register_product step b P"
proof -
  have "(\<lambda>i. if bit P i then (step ^^ i) (a XOR b) else 0)
      = (\<lambda>i. (if bit P i then (step ^^ i) a else 0) XOR (if bit P i then (step ^^ i) b else 0))"
    by (auto simp: iterate_xor)
  then show ?thesis by (simp add: register_product_def xor_upto_xor)
qed

lemma product_xor_right:
  "register_product step V (a XOR b) = register_product step V a XOR register_product step V b"
proof -
  have "(\<lambda>i. if bit (a XOR b) i then (step ^^ i) V else 0)
      = (\<lambda>i. (if bit a i then (step ^^ i) V else 0) XOR (if bit b i then (step ^^ i) V else 0))"
    by (auto simp: bit_simps)
  then show ?thesis by (simp add: register_product_def xor_upto_xor)
qed

lemma product_single_right:
  assumes "k < LENGTH('a)"
  shows "register_product step V (2 ^ k) = (step ^^ k) V"
proof -
  have "(\<lambda>i. if bit (2 ^ k :: 'a word) i then (step ^^ i) V else 0)
      = (\<lambda>i. if i = k then (step ^^ i) V else 0)"
    using assms by (auto simp: bit_simps)
  then show ?thesis using xor_upto_single [OF assms, of "\<lambda>i. (step ^^ i) V"]
    by (simp add: register_product_def)
qed

lemma product_one_left: "register_product step 1 P = P"
proof (rule xor_linear_eqI [where f = "register_product step 1" and g = "\<lambda>p. p"])
  show "register_product step 1 (2 ^ n) = 2 ^ n" if "n < LENGTH('a)" for n
    using that by (simp add: product_single_right iterate_one)
qed (simp_all add: product_xor_right)

lemma product_iterate_left:
  "register_product step ((step ^^ n) V) P = (step ^^ n) (register_product step V P)"
proof (rule xor_linear_eqI [where f = "register_product step ((step ^^ n) V)"])
  show "register_product step ((step ^^ n) V) (2 ^ k) = (step ^^ n) (register_product step V (2 ^ k))"
    if "k < LENGTH('a)" for k
    using that by (simp add: product_single_right iterate_add add.commute)
qed (simp_all add: product_xor_right iterate_xor)

lemma product_comm: "register_product step V P = register_product step P V"
proof (rule xor_linear_eqI [where f = "\<lambda>v. register_product step v P"])
  show "register_product step (2 ^ n) P = register_product step P (2 ^ n)" if "n < LENGTH('a)" for n
  proof -
    have "register_product step (2 ^ n) P = register_product step ((step ^^ n) 1) P"
      by (simp add: iterate_one that)
    then show ?thesis
      by (simp add: product_iterate_left product_one_left product_single_right that)
  qed
qed (simp_all add: product_xor_left product_xor_right)

lemma product_assoc:
  "register_product step (register_product step U V) P
   = register_product step U (register_product step V P)"
proof (rule xor_linear_eqI [where f = "\<lambda>v. register_product step (register_product step U v) P"])
  show "register_product step (register_product step U (2 ^ n)) P
      = register_product step U (register_product step (2 ^ n) P)" if "n < LENGTH('a)" for n
  proof -
    have "register_product step (2 ^ n) P = (step ^^ n) P"
      using that by (simp add: product_comm [of "2 ^ n"] product_single_right)
    then show ?thesis
      using that by (metis product_comm product_iterate_left product_single_right)
  qed
qed (simp_all add: product_xor_left product_xor_right)

end

section \<open>Tables of linear functions\<close>

lemma xor_upto_ucast:
  "(ucast (xor_upto n g :: 'a::len word) :: 'b::len word) = xor_upto n (\<lambda>i. ucast (g i))"
  by (induction n) (simp_all add: unsigned_xor_eq)

text \<open>A table built by doubling: each of the words \<open>cs\<close> is added to all the entries so far.\<close>

definition xor_span :: "'a::len word list \<Rightarrow> 'a word list" where
  "xor_span cs = fold (\<lambda>c t. t @ map ((XOR) c) t) cs [0]"

lemma xor_span_snoc: "xor_span (cs @ [c]) = xor_span cs @ map ((XOR) c) (xor_span cs)"
  by (simp add: xor_span_def)

lemma length_xor_span: "length (xor_span cs) = 2 ^ length cs"
  by (induction cs rule: rev_induct) (simp_all add: xor_span_snoc, simp add: xor_span_def)

lemma nth_xor_span:
  "i < 2 ^ length cs \<Longrightarrow> xor_span cs ! i = xor_upto (length cs) (\<lambda>k. if bit i k then cs ! k else 0)"
proof (induction cs arbitrary: i rule: rev_induct)
  case (snoc c cs)
  let ?n = "length cs"
  have *: "xor_span cs ! j = xor_upto ?n (\<lambda>k. if bit j k then (cs @ [c]) ! k else 0)" if "j < 2 ^ ?n" for j
    using snoc.IH [OF that] xor_upto_cong [of ?n "\<lambda>k. if bit j k then cs ! k else 0"
      "\<lambda>k. if bit j k then (cs @ [c]) ! k else 0"] by (simp add: nth_append)
  show ?case
  proof (cases "i < 2 ^ ?n")
    case True
    then have "\<not> bit i ?n" by (simp add: bit_iff_odd)
    with True * show ?thesis by (simp add: xor_span_snoc nth_append length_xor_span)
  next
    case False
    define j where "j = i - 2 ^ ?n"
    from False snoc.prems have j: "j < 2 ^ ?n" "i = j + 2 ^ ?n" by (simp_all add: j_def)
    have "i = j OR 2 ^ ?n"
    proof -
      have "j AND 2 ^ ?n = 0"
        using j(1) by (simp add: and_exp_eq_0_iff_not_bit bit_iff_odd)
      then show ?thesis by (simp add: j(2) disjunctive_add_eq_or)
    qed
    then have b: "bit i k \<longleftrightarrow> bit j k \<or> k = ?n" for k
      by (auto simp: bit_simps)
    have "xor_upto ?n (\<lambda>k. if bit j k then (cs @ [c]) ! k else 0)
        = xor_upto ?n (\<lambda>k. if bit i k then (cs @ [c]) ! k else 0)"
      by (rule xor_upto_cong) (simp add: b)
    moreover have "xor_span (cs @ [c]) ! i = c XOR xor_span cs ! j"
      using False snoc.prems by (simp add: xor_span_snoc nth_append length_xor_span j_def)
    ultimately show ?thesis
      using * [OF j(1)] by (simp add: b xor.commute)
  qed
qed (simp add: xor_span_def)

section \<open>Registers that take in a bit\<close>

text \<open>
  A register for a checksum takes in one bit at its top for every clock. As many bits as it is long
  are taken in without loss, so two inputs that differ within such a window leave different
  remainders.
\<close>

definition take_in :: "('a::len word \<Rightarrow> 'a word) \<Rightarrow> 'a word \<Rightarrow> bool \<Rightarrow> 'a word" where
  "take_in step r b = step (r XOR (if b then 2 ^ (LENGTH('a) - 1) else 0))"

definition window :: "bool list \<Rightarrow> 'a::len word" where
  "window bs = xor_upto (length bs) (\<lambda>i. if bs ! i then 2 ^ (LENGTH('a) - 1 - i) else 0)"

lemma bit_xor_upto: "bit (xor_upto n g) k \<longleftrightarrow> odd (card {i. i < n \<and> bit (g i) k})"
proof (induction n)
  case (Suc n)
  have "{i. i < Suc n \<and> bit (g i) k} = {i. i < n \<and> bit (g i) k} \<union> (if bit (g n) k then {n} else {})"
    by (auto simp: less_Suc_eq)
  with Suc show ?case by (auto simp: bit_xor_iff)
qed simp

lemma bit_window:
  assumes "length bs \<le> LENGTH('a)" "i < length bs"
  shows "bit (window bs :: 'a::len word) (LENGTH('a) - 1 - i) \<longleftrightarrow> bs ! i"
proof -
  have "{j. j < length bs \<and> bit (if bs ! j then 2 ^ (LENGTH('a) - 1 - j) else 0 :: 'a word) (LENGTH('a) - 1 - i)}
      = (if bs ! i then {i} else {})"
  proof -
    have e: "LENGTH('a) - 1 - i = LENGTH('a) - 1 - j \<longleftrightarrow> j = i" if "j < length bs" for j
      using assms that by linarith
    have "{j. j < length bs \<and> LENGTH('a) - 1 - i = LENGTH('a) - 1 - j \<and> bs ! j} = {j. j = i \<and> bs ! i}"
      by (rule Collect_cong) (use e assms(2) in metis)
    moreover have "bit (if bs ! j then 2 ^ (LENGTH('a) - 1 - j) else 0 :: 'a word) (LENGTH('a) - 1 - i)
        \<longleftrightarrow> LENGTH('a) - 1 - i = LENGTH('a) - 1 - j \<and> bs ! j" for j
      by (auto simp: bit_exp_iff)
    ultimately show ?thesis by (simp only: if_distrib) auto
  qed
  then show ?thesis by (simp add: window_def bit_xor_upto)
qed

lemma window_inject:
  assumes "length bs = length cs" "length bs \<le> LENGTH('a)"
  shows "(window bs :: 'a::len word) = window cs \<longleftrightarrow> bs = cs"
proof
  assume "(window bs :: 'a word) = window cs"
  then show "bs = cs"
    using bit_window [of bs, where 'a = 'a] bit_window [of cs, where 'a = 'a] assms
    by (intro nth_equalityI) auto
qed simp

locale crc_register = reversible_register step + shift_register step
  for step :: "'a::len word \<Rightarrow> 'a word"
begin

lemma take_in_xor: "take_in step (r XOR s) b = take_in step r b XOR step s"
  by (simp add: take_in_def f_xor xor.assoc xor.commute xor.left_commute)

lemma foldl_take_in_xor:
  "foldl (take_in step) (r XOR s) bs = foldl (take_in step) r bs XOR (step ^^ length bs) s"
  by (induction bs arbitrary: r s) (simp_all add: take_in_xor funpow_swap1)

lemma foldl_take_in_window:
  assumes "length bs \<le> LENGTH('a)"
  shows "foldl (take_in step) r bs = (step ^^ length bs) (r XOR window bs)"
  using assms
proof (induction bs arbitrary: r rule: rev_induct)
  case (snoc b bs)
  let ?n = "length bs" and ?L = "LENGTH('a)"
  have w: "window (bs @ [b]) = window bs XOR (if b then 2 ^ (?L - 1 - ?n) else 0 :: 'a word)"
  proof -
    have "xor_upto ?n (\<lambda>i. if (bs @ [b]) ! i then 2 ^ (?L - 1 - i) else 0 :: 'a word)
      = xor_upto ?n (\<lambda>i. if bs ! i then 2 ^ (?L - 1 - i) else 0)"
      by (rule xor_upto_cong) (simp add: nth_append)
    then show ?thesis by (simp add: window_def)
  qed
  have p: "(step ^^ ?n) (2 ^ (?L - 1 - ?n)) = (2 ^ (?L - 1) :: 'a word)"
  proof -
    have "(2 ^ (?L - 1 - ?n) :: 'a word) = (step ^^ (?L - 1 - ?n)) 1" by (simp add: iterate_one)
    then have "(step ^^ ?n) (2 ^ (?L - 1 - ?n)) = (step ^^ (?n + (?L - 1 - ?n))) 1"
      by (simp add: iterate_add)
    also have "?n + (?L - 1 - ?n) = ?L - 1" using snoc.prems by simp
    finally show ?thesis by (simp add: iterate_one)
  qed
  have "foldl (take_in step) r (bs @ [b]) = take_in step ((step ^^ ?n) (r XOR window bs)) b"
    using snoc.IH [of r] snoc.prems by simp
  also have "\<dots> = step ((step ^^ ?n) (r XOR window bs) XOR (if b then 2 ^ (?L - 1) else 0))"
    by (simp add: take_in_def)
  also have "(if b then 2 ^ (?L - 1) else 0) = (step ^^ ?n) (if b then 2 ^ (?L - 1 - ?n) else 0)"
    using p by simp
  finally show ?case
    by (simp only: w) (simp add: iterate_xor xor.assoc flip: iterate_xor)
qed (simp add: window_def)

lemma foldl_take_in_inject: "foldl (take_in step) r bs = foldl (take_in step) s bs \<longleftrightarrow> r = s"
  by (induction bs arbitrary: r s) (simp_all add: take_in_def step_inject)

lemma burst_detected:
  assumes "length bs = length cs" "length bs \<le> LENGTH('a)"
  shows "foldl (take_in step) r (pre @ bs @ post) = foldl (take_in step) r (pre @ cs @ post) \<longleftrightarrow> bs = cs"
  using assms foldl_take_in_window [of bs] foldl_take_in_window [of cs]
  by (simp add: foldl_take_in_inject iterate_inject window_inject)

end
end
