(* ===== verification/Snow3G.thy ===== *)
theory Snow3G
  imports Xor_Linear
begin

text \<open>
  The SNOW 3G stream cipher of \<^verbatim>\<open>library/snow_3g/snow-3g.c\<close>: the arithmetic of its field of
  256 elements, the two 32-bit S-boxes, the linear feedback shift register, the finite state
  machine, initialisation and keystream generation. The static variables of the C file are the
  fields of one record, which every function that clocks takes and returns.
\<close>

unbundle bit_operations_syntax

section \<open>State\<close>

record snow3g =
  LFSR_S0 :: u32
  LFSR_S1 :: u32
  LFSR_S2 :: u32
  LFSR_S3 :: u32
  LFSR_S4 :: u32
  LFSR_S5 :: u32
  LFSR_S6 :: u32
  LFSR_S7 :: u32
  LFSR_S8 :: u32
  LFSR_S9 :: u32
  LFSR_S10 :: u32
  LFSR_S11 :: u32
  LFSR_S12 :: u32
  LFSR_S13 :: u32
  LFSR_S14 :: u32
  LFSR_S15 :: u32
  FSM_R1 :: u32
  FSM_R2 :: u32
  FSM_R3 :: u32

section \<open>S-box tables\<close>

definition SR :: "u8 list" where
  "SR = [
   0x63, 0x7c, 0x77, 0x7b, 0xf2, 0x6b, 0x6f, 0xc5, 0x30, 0x01, 0x67, 0x2b, 0xfe, 0xd7, 0xab, 0x76,
   0xca, 0x82, 0xc9, 0x7d, 0xfa, 0x59, 0x47, 0xf0, 0xad, 0xd4, 0xa2, 0xaf, 0x9c, 0xa4, 0x72, 0xc0,
   0xb7, 0xfd, 0x93, 0x26, 0x36, 0x3f, 0xf7, 0xcc, 0x34, 0xa5, 0xe5, 0xf1, 0x71, 0xd8, 0x31, 0x15,
   0x04, 0xc7, 0x23, 0xc3, 0x18, 0x96, 0x05, 0x9a, 0x07, 0x12, 0x80, 0xe2, 0xeb, 0x27, 0xb2, 0x75,
   0x09, 0x83, 0x2c, 0x1a, 0x1b, 0x6e, 0x5a, 0xa0, 0x52, 0x3b, 0xd6, 0xb3, 0x29, 0xe3, 0x2f, 0x84,
   0x53, 0xd1, 0x00, 0xed, 0x20, 0xfc, 0xb1, 0x5b, 0x6a, 0xcb, 0xbe, 0x39, 0x4a, 0x4c, 0x58, 0xcf,
   0xd0, 0xef, 0xaa, 0xfb, 0x43, 0x4d, 0x33, 0x85, 0x45, 0xf9, 0x02, 0x7f, 0x50, 0x3c, 0x9f, 0xa8,
   0x51, 0xa3, 0x40, 0x8f, 0x92, 0x9d, 0x38, 0xf5, 0xbc, 0xb6, 0xda, 0x21, 0x10, 0xff, 0xf3, 0xd2,
   0xcd, 0x0c, 0x13, 0xec, 0x5f, 0x97, 0x44, 0x17, 0xc4, 0xa7, 0x7e, 0x3d, 0x64, 0x5d, 0x19, 0x73,
   0x60, 0x81, 0x4f, 0xdc, 0x22, 0x2a, 0x90, 0x88, 0x46, 0xee, 0xb8, 0x14, 0xde, 0x5e, 0x0b, 0xdb,
   0xe0, 0x32, 0x3a, 0x0a, 0x49, 0x06, 0x24, 0x5c, 0xc2, 0xd3, 0xac, 0x62, 0x91, 0x95, 0xe4, 0x79,
   0xe7, 0xc8, 0x37, 0x6d, 0x8d, 0xd5, 0x4e, 0xa9, 0x6c, 0x56, 0xf4, 0xea, 0x65, 0x7a, 0xae, 0x08,
   0xba, 0x78, 0x25, 0x2e, 0x1c, 0xa6, 0xb4, 0xc6, 0xe8, 0xdd, 0x74, 0x1f, 0x4b, 0xbd, 0x8b, 0x8a,
   0x70, 0x3e, 0xb5, 0x66, 0x48, 0x03, 0xf6, 0x0e, 0x61, 0x35, 0x57, 0xb9, 0x86, 0xc1, 0x1d, 0x9e,
   0xe1, 0xf8, 0x98, 0x11, 0x69, 0xd9, 0x8e, 0x94, 0x9b, 0x1e, 0x87, 0xe9, 0xce, 0x55, 0x28, 0xdf,
   0x8c, 0xa1, 0x89, 0x0d, 0xbf, 0xe6, 0x42, 0x68, 0x41, 0x99, 0x2d, 0x0f, 0xb0, 0x54, 0xbb, 0x16]"

definition SQ :: "u8 list" where
  "SQ = [
   0x25, 0x24, 0x73, 0x67, 0xd7, 0xae, 0x5c, 0x30, 0xa4, 0xee, 0x6e, 0xcb, 0x7d, 0xb5, 0x82, 0xdb,
   0xe4, 0x8e, 0x48, 0x49, 0x4f, 0x5d, 0x6a, 0x78, 0x70, 0x88, 0xe8, 0x5f, 0x5e, 0x84, 0x65, 0xe2,
   0xd8, 0xe9, 0xcc, 0xed, 0x40, 0x2f, 0x11, 0x28, 0x57, 0xd2, 0xac, 0xe3, 0x4a, 0x15, 0x1b, 0xb9,
   0xb2, 0x80, 0x85, 0xa6, 0x2e, 0x02, 0x47, 0x29, 0x07, 0x4b, 0x0e, 0xc1, 0x51, 0xaa, 0x89, 0xd4,
   0xca, 0x01, 0x46, 0xb3, 0xef, 0xdd, 0x44, 0x7b, 0xc2, 0x7f, 0xbe, 0xc3, 0x9f, 0x20, 0x4c, 0x64,
   0x83, 0xa2, 0x68, 0x42, 0x13, 0xb4, 0x41, 0xcd, 0xba, 0xc6, 0xbb, 0x6d, 0x4d, 0x71, 0x21, 0xf4,
   0x8d, 0xb0, 0xe5, 0x93, 0xfe, 0x8f, 0xe6, 0xcf, 0x43, 0x45, 0x31, 0x22, 0x37, 0x36, 0x96, 0xfa,
   0xbc, 0x0f, 0x08, 0x52, 0x1d, 0x55, 0x1a, 0xc5, 0x4e, 0x23, 0x69, 0x7a, 0x92, 0xff, 0x5b, 0x5a,
   0xeb, 0x9a, 0x1c, 0xa9, 0xd1, 0x7e, 0x0d, 0xfc, 0x50, 0x8a, 0xb6, 0x62, 0xf5, 0x0a, 0xf8, 0xdc,
   0x03, 0x3c, 0x0c, 0x39, 0xf1, 0xb8, 0xf3, 0x3d, 0xf2, 0xd5, 0x97, 0x66, 0x81, 0x32, 0xa0, 0x00,
   0x06, 0xce, 0xf6, 0xea, 0xb7, 0x17, 0xf7, 0x8c, 0x79, 0xd6, 0xa7, 0xbf, 0x8b, 0x3f, 0x1f, 0x53,
   0x63, 0x75, 0x35, 0x2c, 0x60, 0xfd, 0x27, 0xd3, 0x94, 0xa5, 0x7c, 0xa1, 0x05, 0x58, 0x2d, 0xbd,
   0xd9, 0xc7, 0xaf, 0x6b, 0x54, 0x0b, 0xe0, 0x38, 0x04, 0xc8, 0x9d, 0xe7, 0x14, 0xb1, 0x87, 0x9c,
   0xdf, 0x6f, 0xf9, 0xda, 0x2a, 0xc4, 0x59, 0x16, 0x74, 0x91, 0xab, 0x26, 0x61, 0x76, 0x34, 0x2b,
   0xad, 0x99, 0xfb, 0x72, 0xec, 0x33, 0x12, 0xde, 0x98, 0x3b, 0xc0, 0x9b, 0x3e, 0x18, 0x10, 0x3a,
   0x56, 0xe1, 0x77, 0xc9, 0x1e, 0x9e, 0x95, 0xa3, 0x90, 0x19, 0xa8, 0x6c, 0x09, 0xd0, 0xf0, 0x86]"

section \<open>Field arithmetic\<close>

definition MULx :: "u8 \<Rightarrow> u8 \<Rightarrow> u8" where
  "MULx V c = (if V AND 0x80 \<noteq> 0 then push_bit 1 V XOR c else push_bit 1 V)"

function MULxPOW :: "u8 \<Rightarrow> u8 \<Rightarrow> u8 \<Rightarrow> u8" where
  "MULxPOW V i c = (if i = 0 then V else MULx (MULxPOW V (i - 1) c) c)"
  by pat_completeness auto
termination
  by (relation "measure (\<lambda>(V, i, c). unat i)") (auto simp: measure_unat)

declare MULxPOW.simps [simp del]

definition MULalpha :: "u8 \<Rightarrow> u32" where
  "MULalpha c = be32 (MULxPOW c 23 0xa9) (MULxPOW c 245 0xa9) (MULxPOW c 48 0xa9) (MULxPOW c 239 0xa9)"

definition DIValpha :: "u8 \<Rightarrow> u32" where
  "DIValpha c = be32 (MULxPOW c 16 0xa9) (MULxPOW c 39 0xa9) (MULxPOW c 6 0xa9) (MULxPOW c 64 0xa9)"

section \<open>S-boxes\<close>

definition S1 :: "u32 \<Rightarrow> u32" where
  "S1 w =
    (let w0 = SR ! unat (octet_of 3 w); w1 = SR ! unat (octet_of 2 w);
         w2 = SR ! unat (octet_of 1 w); w3 = SR ! unat (octet_of 0 w);
         r0 = MULx w0 0x1b XOR w1 XOR w2 XOR (MULx w3 0x1b XOR w3);
         r1 = (MULx w0 0x1b XOR w0) XOR MULx w1 0x1b XOR w2 XOR w3;
         r2 = w0 XOR (MULx w1 0x1b XOR w1) XOR MULx w2 0x1b XOR w3;
         r3 = w0 XOR w1 XOR (MULx w2 0x1b XOR w2) XOR MULx w3 0x1b
     in be32 r0 r1 r2 r3)"

definition S2 :: "u32 \<Rightarrow> u32" where
  "S2 w =
    (let w0 = SQ ! unat (octet_of 3 w); w1 = SQ ! unat (octet_of 2 w);
         w2 = SQ ! unat (octet_of 1 w); w3 = SQ ! unat (octet_of 0 w);
         r0 = MULx w0 0x69 XOR w1 XOR w2 XOR (MULx w3 0x69 XOR w3);
         r1 = (MULx w0 0x69 XOR w0) XOR MULx w1 0x69 XOR w2 XOR w3;
         r2 = w0 XOR (MULx w1 0x69 XOR w1) XOR MULx w2 0x69 XOR w3;
         r3 = w0 XOR w1 XOR (MULx w2 0x69 XOR w2) XOR MULx w3 0x69
     in be32 r0 r1 r2 r3)"

section \<open>Clocking\<close>

text \<open>The feedback word of both modes of the shift register; initialisation adds the output \<open>F\<close>
  of the state machine to it.\<close>

definition ClockLFSRInitializationMode :: "u32 \<Rightarrow> snow3g \<Rightarrow> snow3g" where
  "ClockLFSRInitializationMode F s =
    (let v = (push_bit 8 (LFSR_S0 s) AND 0xffffff00) XOR
             MULalpha (ucast (drop_bit 24 (LFSR_S0 s) AND 0xff)) XOR
             LFSR_S2 s XOR
             (drop_bit 8 (LFSR_S11 s) AND 0x00ffffff) XOR
             DIValpha (ucast (LFSR_S11 s AND 0xff)) XOR
             F
     in s\<lparr>
        LFSR_S0 := LFSR_S1 s,
        LFSR_S1 := LFSR_S2 s,
        LFSR_S2 := LFSR_S3 s,
        LFSR_S3 := LFSR_S4 s,
        LFSR_S4 := LFSR_S5 s,
        LFSR_S5 := LFSR_S6 s,
        LFSR_S6 := LFSR_S7 s,
        LFSR_S7 := LFSR_S8 s,
        LFSR_S8 := LFSR_S9 s,
        LFSR_S9 := LFSR_S10 s,
        LFSR_S10 := LFSR_S11 s,
        LFSR_S11 := LFSR_S12 s,
        LFSR_S12 := LFSR_S13 s,
        LFSR_S13 := LFSR_S14 s,
        LFSR_S14 := LFSR_S15 s,
        LFSR_S15 := v\<rparr>)"

definition ClockLFSRKeyStreamMode :: "snow3g \<Rightarrow> snow3g" where
  "ClockLFSRKeyStreamMode s =
    (let v = (push_bit 8 (LFSR_S0 s) AND 0xffffff00) XOR
             MULalpha (ucast (drop_bit 24 (LFSR_S0 s) AND 0xff)) XOR
             LFSR_S2 s XOR
             (drop_bit 8 (LFSR_S11 s) AND 0x00ffffff) XOR
             DIValpha (ucast (LFSR_S11 s AND 0xff))
     in s\<lparr>
        LFSR_S0 := LFSR_S1 s,
        LFSR_S1 := LFSR_S2 s,
        LFSR_S2 := LFSR_S3 s,
        LFSR_S3 := LFSR_S4 s,
        LFSR_S4 := LFSR_S5 s,
        LFSR_S5 := LFSR_S6 s,
        LFSR_S6 := LFSR_S7 s,
        LFSR_S7 := LFSR_S8 s,
        LFSR_S8 := LFSR_S9 s,
        LFSR_S9 := LFSR_S10 s,
        LFSR_S10 := LFSR_S11 s,
        LFSR_S11 := LFSR_S12 s,
        LFSR_S12 := LFSR_S13 s,
        LFSR_S13 := LFSR_S14 s,
        LFSR_S14 := LFSR_S15 s,
        LFSR_S15 := v\<rparr>)"

definition ClockFSM :: "snow3g \<Rightarrow> u32 \<times> snow3g" where
  "ClockFSM s =
    (let F = ((LFSR_S15 s + FSM_R1 s) AND 0xffffffff) XOR FSM_R2 s;
         r = (FSM_R2 s + (FSM_R3 s XOR LFSR_S5 s)) AND 0xffffffff
     in (F, s\<lparr>FSM_R3 := S2 (FSM_R2 s), FSM_R2 := S1 (FSM_R1 s), FSM_R1 := r\<rparr>))"

section \<open>Initialisation and keystream\<close>

text \<open>The key and the initialisation vector are arrays of four words, the index as in C.\<close>

definition snow_3g_load :: "(nat \<Rightarrow> u32) \<Rightarrow> (nat \<Rightarrow> u32) \<Rightarrow> snow3g" where
  "snow_3g_load k IV = \<lparr>
     LFSR_S0 = k 0 XOR 0xffffffff,
     LFSR_S1 = k 1 XOR 0xffffffff,
     LFSR_S2 = k 2 XOR 0xffffffff,
     LFSR_S3 = k 3 XOR 0xffffffff,
     LFSR_S4 = k 0,
     LFSR_S5 = k 1,
     LFSR_S6 = k 2,
     LFSR_S7 = k 3,
     LFSR_S8 = k 0 XOR 0xffffffff,
     LFSR_S9 = k 1 XOR 0xffffffff XOR IV 3,
     LFSR_S10 = k 2 XOR 0xffffffff XOR IV 2,
     LFSR_S11 = k 3 XOR 0xffffffff,
     LFSR_S12 = k 0 XOR IV 1,
     LFSR_S13 = k 1,
     LFSR_S14 = k 2,
     LFSR_S15 = k 3 XOR IV 0,
     FSM_R1 = 0, FSM_R2 = 0, FSM_R3 = 0\<rparr>"

fun init_rounds :: "nat \<Rightarrow> snow3g \<Rightarrow> snow3g" where
  "init_rounds 0 s = s"
| "init_rounds (Suc i) s = (let (F, s') = ClockFSM s in init_rounds i (ClockLFSRInitializationMode F s'))"

definition snow_3g_initialize :: "(nat \<Rightarrow> u32) \<Rightarrow> (nat \<Rightarrow> u32) \<Rightarrow> snow3g" where
  "snow_3g_initialize k IV = init_rounds 32 (snow_3g_load k IV)"

fun key_stream_loop :: "nat \<Rightarrow> snow3g \<Rightarrow> u32 list \<times> snow3g" where
  "key_stream_loop 0 s = ([], s)"
| "key_stream_loop (Suc n) s =
    (let (F, s1) = ClockFSM s;
         z = F XOR LFSR_S0 s1;
         (zs, s2) = key_stream_loop n (ClockLFSRKeyStreamMode s1)
     in (z # zs, s2))"

definition snow_3g_generate_key_stream :: "u32 \<Rightarrow> snow3g \<Rightarrow> u32 list \<times> snow3g" where
  "snow_3g_generate_key_stream n s = key_stream_loop (unat n) (ClockLFSRKeyStreamMode (snd (ClockFSM s)))"

section \<open>Field arithmetic: the register of the field\<close>

lemma and_0x80: "V AND 0x80 \<noteq> 0 \<longleftrightarrow> bit V 7" for V :: u8
  using and_exp_eq_0_iff_not_bit [of V 7] by simp

lemma MULx_xor: "MULx (a XOR b) c = MULx a c XOR MULx b c"
  unfolding MULx_def and_0x80
  by (rule bit_word_eqI) (auto simp: bit_simps)

text \<open>Multiplication by 2 modulo the polynomial \<^verbatim>\<open>c\<close> is a shift register for every \<^verbatim>\<open>c\<close>.\<close>

interpretation gf8: shift_register "\<lambda>v. MULx v c" for c :: u8
proof unfold_locales
  show "MULx (a XOR b) c = MULx a c XOR MULx b c" for a b by (rule MULx_xor)
  show "MULx (2 ^ n) c = 2 ^ Suc n" if "Suc n < LENGTH(8)" for n
  proof -
    have "\<not> bit (2 ^ n :: u8) 7" using that by (simp add: bit_simps)
    then show ?thesis by (simp add: MULx_def and_0x80 push_bit_eq_mult)
  qed
qed

abbreviation MULx_pow :: "nat \<Rightarrow> u8 \<Rightarrow> u8 \<Rightarrow> u8" where
  "MULx_pow n c V \<equiv> ((\<lambda>v. MULx v c) ^^ n) V"

lemma MULxPOW_eq: "MULxPOW V i c = MULx_pow (unat i) c V"
proof (induction V i c rule: MULxPOW.induct)
  case (1 V i c)
  show ?case
  proof (cases "i = 0")
    case True
    then show ?thesis by (subst MULxPOW.simps) simp
  next
    case False
    then have u: "unat i = Suc (unat (i - 1))"
      using unat_minus_one [of i] unat_eq_0 [of i] by simp
    from False 1 show ?thesis
      by (subst MULxPOW.simps) (simp add: u)
  qed
qed

lemma MULx_eval:
  "MULx (numeral v) c = (if numeral v AND (0x80 :: u8) \<noteq> 0 then push_bit 1 (numeral v) XOR c else push_bit 1 (numeral v))"
  "MULx 1 c = 2"
  by (simp_all add: MULx_def)

text \<open>Multiplication by 2 in the field of \<^verbatim>\<open>0xa9\<close> has period 255, so exponents count modulo 255.\<close>

lemma MULx_pow_period: "MULx_pow 255 0xa9 V = V"
  by (rule gf8.period_from_one) (simp add: gf8.iterate_numeral MULx_eval)

lemma MULx_pow_mod: "MULx_pow (255 + n) 0xa9 V = MULx_pow n 0xa9 V"
  using gf8.iterate_add [of 255 "0xa9" n V] by (simp add: MULx_pow_period)

section \<open>Multiplication and division by alpha\<close>

lemma mask_high24: "(0xffffff00 :: u32) = push_bit 8 (mask 24)"
  by (simp add: mask_eq_exp_minus_1)

lemma mask_low24: "(0x00ffffff :: u32) = mask 24" and mask_low8: "(0xff :: u32) = mask 8"
  by (simp_all add: mask_eq_exp_minus_1)

lemma shift_left_be32: "push_bit 8 (be32 a b c d) AND 0xffffff00 = be32 b c d 0"
  unfolding mask_high24 by (rule bit_word_eqI) (auto simp: bit_simps)

lemma shift_right_be32: "drop_bit 8 (be32 a b c d) AND 0x00ffffff = be32 0 a b c"
  unfolding mask_low24 by (rule bit_word_eqI) (auto simp: bit_simps dest: bit_imp_le_length)

lemma high_octet: "ucast (drop_bit 24 w AND 0xff) = octet_of 3 w" for w :: u32
  unfolding mask_low8 by (rule bit_word_eqI) (auto simp: bit_simps)

lemma low_octet: "ucast (w AND 0xff) = octet_of 0 w" for w :: u32
  unfolding mask_low8 by (rule bit_word_eqI) (auto simp: bit_simps)

definition times_alpha :: "u32 \<Rightarrow> u32" where
  "times_alpha w = (push_bit 8 w AND 0xffffff00) XOR MULalpha (ucast (drop_bit 24 w AND 0xff))"

definition over_alpha :: "u32 \<Rightarrow> u32" where
  "over_alpha w = (drop_bit 8 w AND 0x00ffffff) XOR DIValpha (ucast (w AND 0xff))"

lemma times_alpha_be32:
  "times_alpha (be32 a b c d) = be32 (b XOR MULx_pow 23 0xa9 a) (c XOR MULx_pow 245 0xa9 a)
     (d XOR MULx_pow 48 0xa9 a) (MULx_pow 239 0xa9 a)"
  by (simp only: times_alpha_def shift_left_be32 high_octet octet_of_be32 MULalpha_def be32_xor
      MULxPOW_eq) simp

lemma over_alpha_be32:
  "over_alpha (be32 a b c d) = be32 (MULx_pow 16 0xa9 d) (a XOR MULx_pow 39 0xa9 d)
     (b XOR MULx_pow 6 0xa9 d) (c XOR MULx_pow 64 0xa9 d)"
  by (simp only: over_alpha_def shift_right_be32 low_octet octet_of_be32 DIValpha_def be32_xor
      MULxPOW_eq) simp

lemma MULx_pow_reduce:
  "MULx_pow 255 0xa9 V = V" "MULx_pow 278 0xa9 V = MULx_pow 23 0xa9 V"
  "MULx_pow 303 0xa9 V = MULx_pow 48 0xa9 V" "MULx_pow 261 0xa9 V = MULx_pow 6 0xa9 V"
  using MULx_pow_mod [of 0 V] MULx_pow_mod [of 23 V] MULx_pow_mod [of 48 V] MULx_pow_mod [of 6 V]
  by simp_all

lemma over_times_alpha: "over_alpha (times_alpha w) = w"
proof -
  have "over_alpha (times_alpha (be32 a b c d)) = be32 a b c d" for a b c d
    by (simp add: times_alpha_be32 over_alpha_be32 gf8.iterate_add MULx_pow_reduce xor.assoc)
  from this [of "octet_of 3 w" "octet_of 2 w" "octet_of 1 w" "octet_of 0 w"] show ?thesis
    by (simp only: be32_of_octets)
qed

lemma times_over_alpha: "times_alpha (over_alpha w) = w"
proof -
  have "times_alpha (over_alpha (be32 a b c d)) = be32 a b c d" for a b c d
    by (simp add: times_alpha_be32 over_alpha_be32 gf8.iterate_add MULx_pow_reduce xor.assoc)
  from this [of "octet_of 3 w" "octet_of 2 w" "octet_of 1 w" "octet_of 0 w"] show ?thesis
    by (simp only: be32_of_octets)
qed

lemma inj_times_alpha: "times_alpha v = times_alpha w \<longleftrightarrow> v = w"
  by (metis over_times_alpha)

section \<open>The S-boxes are injective\<close>

lemma length_SR: "length SR = 256" and length_SQ: "length SQ = 256"
  by (simp_all add: SR_def SQ_def)

lemma sort_SR: "sort (map uint SR) = [0..255]"
  by code_simp

lemma sort_SQ: "sort (map uint SQ) = [0..255]"
  by code_simp

lemma distinct_SR: "distinct SR" and distinct_SQ: "distinct SQ"
  by (metis distinct_map distinct_sort distinct_upto sort_SR)
    (metis distinct_map distinct_sort distinct_upto sort_SQ)

lemma SR_inject: "SR ! unat v = SR ! unat w \<longleftrightarrow> v = w" for v w :: u8
  by (simp add: unat_u8 nth_eq_iff_index_eq distinct_SR length_SR flip: word_unat_eq_iff)

lemma SQ_inject: "SQ ! unat v = SQ ! unat w \<longleftrightarrow> v = w" for v w :: u8
  by (simp add: unat_u8 nth_eq_iff_index_eq distinct_SQ length_SQ flip: word_unat_eq_iff)

definition mix :: "u8 \<Rightarrow> u8 \<times> u8 \<times> u8 \<times> u8 \<Rightarrow> u8 \<times> u8 \<times> u8 \<times> u8" where
  "mix c = (\<lambda>(w0, w1, w2, w3).
     (MULx w0 c XOR w1 XOR w2 XOR (MULx w3 c XOR w3),
      (MULx w0 c XOR w0) XOR MULx w1 c XOR w2 XOR w3,
      w0 XOR (MULx w1 c XOR w1) XOR MULx w2 c XOR w3,
      w0 XOR w1 XOR (MULx w2 c XOR w2) XOR MULx w3 c))"

lemma mix_mix: "mix c (mix c (w0, w1, w2, w3)) =
   (MULx (MULx (w0 XOR w2) c) c XOR w0, MULx (MULx (w1 XOR w3) c) c XOR w1,
    MULx (MULx (w0 XOR w2) c) c XOR w2, MULx (MULx (w1 XOR w3) c) c XOR w3)"
  by (simp add: mix_def MULx_xor xor.assoc xor.commute xor.left_commute)

lemma mix_order_4: "mix c (mix c (mix c (mix c w))) = w"
  by (cases w) (simp add: mix_mix MULx_xor xor.assoc xor.commute xor.left_commute)

lemma inj_mix: "mix c v = mix c w \<longleftrightarrow> v = w"
  by (metis mix_order_4)

lemma S1_eq: "S1 w = (case mix 0x1b (SR ! unat (octet_of 3 w), SR ! unat (octet_of 2 w),
    SR ! unat (octet_of 1 w), SR ! unat (octet_of 0 w)) of (a, b, c, d) \<Rightarrow> be32 a b c d)"
  by (simp add: S1_def mix_def Let_def)

lemma S2_eq: "S2 w = (case mix 0x69 (SQ ! unat (octet_of 3 w), SQ ! unat (octet_of 2 w),
    SQ ! unat (octet_of 1 w), SQ ! unat (octet_of 0 w)) of (a, b, c, d) \<Rightarrow> be32 a b c d)"
  by (simp add: S2_def mix_def Let_def)

lemma S1_inject: "S1 v = S1 w \<longleftrightarrow> v = w"
proof
  assume "S1 v = S1 w"
  then have "mix 0x1b (SR ! unat (octet_of 3 v), SR ! unat (octet_of 2 v), SR ! unat (octet_of 1 v),
      SR ! unat (octet_of 0 v)) = mix 0x1b (SR ! unat (octet_of 3 w), SR ! unat (octet_of 2 w),
      SR ! unat (octet_of 1 w), SR ! unat (octet_of 0 w))"
    by (simp add: S1_eq be32_inject split: prod.splits)
  then show "v = w" by (simp only: inj_mix prod.inject SR_inject octets_eqI)
qed simp

lemma S2_inject: "S2 v = S2 w \<longleftrightarrow> v = w"
proof
  assume "S2 v = S2 w"
  then have "mix 0x69 (SQ ! unat (octet_of 3 v), SQ ! unat (octet_of 2 v), SQ ! unat (octet_of 1 v),
      SQ ! unat (octet_of 0 v)) = mix 0x69 (SQ ! unat (octet_of 3 w), SQ ! unat (octet_of 2 w),
      SQ ! unat (octet_of 1 w), SQ ! unat (octet_of 0 w))"
    by (simp add: S2_eq be32_inject split: prod.splits)
  then show "v = w" by (simp only: inj_mix prod.inject SQ_inject octets_eqI)
qed simp

section \<open>The state is never lost\<close>

lemma feedback_eq:
  "(push_bit 8 a AND 0xffffff00) XOR MULalpha (ucast (drop_bit 24 a AND 0xff)) XOR b XOR
     (drop_bit 8 c AND 0x00ffffff) XOR DIValpha (ucast (c AND 0xff))
   = times_alpha a XOR b XOR over_alpha c"
  by (simp add: times_alpha_def over_alpha_def xor.assoc)

lemma feedback_eq_F:
  "(push_bit 8 a AND 0xffffff00) XOR MULalpha (ucast (drop_bit 24 a AND 0xff)) XOR b XOR
     (drop_bit 8 c AND 0x00ffffff) XOR DIValpha (ucast (c AND 0xff)) XOR F
   = times_alpha a XOR b XOR over_alpha c XOR F"
  by (simp add: times_alpha_def over_alpha_def xor.assoc)

lemma ClockFSM_inject: "ClockFSM s = ClockFSM t \<longleftrightarrow> s = t"
  by (cases s, cases t) (auto simp: ClockFSM_def Let_def S1_inject S2_inject)

lemma ClockLFSRKeyStreamMode_inject:
  "ClockLFSRKeyStreamMode s = ClockLFSRKeyStreamMode t \<longleftrightarrow> s = t"
  by (cases s, cases t) (auto simp: ClockLFSRKeyStreamMode_def Let_def feedback_eq feedback_eq_F inj_times_alpha xor.assoc)

lemma ClockLFSRInitializationMode_inject:
  "ClockLFSRInitializationMode F s = ClockLFSRInitializationMode F t \<longleftrightarrow> s = t"
  by (cases s, cases t) (auto simp: ClockLFSRInitializationMode_def Let_def feedback_eq feedback_eq_F inj_times_alpha xor.assoc)

text \<open>One round of initialisation: the output word of the state machine is a function of the state
  after the round, so the round can be undone.\<close>

lemma init_round_inject:
  "(case ClockFSM s of (F, s') \<Rightarrow> ClockLFSRInitializationMode F s') =
   (case ClockFSM t of (F, t') \<Rightarrow> ClockLFSRInitializationMode F t') \<longleftrightarrow> s = t"
  by (cases s, cases t) (auto simp: ClockFSM_def ClockLFSRInitializationMode_def Let_def
      feedback_eq_F inj_times_alpha S1_inject S2_inject)

lemma init_rounds_inject: "init_rounds n s = init_rounds n t \<longleftrightarrow> s = t"
proof (induction n arbitrary: s t)
  case (Suc n)
  then show ?case by (simp add: case_prod_beta' Let_def flip: init_round_inject [of s t])
qed simp

lemma snow_3g_load_inject:
  "snow_3g_load k IV = snow_3g_load k' IV' \<longleftrightarrow>
   (k 0 = k' 0 \<and> k 1 = k' 1 \<and> k 2 = k' 2 \<and> k 3 = k' 3) \<and>
   (IV 0 = IV' 0 \<and> IV 1 = IV' 1 \<and> IV 2 = IV' 2 \<and> IV 3 = IV' 3)"
  by (auto simp: snow_3g_load_def)

section \<open>Keystream\<close>

lemma length_key_stream_loop [simp]: "length (fst (key_stream_loop n s)) = n"
  by (induction n arbitrary: s) (simp_all add: case_prod_beta' Let_def)

lemma take_key_stream_loop:
  "m \<le> n \<Longrightarrow> take m (fst (key_stream_loop n s)) = fst (key_stream_loop m s)"
proof (induction m arbitrary: n s)
  case (Suc m)
  then obtain n' where "n = Suc n'" by (cases n) auto
  with Suc show ?case by (simp add: case_prod_beta' Let_def)
qed simp

lemma length_key_stream: "length (fst (snow_3g_generate_key_stream n s)) = unat n"
  by (simp add: snow_3g_generate_key_stream_def)

lemma take_key_stream:
  "m \<le> n \<Longrightarrow> take (unat m) (fst (snow_3g_generate_key_stream n s)) = fst (snow_3g_generate_key_stream m s)"
  by (simp add: snow_3g_generate_key_stream_def take_key_stream_loop word_le_nat_alt)

section \<open>Properties\<close>

text \<open>
  The feedback of the shift register multiplies the word leaving stage 0 by alpha and divides
  the word in stage 11 by alpha, alpha being a root of the quartic over the field of 256 elements:
  the two operations, as the shifts and the tables \<^verbatim>\<open>MULalpha\<close> and \<^verbatim>\<open>DIValpha\<close> of the code compute
  them, undo each other on every word.
\<close>

theorem MULalpha_DIValpha_inverse:
  "(let x = (push_bit 8 w AND 0xffffff00) XOR MULalpha (ucast (drop_bit 24 w AND 0xff))
    in (drop_bit 8 x AND 0x00ffffff) XOR DIValpha (ucast (x AND 0xff))) = w \<and>
   (let y = (drop_bit 8 w AND 0x00ffffff) XOR DIValpha (ucast (w AND 0xff))
    in (push_bit 8 y AND 0xffffff00) XOR MULalpha (ucast (drop_bit 24 y AND 0xff))) = w"
  using over_times_alpha [of w] times_over_alpha [of w]
  by (simp add: Let_def times_alpha_def over_alpha_def)

text \<open>
  C39. Initialisation loses nothing of the key and the initialisation vector: two pairs lead to the
  same internal state after the 32 rounds exactly when they are the same key and the same vector.
\<close>

theorem snow_3g_initialize_injective:
  "snow_3g_initialize k IV = snow_3g_initialize k' IV' \<longleftrightarrow>
   (k 0 = k' 0 \<and> k 1 = k' 1 \<and> k 2 = k' 2 \<and> k 3 = k' 3) \<and>
   (IV 0 = IV' 0 \<and> IV 1 = IV' 1 \<and> IV 2 = IV' 2 \<and> IV 3 = IV' 3)"
  by (simp only: snow_3g_initialize_def init_rounds_inject snow_3g_load_inject)

end
