(* ===== verification/Snow3G_F8F9.thy ===== *)
theory Snow3G_F8F9
  imports Snow3G
begin

text \<open>
  Confidentiality (f8, UEA2) and integrity (f9, UIA2) on top of SNOW 3G: the second half of
  \<^verbatim>\<open>library/snow_3g/snow-3g.c\<close>, and the two external functions of
  \<^verbatim>\<open>library/snow_3g/Snow3G_FunctionDefs.cc\<close> that TTCN-3 calls. Octet strings are lists; reading or
  writing past the end of one is the failure \<^const>\<open>OutOfBounds\<close>.
\<close>

unbundle bit_operations_syntax

section \<open>Reading octets\<close>

definition octet_at :: "octets \<Rightarrow> nat \<Rightarrow> u8 result" where
  "octet_at xs i = (if i < length xs then Inr (xs ! i) else Inl OutOfBounds)"

text \<open>The four key words; the shifts are disjoint, so the exclusive or of the code is \<^const>\<open>be32\<close>.\<close>

definition key_words :: "octets \<Rightarrow> nat \<Rightarrow> u32" where
  "key_words key j =
    (let i = 3 - j in be32 (key ! (4 * i)) (key ! (4 * i + 1)) (key ! (4 * i + 2)) (key ! (4 * i + 3)))"

section \<open>f8\<close>

definition f8_IV :: "u32 \<Rightarrow> u32 \<Rightarrow> u32 \<Rightarrow> nat \<Rightarrow> u32" where
  "f8_IV count bearer dir j =
    (if j = 3 \<or> j = 1 then count else push_bit 27 bearer OR push_bit 26 (dir AND 0x1))"

fun f8_loop :: "u32 list \<Rightarrow> octets \<Rightarrow> octets result" where
  "f8_loop [] data = Inr data"
| "f8_loop (k # ks) (a # b # c # d # data) =
     map_result (\<lambda>r. (a XOR octet_of 3 k) # (b XOR octet_of 2 k) # (c XOR octet_of 1 k) # (d XOR octet_of 0 k) # r)
       (f8_loop ks data)"
| "f8_loop (k # ks) data = Inl OutOfBounds"

definition f8_mask :: "u32 \<Rightarrow> octets \<Rightarrow> octets result" where
  "f8_mask len data =
    (let lastbits = (8 - unat (len mod 8)) mod 8; i = unat (len div 8)
     in if lastbits \<noteq> 0
        then if i < length data
             then Inr (data[i := data ! i AND word_of_int (256 - push_bit lastbits 1)])
             else Inl OutOfBounds
        else Inr data)"

definition snow_3g_f8 :: "octets \<Rightarrow> u32 \<Rightarrow> u32 \<Rightarrow> u32 \<Rightarrow> octets \<Rightarrow> u32 \<Rightarrow> octets result" where
  "snow_3g_f8 key count bearer dir data len =
    (let n = (len + 31) div 32 in
     if length key < 16 then Inl OutOfBounds
     else let KS = fst (snow_3g_generate_key_stream n (snow_3g_initialize (key_words key) (f8_IV count bearer dir)))
          in bind_result (f8_loop KS data) (f8_mask len))"

section \<open>f9\<close>

definition MUL64x :: "u64 \<Rightarrow> u64 \<Rightarrow> u64" where
  "MUL64x V c = (if V AND 0x8000000000000000 \<noteq> 0 then push_bit 1 V XOR c else push_bit 1 V)"

function MUL64xPOW :: "u64 \<Rightarrow> u8 \<Rightarrow> u64 \<Rightarrow> u64" where
  "MUL64xPOW V i c = (if i = 0 then V else MUL64x (MUL64xPOW V (i - 1) c) c)"
  by pat_completeness auto
termination
  by (relation "measure (\<lambda>(V, i, c). unat i)") (auto simp: measure_unat)

declare MUL64xPOW.simps [simp del]

fun MUL64_loop :: "nat \<Rightarrow> nat \<Rightarrow> u64 \<Rightarrow> u64 \<Rightarrow> u64 \<Rightarrow> u64 \<Rightarrow> u64" where
  "MUL64_loop i 0 V P c r = r"
| "MUL64_loop i (Suc m) V P c r =
     MUL64_loop (i + 1) m V P c (if drop_bit i P AND 0x1 \<noteq> 0 then r XOR MUL64xPOW V (of_nat i) c else r)"

definition MUL64 :: "u64 \<Rightarrow> u64 \<Rightarrow> u64 \<Rightarrow> u64" where
  "MUL64 V P c = MUL64_loop 0 64 V P c 0"

definition mask8bit :: "nat \<Rightarrow> u8" where
  "mask8bit n = 0xFF XOR (push_bit (8 - n) 1 - 1)"

definition f9_IV :: "u32 \<Rightarrow> u32 \<Rightarrow> u32 \<Rightarrow> nat \<Rightarrow> u32" where
  "f9_IV count fresh dir j =
    (if j = 3 then count else if j = 2 then fresh
     else if j = 1 then count XOR push_bit 31 dir else fresh XOR push_bit 15 dir)"

text \<open>
  The eight octets of a block, at the 32-bit index \<^verbatim>\<open>8*i\<close> of the code, and the first loop with its
  32-bit counter; its second argument counts the rounds that are left.
\<close>

definition f9_block :: "octets \<Rightarrow> u32 \<Rightarrow> u64 result" where
  "f9_block data b =
    bind_result (octet_at data (unat b)) (\<lambda>x0.
    bind_result (octet_at data (unat (b + 1))) (\<lambda>x1.
    bind_result (octet_at data (unat (b + 2))) (\<lambda>x2.
    bind_result (octet_at data (unat (b + 3))) (\<lambda>x3.
    bind_result (octet_at data (unat (b + 4))) (\<lambda>x4.
    bind_result (octet_at data (unat (b + 5))) (\<lambda>x5.
    bind_result (octet_at data (unat (b + 6))) (\<lambda>x6.
    bind_result (octet_at data (unat (b + 7))) (\<lambda>x7.
      Inr (push_bit 56 (ucast x0) OR push_bit 48 (ucast x1) OR push_bit 40 (ucast x2) OR
           push_bit 32 (ucast x3) OR push_bit 24 (ucast x4) OR push_bit 16 (ucast x5) OR
           push_bit 8 (ucast x6) OR ucast x7)))))))))"

fun f9_loop :: "u32 \<Rightarrow> nat \<Rightarrow> u64 \<Rightarrow> octets \<Rightarrow> u64 \<Rightarrow> u64 result" where
  "f9_loop i 0 P data EVAL = Inr EVAL"
| "f9_loop i (Suc m) P data EVAL =
     bind_result (f9_block data (8 * i)) (\<lambda>M. f9_loop (i + 1) m P data (MUL64 (EVAL XOR M) P 0x1b))"

fun f9_last :: "u32 \<Rightarrow> nat \<Rightarrow> nat \<Rightarrow> octets \<Rightarrow> u64 \<Rightarrow> u64 result" where
  "f9_last base i rem_bits data M =
    (if rem_bits > 7
     then bind_result (octet_at data (unat (base + of_nat i)))
            (\<lambda>x. f9_last base (i + 1) (rem_bits - 8) data (M OR push_bit (8 * (7 - i)) (ucast x)))
     else if rem_bits > 0
     then bind_result (octet_at data (unat (base + of_nat i)))
            (\<lambda>x. Inr (M OR push_bit (8 * (7 - i)) (ucast (x AND mask8bit rem_bits))))
     else Inr M)"

declare f9_last.simps [simp del]

definition snow_3g_f9 :: "octets \<Rightarrow> u32 \<Rightarrow> u32 \<Rightarrow> u32 \<Rightarrow> octets \<Rightarrow> u64 \<Rightarrow> octets result" where
  "snow_3g_f9 key count fresh dir data len =
    (if length key < 16 then Inl OutOfBounds
     else
       let z = fst (snow_3g_generate_key_stream 5 (snow_3g_initialize (key_words key) (f9_IV count fresh dir)));
           P = push_bit 32 (ucast (z ! 0)) OR ucast (z ! 1);
           Q = push_bit 32 (ucast (z ! 2)) OR ucast (z ! 3);
           D = ucast (if len mod 64 = 0 then drop_bit 6 len + 1 else drop_bit 6 len + 2) :: u32;
           rem_bits = (if len mod 64 = 0 then 64 else unat (len mod 64))
       in bind_result (f9_loop 0 (unat (D - 2)) P data 0) (\<lambda>EVAL.
          bind_result (f9_last (8 * (D - 2)) 0 rem_bits data 0) (\<lambda>M_D_2.
          let E1 = MUL64 (EVAL XOR M_D_2) P 0x1b;
              E2 = MUL64 (E1 XOR len) Q 0x1b
          in Inr (map (\<lambda>i. octet_of (7 - i) E2 XOR octet_of (3 - i) (z ! 4)) [0..<4]))))"

section \<open>The external functions\<close>

text \<open>
  \<^verbatim>\<open>to_int\<close> is the runtime's conversion of a TTCN-3 integer to a machine integer, which raises an
  error for values it cannot convert. f8 is handed the number of octets where it expects the number
  of bits, and so encrypts only an eighth of the data; f9 is handed the number of bits.
\<close>

definition snow_3g_f8_wrapper ::
  "(int \<Rightarrow> u32 result) \<Rightarrow> octets \<Rightarrow> int \<Rightarrow> int \<Rightarrow> bool \<Rightarrow> octets \<Rightarrow> octets result" where
  "snow_3g_f8_wrapper to_int key count bearer is_downlink data =
    bind_result (to_int count) (\<lambda>c. bind_result (to_int bearer) (\<lambda>b.
      snow_3g_f8 key c b (if is_downlink then 1 else 0) data (of_nat (length data))))"

definition snow_3g_f9_wrapper ::
  "(int \<Rightarrow> u32 result) \<Rightarrow> octets \<Rightarrow> int \<Rightarrow> int \<Rightarrow> bool \<Rightarrow> octets \<Rightarrow> octets result" where
  "snow_3g_f9_wrapper to_int key count fresh is_downlink data =
    bind_result (to_int count) (\<lambda>c. bind_result (to_int fresh) (\<lambda>f.
      snow_3g_f9 key c f (if is_downlink then 1 else 0) data (of_nat (length data) * 8)))"

section \<open>f8: lemmas\<close>

abbreviation keystream_octets :: "u32 list \<Rightarrow> octets" where
  "keystream_octets ks \<equiv> concat (map be32_octets ks)"

lemma length_keystream_octets [simp]: "length (keystream_octets ks) = 4 * length ks"
  by (induction ks) simp_all

text \<open>The keystream applied to the front of the data, and the clearing of the bits after the
  \<^verbatim>\<open>n\<close>-th in their octet.\<close>

definition xor_prefix :: "octets \<Rightarrow> octets \<Rightarrow> octets" where
  "xor_prefix ks data = xor_list (take (length ks) data) ks @ drop (length ks) data"

definition clear_after :: "nat \<Rightarrow> octets \<Rightarrow> octets" where
  "clear_after n data = (if n mod 8 = 0 then data
     else data[n div 8 := data ! (n div 8) AND word_of_int (256 - 2 ^ (8 - n mod 8))])"

lemma length_clear_after [simp]: "length (clear_after n data) = length data"
  by (simp add: clear_after_def)

lemma length_xor_prefix [simp]: "length ks \<le> length data \<Longrightarrow> length (xor_prefix ks data) = length data"
  by (simp add: xor_prefix_def)

lemma nth_xor_prefix:
  "length ks \<le> length data \<Longrightarrow> i < length data \<Longrightarrow>
   xor_prefix ks data ! i = data ! i XOR (if i < length ks then ks ! i else 0)"
  by (simp add: xor_prefix_def nth_append)

lemma nth_clear_after:
  "i < length data \<Longrightarrow> clear_after n data ! i =
   (if n mod 8 \<noteq> 0 \<and> i = n div 8 then data ! i AND word_of_int (256 - 2 ^ (8 - n mod 8)) else data ! i)"
  by (auto simp: clear_after_def nth_list_update)

lemma xor_and_xor: "((d XOR k) AND m XOR k) AND m = d AND m" for d :: "'a::len word"
  by (rule bit_word_eqI) (auto simp: bit_simps)

lemma clear_xor_twice:
  assumes "length ks \<le> length data"
  shows "clear_after n (xor_prefix ks (clear_after n (xor_prefix ks data))) = clear_after n data"
  using assms
  by (intro nth_equalityI) (auto simp: nth_clear_after nth_xor_prefix xor_and_xor xor.assoc)

lemma drop_xor_prefix: "length ks \<le> n \<Longrightarrow> length ks \<le> length data \<Longrightarrow> drop n (xor_prefix ks data) = drop n data"
  by (intro nth_equalityI) (auto simp: nth_xor_prefix)

lemma drop_clear_after: "m mod 8 = 0 \<or> m div 8 < n \<Longrightarrow> drop n (clear_after m data) = drop n data"
  by (auto simp: clear_after_def)

lemma take_keystream_octets: "keystream_octets (take n ks) = take (4 * n) (keystream_octets ks)"
proof (induction ks arbitrary: n)
  case (Cons k ks)
  then show ?case by (cases n) simp_all
qed simp

lemma xor_prefix_word:
  "xor_prefix (be32_octets k @ ks) (a # b # c # d # data) =
   (a XOR octet_of 3 k) # (b XOR octet_of 2 k) # (c XOR octet_of 1 k) # (d XOR octet_of 0 k) # xor_prefix ks data"
  by (simp add: xor_prefix_def be32_octets_def)

lemma f8_loop_eq:
  "f8_loop ks data =
    (if 4 * length ks \<le> length data then Inr (xor_prefix (keystream_octets ks) data) else Inl OutOfBounds)"
  by (induction ks data rule: f8_loop.induct) (simp_all add: xor_prefix_word, simp_all add: xor_prefix_def)

text \<open>The number of keystream words covers the octet with the last bits, unless the sum wraps.\<close>

lemma f8_words:
  fixes len :: u32
  assumes "unat len \<le> 2 ^ 32 - 32"
  shows "unat ((len + 31) div 32) = (unat len + 31) div 32"
proof -
  have "unat (len + 31) = unat len + 31"
    using assms by (simp add: unat_word_ariths)
  then show ?thesis by (simp add: unat_div_distrib)
qed

lemma last_octet_covered: "u mod 8 \<noteq> 0 \<Longrightarrow> u div 8 < 4 * ((u + 31) div 32)" for u :: nat
  using div_mult_mod_eq [of "u + 31" 32] mod_less_divisor [of 32 "u + 31"] div_mult_mod_eq [of u 8]
  by linarith

lemma front_octet_covered: "i < u div 8 \<Longrightarrow> i < 4 * ((u + 31) div 32)" for u :: nat
  using div_mult_mod_eq [of "u + 31" 32] mod_less_divisor [of 32 "u + 31"] div_mult_mod_eq [of u 8]
  by linarith

lemma f8_mask_total:
  fixes len :: u32
  assumes "4 * ((unat len + 31) div 32) \<le> length data"
  shows "f8_mask len data = Inr (clear_after (unat len) data)"
proof -
  have m: "unat (len mod 8) = unat len mod 8" "unat (len div 8) = unat len div 8"
    by (simp_all add: unat_mod_distrib unat_div_distrib)
  have l: "(8 - k) mod 8 = (if k = 0 then 0 else 8 - k)" if "k < 8" for k :: nat
    using that by auto
  have "unat len div 8 < length data" if "unat len mod 8 \<noteq> 0"
    using assms last_octet_covered [OF that] by (rule order.strict_trans2 [rotated])
  then show ?thesis
    by (auto simp: f8_mask_def Let_def m l push_bit_eq_mult clear_after_def)
qed

abbreviation f8_keystream :: "octets \<Rightarrow> u32 \<Rightarrow> u32 \<Rightarrow> u32 \<Rightarrow> u32 \<Rightarrow> octets" where
  "f8_keystream key count bearer dir len \<equiv> keystream_octets (fst (snow_3g_generate_key_stream
     ((len + 31) div 32) (snow_3g_initialize (key_words key) (f8_IV count bearer dir))))"

lemma snow_3g_f8_eq:
  assumes "16 \<le> length key" "unat len \<le> 2 ^ 32 - 32" "4 * ((unat len + 31) div 32) \<le> length data"
  shows "snow_3g_f8 key count bearer dir data len =
    Inr (clear_after (unat len) (xor_prefix (f8_keystream key count bearer dir len) data))"
  using assms
  by (simp add: snow_3g_f8_def Let_def f8_loop_eq length_key_stream f8_words f8_mask_total)

section \<open>f9: lemmas\<close>

lemma and_top64: "V AND 0x8000000000000000 \<noteq> 0 \<longleftrightarrow> bit V 63" for V :: u64
  using and_exp_eq_0_iff_not_bit [of V 63] by simp

interpretation gf64: shift_register "\<lambda>v. MUL64x v c" for c :: u64
proof unfold_locales
  show "MUL64x (a XOR b) c = MUL64x a c XOR MUL64x b c" for a b
    unfolding MUL64x_def and_top64
    by (rule bit_word_eqI) (auto simp: bit_simps)
  show "MUL64x (2 ^ n) c = 2 ^ Suc n" if "Suc n < LENGTH(64)" for n
  proof -
    have "\<not> bit (2 ^ n :: u64) 63" using that by (simp add: bit_simps)
    then show ?thesis by (simp add: MUL64x_def and_top64 push_bit_eq_mult)
  qed
qed

lemma MUL64xPOW_eq: "MUL64xPOW V i c = ((\<lambda>v. MUL64x v c) ^^ unat i) V"
proof (induction V i c rule: MUL64xPOW.induct)
  case (1 V i c)
  show ?case
  proof (cases "i = 0")
    case True
    then show ?thesis by (subst MUL64xPOW.simps) simp
  next
    case False
    then have u: "unat i = Suc (unat (i - 1))"
      using unat_minus_one [of i] unat_eq_0 [of i] by simp
    from False 1 show ?thesis
      by (subst MUL64xPOW.simps) (simp add: u)
  qed
qed

lemma MUL64_loop_eq:
  "i + m \<le> 64 \<Longrightarrow> r = xor_upto i (\<lambda>i. if bit P i then ((\<lambda>v. MUL64x v c) ^^ i) V else 0) \<Longrightarrow>
   MUL64_loop i m V P c r = xor_upto (i + m) (\<lambda>i. if bit P i then ((\<lambda>v. MUL64x v c) ^^ i) V else 0)"
proof (induction i m V P c r rule: MUL64_loop.induct)
  case (2 i m V P c r)
  let ?g = "\<lambda>i. if bit P i then ((\<lambda>v. MUL64x v c) ^^ i) V else 0"
  have "(if drop_bit i P AND 0x1 \<noteq> 0 then r XOR MUL64xPOW V (of_nat i) c else r) = xor_upto (i + 1) ?g"
    using 2(2,3) by (simp add: and_1_bit MUL64xPOW_eq unat_of_nat)
  with 2(1,2) show ?case by simp
qed simp

lemma MUL64_eq: "MUL64 V P c = register_product (\<lambda>v. MUL64x v c) V P"
  by (simp add: MUL64_def register_product_def MUL64_loop_eq)

lemma MUL64_comm: "MUL64 V P c = MUL64 P V c"
  unfolding MUL64_eq by (rule gf64.product_comm)

lemma MUL64_assoc: "MUL64 (MUL64 U V c) P c = MUL64 U (MUL64 V P c) c"
  unfolding MUL64_eq by (rule gf64.product_assoc)

lemma MUL64_xor: "MUL64 (a XOR b) P c = MUL64 a P c XOR MUL64 b P c"
  unfolding MUL64_eq by (rule gf64.product_xor_left)

section \<open>The specification\<close>

definition uia2_padded :: "octets \<Rightarrow> nat \<Rightarrow> octets" where
  "uia2_padded data len = take (len div 8) data @
     (if len mod 8 = 0 then [] else [data ! (len div 8) AND mask8bit (len mod 8)])"

definition be64_from :: "nat \<Rightarrow> (nat \<Rightarrow> u8) \<Rightarrow> u64" where
  "be64_from i g = foldr (\<lambda>k a. push_bit (8 * (7 - k)) (ucast (g k)) OR a) [i..<8] 0"

abbreviation be64 :: "(nat \<Rightarrow> u8) \<Rightarrow> u64" where
  "be64 g \<equiv> be64_from 0 g"

definition uia2_block :: "octets \<Rightarrow> nat \<Rightarrow> u64" where
  "uia2_block xs j = be64 (\<lambda>k. if 8 * j + k < length xs then xs ! (8 * j + k) else 0)"

definition uia2_eval :: "u64 \<Rightarrow> octets \<Rightarrow> nat \<Rightarrow> u64" where
  "uia2_eval P xs m = foldl (\<lambda>E j. MUL64 (E XOR uia2_block xs j) P 0x1b) 0 [0..<m]"

definition uia2_mac :: "(nat \<Rightarrow> u32) \<Rightarrow> octets \<Rightarrow> nat \<Rightarrow> octets" where
  "uia2_mac z data len =
    (let P = push_bit 32 (ucast (z 0)) OR ucast (z 1);
         Q = push_bit 32 (ucast (z 2)) OR ucast (z 3);
         E = uia2_eval P (uia2_padded data len) ((len + 63) div 64);
         M = drop_bit 32 (MUL64 (E XOR of_nat len) Q 0x1b)
     in be32_octets (ucast M XOR z 4))"

lemma upt_8: "[0..<8] = [0, 1, 2, 3, 4, 5, 6, 7 :: nat]"
  by (simp add: upt_rec)

lemma f9_block_eq:
  assumes "unat b + 7 < length data" "unat b + 7 < 2 ^ 32"
  shows "f9_block data b = Inr (be64 (\<lambda>k. data ! (unat b + k)))"
proof -
  have "unat (b + of_nat k) = unat b + k" if "k \<le> 7" for k
    using assms that by (simp add: unat_word_ariths unat_of_nat)
  from this [of 1] this [of 2] this [of 3] this [of 4] this [of 5] this [of 6] this [of 7]
  show ?thesis using assms
    by (simp add: f9_block_def octet_at_def be64_from_def upt_8)
qed

lemma be64_from_step: "i < 8 \<Longrightarrow> be64_from i g = push_bit (8 * (7 - i)) (ucast (g i)) OR be64_from (Suc i) g"
  by (simp add: be64_from_def upt_conv_Cons)

lemma be64_from_zero:
  assumes "\<And>k. i \<le> k \<Longrightarrow> k < 8 \<Longrightarrow> g k = 0"
  shows "be64_from i g = 0"
proof -
  have "foldr (\<lambda>k a. push_bit (8 * (7 - k)) (ucast (g k)) OR a) ks (0::u64) = 0"
    if "\<forall>k\<in>set ks. g k = 0" for ks
    using that by (induction ks) simp_all
  with assms show ?thesis by (simp add: be64_from_def)
qed

lemma be64_from_cong: "(\<And>k. i \<le> k \<Longrightarrow> k < 8 \<Longrightarrow> g k = h k) \<Longrightarrow> be64_from i g = be64_from i h"
  by (auto simp: be64_from_def intro!: foldr_cong)

text \<open>Octet \<open>k\<close> of the last block, of which \<open>R\<close> bits are message.\<close>

definition last_octet :: "octets \<Rightarrow> nat \<Rightarrow> nat \<Rightarrow> nat \<Rightarrow> u8" where
  "last_octet data base R k =
    (if 8 * k + 8 \<le> R then data ! (base + k)
     else if 8 * k < R then data ! (base + k) AND mask8bit (R mod 8) else 0)"

lemma f9_last_eq:
  assumes "8 * i + r \<le> 64" "unat base + 7 < 2 ^ 32" "unat base + (8 * i + r + 7) div 8 \<le> length data"
  shows "f9_last base i r data M = Inr (M OR be64_from i (last_octet data (unat base) (8 * i + r)))"
  using assms
proof (induction base i r data M rule: f9_last.induct)
  case (1 base i r data M)
  have u: "unat (base + of_nat i) = unat base + i" if "i < 8"
    using 1(3) that by (simp add: unat_word_ariths unat_of_nat)
  consider "r > 7" | "0 < r" "r \<le> 7" | "r = 0" by linarith
  then show ?case
  proof cases
    case 1
    then have i: "i < 8" "8 * (i + 1) + (r - 8) = 8 * i + r" "unat base + i < length data"
      using "1.prems" by auto
    have "f9_last base i r data M = f9_last base (i + 1) (r - 8) data
        (M OR push_bit (8 * (7 - i)) (ucast (data ! (unat base + i))))"
      using 1 i by (subst f9_last.simps) (simp add: octet_at_def u)
    also have "\<dots> = Inr ((M OR push_bit (8 * (7 - i)) (ucast (data ! (unat base + i)))) OR
        be64_from (i + 1) (last_octet data (unat base) (8 * i + r)))"
      using "1.IH" [of "data ! (unat base + i)"] 1 "1.prems" i by simp
    also have "\<dots> = Inr (M OR be64_from i (last_octet data (unat base) (8 * i + r)))"
      using 1 i by (simp add: be64_from_step [of i] last_octet_def or.assoc)
    finally show ?thesis .
  next
    case 2
    then have i: "i < 8" "unat base + i < length data" "(8 * i + r) mod 8 = r"
      using "1.prems" by auto
    have "be64_from (Suc i) (last_octet data (unat base) (8 * i + r)) = 0"
      using 2 by (intro be64_from_zero) (simp add: last_octet_def)
    moreover have "last_octet data (unat base) (8 * i + r) i = data ! (unat base + i) AND mask8bit r"
      using 2 i by (simp add: last_octet_def)
    ultimately show ?thesis
      using 2 i by (subst f9_last.simps) (simp add: octet_at_def u be64_from_step [of i])
  next
    case 3
    have "be64_from i (last_octet data (unat base) (8 * i + r)) = 0"
      using 3 by (intro be64_from_zero) (simp add: last_octet_def)
    with 3 show ?thesis by (subst f9_last.simps) simp
  qed
qed


text \<open>The blocks the loops read are those of the padded message.\<close>

lemma ceil_8: "(n + 7) div 8 = n div 8 + (if n mod 8 = 0 then 0 else 1)" for n :: nat
proof -
  define q r where "q = n div 8" and "r = n mod 8"
  then have n: "n = r + 8 * q" and r: "r < 8" by simp_all
  have "(r + 7) div 8 = (if r = 0 then 0 else 1)"
    using r by (auto intro!: div_nat_eqI)
  moreover have "(n + 7) div 8 = q + (r + 7) div 8"
    using div_mult_self2 [of 8 "r + 7" q] by (simp add: n add.assoc add.commute add.left_commute)
  ultimately show ?thesis by (simp add: q_def r_def)
qed

lemma length_uia2_padded: "len \<le> 8 * length data \<Longrightarrow> length (uia2_padded data len) = (len + 7) div 8"
  by (auto simp: uia2_padded_def ceil_8)

lemma nth_uia2_padded:
  assumes "len \<le> 8 * length data"
  shows "(if k < length (uia2_padded data len) then uia2_padded data len ! k else 0) =
    (if 8 * k + 8 \<le> len then data ! k
     else if 8 * k < len then data ! k AND mask8bit (len mod 8) else 0)"
proof -
  consider "k < len div 8" | "k = len div 8" | "len div 8 < k" by linarith
  then show ?thesis
  proof cases
    case 1
    then have "8 * k + 8 \<le> len" "k < (len + 7) div 8" by linarith+
    with 1 assms show ?thesis by (simp add: length_uia2_padded) (simp add: uia2_padded_def nth_append)
  next
    case 2
    then have "\<not> 8 * k + 8 \<le> len" "8 * k < len \<longleftrightarrow> len mod 8 \<noteq> 0" "k < (len + 7) div 8 \<longleftrightarrow> len mod 8 \<noteq> 0"
      by (auto simp: ceil_8 minus_mod_eq_mult_div [symmetric])
    with 2 assms show ?thesis by (simp add: length_uia2_padded) (auto simp: uia2_padded_def nth_append)
  next
    case 3
    then have "\<not> 8 * k < len" "\<not> k < (len + 7) div 8" by linarith+
    with assms show ?thesis by (simp add: length_uia2_padded)
  qed
qed

lemma uia2_block_full:
  assumes "len \<le> 8 * length data" "64 * j + 64 \<le> len"
  shows "uia2_block (uia2_padded data len) j = be64 (\<lambda>k. data ! (8 * j + k))"
  unfolding uia2_block_def
  by (rule be64_from_cong) (use assms in \<open>simp add: nth_uia2_padded\<close>)

lemma uia2_block_last:
  assumes "len \<le> 8 * length data" "64 * j < len" "len \<le> 64 * j + 64"
  shows "uia2_block (uia2_padded data len) j = be64 (last_octet data (8 * j) (len - 64 * j))"
  unfolding uia2_block_def
proof (rule be64_from_cong)
  fix k :: nat assume "k < 8"
  have "(len - 64 * j) mod 8 = len mod 8"
    using assms mod_mult_self1 [of "len - 64 * j" "8 * j" 8] by simp
  with assms \<open>k < 8\<close> show "(if 8 * j + k < length (uia2_padded data len)
      then uia2_padded data len ! (8 * j + k) else 0) = last_octet data (8 * j) (len - 64 * j) k"
    by (auto simp: nth_uia2_padded last_octet_def)
qed

lemma f9_loop_eq:
  assumes "len \<le> 8 * length data" "64 * (unat i + m) \<le> len" "8 * (unat i + m) < 2 ^ 32"
  shows "f9_loop i m P data E =
    Inr (foldl (\<lambda>E j. MUL64 (E XOR uia2_block (uia2_padded data len) j) P 0x1b) E [unat i..<unat i + m])"
  using assms
proof (induction i m P data E rule: f9_loop.induct)
  case (2 i m P data E)
  have u: "unat (8 * i) = 8 * unat i" "unat (i + 1) = unat i + 1"
    using 2(4) by (simp_all add: unat_word_ariths)
  have "f9_block data (8 * i) = Inr (uia2_block (uia2_padded data len) (unat i))"
    using 2(2-4) by (simp add: f9_block_eq u uia2_block_full)
  then show ?case
    using 2(1) 2(2-4) u upt_conv_Cons [of "unat i" "unat i + Suc m"] by (simp del: upt_Suc)
qed simp


section \<open>f9 implements the specification\<close>

definition f9_z :: "octets \<Rightarrow> u32 \<Rightarrow> u32 \<Rightarrow> u32 \<Rightarrow> nat \<Rightarrow> u32" where
  "f9_z key count fresh dir i =
    fst (snow_3g_generate_key_stream 5 (snow_3g_initialize (key_words key) (f9_IV count fresh dir))) ! i"

lemma uia2_eval_snoc:
  "uia2_eval P xs (Suc m) = MUL64 (uia2_eval P xs m XOR uia2_block xs m) P 0x1b"
  by (simp add: uia2_eval_def)

text \<open>The index of the last block, which the code keeps as \<^verbatim>\<open>D-2\<close>.\<close>

definition f9_last_index :: "nat \<Rightarrow> nat" where
  "f9_last_index len = (len - 1) div 64"

lemma f9_last_index:
  assumes "0 < len"
  shows "64 * f9_last_index len < len" "len \<le> 64 * f9_last_index len + 64"
    "(len + 63) div 64 = Suc (f9_last_index len)"
    "(if len mod 64 = 0 then 64 else len mod 64) = len - 64 * f9_last_index len"
    "f9_last_index len = (if len mod 64 = 0 then len div 64 - 1 else len div 64)"
proof -
  define q r where "q = f9_last_index len" and "r = (len - 1) mod 64"
  then have n: "len = Suc r + 64 * q" and r: "r < 64"
    using assms by (simp_all add: f9_last_index_def)
  then show "64 * f9_last_index len < len" "len \<le> 64 * f9_last_index len + 64"
    unfolding q_def [symmetric] by simp_all
  show "(len + 63) div 64 = Suc (f9_last_index len)"
    unfolding q_def [symmetric] by (rule div_nat_eqI) (use n r in simp_all)
  have *: "len div 64 = (if r = 63 then Suc q else q)" "len mod 64 = (if r = 63 then 0 else Suc r)"
    using n r by (auto intro!: div_nat_eqI simp: mod_Suc)
  show "(if len mod 64 = 0 then 64 else len mod 64) = len - 64 * f9_last_index len"
    "f9_last_index len = (if len mod 64 = 0 then len div 64 - 1 else len div 64)"
    unfolding q_def [symmetric] * using n r by auto
qed

lemma f9_D:
  fixes len :: u64
  assumes "0 < unat len" "unat len \<le> 2 ^ 35"
  shows "unat ((ucast (if len mod 64 = 0 then drop_bit 6 len + 1 else drop_bit 6 len + 2) :: u32) - 2)
    = f9_last_index (unat len)"
    "(if len mod 64 = 0 then 64 else unat (len mod 64)) = unat len - 64 * f9_last_index (unat len)"
proof -
  have m: "unat (len mod 64) = unat len mod 64" and d: "unat (drop_bit 6 len) = unat len div 64"
    by (simp add: unat_mod_distrib) (simp add: unat_drop_bit_eq, simp add: drop_bit_eq_div)
  have z: "len mod 64 = 0 \<longleftrightarrow> unat len mod 64 = 0"
    by (simp add: unat_eq_0 flip: m)
  have "unat len div 64 \<le> 2 ^ 35 div 64"
    by (rule div_le_mono) (rule assms)
  then have l: "unat len div 64 \<le> 2 ^ 29" by simp
  have "unat len div 64 \<ge> 1" if "unat len mod 64 = 0"
    using that assms(1) div_mult_mod_eq [of "unat len" 64] by (cases "unat len div 64") auto
  moreover have "unat (ucast (drop_bit 6 len + of_nat k) - 2 :: u32) = unat len div 64 + k - 2"
    if "k \<le> 2" "2 \<le> unat len div 64 + k" for k
  proof -
    have "unat (drop_bit 6 len + of_nat k) = unat len div 64 + k"
      using l that by (simp add: unat_word_ariths unat_of_nat d)
    then have "unat (ucast (drop_bit 6 len + of_nat k) :: u32) = unat len div 64 + k"
      using l that by (simp add: unsigned_ucast_eq take_bit_eq_mod)
    then show ?thesis
      using that by (simp add: unat_sub word_le_nat_alt)
  qed
  from this [of 1] this [of 2] calculation
  show "unat ((ucast (if len mod 64 = 0 then drop_bit 6 len + 1 else drop_bit 6 len + 2) :: u32) - 2)
    = f9_last_index (unat len)"
    unfolding z f9_last_index(5) [OF assms(1)] by auto
  show "(if len mod 64 = 0 then 64 else unat (len mod 64)) = unat len - 64 * f9_last_index (unat len)"
    unfolding z m by (rule f9_last_index(4) [OF assms(1)])
qed


lemma octet_of_high:
  "k < 4 \<Longrightarrow> octet_of k (ucast (drop_bit 32 E) :: u32) = octet_of (k + 4) E" for E :: u64
  by (rule bit_word_eqI) (auto simp: bit_simps ac_simps)

lemma f9_out:
  "map (\<lambda>i. octet_of (7 - i) E XOR octet_of (3 - i) z) [0..<4] = be32_octets (ucast (drop_bit 32 E) XOR z)"
  for E :: u64 and z :: u32
proof -
  have "[0..<4] = [0, 1, 2, 3 :: nat]" by (simp add: upt_rec)
  then show ?thesis
    using octet_of_high [of 0 E] octet_of_high [of 1 E] octet_of_high [of 2 E] octet_of_high [of 3 E]
    by (simp add: be32_octets_def)
qed


text \<open>A round whose block lies past the end of the data ends the loop.\<close>

lemma f9_loop_fails:
  "k < m \<Longrightarrow> f9_block data (8 * (i + of_nat k)) = Inl OutOfBounds \<Longrightarrow>
   f9_loop i m P data E = Inl OutOfBounds"
proof (induction i m P data E arbitrary: k rule: f9_loop.induct)
  case (2 i m P data E)
  show ?case
  proof (cases "f9_block data (8 * i)")
    case (Inl e)
    then have "e = OutOfBounds"
      by (auto simp: f9_block_def octet_at_def bind_result_def split: if_splits)
    with Inl show ?thesis by simp
  next
    case (Inr M)
    with 2(3) have "k \<noteq> 0" by (cases k) auto
    then obtain k' where "k = Suc k'" by (cases k) auto
    with 2 Inr show ?thesis by (simp add: add.assoc)
  qed
qed simp

lemma f9_block_past_end:
  assumes "length data \<le> unat b + 7" "unat b + 7 < 2 ^ 32"
  shows "f9_block data b = Inl OutOfBounds"
proof -
  have "unat (b + 7) = unat b + 7"
    using assms(2) by (simp add: unat_word_ariths)
  then show ?thesis using assms(1)
    by (auto simp: f9_block_def octet_at_def bind_result_def)
qed

section \<open>Properties\<close>

text \<open>
  C38. f8 is its own inverse: applied again to its output, with the same key, counter, bearer,
  direction and length, it gives the data back, with the bits of the last octet after the length
  cleared, and it keeps the length of the octet string.
\<close>

theorem f8_involution:
  assumes "16 \<le> length key" "unat len \<le> 2 ^ 32 - 32" "4 * ((unat len + 31) div 32) \<le> length data"
  shows "\<exists>ct. snow_3g_f8 key count bearer dir data len = Inr ct \<and> length ct = length data \<and>
    snow_3g_f8 key count bearer dir ct len = Inr (clear_after (unat len) data)"
  using assms
  by (simp add: snow_3g_f8_eq length_key_stream f8_words clear_xor_twice)

theorem f8_involution_witness:
  "\<exists>ct. snow_3g_f8 (replicate 16 0x5a) 7 3 1 [1, 2, 3, 0xff] 29 = Inr ct \<and> length ct = length [1, 2, 3, 0xff :: u8] \<and>
    snow_3g_f8 (replicate 16 0x5a) 7 3 1 ct 29 = Inr (clear_after (unat (29 :: u32)) [1, 2, 3, 0xff])"
  by (rule f8_involution) simp_all

text \<open>
  The bits f8 has ciphered do not depend on how many follow: with a smaller length it
  computes the same whole octets.
\<close>

theorem f8_prefix:
  assumes "16 \<le> length key" "unat len \<le> 2 ^ 32 - 32" "4 * ((unat len + 31) div 32) \<le> length data"
    "snow_3g_f8 key count bearer dir data len = Inr ct"
    "unat m \<le> unat len"
  shows "\<exists>ct'. snow_3g_f8 key count bearer dir data m = Inr ct' \<and>
     take (unat m div 8) ct' = take (unat m div 8) ct"
proof -
  have m: "(unat m + 31) div 32 \<le> (unat len + 31) div 32"
    using assms by (intro div_le_mono) simp
  have *: "16 \<le> length key" "unat m \<le> 2 ^ 32 - 32" "4 * ((unat m + 31) div 32) \<le> length data"
    using assms m by linarith+
  let ?K = "f8_keystream key count bearer dir"
  have mm: "(m + 31) div 32 \<le> (len + 31) div 32"
    using assms * m by (simp add: word_le_nat_alt f8_words)
  have ks: "?K m = take (4 * ((unat m + 31) div 32)) (?K len)"
    unfolding take_keystream_octets [symmetric] f8_words [OF *(2), symmetric] take_key_stream [OF mm] by (rule refl)
  have "take (unat m div 8) (clear_after (unat m) (xor_prefix (?K m) data))
    = take (unat m div 8) (clear_after (unat len) (xor_prefix (?K len) data))"
  proof (rule nth_equalityI)
    fix i assume "i < length (take (unat m div 8) (clear_after (unat m) (xor_prefix (?K m) data)))"
    then have "i < unat m div 8" by simp
    moreover then have "i < 4 * ((unat m + 31) div 32)" "i < unat len div 8"
      using div_le_mono [OF assms(5), of 8] front_octet_covered by simp_all
    ultimately show "take (unat m div 8) (clear_after (unat m) (xor_prefix (?K m) data)) ! i
      = take (unat m div 8) (clear_after (unat len) (xor_prefix (?K len) data)) ! i"
      using assms(2,3) m * by (simp add: ks nth_clear_after nth_xor_prefix length_key_stream f8_words)
  qed (use assms(2,3) m * in \<open>simp add: length_key_stream f8_words min_def\<close>)
  with assms * show ?thesis by (simp add: snow_3g_f8_eq)
qed

theorem f8_prefix_witness:
  "\<exists>ct'. snow_3g_f8 (replicate 16 0x5a) 7 3 1 (replicate 8 1) 20 = Inr ct' \<and>
     take (unat (20 :: u32) div 8) ct' = take (unat (20 :: u32) div 8)
       (clear_after 61 (xor_prefix (f8_keystream (replicate 16 0x5a) 7 3 1 61) (replicate 8 1)))"
proof (rule f8_prefix [where len = 61])
  show "snow_3g_f8 (replicate 16 0x5a) 7 3 1 (replicate 8 1) 61 =
    Inr (clear_after 61 (xor_prefix (f8_keystream (replicate 16 0x5a) 7 3 1 61) (replicate 8 1)))"
    using snow_3g_f8_eq [of "replicate 16 0x5a" 61 "replicate 8 1" 7 3 1] by simp
qed simp_all

text \<open>
  The external function hands f8 the number of octets as its number of bits: of \<open>n\<close> octets it
  leaves all after the first \<open>4 * ((n + 31) div 32)\<close> as they were, so seven eighths of a long
  message leave in clear.
\<close>

theorem f8_wrapper_leaves_clear:
  assumes "16 \<le> length key" "length data \<le> 2 ^ 32 - 32" "4 * ((length data + 31) div 32) \<le> length data"
    "to_int count = Inr c" "to_int bearer = Inr b"
  shows "\<exists>ct. snow_3g_f8_wrapper to_int key count bearer dl data = Inr ct \<and>
    drop (4 * ((length data + 31) div 32)) ct = drop (4 * ((length data + 31) div 32)) data"
proof -
  have l: "unat (of_nat (length data) :: u32) = length data"
    using assms by (simp add: unat_of_nat)
  have *: "length data mod 8 = 0 \<or> length data div 8 < 4 * ((length data + 31) div 32)"
    using last_octet_covered by blast
  let ?K = "f8_keystream key c b (if dl then 1 else 0) (of_nat (length data))"
  have "snow_3g_f8_wrapper to_int key count bearer dl data
    = Inr (clear_after (length data) (xor_prefix ?K data))"
    using assms by (simp add: snow_3g_f8_wrapper_def snow_3g_f8_eq l)
  moreover have "length ?K = 4 * ((length data + 31) div 32)"
    using assms by (simp add: length_key_stream f8_words l)
  ultimately show ?thesis
    using * assms(3) by (simp add: drop_clear_after drop_xor_prefix)
qed

theorem f8_wrapper_leaves_clear_witness:
  "\<exists>ct. snow_3g_f8_wrapper (\<lambda>n. Inr (word_of_int n)) (replicate 16 0x5a) 7 3 True (replicate 32 (9 :: u8)) = Inr ct \<and>
    drop (4 * ((length (replicate 32 (9 :: u8)) + 31) div 32)) ct = drop (4 * ((length (replicate 32 (9 :: u8)) + 31) div 32)) (replicate 32 (9 :: u8))"
  by (rule f8_wrapper_leaves_clear) simp_all

text \<open>
  The multiplication of f9 is that of a commutative ring on 64-bit words, for every reduction
  constant \<open>c\<close>: commutative, associative, distributive over exclusive or, with unit 1.
\<close>

theorem MUL64_ring:
  "MUL64 V P c = MUL64 P V c \<and> MUL64 (MUL64 U V c) P c = MUL64 U (MUL64 V P c) c \<and>
   MUL64 (U XOR V) P c = MUL64 U P c XOR MUL64 V P c \<and> MUL64 1 P c = P"
  by (intro conjI) (rule MUL64_comm, rule MUL64_assoc, rule MUL64_xor, simp add: MUL64_eq gf64.product_one_left)

text \<open>
  C2. f9 computes the integrity code of the UIA2 specification: the message, cut to its bits and
  filled up with zero bits to 64-bit blocks, is evaluated as a polynomial at \<open>P\<close>, its length is
  added, the sum multiplied by \<open>Q\<close>, and the high half is masked with the fifth keystream word. The
  loops of the code, with their 32-bit counters, do so for every length up to \<open>2^35\<close> bits that the
  data holds.
\<close>

theorem f9_implements_uia2:
  fixes len :: u64
  assumes "16 \<le> length key" "0 < unat len" "unat len \<le> 8 * length data" "unat len \<le> 2 ^ 35"
  shows "snow_3g_f9 key count fresh dir data len = Inr (uia2_mac (f9_z key count fresh dir) data (unat len))"
proof -
  let ?n = "unat len" let ?q = "f9_last_index ?n"
  let ?z = "f9_z key count fresh dir"
  let ?P = "push_bit 32 (ucast (?z 0)) OR ucast (?z 1) :: u64"
  let ?Q = "push_bit 32 (ucast (?z 2)) OR ucast (?z 3) :: u64"
  let ?xs = "uia2_padded data ?n"
  let ?D = "(ucast (if len mod 64 = 0 then drop_bit 6 len + 1 else drop_bit 6 len + 2) :: u32) - 2"
  note q = f9_last_index [OF assms(2)] and D = f9_D [OF assms(2,4)]
  have "?q < 2 ^ 29" using q(1) assms(4) by simp
  then have q32: "8 * ?q + 7 < 2 ^ 32" by simp
  have loop: "f9_loop 0 (unat ?D) ?P data 0 = Inr (uia2_eval ?P ?xs ?q)"
    using assms(3) q(1) q32 by (simp add: f9_loop_eq [where len = ?n] D uia2_eval_def)
  have "unat (8 * d) = 8 * ?q" if "unat d = ?q" for d :: u32
    using q32 that by (simp add: unat_word_ariths)
  note base = this [OF D(1)]
  have "f9_last b 0 (?n - 64 * ?q) data 0 = Inr (uia2_block ?xs ?q)" if "unat b = 8 * ?q" for b
  proof -
    have "unat b + 7 < 2 ^ 32" using q32 that by simp
    moreover have "(?n - 64 * ?q + 7) div 8 < length data - 8 * ?q + 1"
      by (rule less_mult_imp_div_less) (use assms(3) q(1) in simp)
    then have "unat b + (8 * 0 + (?n - 64 * ?q) + 7) div 8 \<le> length data"
      using assms(3) q(1) that by simp
    ultimately show ?thesis
      using q(1,2) assms(3) f9_last_eq [of 0 "?n - 64 * ?q" b data 0] that
      by (simp add: uia2_block_last)
  qed
  note last = this [OF base]
  have "uia2_eval ?P ?xs ((?n + 63) div 64) = MUL64 (uia2_eval ?P ?xs ?q XOR uia2_block ?xs ?q) ?P 0x1b"
    by (simp add: q(3) uia2_eval_snoc)
  then show ?thesis
    using loop last assms(1)
    by (simp add: snow_3g_f9_def Let_def D(2) f9_z_def [symmetric] uia2_mac_def f9_out)
qed

theorem f9_implements_uia2_witness:
  "snow_3g_f9 (replicate 16 0x5a) 7 3 1 [1, 2, 3] 21 =
    Inr (uia2_mac (f9_z (replicate 16 0x5a) 7 3 1) [1, 2, 3] (unat (21 :: u64)))"
  by (rule f9_implements_uia2) simp_all

text \<open>
  For an empty message the number of blocks the loop of f9 counts down from wraps to
  \<open>2^32 - 1\<close>, and f9 reads past the end of the data instead of returning a code.
\<close>

theorem f9_empty_message_reads_past_end:
  assumes "16 \<le> length key" "length data < 2 ^ 31"
  shows "snow_3g_f9 key count fresh dir data 0 = Inl OutOfBounds"
proof -
  let ?k = "length data div 8"
  have k: "?k < 2 ^ 28" using assms(2) by (simp add: less_mult_imp_div_less)
  then have u: "unat (8 * (of_nat ?k :: u32)) = 8 * ?k"
    by (simp add: unat_word_ariths unat_of_nat)
  have "f9_block data (8 * (0 + of_nat ?k)) = Inl OutOfBounds"
    by (rule f9_block_past_end) (use k in \<open>simp_all only: add_0 u, simp_all\<close>)
  moreover have "?k < unat (1 - 2 :: u32)"
    using k by (simp add: unsigned_minus_1_eq_mask mask_eq_exp_minus_1)
  ultimately have "f9_loop 0 (unat (1 - 2 :: u32)) P data 0 = Inl OutOfBounds" for P
    by (rule f9_loop_fails [rotated])
  with assms(1) show ?thesis by (simp add: snow_3g_f9_def Let_def)
qed

theorem f9_empty_message_reads_past_end_witness:
  "snow_3g_f9 (replicate 16 0x5a) 7 3 1 [] 0 = Inl OutOfBounds"
  by (rule f9_empty_message_reads_past_end) simp_all

end
