(* ===== verification/BSSGP_Helper.thy ===== *)
theory BSSGP_Helper
  imports Xor_Linear
begin

text \<open>
  \<^verbatim>\<open>library/BSSGP_Helper.cc\<close>: the conversion between the two ways a BSSGP or NS message writes the
  length of an information element, and the frame check sequence of the LLC layer.
\<close>

unbundle bit_operations_syntax

section \<open>Length fields\<close>

text \<open>
  Both loops keep an offset into the whole input. They compare the length of an element with the
  length of the whole input, not with what remains of it; copying a value that is longer than the
  rest reads past the end, the failure \<^const>\<open>OutOfBounds\<close>.
\<close>

function expand_tlv_loop :: "octets \<Rightarrow> nat \<Rightarrow> octets result" where
  "expand_tlv_loop inp ofs =
    (if ofs < length inp then
       let remain_len = length inp - ofs in
       if remain_len < 2 then Inl TtcnError
       else if inp ! (ofs + 1) AND 0x80 = 0 \<and> remain_len < 3 then Inl TtcnError
       else
         let (data_len, tl_length) =
           (if inp ! (ofs + 1) AND 0x80 \<noteq> 0
            then (ucast (inp ! (ofs + 1) AND 0x7F) :: u16, 2)
            else (push_bit 8 (ucast (inp ! (ofs + 1))) OR ucast (inp ! (ofs + 2)), 3))
         in if length inp < tl_length + unat data_len then Inl TtcnError
            else if length inp < ofs + tl_length + unat data_len then Inl OutOfBounds
            else map_result (\<lambda>out. [inp ! ofs, octet_of 1 data_len, octet_of 0 data_len] @
                   take (unat data_len) (drop (ofs + tl_length) inp) @ out)
                 (expand_tlv_loop inp (ofs + unat data_len + tl_length))
     else Inr [])"
  by pat_completeness auto
termination
  by (relation "measure (\<lambda>(inp, ofs). length inp - ofs)") (auto split: if_splits)

definition expand_tlv_part :: "octets \<Rightarrow> octets result" where
  "expand_tlv_part inp = expand_tlv_loop inp 0"

function compact_tlv_loop :: "octets \<Rightarrow> nat \<Rightarrow> octets result" where
  "compact_tlv_loop inp ofs =
    (if ofs < length inp then
       let remain_len = length inp - ofs in
       if remain_len < 3 then Inl TtcnError
       else
         let data_len = push_bit 8 (ucast (inp ! (ofs + 1))) OR ucast (inp ! (ofs + 2)) :: u16;
             hdr_buf =
               (if data_len \<le> 0x7f then [inp ! ofs, 0x80 OR ucast data_len]
                else [inp ! ofs, octet_of 1 data_len, octet_of 0 data_len])
         in if length inp < 3 + unat data_len then Inl TtcnError
            else if length inp < ofs + 3 + unat data_len then Inl OutOfBounds
            else map_result (\<lambda>out. hdr_buf @ take (unat data_len) (drop (ofs + 3) inp) @ out)
                 (compact_tlv_loop inp (ofs + unat data_len + 3))
     else Inr [])"
  by pat_completeness auto
termination
  by (relation "measure (\<lambda>(inp, ofs). length inp - ofs)") auto

definition compact_tlv_part :: "octets \<Rightarrow> octets result" where
  "compact_tlv_part inp = compact_tlv_loop inp 0"

declare expand_tlv_loop.simps [simp del] compact_tlv_loop.simps [simp del]

definition BSSGP_PDUT_DL_UNITDATA :: u8 where "BSSGP_PDUT_DL_UNITDATA = 0x00"
definition BSSGP_PDUT_UL_UNITDATA :: u8 where "BSSGP_PDUT_UL_UNITDATA = 0x01"
definition NS_PDUT_NS_UNITDATA :: u8 where "NS_PDUT_NS_UNITDATA = 0x00"

definition bssgp_static_hdr_len :: "u8 \<Rightarrow> nat" where
  "bssgp_static_hdr_len pdu_type =
    (if pdu_type = BSSGP_PDUT_DL_UNITDATA \<or> pdu_type = BSSGP_PDUT_UL_UNITDATA then 8 else 1)"

definition f_BSSGP_expand_len :: "octets \<Rightarrow> octets result" where
  "f_BSSGP_expand_len inp =
    (if inp = [] then Inl OutOfBounds
     else let static_hdr_len = bssgp_static_hdr_len (inp ! 0) in
       if length inp < static_hdr_len then Inl TtcnError
       else map_result (\<lambda>t. take static_hdr_len inp @ t) (expand_tlv_part (drop static_hdr_len inp)))"

definition f_BSSGP_compact_len :: "octets \<Rightarrow> octets result" where
  "f_BSSGP_compact_len inp =
    (if inp = [] then Inl OutOfBounds
     else let static_hdr_len = bssgp_static_hdr_len (inp ! 0) in
       if length inp < static_hdr_len then Inl TtcnError
       else map_result (\<lambda>t. take static_hdr_len inp @ t) (compact_tlv_part (drop static_hdr_len inp)))"

definition f_NS_expand_len :: "octets \<Rightarrow> octets result" where
  "f_NS_expand_len inp =
    (if inp = [] then Inl OutOfBounds
     else if inp ! 0 = NS_PDUT_NS_UNITDATA then Inr inp
     else if length inp < 1 then Inl TtcnError
     else map_result (\<lambda>t. take 1 inp @ t) (expand_tlv_part (drop 1 inp)))"

definition f_NS_compact_len :: "octets \<Rightarrow> octets result" where
  "f_NS_compact_len inp =
    (if inp = [] then Inl OutOfBounds
     else if inp ! 0 = NS_PDUT_NS_UNITDATA then Inr inp
     else if length inp < 1 then Inl TtcnError
     else map_result (\<lambda>t. take 1 inp @ t) (compact_tlv_part (drop 1 inp)))"

section \<open>Frame check sequence\<close>

definition tbl_crc24 :: "u32 list" where
  "tbl_crc24 = [
   0x00000000, 0x00d6a776, 0x00f64557, 0x0020e221, 0x00b78115, 0x00612663, 0x0041c442, 0x00976334,
   0x00340991, 0x00e2aee7, 0x00c24cc6, 0x0014ebb0, 0x00838884, 0x00552ff2, 0x0075cdd3, 0x00a36aa5,
   0x00681322, 0x00beb454, 0x009e5675, 0x0048f103, 0x00df9237, 0x00093541, 0x0029d760, 0x00ff7016,
   0x005c1ab3, 0x008abdc5, 0x00aa5fe4, 0x007cf892, 0x00eb9ba6, 0x003d3cd0, 0x001ddef1, 0x00cb7987,
   0x00d02644, 0x00068132, 0x00266313, 0x00f0c465, 0x0067a751, 0x00b10027, 0x0091e206, 0x00474570,
   0x00e42fd5, 0x003288a3, 0x00126a82, 0x00c4cdf4, 0x0053aec0, 0x008509b6, 0x00a5eb97, 0x00734ce1,
   0x00b83566, 0x006e9210, 0x004e7031, 0x0098d747, 0x000fb473, 0x00d91305, 0x00f9f124, 0x002f5652,
   0x008c3cf7, 0x005a9b81, 0x007a79a0, 0x00acded6, 0x003bbde2, 0x00ed1a94, 0x00cdf8b5, 0x001b5fc3,
   0x00fb4733, 0x002de045, 0x000d0264, 0x00dba512, 0x004cc626, 0x009a6150, 0x00ba8371, 0x006c2407,
   0x00cf4ea2, 0x0019e9d4, 0x00390bf5, 0x00efac83, 0x0078cfb7, 0x00ae68c1, 0x008e8ae0, 0x00582d96,
   0x00935411, 0x0045f367, 0x00651146, 0x00b3b630, 0x0024d504, 0x00f27272, 0x00d29053, 0x00043725,
   0x00a75d80, 0x0071faf6, 0x005118d7, 0x0087bfa1, 0x0010dc95, 0x00c67be3, 0x00e699c2, 0x00303eb4,
   0x002b6177, 0x00fdc601, 0x00dd2420, 0x000b8356, 0x009ce062, 0x004a4714, 0x006aa535, 0x00bc0243,
   0x001f68e6, 0x00c9cf90, 0x00e92db1, 0x003f8ac7, 0x00a8e9f3, 0x007e4e85, 0x005eaca4, 0x00880bd2,
   0x00437255, 0x0095d523, 0x00b53702, 0x00639074, 0x00f4f340, 0x00225436, 0x0002b617, 0x00d41161,
   0x00777bc4, 0x00a1dcb2, 0x00813e93, 0x005799e5, 0x00c0fad1, 0x00165da7, 0x0036bf86, 0x00e018f0,
   0x00ad85dd, 0x007b22ab, 0x005bc08a, 0x008d67fc, 0x001a04c8, 0x00cca3be, 0x00ec419f, 0x003ae6e9,
   0x00998c4c, 0x004f2b3a, 0x006fc91b, 0x00b96e6d, 0x002e0d59, 0x00f8aa2f, 0x00d8480e, 0x000eef78,
   0x00c596ff, 0x00133189, 0x0033d3a8, 0x00e574de, 0x007217ea, 0x00a4b09c, 0x008452bd, 0x0052f5cb,
   0x00f19f6e, 0x00273818, 0x0007da39, 0x00d17d4f, 0x00461e7b, 0x0090b90d, 0x00b05b2c, 0x0066fc5a,
   0x007da399, 0x00ab04ef, 0x008be6ce, 0x005d41b8, 0x00ca228c, 0x001c85fa, 0x003c67db, 0x00eac0ad,
   0x0049aa08, 0x009f0d7e, 0x00bfef5f, 0x00694829, 0x00fe2b1d, 0x00288c6b, 0x00086e4a, 0x00dec93c,
   0x0015b0bb, 0x00c317cd, 0x00e3f5ec, 0x0035529a, 0x00a231ae, 0x007496d8, 0x005474f9, 0x0082d38f,
   0x0021b92a, 0x00f71e5c, 0x00d7fc7d, 0x00015b0b, 0x0096383f, 0x00409f49, 0x00607d68, 0x00b6da1e,
   0x0056c2ee, 0x00806598, 0x00a087b9, 0x007620cf, 0x00e143fb, 0x0037e48d, 0x001706ac, 0x00c1a1da,
   0x0062cb7f, 0x00b46c09, 0x00948e28, 0x0042295e, 0x00d54a6a, 0x0003ed1c, 0x00230f3d, 0x00f5a84b,
   0x003ed1cc, 0x00e876ba, 0x00c8949b, 0x001e33ed, 0x008950d9, 0x005ff7af, 0x007f158e, 0x00a9b2f8,
   0x000ad85d, 0x00dc7f2b, 0x00fc9d0a, 0x002a3a7c, 0x00bd5948, 0x006bfe3e, 0x004b1c1f, 0x009dbb69,
   0x0086e4aa, 0x005043dc, 0x0070a1fd, 0x00a6068b, 0x003165bf, 0x00e7c2c9, 0x00c720e8, 0x0011879e,
   0x00b2ed3b, 0x00644a4d, 0x0044a86c, 0x00920f1a, 0x00056c2e, 0x00d3cb58, 0x00f32979, 0x00258e0f,
   0x00eef788, 0x003850fe, 0x0018b2df, 0x00ce15a9, 0x0059769d, 0x008fd1eb, 0x00af33ca, 0x007994bc,
   0x00dafe19, 0x000c596f, 0x002cbb4e, 0x00fa1c38, 0x006d7f0c, 0x00bbd87a, 0x009b3a5b, 0x004d9d2d
  ]"

definition INIT_CRC24 :: u32 where "INIT_CRC24 = 0xffffff"

fun crc24_calc :: "u32 \<Rightarrow> octets \<Rightarrow> u32" where
  "crc24_calc fcs [] = fcs"
| "crc24_calc fcs (c # cp) =
     crc24_calc (drop_bit 8 fcs XOR tbl_crc24 ! unat ((fcs XOR ucast c) AND 0xff)) cp"

definition f_LLC_compute_fcs :: "octets \<Rightarrow> octets" where
  "f_LLC_compute_fcs inp =
    (let fcs_calc = NOT (crc24_calc INIT_CRC24 inp) AND 0xffffff
     in [octet_of 0 fcs_calc, octet_of 1 fcs_calc, octet_of 2 fcs_calc])"

section \<open>A loop over a sequence of elements\<close>

text \<open>
  The interface of a loop that reads one element after the other from an octet string and appends
  its new form to the output: \<open>walk\<close> is the loop, from an offset, \<open>enc\<close> and \<open>out\<close> the form of an
  element before and after. Where the loop succeeds, the input is a sequence of elements, and
  every such input is converted.
\<close>

locale element_walk =
  fixes walk :: "octets \<Rightarrow> nat \<Rightarrow> octets result"
    and valid :: "'e \<Rightarrow> bool"
    and enc :: "'e \<Rightarrow> octets"
    and out :: "'e \<Rightarrow> octets"
  assumes walk_end: "length inp \<le> ofs \<Longrightarrow> walk inp ofs = Inr []"
    and enc_nonempty: "enc e \<noteq> []"
    and walk_element: "valid e \<Longrightarrow> drop ofs inp = enc e @ rest \<Longrightarrow>
      walk inp ofs = map_result (\<lambda>r. out e @ r) (walk inp (ofs + length (enc e)))"
    and walk_parses: "walk inp ofs = Inr r \<Longrightarrow> ofs < length inp \<Longrightarrow>
      \<exists>e rest. valid e \<and> drop ofs inp = enc e @ rest"
begin

lemma walk_elements:
  "list_all valid es \<Longrightarrow> drop ofs inp = concat (map enc es) \<Longrightarrow> walk inp ofs = Inr (concat (map out es))"
proof (induction es arbitrary: ofs)
  case (Cons e es)
  then have "drop (ofs + length (enc e)) inp = concat (map enc es)"
    by (simp add: drop_after)
  with Cons walk_element [of e ofs inp "concat (map enc es)"] show ?case by simp
qed (simp add: walk_end)

lemma walk_prefix:
  "list_all valid es \<Longrightarrow> drop ofs inp = concat (map enc es) @ rest \<Longrightarrow>
   walk inp ofs = map_result (\<lambda>r. concat (map out es) @ r) (walk inp (ofs + length (concat (map enc es))))"
proof (induction es arbitrary: ofs)
  case Nil
  then show ?case by (cases "walk inp ofs") simp_all
next
  case (Cons e es)
  then have "drop (ofs + length (enc e)) inp = concat (map enc es) @ rest"
    by (simp add: drop_after)
  with Cons walk_element [of e ofs inp "concat (map enc es) @ rest"]
  show ?case
    by (cases "walk inp (ofs + length (enc e) + length (concat (map enc es)))") (simp_all add: add.assoc)
qed

lemma walk_success:
  "walk inp ofs = Inr r \<Longrightarrow> \<exists>es. list_all valid es \<and> drop ofs inp = concat (map enc es) \<and> r = concat (map out es)"
proof (induction "length inp - ofs" arbitrary: ofs r rule: less_induct)
  case less
  show ?case
  proof (cases "ofs < length inp")
    case False
    with less.prems show ?thesis by (intro exI [of _ "[]"]) (simp add: walk_end)
  next
    case True
    with less.prems obtain e rest where e: "valid e" "drop ofs inp = enc e @ rest"
      using walk_parses by blast
    with less.prems obtain r' where r': "walk inp (ofs + length (enc e)) = Inr r'" "r = out e @ r'"
      by (auto simp: walk_element)
    have d: "drop (ofs + length (enc e)) inp = rest"
      using e(2) by (rule drop_after)
    have "length inp - (ofs + length (enc e)) < length inp - ofs"
      using True enc_nonempty [of e] by (cases "enc e") auto
    then obtain es where "list_all valid es" "rest = concat (map enc es)" "r' = concat (map out es)"
      using less.hyps [of "ofs + length (enc e)" r'] r' d by auto
    with e r' show ?thesis by (intro exI [of _ "e # es"]) simp
  qed
qed

lemma walk_iff:
  "walk inp ofs = Inr r \<longleftrightarrow>
   (\<exists>es. list_all valid es \<and> drop ofs inp = concat (map enc es) \<and> r = concat (map out es))"
  using walk_elements walk_success by blast

end

section \<open>Information elements\<close>

text \<open>An information element, its two forms and the two ways the compact form writes a length.\<close>

datatype ie = IE (ie_tag: u8) (ie_value: octets)

definition long_len :: "octets \<Rightarrow> octets" where
  "long_len v = be16_octets (of_nat (length v))"

fun tl16v :: "ie \<Rightarrow> octets" where
  "tl16v (IE t v) = t # long_len v @ v"

fun tvlv :: "bool \<times> ie \<Rightarrow> octets" where
  "tvlv (long, IE t v) = t # (if long then long_len v else [0x80 OR of_nat (length v)]) @ v"

fun tvlv_valid :: "bool \<times> ie \<Rightarrow> bool" where
  "tvlv_valid (long, IE t v) \<longleftrightarrow> length v < (if long then 2 ^ 15 else 2 ^ 7)"

definition shortest :: "ie \<Rightarrow> bool \<times> ie" where
  "shortest e = (127 < length (ie_value e), e)"

lemma octet_of_of_nat_high: "n < 2 ^ 15 \<Longrightarrow> octet_of 1 (of_nat n :: u16) AND 0x80 = 0"
proof -
  assume "n < 2 ^ 15"
  then have "\<not> bit n 15" by (simp add: bit_iff_odd)
  then have "\<not> bit (octet_of 1 (of_nat n :: u16)) 7" by (simp add: bit_simps)
  then show ?thesis using and_exp_eq_0_iff_not_bit [of "octet_of 1 (of_nat n :: u16)" 7] by simp
qed

lemma short_len:
  assumes "n < 128"
  shows "(0x80 OR of_nat n :: u8) AND 0x80 \<noteq> 0" "(ucast ((0x80 OR of_nat n :: u8) AND 0x7F) :: u16) = of_nat n"
proof -
  have m: "(0x7F :: u8) = mask 7" by (simp_all add: mask_eq_exp_minus_1)
  have *: "k < 7" if "bit n k" for k
  proof (rule ccontr)
    assume "\<not> k < 7"
    then have "n < 2 ^ k" using assms power_increasing [of 7 k "2 :: nat"] by simp
    with that show False by (simp add: bit_iff_odd)
  qed
  have "bit (2 ^ 7 OR of_nat n :: u8) 7" by (simp add: bit_simps)
  then show "(0x80 OR of_nat n :: u8) AND 0x80 \<noteq> 0"
    using and_exp_eq_0_iff_not_bit [of "2 ^ 7 OR of_nat n :: u8" 7] by simp
  show "(ucast ((0x80 OR of_nat n :: u8) AND 0x7F) :: u16) = of_nat n"
  proof -
    obtain T :: u8 where T: "0x80 = T" "\<And>k. bit T k \<longleftrightarrow> k = 7" using bit_0x80 by blast
    show ?thesis unfolding m T(1) by (rule bit_word_eqI) (auto simp: bit_simps T(2) dest: * less_trans [OF *, of _ 8])
  qed
qed


lemma long_len_octets: "long_len v = [octet_of 1 (of_nat (length v) :: u16), octet_of 0 (of_nat (length v) :: u16)]"
  by (simp add: long_len_def be16_octets_def)

lemma expand_element:
  assumes "tvlv_valid le" "drop ofs inp = tvlv le @ rest"
  shows "expand_tlv_loop inp ofs = map_result (\<lambda>r. tl16v (snd le) @ r) (expand_tlv_loop inp (ofs + length (tvlv le)))"
proof -
  obtain long t v where le: "le = (long, IE t v)" by (cases le, cases "snd le") auto
  note d = assms(2)[unfolded le]
  have n: "unat (of_nat (length v) :: u16) = length v"
    using assms(1) by (simp add: le unat_of_nat split: if_splits)
  note at = nth_of_drop [OF d, of 0] nth_of_drop [OF d, of 1] nth_of_drop [OF d, of 2]
  note len = length_of_drop [OF d] and tk = take_of_drop [OF d]
  show ?thesis
  proof (cases long)
    case True
    with at n tk [of "length v" 3, unfolded numeral_3_eq_3] len assms(1) show ?thesis
      by (subst expand_tlv_loop.simps)
        (simp add: le Let_def long_len_octets octet_of_of_nat_high [unfolded One_nat_def] or_octets_16 [unfolded One_nat_def] numeral_3_eq_3 append_Cons_fun add.commute add.left_commute)
  next
    case False
    then have "inp ! (ofs + 1) = 0x80 OR of_nat (length v)" "length v < 128"
      using at(2) assms(1) by (simp_all add: le)
    then have c: "inp ! (ofs + 1) AND 0x80 \<noteq> 0" "(ucast (inp ! (ofs + 1) AND 0x7F) :: u16) = of_nat (length v)"
      by (simp_all only: short_len not_False_eq_True)
    with False at(1) n tk [of "length v" 2] len assms(1) show ?thesis
      by (subst expand_tlv_loop.simps)
        (simp add: le Let_def long_len_octets numeral_2_eq_2 append_Cons_fun add.commute add.left_commute)
  qed
qed


lemma short_len_inverse:
  fixes x :: u8
  assumes "x AND 0x80 \<noteq> 0"
  shows "0x80 OR of_nat (unat (x AND 0x7F)) = x" "unat (x AND 0x7F) < 128"
proof -
  have m: "(0x7F :: u8) = mask 7" by (simp add: mask_eq_exp_minus_1)
  have "bit x 7" using assms and_exp_eq_0_iff_not_bit [of x 7] by simp
  have "(0x80 OR (x AND 0x7F)) = x"
  proof (rule bit_word_eqI)
    fix n assume "n < LENGTH(8)"
    then have "n < 7 \<or> n = 7" by auto
    obtain T :: u8 where T: "0x80 = T" "\<And>k. bit T k \<longleftrightarrow> k = 7" using bit_0x80 by blast
    from \<open>n < 7 \<or> n = 7\<close> show "bit (0x80 OR (x AND 0x7F)) n \<longleftrightarrow> bit x n"
      using \<open>bit x 7\<close> unfolding m T(1) by (auto simp: bit_simps T(2))
  qed
  then show "0x80 OR of_nat (unat (x AND 0x7F)) = x" by simp
  have "unat (x AND 0x7F) < 2 ^ 7"
    unfolding m take_bit_eq_mask [symmetric] unsigned_take_bit_eq by (rule take_bit_nat_less_exp)
  then show "unat (x AND 0x7F) < 128" by simp
qed

lemma expand_parses:
  assumes "expand_tlv_loop inp ofs = Inr r" "ofs < length inp"
  shows "\<exists>le rest. tvlv_valid le \<and> drop ofs inp = tvlv le @ rest"
proof (cases "inp ! (ofs + 1) AND 0x80 = 0")
  case False
  define n where "n = unat (inp ! (ofs + 1) AND 0x7F)"
  have f: "ofs + 2 + n \<le> length inp"
    using assms False by (subst (asm) expand_tlv_loop.simps) (simp add: Let_def n_def unat_ucast_16 split: if_splits)
  let ?v = "take n (drop (ofs + 2) inp)"
  have "length ?v = n" using f by simp
  then have "tvlv (False, IE (inp ! ofs) ?v) @ drop n (drop (ofs + 2) inp) = drop ofs inp"
    using f short_len_inverse [OF False] by (simp add: drop_eq_Cons2 n_def del: drop_drop)
  moreover have "tvlv_valid (False, IE (inp ! ofs) ?v)"
    using \<open>length ?v = n\<close> short_len_inverse [OF False] by (simp add: n_def)
  ultimately show ?thesis by metis
next
  case True
  let ?w = "push_bit 8 (ucast (inp ! (ofs + 1))) OR ucast (inp ! (ofs + 2)) :: u16"
  define n where "n = unat ?w"
  have f: "ofs + 3 + n \<le> length inp"
    using assms True by (subst (asm) expand_tlv_loop.simps) (simp add: Let_def n_def split: if_splits)
  let ?v = "take n (drop (ofs + 3) inp)"
  have l: "length ?v = n" using f by simp
  then have "long_len ?v = [inp ! (ofs + 1), inp ! (ofs + 2)]"
    by (simp only: long_len_octets l) (simp add: n_def octets_of_or_16 octets_of_or_16 [unfolded One_nat_def])
  then have "tvlv (True, IE (inp ! ofs) ?v) @ drop n (drop (ofs + 3) inp) = drop ofs inp"
    using f by (simp add: drop_eq_Cons3 del: drop_drop)
  moreover have "n < 2 ^ 15"
  proof -
    have "\<not> bit (inp ! (ofs + 1)) 7"
      using True and_exp_eq_0_iff_not_bit [of "inp ! (ofs + 1)" 7] by simp
    then have b15: "\<not> bit ?w 15"
      by (auto simp: bit_simps dest: bit_imp_le_length)
    have "take_bit 15 ?w = ?w"
    proof (rule bit_word_eqI)
      fix n assume "n < LENGTH(16)"
      with b15 show "bit (take_bit 15 ?w) n \<longleftrightarrow> bit ?w n"
        by (cases "n = 15") (auto simp only: bit_take_bit_iff, auto)
    qed
    moreover have "unat (take_bit 15 ?w) < 2 ^ 15"
      unfolding unsigned_take_bit_eq by (rule take_bit_nat_less_exp)
    ultimately show ?thesis by (simp only: n_def)
  qed
  then have "tvlv_valid (True, IE (inp ! ofs) ?v)" using l by simp
  ultimately show ?thesis by metis
qed

lemma tvlv_nonempty: "tvlv le \<noteq> []"
  by (cases le rule: tvlv.cases) simp

interpretation expand: element_walk expand_tlv_loop tvlv_valid tvlv "\<lambda>le. tl16v (snd le)"
proof unfold_locales
  show "expand_tlv_loop inp ofs = Inr []" if "length inp \<le> ofs" for inp ofs
    using that by (subst expand_tlv_loop.simps) simp
qed (fact tvlv_nonempty expand_element expand_parses)+


fun tl16v_valid :: "ie \<Rightarrow> bool" where
  "tl16v_valid (IE t v) \<longleftrightarrow> length v < 2 ^ 16"

lemma of_nat_16_le: "n < 2 ^ 16 \<Longrightarrow> (of_nat n :: u16) \<le> 0x7f \<longleftrightarrow> n \<le> 127"
  by (simp add: word_le_nat_alt unat_of_nat)

lemma compact_element:
  assumes "tl16v_valid e" "drop ofs inp = tl16v e @ rest"
  shows "compact_tlv_loop inp ofs =
    map_result (\<lambda>r. tvlv (shortest e) @ r) (compact_tlv_loop inp (ofs + length (tl16v e)))"
proof -
  obtain t v where e: "e = IE t v" by (cases e)
  note d = assms(2)[unfolded e]
  have n: "unat (of_nat (length v) :: u16) = length v" "length v < 2 ^ 16"
    using assms(1) by (simp_all add: e unat_of_nat)
  note at = nth_of_drop [OF d, of 0] nth_of_drop [OF d, of 1] nth_of_drop [OF d, of 2]
  note tk = take_of_drop [OF d, of "length v" 3]
  have "push_bit 8 (ucast (inp ! (ofs + 1))) OR ucast (inp ! (ofs + 2)) = (of_nat (length v) :: u16)"
    using at by (simp add: long_len_octets or_octets_16 [unfolded One_nat_def])
  then have w: "push_bit 8 (ucast (inp ! Suc ofs)) OR ucast (inp ! Suc (Suc ofs)) = (of_nat (length v) :: u16)"
    by (simp add: eval_nat_numeral)
  have "ucast (of_nat (length v) :: u16) = (of_nat (length v) :: u8)"
    by (rule bit_word_eqI) (auto simp: bit_simps)
  with at(1) n tk w length_of_drop [OF d] show ?thesis
    by (subst compact_tlv_loop.simps)
      (simp add: e Let_def long_len_octets shortest_def of_nat_16_le numeral_3_eq_3 numeral_2_eq_2
        append_Cons_fun add.commute add.left_commute)
qed

lemma compact_parses:
  assumes "compact_tlv_loop inp ofs = Inr r" "ofs < length inp"
  shows "\<exists>e rest. tl16v_valid e \<and> drop ofs inp = tl16v e @ rest"
proof -
  let ?w = "push_bit 8 (ucast (inp ! (ofs + 1))) OR ucast (inp ! (ofs + 2)) :: u16"
  define n where "n = unat ?w"
  have f: "ofs + 3 + n \<le> length inp"
    using assms by (subst (asm) compact_tlv_loop.simps) (simp add: Let_def n_def split: if_splits)
  let ?v = "take n (drop (ofs + 3) inp)"
  have l: "length ?v = n" using f by simp
  then have "long_len ?v = [inp ! (ofs + 1), inp ! (ofs + 2)]"
    by (simp only: long_len_octets l) (simp add: n_def octets_of_or_16 octets_of_or_16 [unfolded One_nat_def])
  then have "tl16v (IE (inp ! ofs) ?v) @ drop n (drop (ofs + 3) inp) = drop ofs inp"
    using f by (simp add: drop_eq_Cons3 del: drop_drop)
  moreover have "n < 2 ^ 16" using unsigned_less [of ?w] by (simp add: n_def)
  then have "tl16v_valid (IE (inp ! ofs) ?v)" using l by simp
  ultimately show ?thesis by metis
qed

lemma tl16v_nonempty: "tl16v e \<noteq> []"
  by (cases e) simp

interpretation compact: element_walk compact_tlv_loop tl16v_valid tl16v "\<lambda>e. tvlv (shortest e)"
proof unfold_locales
  show "compact_tlv_loop inp ofs = Inr []" if "length inp \<le> ofs" for inp ofs
    using that by (subst compact_tlv_loop.simps) simp
qed (fact tl16v_nonempty compact_element compact_parses)+

lemma expand_tlv_part_iff:
  "expand_tlv_part xs = Inr ys \<longleftrightarrow>
   (\<exists>les. list_all tvlv_valid les \<and> xs = concat (map tvlv les) \<and> ys = concat (map (tl16v \<circ> snd) les))"
  using expand.walk_iff [of xs 0 ys] by (simp add: expand_tlv_part_def comp_def)

lemma compact_tlv_part_iff:
  "compact_tlv_part xs = Inr ys \<longleftrightarrow>
   (\<exists>es. list_all tl16v_valid es \<and> xs = concat (map tl16v es) \<and> ys = concat (map (tvlv \<circ> shortest) es))"
  using compact.walk_iff [of xs 0 ys] by (simp add: compact_tlv_part_def comp_def)

lemma shortest_valid: "tvlv_valid (l, e) \<Longrightarrow> tvlv_valid (shortest e)"
  by (cases e) (auto simp: shortest_def split: if_splits)

lemma valid_expanded: "tvlv_valid le \<Longrightarrow> tl16v_valid (snd le)"
  by (cases le rule: tvlv.cases) (auto split: if_splits)

lemma length_shortest: "tvlv_valid le \<Longrightarrow> length (tvlv (shortest (snd le))) \<le> length (tvlv le)"
  by (cases le rule: tvlv.cases) (auto simp: shortest_def long_len_octets split: if_splits)

lemma compact_expand_part:
  assumes "expand_tlv_part xs = Inr ys"
  shows "\<exists>zs. compact_tlv_part ys = Inr zs \<and> expand_tlv_part zs = Inr ys \<and> length zs \<le> length xs"
proof -
  obtain les where les: "list_all tvlv_valid les" "xs = concat (map tvlv les)"
    "ys = concat (map (tl16v \<circ> snd) les)"
    using assms by (auto simp: expand_tlv_part_iff)
  let ?es = "map snd les"
  have "compact_tlv_part ys = Inr (concat (map (tvlv \<circ> shortest) ?es))"
    unfolding compact_tlv_part_iff using les
    by (intro exI [of _ ?es]) (auto simp: list_all_iff valid_expanded)
  moreover have "expand_tlv_part (concat (map (tvlv \<circ> shortest) ?es)) = Inr ys"
    unfolding expand_tlv_part_iff using les
    by (intro exI [of _ "map shortest ?es"]) (auto simp: list_all_iff comp_def shortest_def [THEN arg_cong, of snd] dest: shortest_valid)
  moreover have "length (concat (map (tvlv \<circ> shortest) ?es)) \<le> length xs"
    using les(1) unfolding les(2) by (induction les) (auto simp: dest: length_shortest)
  ultimately show ?thesis by blast
qed


section \<open>Frame check sequence: lemmas\<close>

text \<open>The register of the generator polynomial, clocked once for each bit, low bit first.\<close>

definition crc24_bit :: "24 word \<Rightarrow> 24 word" where
  "crc24_bit r = drop_bit 1 r XOR (if bit r 0 then 0xad85dd else 0)"

interpretation crc24: reversible_register crc24_bit
proof unfold_locales
  show "crc24_bit (a XOR b) = crc24_bit a XOR crc24_bit b" for a b
    unfolding crc24_bit_def by (rule bit_word_eqI) (auto simp: bit_simps)
  show "a = 0" if "crc24_bit a = 0" for a
  proof -
    have "bit (0xad85dd :: 24 word) 23" by simp
    moreover have "\<not> bit (drop_bit 1 a) 23"
      using bit_imp_le_length [of a 24] by (auto simp: bit_simps)
    moreover have "bit (crc24_bit a) 23 \<longleftrightarrow> False" using that by simp
    ultimately have odd: "\<not> bit a 0"
      by (auto simp: crc24_bit_def bit_xor_iff split: if_splits)
    with that have "drop_bit 1 a = 0" by (simp add: crc24_bit_def)
    have "\<not> bit a n" for n
    proof (cases n)
      case (Suc m)
      have "bit a (Suc m) \<longleftrightarrow> bit (drop_bit 1 a) m" by (simp add: bit_drop_bit_eq)
      then show ?thesis using Suc \<open>drop_bit 1 a = 0\<close> by simp
    qed (use odd in simp)
    then show "a = 0" by (simp add: bit_eq_iff)
  qed
qed

lemma crc24_bit_eval:
  "crc24_bit (numeral v) = drop_bit 1 (numeral v) XOR (if odd (numeral v :: 24 word) then 0xad85dd else 0)"
  "crc24_bit 1 = 0xad85dd"
  by (simp_all add: crc24_bit_def bit_0)

abbreviation crc24_octet :: "24 word \<Rightarrow> 24 word" where
  "crc24_octet \<equiv> crc24_bit ^^ 8"

lemma crc24_bit_shift: "crc24_bit (2 ^ Suc n) = 2 ^ n" if "Suc n < 24"
proof -
  have "crc24_bit (2 ^ Suc n) = drop_bit 1 (2 ^ Suc n)" by (simp add: crc24_bit_def bit_simps)
  also have "\<dots> = 2 ^ n" by (rule bit_word_eqI) (use that in \<open>auto simp: bit_simps\<close>)
  finally show ?thesis .
qed

lemma crc24_bit_pow_shift: "m + n < 24 \<Longrightarrow> (crc24_bit ^^ n) (2 ^ (m + n)) = 2 ^ m"
proof (induction n)
  case (Suc n)
  then show ?case using crc24_bit_shift [of "m + n"] by (simp add: funpow_Suc_right del: funpow.simps)
qed simp

definition crc24_basis :: "24 word list" where
  "crc24_basis = map (\<lambda>k. crc24_octet (2 ^ k)) [0..<8]"

lemma crc24_basis_eval:
  "crc24_basis = [0xd6a776, 0xf64557, 0xb78115, 0x340991, 0x681322, 0xd02644, 0xfb4733, 0xad85dd]"
  by (simp add: crc24_basis_def upt_rec crc24.iterate_numeral crc24_bit_eval)

lemma tbl_crc24_eq: "tbl_crc24 = map ucast (xor_span crc24_basis)"
  unfolding crc24_basis_eval by (simp add: xor_span_def tbl_crc24_def)

lemma crc24_octet_eq:
  "crc24_octet w = drop_bit 8 w XOR xor_upto 8 (\<lambda>k. if bit w k then crc24_basis ! k else 0)"
proof (rule xor_linear_eqI [where f = crc24_octet])
  show "crc24_octet (a XOR b) = crc24_octet a XOR crc24_octet b" for a b by (rule crc24.iterate_xor)
next
  fix a b :: "24 word"
  have "(\<lambda>k. if bit (a XOR b) k then crc24_basis ! k else 0)
    = (\<lambda>k. (if bit a k then crc24_basis ! k else 0) XOR (if bit b k then crc24_basis ! k else 0))"
    by (auto simp: bit_simps)
  then show "drop_bit 8 (a XOR b) XOR xor_upto 8 (\<lambda>k. if bit (a XOR b) k then crc24_basis ! k else 0)
    = (drop_bit 8 a XOR xor_upto 8 (\<lambda>k. if bit a k then crc24_basis ! k else 0)) XOR
      (drop_bit 8 b XOR xor_upto 8 (\<lambda>k. if bit b k then crc24_basis ! k else 0))"
    by (simp only: xor_upto_xor drop_bit_xor) (simp add: xor.assoc xor.left_commute)
next
  fix n assume n: "n < LENGTH(24)"
  have "(\<lambda>k. if bit (2 ^ n :: 24 word) k then crc24_basis ! k else 0)
    = (\<lambda>k. if k = n then crc24_basis ! k else 0)"
    using n by (auto simp: bit_simps)
  then have s: "xor_upto 8 (\<lambda>k. if bit (2 ^ n :: 24 word) k then crc24_basis ! k else 0)
    = (if n < 8 then crc24_basis ! n else 0)"
    using xor_upto_single [of n 8 "(!) crc24_basis"] xor_upto_cong [of 8 "\<lambda>k. if k = n then crc24_basis ! k else 0" "\<lambda>k. 0"]
    by (cases "n < 8") simp_all
  show "crc24_octet (2 ^ n) = drop_bit 8 (2 ^ n) XOR
      xor_upto 8 (\<lambda>k. if bit (2 ^ n :: 24 word) k then crc24_basis ! k else 0)"
  proof (cases "n < 8")
    case True
    have "drop_bit 8 (2 ^ n :: 24 word) = 0"
      by (rule bit_word_eqI) (use True in \<open>auto simp: bit_simps\<close>)
    with True s show ?thesis by (simp add: crc24_basis_def)
  next
    case False
    have "drop_bit 8 (2 ^ n :: 24 word) = 2 ^ (n - 8)"
      by (rule bit_word_eqI) (use False n in \<open>auto simp: bit_simps\<close>)
    with False s n show ?thesis using crc24_bit_pow_shift [of "n - 8" 8] by simp
  qed
qed


text \<open>One round of the loop on a 24-bit remainder is eight clocks of the register.\<close>

lemma crc24_round:
  fixes r :: "24 word" and c :: u8
  shows "drop_bit 8 (ucast r) XOR tbl_crc24 ! unat ((ucast r XOR ucast c) AND (0xff :: u32)) =
    (ucast (crc24_octet (r XOR ucast c)) :: u32)"
proof -
  let ?i = "unat ((ucast r XOR ucast c) AND (0xff :: u32))"
  let ?w = "r XOR ucast c"
  have m: "(0xff :: u32) = mask 8" by (simp add: mask_eq_exp_minus_1)
  have "?i < 2 ^ 8"
    unfolding m take_bit_eq_mask [symmetric] unsigned_take_bit_eq by (rule take_bit_nat_less_exp)
  have l: "length crc24_basis = 8" by (simp add: crc24_basis_def)
  have b: "bit ?i k \<longleftrightarrow> k < 8 \<and> bit ?w k" for k
    unfolding m by (auto simp: bit_simps)
  have "xor_upto 8 (\<lambda>k. if bit ?i k then crc24_basis ! k else 0)
    = xor_upto 8 (\<lambda>k. if bit ?w k then crc24_basis ! k else 0)"
    by (rule xor_upto_cong) (simp only: b simp_thms)
  then have "tbl_crc24 ! ?i = ucast (xor_upto 8 (\<lambda>k. if bit ?w k then crc24_basis ! k else 0))"
    using \<open>?i < 2 ^ 8\<close> by (simp add: tbl_crc24_eq length_xor_span nth_xor_span l)
  moreover have "drop_bit 8 (ucast r :: u32) = ucast (drop_bit 8 ?w)"
    by (rule bit_word_eqI) (auto simp: bit_simps dest: bit_imp_le_length)
  ultimately show ?thesis by (simp add: crc24_octet_eq unsigned_xor_eq)
qed

lemma crc24_calc_eq:
  "crc24_calc (ucast r) cp = ucast (foldl (\<lambda>r c. crc24_octet (r XOR ucast c)) r cp)"
  by (induction cp arbitrary: r) (simp_all add: crc24_round)

lemma crc24_foldl_inject:
  "foldl (\<lambda>r c. crc24_octet (r XOR ucast c)) r cp = foldl (\<lambda>r c. crc24_octet (r XOR ucast c)) s cp \<longleftrightarrow> r = s"
  by (induction cp arbitrary: r s) (simp_all add: crc24.iterate_inject)

text \<open>Octets shifted in one after the other are shifted in together.\<close>

lemma crc24_octet_push: "k \<le> 8 \<Longrightarrow> crc24_octet (push_bit (k + 8) (ucast (c :: u8))) = push_bit k (ucast c)"
proof -
  have "xor_upto 8 (\<lambda>i. if bit (push_bit (k + 8) (ucast c) :: 24 word) i then crc24_basis ! i else 0)
    = xor_upto 8 (\<lambda>i. 0)"
    by (rule xor_upto_cong) (simp add: bit_simps)
  moreover assume "k \<le> 8"
  then have "drop_bit 8 (push_bit (k + 8) (ucast c)) = (push_bit k (ucast c) :: 24 word)"
    by (intro bit_word_eqI) (auto simp: bit_simps dest: bit_imp_le_length)
  ultimately show ?thesis by (simp add: crc24_octet_eq)
qed

lemma crc24_three:
  "foldl (\<lambda>r c. crc24_octet (r XOR ucast c)) r [a, b, c] =
   (crc24_bit ^^ 24) (r XOR ucast a XOR push_bit 8 (ucast b) XOR push_bit 16 (ucast c))"
  for a b c :: u8
proof -
  have a: "(crc24_bit ^^ 24) v = crc24_octet (crc24_octet (crc24_octet v))" for v
    by (simp add: crc24.iterate_add)
  have 1: "crc24_octet (push_bit 8 (ucast b)) = ucast b" for b :: u8
    using crc24_octet_push [of 0 b] by simp
  have 2: "crc24_octet (push_bit 16 (ucast b)) = push_bit 8 (ucast b)" for b :: u8
    using crc24_octet_push [of 8 b] by simp
  show ?thesis by (simp add: a crc24.iterate_xor 1 2 xor.assoc)
qed


lemma crc24_pack:
  "ucast (octet_of 0 w) XOR push_bit 8 (ucast (octet_of 1 w)) XOR push_bit 16 (ucast (octet_of 2 w)) = (w :: 24 word)"
proof (rule bit_word_eqI)
  fix n assume "n < LENGTH(24)"
  then consider "n < 8" | "8 \<le> n" "n < 16" | "16 \<le> n" "n < 24" by fastforce
  then show "bit (ucast (octet_of 0 w) XOR push_bit 8 (ucast (octet_of 1 w)) XOR
      push_bit 16 (ucast (octet_of 2 w)) :: 24 word) n \<longleftrightarrow> bit w n"
    by cases (auto simp: bit_simps dest: bit_imp_le_length)
qed

lemma crc24_unpack:
  fixes a b c :: u8
  defines "w \<equiv> ucast a XOR push_bit 8 (ucast b) XOR push_bit 16 (ucast c) :: 24 word"
  shows "octet_of 0 w = a" "octet_of 1 w = b" "octet_of 2 w = c"
  unfolding w_def by (rule bit_word_eqI, auto simp: bit_simps dest: bit_imp_le_length)+

abbreviation crc24_state :: "octets \<Rightarrow> 24 word" where
  "crc24_state m \<equiv> foldl (\<lambda>r c. crc24_octet (r XOR ucast c)) (- 1) m"

lemma init_crc24: "INIT_CRC24 = ucast (- 1 :: 24 word)"
  by (simp add: INIT_CRC24_def unsigned_minus_1_eq_mask mask_eq_exp_minus_1)

lemma f_LLC_compute_fcs_eq:
  "f_LLC_compute_fcs m = (let w = NOT (crc24_state m) in [octet_of 0 w, octet_of 1 w, octet_of 2 w])"
proof -
  have m24: "(0xffffff :: u32) = mask 24" by (simp add: mask_eq_exp_minus_1)
  have "octet_of k (NOT (ucast r) AND (0xffffff :: u32)) = octet_of k (NOT r)" if "k < 3" for r :: "24 word" and k
    unfolding m24 by (rule bit_word_eqI) (use that in \<open>auto simp: bit_simps dest: bit_imp_le_length\<close>)
  from this [of 0] this [of 1] this [of 2] show ?thesis
    by (simp add: f_LLC_compute_fcs_def init_crc24 crc24_calc_eq Let_def)
qed

lemma f_LLC_compute_fcs_inject: "f_LLC_compute_fcs m = f_LLC_compute_fcs m' \<longleftrightarrow> crc24_state m = crc24_state m'"
proof
  assume "f_LLC_compute_fcs m = f_LLC_compute_fcs m'"
  then have "octet_of 0 (NOT (crc24_state m)) = octet_of 0 (NOT (crc24_state m'))"
    "octet_of 1 (NOT (crc24_state m)) = octet_of 1 (NOT (crc24_state m'))"
    "octet_of 2 (NOT (crc24_state m)) = octet_of 2 (NOT (crc24_state m'))"
    by (simp_all add: f_LLC_compute_fcs_eq Let_def)
  then have "NOT (crc24_state m) = NOT (crc24_state m')"
    using crc24_pack [of "NOT (crc24_state m)"] crc24_pack [of "NOT (crc24_state m')"] by simp
  then show "crc24_state m = crc24_state m'" by simp
qed (simp add: f_LLC_compute_fcs_eq)

text \<open>
  C32. The table-driven loop computes the remainder that clocking the 24-bit register of the
  generator polynomial once for every bit computes, low bit first.
\<close>

theorem crc24_table_is_bitwise:
  "crc24_calc (ucast r) cp = ucast (foldl (\<lambda>r c. (crc24_bit ^^ 8) (r XOR ucast c)) r cp)"
  by (rule crc24_calc_eq)

lemma crc24_residue: "(crc24_bit ^^ 24) (- 1) = 0xc91b6"
proof -
  have "(- 1 :: 24 word) = 0xffffff" by simp
  then show ?thesis by (simp only:) (simp add: crc24.iterate_numeral crc24_bit_eval)
qed

text \<open>
  A frame with its frame check sequence appended always leaves the same remainder, which is how
  a receiver checks it.
\<close>

theorem fcs_residue: "crc24_calc INIT_CRC24 (m @ f_LLC_compute_fcs m) = 0xc91b6"
proof -
  let ?r = "crc24_state m"
  have "foldl (\<lambda>r c. crc24_octet (r XOR ucast c)) ?r (f_LLC_compute_fcs m) = (crc24_bit ^^ 24) (?r XOR NOT ?r)"
    using crc24_three [of ?r] crc24_pack [of "NOT ?r"]
    by (simp add: f_LLC_compute_fcs_eq Let_def xor.assoc del: funpow.simps)
  then show ?thesis by (simp add: init_crc24 crc24_calc_eq crc24_residue)
qed

text \<open>
  C28. The frame check sequence detects every change confined to three consecutive octets: two
  frames that agree elsewhere have the same sequence only if they are the same frame.
\<close>

theorem fcs_detects_three_octets:
  "f_LLC_compute_fcs (pre @ [a, b, c] @ post) = f_LLC_compute_fcs (pre @ [a', b', c'] @ post) \<longleftrightarrow>
   a = a' \<and> b = b' \<and> c = c'"
proof -
  let ?p = "\<lambda>a b c. ucast a XOR push_bit 8 (ucast b) XOR push_bit 16 (ucast c) :: 24 word"
  have "?p a b c = ?p a' b' c' \<longleftrightarrow> a = a' \<and> b = b' \<and> c = c'"
    by (metis crc24_unpack)
  then show ?thesis
    using crc24_three [of "crc24_state pre" a b c] crc24_three [of "crc24_state pre" a' b' c']
    by (simp add: f_LLC_compute_fcs_inject crc24_foldl_inject crc24.iterate_inject xor.assoc del: funpow.simps)
qed

section \<open>Properties\<close>

text \<open>
  C23. Expanding the length fields succeeds exactly on a sequence of information elements, each with
  a one-octet length and less than 128 octets of value or a two-octet length below 32768, and its
  result is the same sequence with a two-octet length in every element.
\<close>

theorem expand_tlv_part_correct:
  "expand_tlv_part xs = Inr ys \<longleftrightarrow>
   (\<exists>les. list_all tvlv_valid les \<and> xs = concat (map tvlv les) \<and> ys = concat (map (tl16v \<circ> snd) les))"
  by (rule expand_tlv_part_iff)

text \<open>
  C17. Compacting an expanded BSSGP message succeeds, the result expands to the same message, and it
  is never longer than the message that was expanded: the compact form is a normal form, and the
  header in front of the elements, eight octets for the two UNITDATA types and one octet for the
  others, is kept.
\<close>

theorem f_BSSGP_compact_expand:
  assumes "f_BSSGP_expand_len xs = Inr ys"
  shows "\<exists>zs. f_BSSGP_compact_len ys = Inr zs \<and> f_BSSGP_expand_len zs = Inr ys \<and> length zs \<le> length xs"
proof -
  let ?n = "bssgp_static_hdr_len (xs ! 0)"
  have n: "0 < ?n" by (simp add: bssgp_static_hdr_len_def)
  from assms obtain t where t: "?n \<le> length xs" "expand_tlv_part (drop ?n xs) = Inr t" "ys = take ?n xs @ t"
    by (auto simp: f_BSSGP_expand_len_def Let_def split: if_splits)
  from compact_expand_part [OF t(2)] obtain zs where zs: "compact_tlv_part t = Inr zs"
    "expand_tlv_part zs = Inr t" "length zs \<le> length (drop ?n xs)" by blast
  have h: "(take ?n xs @ w) ! 0 = xs ! 0" "take ?n xs @ w \<noteq> []" "length (take ?n xs) = ?n" for w
    using n t(1) by (auto simp: nth_append)
  show ?thesis
    by (rule exI [of _ "take ?n xs @ zs"])
      (use t zs h in \<open>simp add: f_BSSGP_expand_len_def f_BSSGP_compact_len_def Let_def\<close>)
qed

theorem f_BSSGP_compact_expand_witness:
  "\<exists>zs. f_BSSGP_compact_len [0x22, 4, 0, 2, 9, 9] = Inr zs \<and>
    f_BSSGP_expand_len zs = Inr [0x22, 4, 0, 2, 9, 9] \<and> length zs \<le> length [0x22, 4, 0x82, 9, 9 :: u8]"
proof (rule f_BSSGP_compact_expand)
  show "f_BSSGP_expand_len [0x22, 4, 0x82, 9, 9] = Inr [0x22, 4, 0, 2, 9, 9]"
    by code_simp
qed

text \<open>
  Expansion checks the length of an element against the whole input: an element that announces
  more octets than are left is not refused as long as the elements before it make up for the
  difference, and its value is copied from past the end of the buffer.
\<close>

theorem expand_overlong_element:
  assumes "list_all tvlv_valid les" "n < 128" "length v < n"
    "n \<le> length v + length (concat (map tvlv les))"
  shows "expand_tlv_part (concat (map tvlv les) @ [t, 0x80 OR of_nat n] @ v) = Inl OutOfBounds"
proof -
  let ?pre = "concat (map tvlv les)"
  let ?inp = "?pre @ [t, 0x80 OR of_nat n] @ v"
  have at: "?inp ! (length ?pre + 1) = 0x80 OR of_nat n"
    by (simp add: nth_append)
  have n: "unat (of_nat n :: u16) = n" using assms(2) by (simp add: unat_of_nat)
  have "expand_tlv_loop ?inp (length ?pre) = Inl OutOfBounds"
    using assms
    by (subst expand_tlv_loop.simps) (simp only: Let_def at short_len [OF assms(2)], simp add: n)
  then show ?thesis
    using expand.walk_prefix [OF assms(1), of 0 ?inp "[t, 0x80 OR of_nat n] @ v"]
    by (simp add: expand_tlv_part_def)
qed

theorem expand_overlong_element_witness:
  "expand_tlv_part (concat (map tvlv [(False, IE 4 [1, 2, 3])]) @ [5, 0x80 OR of_nat 2] @ [7]) = Inl OutOfBounds"
  by (rule expand_overlong_element) simp_all

end
