(* ===== verification/IuUP_EncDec.thy ===== *)
theory IuUP_EncDec
  imports Xor_Linear
begin

text \<open>
  \<^verbatim>\<open>library/IuUP_EncDec.cc\<close>: the checksums of the Iu user plane protocol, six bits over the
  header and ten bits over the payload, and the encoder that inserts them into the octets the
  runtime's encoder has made of a PDU.
\<close>

unbundle bit_operations_syntax

section \<open>Unpacking bits\<close>

text \<open>
  The bits of one octet, high bit first. The test whether the output is full comes after each bit,
  so an octet that is looked at yields one bit even when there is no room.
\<close>

definition octet_ubits :: "u8 \<Rightarrow> nat \<Rightarrow> u8 list" where
  "octet_ubits byte room = map (\<lambda>k. drop_bit (7 - k) byte AND 1) [0..<max 1 (min 8 room)]"

text \<open>The loop over the octets, from index \<open>i\<close>, with the rounds and the room that are left.\<close>

fun pbit2ubit_loop :: "octets \<Rightarrow> nat \<Rightarrow> nat \<Rightarrow> nat \<Rightarrow> u8 list result" where
  "pbit2ubit_loop inp i 0 room = Inr []"
| "pbit2ubit_loop inp i (Suc m) room =
     (if i < length inp
      then if room \<le> 8 then Inr (octet_ubits (inp ! i) room)
           else map_result (\<lambda>r. octet_ubits (inp ! i) room @ r) (pbit2ubit_loop inp (i + 1) m (room - 8))
      else Inl OutOfBounds)"

text \<open>The output array has \<open>out_len\<close> elements.\<close>

definition osmo_pbit2ubit :: "nat \<Rightarrow> octets \<Rightarrow> nat \<Rightarrow> u8 list result" where
  "osmo_pbit2ubit out_len inp num_bits =
    bind_result (pbit2ubit_loop inp 0 (num_bits div 8 + 1) num_bits)
      (\<lambda>bits. if out_len < length bits then Inl OutOfBounds else Inr bits)"

section \<open>Checksums\<close>

record osmo_crc8gen_code =
  bits8 :: nat
  poly8 :: u8
  init8 :: u8
  remainder8 :: u8

definition crc8gen_step :: "osmo_crc8gen_code \<Rightarrow> u8 \<Rightarrow> u8 \<Rightarrow> u8" where
  "crc8gen_step code crc b =
    (let n = bits8 code - 1;
         crc1 = crc XOR push_bit n (b AND 1);
         crc2 = (if crc1 AND push_bit n 1 \<noteq> 0 then push_bit 1 crc1 XOR poly8 code else push_bit 1 crc1)
     in crc2 AND (push_bit (bits8 code) 1 - 1))"

definition osmo_crc8gen_compute_bits :: "osmo_crc8gen_code \<Rightarrow> u8 list \<Rightarrow> u8" where
  "osmo_crc8gen_compute_bits code inp = foldl (crc8gen_step code) (init8 code) inp XOR remainder8 code"

record osmo_crc16gen_code =
  bits16 :: nat
  poly16 :: u16
  init16 :: u16
  remainder16 :: u16

definition crc16gen_step :: "osmo_crc16gen_code \<Rightarrow> u16 \<Rightarrow> u8 \<Rightarrow> u16" where
  "crc16gen_step code crc b =
    (let n = bits16 code - 1;
         crc1 = crc XOR push_bit n (ucast (b AND 1));
         crc2 = (if crc1 AND push_bit n 1 \<noteq> 0 then push_bit 1 crc1 XOR poly16 code else push_bit 1 crc1)
     in crc2 AND (push_bit (bits16 code) 1 - 1))"

definition osmo_crc16gen_compute_bits :: "osmo_crc16gen_code \<Rightarrow> u8 list \<Rightarrow> u16" where
  "osmo_crc16gen_compute_bits code inp = foldl (crc16gen_step code) (init16 code) inp XOR remainder16 code"

definition iuup_hdr_crc_code :: osmo_crc8gen_code where
  "iuup_hdr_crc_code = \<lparr>bits8 = 6, poly8 = 47, init8 = 0, remainder8 = 0\<rparr>"

definition iuup_data_crc_code :: osmo_crc16gen_code where
  "iuup_data_crc_code = \<lparr>bits16 = 10, poly16 = 563, init16 = 0, remainder16 = 0\<rparr>"

section \<open>PDUs\<close>

definition iuup_get_payload_offset :: "octets \<Rightarrow> int" where
  "iuup_get_payload_offset iuup_pdu =
    (let pdu_type = drop_bit 4 (iuup_pdu ! 0) in
     if pdu_type = 0 \<or> pdu_type = 14 then 4 else if pdu_type = 1 then 3 else -1)"

definition osmo_iuup_compute_payload_crc :: "octets \<Rightarrow> int result" where
  "osmo_iuup_compute_payload_crc iuup_pdu =
    (if length iuup_pdu < 1 then Inr (-1)
     else if drop_bit 4 (iuup_pdu ! 0) = 1 then Inr 0
     else let offset = iuup_get_payload_offset iuup_pdu in
       if offset < 0 then Inr offset
       else if length iuup_pdu < nat offset then Inr (-1)
       else let payload_len_bytes = length iuup_pdu - nat offset in
         map_result (\<lambda>buf. uint (osmo_crc16gen_compute_bits iuup_data_crc_code (take (payload_len_bytes * 8) buf)))
           (osmo_pbit2ubit (1024 * 8) (drop (nat offset) iuup_pdu) (payload_len_bytes * 8)))"

definition osmo_iuup_compute_header_crc :: "octets \<Rightarrow> int result" where
  "osmo_iuup_compute_header_crc iuup_pdu =
    (if length iuup_pdu < 2 then Inr (-1)
     else map_result (\<lambda>buf. uint (osmo_crc8gen_compute_bits iuup_hdr_crc_code buf))
            (osmo_pbit2ubit (2 * 8) iuup_pdu (2 * 8)))"

definition f_IuUP_compute_crc_payload :: "octets \<Rightarrow> int result" where
  "f_IuUP_compute_crc_payload inp = osmo_iuup_compute_payload_crc inp"

definition f_IuUP_compute_crc_header :: "octets \<Rightarrow> int result" where
  "f_IuUP_compute_crc_header inp = osmo_iuup_compute_header_crc inp"

text \<open>The runtime's \<^verbatim>\<open>substr\<close> raises an error when the part is not within the string.\<close>

definition ttcn_substr :: "octets \<Rightarrow> int \<Rightarrow> int \<Rightarrow> octets result" where
  "ttcn_substr xs idx returncount =
    (if idx < 0 \<or> returncount < 0 \<or> int (length xs) < idx + returncount then Inl TtcnError
     else Inr (take (nat returncount) (drop (nat idx) xs)))"

text \<open>The argument is what the runtime's RAW encoder makes of the PDU.\<close>

definition f_enc_IuUP_PDU :: "octets \<Rightarrow> octets result" where
  "f_enc_IuUP_PDU ret_val =
    bind_result (osmo_iuup_compute_header_crc ret_val) (\<lambda>crc_hdr.
    bind_result (osmo_iuup_compute_payload_crc ret_val) (\<lambda>crc_payload.
      let in0 = word_of_int (push_bit 2 (crc_hdr AND 0x3f)) OR word_of_int (drop_bit 8 (crc_payload AND 0x3ff));
          in1 = word_of_int (crc_payload AND 0xff)
      in bind_result (ttcn_substr ret_val 0 2) (\<lambda>a.
         bind_result (ttcn_substr ret_val 4 (int (length ret_val) - 4)) (\<lambda>b.
           Inr (a @ [in0, in1] @ b)))))"

section \<open>Unpacking bits: lemmas\<close>

abbreviation ubits :: "octets \<Rightarrow> u8 list" where
  "ubits xs \<equiv> concat (map (\<lambda>x. octet_ubits x 8) xs)"

lemma length_octet_ubits [simp]: "length (octet_ubits x 8) = 8"
  by (simp add: octet_ubits_def)

lemma length_ubits [simp]: "length (ubits xs) = 8 * length xs"
  by (induction xs) simp_all

lemma octet_ubits_room: "8 \<le> room \<Longrightarrow> octet_ubits x room = octet_ubits x 8"
  by (simp add: octet_ubits_def)

lemma pbit2ubit_loop_eq:
  "i + n \<le> length inp \<Longrightarrow> 0 < n \<Longrightarrow>
   pbit2ubit_loop inp i (Suc n) (8 * n) = Inr (ubits (take n (drop i inp)))"
proof (induction n arbitrary: i)
  case (Suc n)
  then have "drop i inp = inp ! i # drop (i + 1) inp"
    by (simp add: Cons_nth_drop_Suc)
  then have d: "ubits (take (Suc n) (drop i inp)) = octet_ubits (inp ! i) 8 @ ubits (take n (drop (i + 1) inp))"
    by simp
  show ?case
  proof (cases "n = 0")
    case True
    with Suc.prems d show ?thesis by simp
  next
    case False
    then have "pbit2ubit_loop inp (i + 1) (Suc n) (8 * n) = Inr (ubits (take n (drop (i + 1) inp)))"
      using Suc by simp
    moreover have "octet_ubits (inp ! i) (8 * Suc n) = octet_ubits (inp ! i) 8"
      by (rule octet_ubits_room) simp
    then have "pbit2ubit_loop inp i (Suc (Suc n)) (8 * Suc n) =
        map_result (\<lambda>r. octet_ubits (inp ! i) 8 @ r) (pbit2ubit_loop inp (i + 1) (Suc n) (8 * n))"
      using Suc.prems False
      by (subst pbit2ubit_loop.simps(2)) (simp del: pbit2ubit_loop.simps)
    ultimately show ?thesis by (simp only: d map_result_Inr)
  qed
qed simp

lemma osmo_pbit2ubit_eq:
  assumes "0 < n" "n \<le> length inp" "8 * n \<le> out_len"
  shows "osmo_pbit2ubit out_len inp (n * 8) = Inr (ubits (take n inp))"
  using assms pbit2ubit_loop_eq [of 0 n inp] by (simp add: osmo_pbit2ubit_def mult.commute min_def)

lemma nth_octet_ubits: "i < 8 \<Longrightarrow> octet_ubits x 8 ! i = drop_bit (7 - i) x AND 1"
  by (simp add: octet_ubits_def del: upt_Suc)

lemma octet_ubits_inject: "octet_ubits x 8 = octet_ubits y 8 \<longleftrightarrow> x = y"
proof
  assume "octet_ubits x 8 = octet_ubits y 8"
  then have "octet_ubits x 8 ! (7 - k) = octet_ubits y 8 ! (7 - k)" for k by simp
  moreover have "octet_ubits x 8 ! (7 - k) = drop_bit k x AND 1" if "k < 8" for x k
    using that nth_octet_ubits [of "7 - k" x] by simp
  ultimately have "drop_bit k x AND 1 = drop_bit k y AND 1" if "k < 8" for k
    using that by metis
  then have "bit x k = bit y k" if "k < 8" for k
    using that by (metis and_1_bit)
  then show "x = y" by (auto intro: bit_word_eqI)
qed simp

section \<open>The two registers\<close>

definition crc6_step :: "6 word \<Rightarrow> 6 word" where
  "crc6_step r = push_bit 1 r XOR (if bit r 5 then 47 else 0)"

definition crc10_step :: "10 word \<Rightarrow> 10 word" where
  "crc10_step r = push_bit 1 r XOR (if bit r 9 then 563 else 0)"

interpretation crc6: crc_register crc6_step
proof unfold_locales
  show "crc6_step (a XOR b) = crc6_step a XOR crc6_step b" for a b
    unfolding crc6_step_def by (rule bit_word_eqI) (auto simp: bit_simps)
  show "a = 0" if "crc6_step a = 0" for a
  proof -
    have "bit (crc6_step a) 0 \<longleftrightarrow> bit a 5"
      by (simp add: crc6_step_def bit_xor_iff bit_push_bit_iff del: push_bit_Suc)
    with that have "\<not> bit a 5" by simp
    with that show ?thesis using shift_left_lost [of a] by (simp add: crc6_step_def)
  qed
  show "crc6_step (2 ^ n) = 2 ^ Suc n" if "Suc n < LENGTH(6)" for n
    using that by (simp add: crc6_step_def bit_simps push_bit_eq_mult)
qed

interpretation crc10: crc_register crc10_step
proof unfold_locales
  show "crc10_step (a XOR b) = crc10_step a XOR crc10_step b" for a b
    unfolding crc10_step_def by (rule bit_word_eqI) (auto simp: bit_simps)
  show "a = 0" if "crc10_step a = 0" for a
  proof -
    have "bit (crc10_step a) 0 \<longleftrightarrow> bit a 9"
      by (simp add: crc10_step_def bit_xor_iff bit_push_bit_iff del: push_bit_Suc)
    with that have "\<not> bit a 9" by simp
    with that show ?thesis using shift_left_lost [of a] by (simp add: crc10_step_def)
  qed
  show "crc10_step (2 ^ n) = 2 ^ Suc n" if "Suc n < LENGTH(10)" for n
    using that by (simp add: crc10_step_def bit_simps push_bit_eq_mult)
qed

lemma crc16gen_step_eq:
  "crc16gen_step iuup_data_crc_code (ucast r) b = ucast (take_in crc10_step r (bit b 0))"
proof -
  define r1 where "r1 = r XOR (if bit b 0 then 2 ^ 9 else 0)"
  have n: "bits16 iuup_data_crc_code - 1 = 9" "bits16 iuup_data_crc_code = 10" "poly16 iuup_data_crc_code = 563"
    "10 - 1 = (9 :: nat)"
    by (simp_all add: iuup_data_crc_code_def)
  have 1: "ucast r XOR push_bit 9 (ucast (b AND 1)) = (ucast r1 :: u16)"
    by (simp add: r1_def ucast_and_1 unsigned_xor_eq)
  have 2: "ucast r1 AND push_bit 9 1 \<noteq> (0 :: u16) \<longleftrightarrow> bit r1 9"
    using and_exp_eq_0_iff_not_bit [of "ucast r1 :: u16" 9] by (simp add: bit_simps)
  have m: "push_bit 10 1 - 1 = (mask 10 :: u16)" and p: "(563 :: u16) = ucast (563 :: 10 word)"
    by (simp_all add: mask_eq_exp_minus_1)
  have "(if bit r1 9 then push_bit 1 (ucast r1) XOR 563 else push_bit 1 (ucast r1)) AND mask 10
    = (ucast (crc10_step r1) :: u16)"
    unfolding crc10_step_def p by (rule bit_word_eqI) (auto simp: bit_simps simp del: push_bit_Suc dest: bit_imp_le_length)
  moreover have "crc16gen_step iuup_data_crc_code (ucast r) b =
      (if ucast r1 AND push_bit 9 1 \<noteq> (0 :: u16) then push_bit 1 (ucast r1) XOR 563 else push_bit 1 (ucast r1)) AND mask 10"
    by (simp only: crc16gen_step_def Let_def n 1 m)
  ultimately show ?thesis
    by (simp only: 2) (simp add: take_in_def r1_def)
qed

lemma crc8gen_step_eq:
  "crc8gen_step iuup_hdr_crc_code (ucast r) b = ucast (take_in crc6_step r (bit b 0))"
proof -
  define r1 where "r1 = r XOR (if bit b 0 then 2 ^ 5 else 0)"
  have n: "bits8 iuup_hdr_crc_code - 1 = 5" "bits8 iuup_hdr_crc_code = 6" "poly8 iuup_hdr_crc_code = 47"
    "6 - 1 = (5 :: nat)"
    by (simp_all add: iuup_hdr_crc_code_def)
  have 1: "ucast r XOR push_bit 5 (b AND 1) = (ucast r1 :: u8)"
    using ucast_and_1 [of b, where 'b = 8] by (simp add: r1_def unsigned_xor_eq)
  have 2: "ucast r1 AND push_bit 5 1 \<noteq> (0 :: u8) \<longleftrightarrow> bit r1 5"
    using and_exp_eq_0_iff_not_bit [of "ucast r1 :: u8" 5] by (simp add: bit_simps)
  have m: "push_bit 6 1 - 1 = (mask 6 :: u8)" and p: "(47 :: u8) = ucast (47 :: 6 word)"
    by (simp_all add: mask_eq_exp_minus_1)
  have "(if bit r1 5 then push_bit 1 (ucast r1) XOR 47 else push_bit 1 (ucast r1)) AND mask 6
    = (ucast (crc6_step r1) :: u8)"
    unfolding crc6_step_def p by (rule bit_word_eqI) (auto simp: bit_simps simp del: push_bit_Suc dest: bit_imp_le_length)
  moreover have "crc8gen_step iuup_hdr_crc_code (ucast r) b =
      (if ucast r1 AND push_bit 5 1 \<noteq> (0 :: u8) then push_bit 1 (ucast r1) XOR 47 else push_bit 1 (ucast r1)) AND mask 6"
    by (simp only: crc8gen_step_def Let_def n 1 m)
  ultimately show ?thesis
    by (simp only: 2) (simp add: take_in_def r1_def)
qed

abbreviation low_bits :: "u8 list \<Rightarrow> bool list" where
  "low_bits bs \<equiv> map (\<lambda>b. bit b 0) bs"

lemma crc16_eq: "osmo_crc16gen_compute_bits iuup_data_crc_code bs = ucast (foldl (take_in crc10_step) 0 (low_bits bs))"
proof -
  have "foldl (crc16gen_step iuup_data_crc_code) (ucast r) bs = ucast (foldl (take_in crc10_step) r (low_bits bs))" for r
    by (induction bs arbitrary: r) (simp_all add: crc16gen_step_eq)
  from this [of 0] show ?thesis
    by (simp add: osmo_crc16gen_compute_bits_def) (simp add: iuup_data_crc_code_def)
qed

lemma crc8_eq: "osmo_crc8gen_compute_bits iuup_hdr_crc_code bs = ucast (foldl (take_in crc6_step) 0 (low_bits bs))"
proof -
  have "foldl (crc8gen_step iuup_hdr_crc_code) (ucast r) bs = ucast (foldl (take_in crc6_step) r (low_bits bs))" for r
    by (induction bs arbitrary: r) (simp_all add: crc8gen_step_eq)
  from this [of 0] show ?thesis
    by (simp add: osmo_crc8gen_compute_bits_def) (simp add: iuup_hdr_crc_code_def)
qed


section \<open>The checksums of a PDU\<close>

abbreviation payload_remainder :: "octets \<Rightarrow> 10 word" where
  "payload_remainder payload \<equiv> foldl (take_in crc10_step) 0 (low_bits (ubits payload))"

abbreviation header_remainder :: "octets \<Rightarrow> 6 word" where
  "header_remainder hdr \<equiv> foldl (take_in crc6_step) 0 (low_bits (ubits hdr))"

lemma payload_crc_eq:
  assumes "drop_bit 4 (h ! 0) = 0 \<or> drop_bit 4 (h ! 0) = 14" "length h = 4" "payload \<noteq> []" "length payload \<le> 1024"
  shows "osmo_iuup_compute_payload_crc (h @ payload) = Inr (uint (payload_remainder payload))"
proof -
  have "h \<noteq> []" "(h @ payload) ! 0 = h ! 0" using assms(2) by (auto simp: nth_append)
  moreover have "iuup_get_payload_offset (h @ payload) = 4"
    using assms(1,2) by (auto simp: iuup_get_payload_offset_def nth_append)
  moreover have "drop_bit 4 (h ! 0) \<noteq> 1" using assms(1) by auto
  moreover have "osmo_pbit2ubit (1024 * 8) payload (length payload * 8) = Inr (ubits payload)"
    using assms(3,4) by (simp add: osmo_pbit2ubit_eq)
  ultimately show ?thesis
    using assms(2) by (simp add: osmo_iuup_compute_payload_crc_def Let_def crc16_eq uint_ucast_up)
qed

lemma header_crc_eq:
  assumes "2 \<le> length xs"
  shows "osmo_iuup_compute_header_crc xs = Inr (uint (header_remainder (take 2 xs)))"
  using assms osmo_pbit2ubit_eq [of 2 xs 16]
  by (simp add: osmo_iuup_compute_header_crc_def crc8_eq uint_ucast_up)


lemma check_octets:
  fixes h :: "6 word" and p :: "10 word"
  defines "in0 \<equiv> word_of_int (push_bit 2 (uint h AND 0x3f)) OR word_of_int (drop_bit 8 (uint p AND 0x3ff)) :: u8"
    and "in1 \<equiv> word_of_int (uint p AND 0xff) :: u8"
  shows "uint (drop_bit 2 in0) = uint h"
    and "uint (push_bit 8 (ucast (in0 AND 3)) OR ucast in1 :: u16) = uint p"
proof -
  have m: "(0x3f :: int) = mask 6" "(0x3ff :: int) = mask 10" "(0xff :: int) = mask 8" "(3 :: u8) = mask 2"
    by (simp_all add: mask_eq_exp_minus_1)
  have b0: "bit in0 n \<longleftrightarrow> n < 8 \<and> (2 \<le> n \<and> bit h (n - 2) \<or> n < 2 \<and> bit p (n + 8))" for n
    unfolding in0_def m by (auto simp: bit_simps add.commute dest: bit_imp_le_length)
  have b1: "bit in1 n \<longleftrightarrow> n < 8 \<and> bit p n" for n
    unfolding in1_def m by (auto simp: bit_simps)
  have "drop_bit 2 in0 = ucast h"
    by (rule bit_word_eqI) (auto simp: bit_simps b0 dest: bit_imp_le_length)
  then show "uint (drop_bit 2 in0) = uint h" by (simp add: uint_ucast_up)
  have "(push_bit 8 (ucast (in0 AND 3)) OR ucast in1 :: u16) = ucast p"
  proof (rule bit_word_eqI)
    fix n assume "n < LENGTH(16)"
    then consider "n < 8" | "8 \<le> n" "n < 10" | "10 \<le> n" by linarith
    then show "bit (push_bit 8 (ucast (in0 AND 3)) OR ucast in1 :: u16) n \<longleftrightarrow> bit (ucast p :: u16) n"
      unfolding m by cases (auto simp: bit_simps b0 b1 dest: bit_imp_le_length)
  qed
  then show "uint (push_bit 8 (ucast (in0 AND 3)) OR ucast in1 :: u16) = uint p"
    by (simp add: uint_ucast_up)
qed

section \<open>Properties\<close>

text \<open>
  C12. For the PDU types with two checksums, 0 and 14, and a payload of 1 to 1024 octets, the
  encoder changes only the two checksum octets, and a receiver that recomputes both checksums over
  the result finds them in their fields: six bits for the header, ten for the payload.
\<close>

theorem f_enc_IuUP_PDU_checks:
  assumes "drop_bit 4 (raw ! 0) = 0 \<or> drop_bit 4 (raw ! 0) = 14" "4 < length raw" "length raw \<le> 1028"
  shows "\<exists>out. f_enc_IuUP_PDU raw = Inr out \<and> length out = length raw \<and>
    take 2 out = take 2 raw \<and> drop 4 out = drop 4 raw \<and>
    osmo_iuup_compute_header_crc out = Inr (uint (drop_bit 2 (out ! 2))) \<and>
    osmo_iuup_compute_payload_crc out = Inr (uint (push_bit 8 (ucast (out ! 2 AND 3)) OR ucast (out ! 3) :: u16))"
proof -
  let ?h = "take 2 raw" and ?p = "drop 4 raw"
  let ?H = "header_remainder ?h" and ?P = "payload_remainder ?p"
  let ?in0 = "word_of_int (push_bit 2 (uint ?H AND 0x3f)) OR word_of_int (drop_bit 8 (uint ?P AND 0x3ff)) :: u8"
  let ?in1 = "word_of_int (uint ?P AND 0xff) :: u8"
  let ?out = "?h @ [?in0, ?in1] @ ?p"
  have t: "drop_bit 4 ((?h @ cs) ! 0) = 0 \<or> drop_bit 4 ((?h @ cs) ! 0) = 14" for cs
    using assms(1,2) by (simp add: nth_append)
  have pay: "osmo_iuup_compute_payload_crc ((?h @ [a, b]) @ ?p) = Inr (uint ?P)" for a b
    by (rule payload_crc_eq) (use assms t in auto)
  have "raw = (?h @ [raw ! 2, raw ! 3]) @ ?p"
    using assms(2) drop_eq_Cons2 [of 2 raw] append_take_drop_id [of 2 raw] by (simp add: eval_nat_numeral)
  then have "osmo_iuup_compute_payload_crc raw = Inr (uint ?P)" using pay by metis
  moreover have "osmo_iuup_compute_header_crc raw = Inr (uint ?H)" using assms(2) by (simp add: header_crc_eq)
  moreover have "ttcn_substr raw 0 2 = Inr ?h" "ttcn_substr raw 4 (int (length raw) - 4) = Inr ?p"
    using assms(2) by (simp_all add: ttcn_substr_def nat_diff_distrib)
  ultimately have "f_enc_IuUP_PDU raw = Inr ?out"
    by (simp add: f_enc_IuUP_PDU_def Let_def)
  moreover have "osmo_iuup_compute_header_crc ?out = Inr (uint ?H)"
    using header_crc_eq [of ?out] assms(2) by simp
  moreover have "osmo_iuup_compute_payload_crc ?out = Inr (uint ?P)" using pay by simp
  moreover have "?out ! 2 = ?in0" "?out ! 3 = ?in1"
    using assms(2) by (simp_all add: nth_append)
  moreover have "length ?out = length raw" "take 2 ?out = take 2 raw" "drop 4 ?out = drop 4 raw"
    using assms(2) by (simp_all add: min_def)
  ultimately show ?thesis
    by (intro exI [of _ ?out] conjI) (simp_all only: check_octets)
qed

theorem f_enc_IuUP_PDU_checks_witness:
  "\<exists>out. f_enc_IuUP_PDU [0xe0, 3, 0, 0, 7, 8] = Inr out \<and> length out = length [0xe0, 3, 0, 0, 7, 8 :: u8] \<and>
    take 2 out = take 2 [0xe0, 3, 0, 0, 7, 8] \<and> drop 4 out = drop 4 [0xe0, 3, 0, 0, 7, 8] \<and>
    osmo_iuup_compute_header_crc out = Inr (uint (drop_bit 2 (out ! 2))) \<and>
    osmo_iuup_compute_payload_crc out = Inr (uint (push_bit 8 (ucast (out ! 2 AND 3)) OR ucast (out ! 3) :: u16))"
  by (rule f_enc_IuUP_PDU_checks) simp_all

text \<open>
  A PDU of type 1 has a header of three octets and no payload checksum, but the encoder writes
  its second checksum octet all the same: the first octet of the payload becomes 0.
\<close>

theorem f_enc_IuUP_PDU_type_1:
  assumes "drop_bit 4 (raw ! 0) = 1" "4 \<le> length raw" "f_enc_IuUP_PDU raw = Inr out"
  shows "out ! 3 = 0 \<and> take 2 out = take 2 raw \<and> drop 4 out = drop 4 raw"
proof -
  have "osmo_iuup_compute_payload_crc raw = Inr 0"
    using assms(1,2) by (auto simp: osmo_iuup_compute_payload_crc_def)
  moreover have "ttcn_substr raw 0 2 = Inr (take 2 raw)" "ttcn_substr raw 4 (int (length raw) - 4) = Inr (drop 4 raw)"
    using assms(2) by (simp_all add: ttcn_substr_def nat_diff_distrib)
  ultimately obtain in0 where "out = take 2 raw @ [in0, 0] @ drop 4 raw"
    using assms(3) by (auto simp: f_enc_IuUP_PDU_def Let_def)
  then show ?thesis using assms(2) by (simp add: nth_append min_def)
qed

theorem f_enc_IuUP_PDU_type_1_witness:
  "[0x10, 3, 0xe0, 0] ! 3 = (0 :: u8) \<and> take 2 [0x10, 3, 0xe0, 0] = take 2 [0x10, 3, 0, 0xab :: u8] \<and>
   drop 4 [0x10, 3, 0xe0, 0] = drop 4 [0x10, 3, 0, 0xab :: u8]"
proof (rule f_enc_IuUP_PDU_type_1)
  show "f_enc_IuUP_PDU [0x10, 3, 0, 0xab] = Inr [0x10, 3, 0xe0, 0]" by code_simp
qed simp_all

text \<open>
  The payload checksum detects every change within one octet of the payload.
\<close>

theorem payload_crc_detects_octet:
  assumes "drop_bit 4 (h ! 0) = 0 \<or> drop_bit 4 (h ! 0) = 14" "length h = 4" "length (p @ [x] @ q) \<le> 1024"
  shows "osmo_iuup_compute_payload_crc (h @ p @ [x] @ q) = osmo_iuup_compute_payload_crc (h @ p @ [y] @ q) \<longleftrightarrow> x = y"
proof -
  have i: "low_bits (octet_ubits x 8) = low_bits (octet_ubits y 8) \<longleftrightarrow> x = y" for x y
  proof
    assume *: "low_bits (octet_ubits x 8) = low_bits (octet_ubits y 8)"
    show "x = y"
    proof (rule bit_word_eqI)
      fix k assume "k < LENGTH(8)"
      then have l: "7 - k < 8" "7 - (7 - k) = k" by simp_all
      have "bit (octet_ubits z 8 ! (7 - k)) 0 \<longleftrightarrow> bit z k" for z
        using nth_octet_ubits [OF l(1), of z] l(2) by (simp add: bit_and_iff bit_drop_bit_eq bit_1_iff)
      moreover have "low_bits (octet_ubits x 8) ! (7 - k) = low_bits (octet_ubits y 8) ! (7 - k)"
        using * by simp
      ultimately show "bit x k \<longleftrightarrow> bit y k" using l(1) by (simp add: nth_map)
    qed
  qed simp
  have "osmo_iuup_compute_payload_crc (h @ p @ [z] @ q) = Inr (uint (payload_remainder (p @ [z] @ q)))" for z
    using assms by (intro payload_crc_eq) simp_all
  then show ?thesis
    using crc10.burst_detected [of "low_bits (octet_ubits x 8)" "low_bits (octet_ubits y 8)" 0
        "low_bits (ubits p)" "low_bits (ubits q)"]
    by (simp add: i flip: word_uint_eq_iff)
qed

theorem payload_crc_detects_octet_witness:
  "osmo_iuup_compute_payload_crc ([0, 1, 2, 3] @ [9] @ [4] @ [5]) =
   osmo_iuup_compute_payload_crc ([0, 1, 2, 3] @ [9] @ [6] @ [5]) \<longleftrightarrow> 4 = (6 :: u8)"
  by (rule payload_crc_detects_octet) simp_all

end
