(* ===== verification/Milenage.thy ===== *)
theory Milenage
  imports Prelude
begin

text \<open>
  Authentication and key agreement: the Milenage functions of \<^verbatim>\<open>library/milenage/milenage.c\<close> and
  the external function of \<^verbatim>\<open>library/milenage/Milenage_FunctionDefs.cc\<close>. The block cipher is
  OpenSSL's, whose four calls are the fields of a record that every function takes.
\<close>

unbundle bit_operations_syntax

section \<open>The block cipher\<close>

text \<open>
  What the OpenSSL calls return: whether a context could be allocated, and for a key (and an input)
  the result codes and the output. The code takes a result of 0 or below as failure.
\<close>

record openssl =
  EVP_CIPHER_CTX_new :: bool
  EVP_CipherInit :: "octets \<Rightarrow> int"
  EVP_CipherUpdate :: "octets \<Rightarrow> octets \<Rightarrow> int \<times> octets"
  EVP_CipherFinal :: "octets \<Rightarrow> int"

definition evp_cipher_aes_encrypt :: "openssl \<Rightarrow> octets \<Rightarrow> octets \<Rightarrow> int \<times> octets" where
  "evp_cipher_aes_encrypt ssl inp key =
    (if \<not> EVP_CIPHER_CTX_new ssl then (-1, [])
     else let res = EVP_CipherInit ssl key in
       if res \<le> 0 then (res, [])
       else let (res, out) = EVP_CipherUpdate ssl key inp in
         if res \<le> 0 then (res, out)
         else let res = EVP_CipherFinal ssl key in
           if res \<le> 0 then (res, out) else (int (length out), out))"

text \<open>A failing cipher ends the whole process.\<close>

definition ast_aes_encrypt :: "openssl \<Rightarrow> octets \<Rightarrow> octets \<Rightarrow> (int \<times> octets) result" where
  "ast_aes_encrypt ssl inp key =
    (let (res, out) = evp_cipher_aes_encrypt ssl inp key
     in if res \<le> 0 then Inl ProcessExit else Inr (res, out))"

text \<open>The key schedule is a copy of the first 16 octets of the key; \<^const>\<open>None\<close> is the return value -1.\<close>

definition ast_aes_set_encrypt_key :: "octets \<Rightarrow> octets result" where
  "ast_aes_set_encrypt_key key = (if length key < 16 then Inl OutOfBounds else Inr (take 16 key))"

definition aes_128_encrypt_block :: "openssl \<Rightarrow> octets \<Rightarrow> octets \<Rightarrow> octets option result" where
  "aes_128_encrypt_block ssl key plain =
    bind_result (ast_aes_set_encrypt_key key) (\<lambda>aes_key.
    bind_result (ast_aes_encrypt ssl plain aes_key) (\<lambda>(res, encr).
      Inr (if res \<le> 0 then None else Some encr)))"

text \<open>A call of the cipher whose failure makes the caller return -1.\<close>

definition with_block ::
  "openssl \<Rightarrow> octets \<Rightarrow> octets \<Rightarrow> (octets \<Rightarrow> 'a option result) \<Rightarrow> 'a option result" where
  "with_block ssl k plain f =
    bind_result (aes_128_encrypt_block ssl k plain)
      (\<lambda>r. case r of None \<Rightarrow> Inr None | Some encr \<Rightarrow> f encr)"

section \<open>The functions f1 to f5\<close>

text \<open>The loop \<^verbatim>\<open>tmp[(i + s) % 16] = v[i]\<close>.\<close>

definition rotate_into :: "nat \<Rightarrow> octets \<Rightarrow> octets" where
  "rotate_into s v = fold (\<lambda>i tmp. tmp[(i + s) mod 16 := v ! i]) [0..<16] (replicate 16 0)"

definition xor16 :: "octets \<Rightarrow> octets \<Rightarrow> octets" where
  "xor16 a b = xor_list (take 16 a) (take 16 b)"

definition xor_last :: "u8 \<Rightarrow> octets \<Rightarrow> octets" where
  "xor_last c tmp = tmp[15 := tmp ! 15 XOR c]"

text \<open>Both codes are returned; a caller that passes a null pointer for one ignores it.\<close>

definition milenage_f1 ::
  "openssl \<Rightarrow> octets \<Rightarrow> octets \<Rightarrow> octets \<Rightarrow> octets \<Rightarrow> octets \<Rightarrow> (octets \<times> octets) option result" where
  "milenage_f1 ssl opc k rnd sqn amf =
    have_octets 16 opc (have_octets 16 rnd (have_octets 6 sqn (have_octets 2 amf (
      with_block ssl k (xor16 rnd opc) (\<lambda>tmp1.
        let half = take 6 sqn @ take 2 amf;
            tmp2 = half @ half;
            tmp3 = xor16 (rotate_into 8 (xor16 tmp2 opc)) tmp1
        in with_block ssl k tmp3 (\<lambda>tmp1.
             let out = xor16 tmp1 opc in Inr (Some (take 8 out, take 8 (drop 8 out)))))))))"

text \<open>
  \<^verbatim>\<open>ck\<close>, \<^verbatim>\<open>ik\<close> and \<^verbatim>\<open>akstar\<close> are computed only when the caller passes a buffer for them, which the
  three flags say; \<^verbatim>\<open>res\<close> and \<^verbatim>\<open>ak\<close> are always computed.
\<close>

record f2345_out =
  f2_res :: octets
  f3_ck :: "octets option"
  f4_ik :: "octets option"
  f5_ak :: octets
  f5_akstar :: "octets option"

definition f345_block :: "openssl \<Rightarrow> octets \<Rightarrow> octets \<Rightarrow> octets \<Rightarrow> nat \<Rightarrow> u8 \<Rightarrow> bool \<Rightarrow>
    (octets option \<Rightarrow> 'a option result) \<Rightarrow> 'a option result" where
  "f345_block ssl k opc tmp2 s c want f =
    (if want
     then with_block ssl k (xor_last c (rotate_into s (xor16 tmp2 opc))) (\<lambda>out. f (Some (xor16 out opc)))
     else f None)"

definition milenage_f2345 ::
  "openssl \<Rightarrow> octets \<Rightarrow> octets \<Rightarrow> octets \<Rightarrow> bool \<Rightarrow> bool \<Rightarrow> bool \<Rightarrow> f2345_out option result" where
  "milenage_f2345 ssl opc k rnd want_ck want_ik want_akstar =
    have_octets 16 opc (have_octets 16 rnd (
      with_block ssl k (xor16 rnd opc) (\<lambda>tmp2.
        with_block ssl k (xor_last 1 (xor16 tmp2 opc)) (\<lambda>tmp3.
          let tmp3 = xor16 tmp3 opc in
          f345_block ssl k opc tmp2 12 2 want_ck (\<lambda>ck.
          f345_block ssl k opc tmp2 8 4 want_ik (\<lambda>ik.
          f345_block ssl k opc tmp2 4 8 want_akstar (\<lambda>akstar.
            Inr (Some \<lparr>f2_res = take 8 (drop 8 tmp3), f3_ck = ck, f4_ik = ik, f5_ak = take 6 tmp3,
                       f5_akstar = map_option (take 6) akstar\<rparr>))))))))"

section \<open>Generation and verification\<close>

text \<open>The vector a network generates, or \<^const>\<open>None\<close> where \<^verbatim>\<open>*res_len\<close> is set to 0.\<close>

record auth_vector =
  av_autn :: octets
  av_ik :: octets
  av_ck :: octets
  av_res :: octets

definition milenage_generate ::
  "openssl \<Rightarrow> octets \<Rightarrow> octets \<Rightarrow> octets \<Rightarrow> octets \<Rightarrow> octets \<Rightarrow> nat \<Rightarrow> auth_vector option result" where
  "milenage_generate ssl opc amf k sqn rnd res_len =
    (if res_len < 8 then Inr None
     else bind_result (milenage_f1 ssl opc k rnd sqn amf) (\<lambda>m.
       case m of None \<Rightarrow> Inr None
       | Some (mac_a, mac_s) \<Rightarrow>
           bind_result (milenage_f2345 ssl opc k rnd True True False) (\<lambda>f.
             case f of None \<Rightarrow> Inr None
             | Some o2 \<Rightarrow>
                 Inr (Some \<lparr>av_autn = xor_list (take 6 sqn) (f5_ak o2) @ take 2 amf @ mac_a,
                            av_ik = the (f4_ik o2), av_ck = the (f3_ck o2), av_res = f2_res o2\<rparr>))))"

text \<open>The sign of \<^verbatim>\<open>memcmp\<close>.\<close>

fun memcmp :: "octets \<Rightarrow> octets \<Rightarrow> int" where
  "memcmp (x # xs) (y # ys) = (if x < y then -1 else if y < x then 1 else memcmp xs ys)"
| "memcmp xs ys = 0"

definition milenage_auts ::
  "openssl \<Rightarrow> octets \<Rightarrow> octets \<Rightarrow> octets \<Rightarrow> octets \<Rightarrow> (int \<times> octets) result" where
  "milenage_auts ssl opc k rnd auts =
    bind_result (milenage_f2345 ssl opc k rnd False False True) (\<lambda>f.
      case f of None \<Rightarrow> Inr (-1, [])
      | Some o2 \<Rightarrow>
          have_octets 14 auts (
            let sqn = xor_list (take 6 auts) (the (f5_akstar o2))
            in bind_result (milenage_f1 ssl opc k rnd sqn [0, 0]) (\<lambda>m.
              case m of None \<Rightarrow> Inr (-1, sqn)
              | Some (mac_a, mac_s) \<Rightarrow>
                  Inr (if memcmp mac_s (take 8 (drop 6 auts)) \<noteq> 0 then -1 else 0, sqn))))"

text \<open>\<^verbatim>\<open>GSM_MILENAGE_ALT_SRES\<close> is not defined by any build file.\<close>

definition gsm_milenage :: "openssl \<Rightarrow> octets \<Rightarrow> octets \<Rightarrow> octets \<Rightarrow> (octets \<times> octets) option result" where
  "gsm_milenage ssl opc k rnd =
    bind_result (milenage_f2345 ssl opc k rnd True True False) (\<lambda>f.
      case f of None \<Rightarrow> Inr None
      | Some o2 \<Rightarrow>
          let ck = the (f3_ck o2); ik = the (f4_ik o2); res = f2_res o2;
              kc = map (\<lambda>i. ck ! i XOR ck ! (i + 8) XOR ik ! i XOR ik ! (i + 8)) [0..<8];
              sres = map (\<lambda>i. res ! i XOR res ! (i + 4)) [0..<4]
          in Inr (Some (sres, kc)))"

text \<open>
  The check of a card: the return value and the four buffers, \<^const>\<open>None\<close> where the code leaves
  one unwritten.
\<close>

record check_out =
  chk_rc :: int
  chk_ik :: "octets option"
  chk_ck :: "octets option"
  chk_res :: "octets option"
  chk_auts :: "octets option"

definition milenage_check ::
  "openssl \<Rightarrow> octets \<Rightarrow> octets \<Rightarrow> octets \<Rightarrow> octets \<Rightarrow> octets \<Rightarrow> check_out result" where
  "milenage_check ssl opc k sqn rnd autn =
    bind_result (milenage_f2345 ssl opc k rnd True True False) (\<lambda>f.
      case f of None \<Rightarrow> Inr \<lparr>chk_rc = -1, chk_ik = None, chk_ck = None, chk_res = None, chk_auts = None\<rparr>
      | Some o2 \<Rightarrow>
          have_octets 16 autn (have_octets 6 sqn (
            let rx_sqn = xor_list (take 6 autn) (f5_ak o2);
                ret = (\<lambda>rc auts. Inr \<lparr>chk_rc = rc, chk_ik = f4_ik o2, chk_ck = f3_ck o2,
                                       chk_res = Some (f2_res o2), chk_auts = auts\<rparr>)
            in if memcmp rx_sqn (take 6 sqn) \<le> 0
               then bind_result (milenage_f2345 ssl opc k rnd False False True) (\<lambda>f.
                 case f of None \<Rightarrow> ret (-1) None
                 | Some o3 \<Rightarrow>
                     let conc = xor_list (take 6 sqn) (the (f5_akstar o3))
                     in bind_result (milenage_f1 ssl opc k rnd sqn [0, 0]) (\<lambda>m.
                       case m of None \<Rightarrow> ret (-1) None
                       | Some (mac_a, mac_s) \<Rightarrow> ret (-2) (Some (conc @ mac_s))))
               else bind_result (milenage_f1 ssl opc k rnd rx_sqn (take 2 (drop 6 autn))) (\<lambda>m.
                 case m of None \<Rightarrow> ret (-1) None
                 | Some (mac_a, mac_s) \<Rightarrow>
                     ret (if memcmp mac_a (take 8 (drop 8 autn)) \<noteq> 0 then -1 else 0) None))))"

text \<open>
  The external function returns all the buffers, the unwritten ones with what the stack held
  (the argument \<open>stale\<close>), and \<^verbatim>\<open>res\<close> with the length the check has set.
\<close>

definition f_milenage_check ::
  "octets \<Rightarrow> openssl \<Rightarrow> octets \<Rightarrow> octets \<Rightarrow> octets \<Rightarrow> octets \<Rightarrow> octets \<Rightarrow>
   (int \<times> octets \<times> octets \<times> octets \<times> octets) result" where
  "f_milenage_check stale ssl opc k sqn rnd autn =
    map_result (\<lambda>c.
      let buf = (\<lambda>n b. case b of None \<Rightarrow> take n stale | Some x \<Rightarrow> x);
          res = (case chk_res c of None \<Rightarrow> [] | Some r \<Rightarrow> r)
      in (chk_rc c, buf 16 (chk_ik c), buf 16 (chk_ck c), res, buf 14 (chk_auts c)))
    (milenage_check ssl opc k sqn rnd autn)"

section \<open>The cipher that works\<close>

text \<open>
  What the documentation of OpenSSL promises of AES-128 in ECB mode without padding: for a key of 16
  octets and one block of 16 octets every call succeeds and the output is one block.
\<close>

definition aes_ok :: "openssl \<Rightarrow> bool" where
  "aes_ok ssl \<longleftrightarrow> EVP_CIPHER_CTX_new ssl \<and>
    (\<forall>key. length key = 16 \<longrightarrow> 0 < EVP_CipherInit ssl key \<and> 0 < EVP_CipherFinal ssl key \<and>
      (\<forall>inp. length inp = 16 \<longrightarrow> 0 < fst (EVP_CipherUpdate ssl key inp) \<and>
                                length (snd (EVP_CipherUpdate ssl key inp)) = 16))"

definition E_K :: "openssl \<Rightarrow> octets \<Rightarrow> octets \<Rightarrow> octets" where
  "E_K ssl k inp = snd (EVP_CipherUpdate ssl (take 16 k) inp)"

lemma with_block_ok:
  assumes "aes_ok ssl" "16 \<le> length k" "length inp = 16"
  shows "with_block ssl k inp f = f (E_K ssl k inp)"
proof -
  have "length (take 16 k) = 16" using assms(2) by simp
  with assms have ok: "EVP_CIPHER_CTX_new ssl" "0 < EVP_CipherInit ssl (take 16 k)" "0 < EVP_CipherFinal ssl (take 16 k)"
    "0 < fst (EVP_CipherUpdate ssl (take 16 k) inp)" "length (snd (EVP_CipherUpdate ssl (take 16 k) inp)) = 16"
    unfolding aes_ok_def by blast+
  then show ?thesis
    using assms(2)
    by (simp add: with_block_def aes_128_encrypt_block_def ast_aes_set_encrypt_key_def ast_aes_encrypt_def
        evp_cipher_aes_encrypt_def E_K_def Let_def case_prod_beta)
qed

lemma length_E_K: "aes_ok ssl \<Longrightarrow> 16 \<le> length k \<Longrightarrow> length inp = 16 \<Longrightarrow> length (E_K ssl k inp) = 16"
  by (simp add: aes_ok_def E_K_def)

lemma length_xor16: "16 \<le> length a \<Longrightarrow> 16 \<le> length b \<Longrightarrow> length (xor16 a b) = 16"
  by (simp add: xor16_def)

lemma length_xor_last [simp]: "length (xor_last c v) = length v"
  by (simp add: xor_last_def)

lemma length_rotate_into: "length (rotate_into s v) = 16"
proof -
  have "length (fold (\<lambda>i tmp. tmp[(i + s) mod 16 := v ! i]) is t) = length t" for "is" t
    by (induction "is" arbitrary: t) simp_all
  then show ?thesis by (simp add: rotate_into_def)
qed

text \<open>The index loops of the code are the rotations of the specification.\<close>

lemma list16: "length v = 16 \<Longrightarrow>
  \<exists>a0 a1 a2 a3 a4 a5 a6 a7 a8 a9 a10 a11 a12 a13 a14 a15.
    v = [a0, a1, a2, a3, a4, a5, a6, a7, a8, a9, a10, a11, a12, a13, a14, a15]"
  by (auto simp: length_Suc_conv numeral_eq_Suc)

lemma upt_16: "[0..<16] = [0, 1, 2, 3, 4, 5, 6, 7, 8, 9, 10, 11, 12, 13, 14, 15 :: nat]"
  by (simp add: upt_rec)

lemma list_update_Cons_numeral: "(x # xs)[numeral n := y] = x # xs[pred_numeral n := y]"
  by (simp add: numeral_eq_Suc)

lemma replicate_numeral: "replicate (numeral n) x = x # replicate (pred_numeral n) x"
  by (simp add: numeral_eq_Suc)

lemma rotate_into_eq:
  assumes "length v = 16"
  shows "rotate_into 4 v = drop 12 v @ take 12 v" "rotate_into 8 v = drop 8 v @ take 8 v"
    "rotate_into 12 v = drop 4 v @ take 4 v"
proof -
  obtain a0 a1 a2 a3 a4 a5 a6 a7 a8 a9 a10 a11 a12 a13 a14 a15 where
    v: "v = [a0, a1, a2, a3, a4, a5, a6, a7, a8, a9, a10, a11, a12, a13, a14, a15]"
    using list16 [OF assms] by blast
  show "rotate_into 4 v = drop 12 v @ take 12 v" "rotate_into 8 v = drop 8 v @ take 8 v"
    "rotate_into 12 v = drop 4 v @ take 4 v"
    unfolding v rotate_into_def upt_16 by (simp_all add: list_update_Cons_numeral replicate_numeral)
qed

section \<open>The specification\<close>

text \<open>The five outputs of TS 35.206, for 16-octet \<open>OP_C\<close> and \<open>RAND\<close>.\<close>

definition TEMP :: "openssl \<Rightarrow> octets \<Rightarrow> octets \<Rightarrow> octets \<Rightarrow> octets" where
  "TEMP ssl opc k rnd = E_K ssl k (xor16 rnd opc)"

definition OUT1 :: "openssl \<Rightarrow> octets \<Rightarrow> octets \<Rightarrow> octets \<Rightarrow> octets \<Rightarrow> octets \<Rightarrow> octets" where
  "OUT1 ssl opc k rnd sqn amf =
    (let IN1 = sqn @ amf @ sqn @ amf; x = xor16 IN1 opc
     in xor16 (E_K ssl k (xor16 (drop 8 x @ take 8 x) (TEMP ssl opc k rnd))) opc)"

definition OUT :: "openssl \<Rightarrow> octets \<Rightarrow> octets \<Rightarrow> octets \<Rightarrow> nat \<Rightarrow> u8 \<Rightarrow> octets" where
  "OUT ssl opc k rnd r c =
    (let x = xor16 (TEMP ssl opc k rnd) opc
     in xor16 (E_K ssl k (xor_last c (drop r x @ take r x))) opc)"

lemma milenage_f1_ok:
  assumes "aes_ok ssl" "length opc = 16" "16 \<le> length k" "length rnd = 16" "6 \<le> length sqn" "length amf = 2"
  shows "milenage_f1 ssl opc k rnd sqn amf =
    Inr (Some (take 8 (OUT1 ssl opc k rnd (take 6 sqn) amf), drop 8 (OUT1 ssl opc k rnd (take 6 sqn) amf)))"
proof -
  let ?in = "take 6 sqn @ amf @ take 6 sqn @ amf"
  have l: "length ?in = 16" "length (TEMP ssl opc k rnd) = 16" "length (xor16 ?in opc) = 16"
    "length (E_K ssl k (xor16 (drop 8 (xor16 ?in opc) @ take 8 (xor16 ?in opc)) (TEMP ssl opc k rnd))) = 16"
    using assms by (simp_all add: TEMP_def length_E_K length_xor16)
  with assms show ?thesis
    by (simp add: milenage_f1_def have_octets_def with_block_ok length_xor16 length_rotate_into Let_def
        rotate_into_eq OUT1_def TEMP_def [symmetric])
qed

lemma length_OUT1:
  assumes "aes_ok ssl" "length opc = 16" "16 \<le> length k" "length rnd = 16" "length sqn = 6" "length amf = 2"
  shows "length (OUT1 ssl opc k rnd sqn amf) = 16"
  using assms by (simp add: OUT1_def Let_def length_xor16 length_E_K TEMP_def)

lemma length_OUT:
  assumes "aes_ok ssl" "length opc = 16" "16 \<le> length k" "length rnd = 16"
  shows "length (OUT ssl opc k rnd r c) = 16"
  using assms by (simp add: OUT_def Let_def length_xor16 length_E_K TEMP_def)

lemma milenage_f2345_ok:
  assumes "aes_ok ssl" "length opc = 16" "16 \<le> length k" "length rnd = 16"
  shows "milenage_f2345 ssl opc k rnd want_ck want_ik want_akstar = Inr (Some
    \<lparr>f2_res = drop 8 (OUT ssl opc k rnd 0 1),
     f3_ck = (if want_ck then Some (OUT ssl opc k rnd 4 2) else None),
     f4_ik = (if want_ik then Some (OUT ssl opc k rnd 8 4) else None),
     f5_ak = take 6 (OUT ssl opc k rnd 0 1),
     f5_akstar = (if want_akstar then Some (take 6 (OUT ssl opc k rnd 12 8)) else None)\<rparr>)"
proof -
  have t: "length (TEMP ssl opc k rnd) = 16" using assms by (simp add: TEMP_def length_E_K length_xor16)
  have "xor16 (E_K ssl k (xor_last 1 (xor16 (TEMP ssl opc k rnd) opc))) opc = OUT ssl opc k rnd 0 1"
    by (simp add: OUT_def)
  moreover have "length (OUT ssl opc k rnd 0 1) = 16" using assms by (rule length_OUT)
  ultimately show ?thesis using assms t
    by (simp add: milenage_f2345_def have_octets_def with_block_ok length_xor16 length_rotate_into Let_def
        f345_block_def rotate_into_eq OUT_def TEMP_def [symmetric])
qed


section \<open>Comparison\<close>

definition be_nat :: "octets \<Rightarrow> nat" where
  "be_nat xs = foldl (\<lambda>a x. a * 256 + unat x) 0 xs"

lemma be_nat_Nil [simp]: "be_nat [] = 0"
  by (simp add: be_nat_def)

lemma foldl_be_nat: "foldl (\<lambda>a x. a * 256 + unat x) a xs = a * 256 ^ length xs + be_nat xs" for xs :: octets
proof (induction xs arbitrary: a)
  case (Cons x xs)
  from Cons.IH [of "a * 256 + unat x"] Cons.IH [of "unat x"] show ?case
    by (simp add: be_nat_def algebra_simps)
qed simp

lemma be_nat_Cons: "be_nat (x # xs) = unat x * 256 ^ length xs + be_nat xs"
  using foldl_be_nat [of "unat x" xs] by (simp add: be_nat_def)

lemma be_nat_less: "be_nat xs < 256 ^ length xs"
proof (induction xs)
  case (Cons x xs)
  have "(unat x + 1) * 256 ^ length xs \<le> 256 * 256 ^ length xs"
    using unat_u8 [of x] by (intro mult_right_mono) simp_all
  then have "unat x * 256 ^ length xs + 256 ^ length xs \<le> 256 * 256 ^ length xs"
    by (simp only: distrib_right mult_1)
  with Cons show ?case by (simp only: be_nat_Cons length_Cons power_Suc)
qed simp

lemma memcmp_eq_0: "length xs = length ys \<Longrightarrow> memcmp xs ys = 0 \<longleftrightarrow> xs = ys"
  by (induction xs ys rule: list_induct2) auto

lemma memcmp_le_0: "length xs = length ys \<Longrightarrow> memcmp xs ys \<le> 0 \<longleftrightarrow> be_nat xs \<le> be_nat ys"
proof (induction xs ys rule: list_induct2)
  case (Cons x xs y ys)
  have less: "unat a * 256 ^ length zs + be_nat us < unat b * 256 ^ length zs + be_nat vs"
    if "a < b" "length us = length zs" for a b :: u8 and zs us vs :: octets
  proof -
    from that(1) have "(unat a + 1) * 256 ^ length zs \<le> unat b * 256 ^ length zs"
      by (intro mult_right_mono) (simp_all add: word_less_nat_alt)
    with be_nat_less [of us] that(2) show ?thesis by simp
  qed
  consider "x < y" | "y < x" | "x = y" by (rule linorder_cases)
  then show ?case
  proof cases
    case 1
    with less [of x y xs ys ys] Cons.hyps show ?thesis by (simp add: be_nat_Cons)
  next
    case 2
    with less [of y x ys ys xs] Cons.hyps show ?thesis by (auto simp: be_nat_Cons not_le)
  next
    case 3
    with Cons show ?thesis by (simp add: be_nat_Cons)
  qed
qed simp

section \<open>Authentication\<close>

abbreviation AK where "AK ssl opc k rnd \<equiv> take 6 (OUT ssl opc k rnd 0 1)"
abbreviation AKstar where "AKstar ssl opc k rnd \<equiv> take 6 (OUT ssl opc k rnd 12 8)"
abbreviation MAC_A where "MAC_A ssl opc k rnd sqn amf \<equiv> take 8 (OUT1 ssl opc k rnd sqn amf)"
abbreviation MAC_S where "MAC_S ssl opc k rnd sqn \<equiv> drop 8 (OUT1 ssl opc k rnd sqn [0, 0])"

lemma milenage_generate_ok:
  assumes "aes_ok ssl" "length opc = 16" "16 \<le> length k" "length rnd = 16" "length sqn = 6" "length amf = 2" "8 \<le> res_len"
  shows "milenage_generate ssl opc amf k sqn rnd res_len = Inr (Some
    \<lparr>av_autn = xor_list sqn (AK ssl opc k rnd) @ amf @ MAC_A ssl opc k rnd sqn amf,
     av_ik = OUT ssl opc k rnd 8 4, av_ck = OUT ssl opc k rnd 4 2, av_res = drop 8 (OUT ssl opc k rnd 0 1)\<rparr>)"
  using assms by (simp add: milenage_generate_def milenage_f1_ok milenage_f2345_ok)

lemma milenage_auts_ok:
  assumes "aes_ok ssl" "length opc = 16" "16 \<le> length k" "length rnd = 16" "length sqn = 6" "length mac = 8"
  shows "milenage_auts ssl opc k rnd (xor_list sqn (AKstar ssl opc k rnd) @ mac) =
    Inr (if mac = MAC_S ssl opc k rnd sqn then 0 else -1, sqn)"
proof -
  have l: "length (OUT ssl opc k rnd 12 8) = 16" using assms by (intro length_OUT)
  then have "xor_list (xor_list sqn (AKstar ssl opc k rnd)) (AKstar ssl opc k rnd) = sqn"
    using assms by (intro xor_list_cancel) simp
  moreover have "length (OUT1 ssl opc k rnd sqn [0, 0]) = 16" using assms by (intro length_OUT1) simp_all
  ultimately show ?thesis
    using assms l
    memcmp_eq_0 [of "MAC_S ssl opc k rnd sqn" mac]
    by (auto simp: milenage_auts_def milenage_f2345_ok milenage_f1_ok have_octets_def)
qed

lemma milenage_check_eq:
  assumes "aes_ok ssl" "length opc = 16" "16 \<le> length k" "length rnd = 16" "length sqn_ms = 6"
    "length sqn = 6" "length amf = 2" "length mac = 8"
  shows "milenage_check ssl opc k sqn_ms rnd (xor_list sqn (AK ssl opc k rnd) @ amf @ mac) = Inr
    \<lparr>chk_rc = (if be_nat sqn \<le> be_nat sqn_ms then -2 else if mac = MAC_A ssl opc k rnd sqn amf then 0 else -1),
     chk_ik = Some (OUT ssl opc k rnd 8 4), chk_ck = Some (OUT ssl opc k rnd 4 2),
     chk_res = Some (drop 8 (OUT ssl opc k rnd 0 1)),
     chk_auts = (if be_nat sqn \<le> be_nat sqn_ms
                 then Some (xor_list sqn_ms (AKstar ssl opc k rnd) @ MAC_S ssl opc k rnd sqn_ms) else None)\<rparr>"
proof -
  define autn where "autn = xor_list sqn (AK ssl opc k rnd) @ amf @ mac"
  have l: "length (OUT ssl opc k rnd 0 1) = 16" using assms by (intro length_OUT)
  then have c: "xor_list (xor_list sqn (AK ssl opc k rnd)) (AK ssl opc k rnd) = sqn"
    using assms by (intro xor_list_cancel) simp
  have a: "length autn = 16" "take 6 autn = xor_list sqn (AK ssl opc k rnd)" "take 2 (drop 6 autn) = amf"
    "take 8 (drop 8 autn) = mac"
    using assms l by (simp_all add: autn_def)
  have m: "memcmp sqn (take 6 sqn_ms) \<le> 0 \<longleftrightarrow> be_nat sqn \<le> be_nat sqn_ms"
    using assms memcmp_le_0 [of sqn sqn_ms] by simp
  have "length (OUT1 ssl opc k rnd sqn amf) = 16" using assms by (intro length_OUT1) simp_all
  then have e: "memcmp (MAC_A ssl opc k rnd sqn amf) mac = 0 \<longleftrightarrow> mac = MAC_A ssl opc k rnd sqn amf"
    using assms memcmp_eq_0 [of "MAC_A ssl opc k rnd sqn amf" mac] by auto
  note f2345 = milenage_f2345_ok [OF assms(1-4)]
  show ?thesis
  proof (cases "be_nat sqn \<le> be_nat sqn_ms")
    case True
    have "milenage_f1 ssl opc k rnd sqn_ms [0, 0] =
      Inr (Some (MAC_A ssl opc k rnd sqn_ms [0, 0], MAC_S ssl opc k rnd sqn_ms))"
      using assms by (simp add: milenage_f1_ok)
    with True show ?thesis
      unfolding autn_def [symmetric]
      using assms(5) m by (simp add: milenage_check_def f2345 have_octets_def a c)
  next
    case False
    have "milenage_f1 ssl opc k rnd sqn amf =
      Inr (Some (MAC_A ssl opc k rnd sqn amf, drop 8 (OUT1 ssl opc k rnd sqn amf)))"
      using assms by (simp add: milenage_f1_ok)
    with False show ?thesis
      unfolding autn_def [symmetric]
      using assms(5) m e by (simp add: milenage_check_def f2345 have_octets_def a c)
  qed
qed


lemma xor_list_solve:
  "length (xs :: octets) = length ys \<Longrightarrow> \<exists>zs. length zs = length ys \<and> xs = xor_list zs ys"
  by (rule exI [of _ "xor_list xs ys"]) (simp add: xor_list_cancel)

section \<open>Properties\<close>

text \<open>The cipher that the witnesses use, with which all calls succeed.\<close>

definition identity_cipher :: openssl where
  "identity_cipher = \<lparr>EVP_CIPHER_CTX_new = True, EVP_CipherInit = (\<lambda>k. 1), EVP_CipherUpdate = (\<lambda>k x. (1, x)),
     EVP_CipherFinal = (\<lambda>k. 1)\<rparr>"

lemma identity_cipher_ok: "aes_ok identity_cipher"
  by (simp add: identity_cipher_def aes_ok_def)

text \<open>
  C40. With a cipher that works, the index loops of the code compute the functions f1, f1*, f2, f3,
  f4, f5 and f5* of TS 35.206 as its rotations and constants define them.
\<close>

theorem milenage_implements_ts35206:
  assumes "aes_ok ssl" "length opc = 16" "16 \<le> length k" "length rnd = 16" "length sqn = 6" "length amf = 2"
  shows "milenage_f1 ssl opc k rnd sqn amf =
      Inr (Some (take 8 (OUT1 ssl opc k rnd sqn amf), drop 8 (OUT1 ssl opc k rnd sqn amf))) \<and>
    milenage_f2345 ssl opc k rnd True True True = Inr (Some
      \<lparr>f2_res = drop 8 (OUT ssl opc k rnd 0 1), f3_ck = Some (OUT ssl opc k rnd 4 2),
       f4_ik = Some (OUT ssl opc k rnd 8 4), f5_ak = take 6 (OUT ssl opc k rnd 0 1),
       f5_akstar = Some (take 6 (OUT ssl opc k rnd 12 8))\<rparr>)"
  using assms by (simp add: milenage_f1_ok milenage_f2345_ok)

theorem milenage_implements_ts35206_witness:
  "milenage_f1 identity_cipher (replicate 16 1) (replicate 16 2) (replicate 16 3) (replicate 6 4) [5, 6] =
      Inr (Some (take 8 (OUT1 identity_cipher (replicate 16 1) (replicate 16 2) (replicate 16 3) (replicate 6 4) [5, 6]),
                 drop 8 (OUT1 identity_cipher (replicate 16 1) (replicate 16 2) (replicate 16 3) (replicate 6 4) [5, 6])))"
  using milenage_implements_ts35206 [of identity_cipher "replicate 16 1" "replicate 16 2" "replicate 16 3"
      "replicate 6 4" "[5, 6]"] identity_cipher_ok by simp

text \<open>
  C5. A card whose counter is below the network's sequence number accepts the token that the network
  generates, and derives the same integrity key, cipher key and response.
\<close>

theorem milenage_generate_check:
  assumes "aes_ok ssl" "length opc = 16" "16 \<le> length k" "length rnd = 16" "length sqn = 6" "length amf = 2"
    "length sqn_ms = 6" "8 \<le> res_len" "be_nat sqn_ms < be_nat sqn"
  shows "\<exists>v. milenage_generate ssl opc amf k sqn rnd res_len = Inr (Some v) \<and>
    milenage_check ssl opc k sqn_ms rnd (av_autn v) = Inr
      \<lparr>chk_rc = 0, chk_ik = Some (av_ik v), chk_ck = Some (av_ck v), chk_res = Some (av_res v), chk_auts = None\<rparr>"
proof -
  have "length (OUT1 ssl opc k rnd sqn amf) = 16" using assms by (intro length_OUT1) simp_all
  then have "length (MAC_A ssl opc k rnd sqn amf) = 8" by simp
  from milenage_check_eq [OF assms(1-4,7,5,6) this] show ?thesis
    using assms by (simp add: milenage_generate_ok)
qed

theorem milenage_generate_check_witness:
  "\<exists>v. milenage_generate identity_cipher (replicate 16 1) [5, 6] (replicate 16 2) [0, 0, 0, 0, 1, 0] (replicate 16 3) 8 = Inr (Some v) \<and>
    milenage_check identity_cipher (replicate 16 1) (replicate 16 2) [0, 0, 0, 0, 0, 255] (replicate 16 3) (av_autn v) = Inr
      \<lparr>chk_rc = 0, chk_ik = Some (av_ik v), chk_ck = Some (av_ck v), chk_res = Some (av_res v), chk_auts = None\<rparr>"
proof (rule milenage_generate_check)
  show "be_nat [0, 0, 0, 0, 0, 255] < be_nat [0, 0, 0, 0, 1, 0]" by (simp add: be_nat_def)
qed (simp_all add: identity_cipher_ok)

text \<open>
  C36. A card whose counter has reached the network's sequence number reports a synchronisation
  failure, whatever the code in the token, and the network accepts the token of the report and
  learns exactly the counter of the card.
\<close>

theorem milenage_resync:
  assumes "aes_ok ssl" "length opc = 16" "16 \<le> length k" "length rnd = 16" "length sqn = 6" "length amf = 2"
    "length mac = 8" "length sqn_ms = 6" "be_nat sqn \<le> be_nat sqn_ms"
  shows "\<exists>c auts. milenage_check ssl opc k sqn_ms rnd (xor_list sqn (AK ssl opc k rnd) @ amf @ mac) = Inr c \<and>
    chk_rc c = -2 \<and> chk_auts c = Some auts \<and> milenage_auts ssl opc k rnd auts = Inr (0, sqn_ms)"
proof -
  have "length (OUT1 ssl opc k rnd sqn_ms [0, 0]) = 16" using assms by (intro length_OUT1) simp_all
  then have "length (MAC_S ssl opc k rnd sqn_ms) = 8" by simp
  from milenage_auts_ok [OF assms(1-4,8) this] show ?thesis
    using milenage_check_eq [OF assms(1-4,8,5-7)] assms(9) by simp
qed

theorem milenage_resync_witness:
  "\<exists>c auts. milenage_check identity_cipher (replicate 16 1) (replicate 16 2) (replicate 6 4) (replicate 16 3)
      (xor_list (replicate 6 4) (AK identity_cipher (replicate 16 1) (replicate 16 2) (replicate 16 3)) @ [5, 6] @ replicate 8 7) = Inr c \<and>
    chk_rc c = -2 \<and> chk_auts c = Some auts \<and>
    milenage_auts identity_cipher (replicate 16 1) (replicate 16 2) (replicate 16 3) auts = Inr (0, replicate 6 4)"
  by (rule milenage_resync) (simp_all add: identity_cipher_ok)

text \<open>
  C7. The check accepts a token of 16 octets exactly when it is the token that the network generates
  for some sequence number above the counter of the card and some management field.
\<close>

theorem milenage_check_sound:
  assumes "aes_ok ssl" "length opc = 16" "16 \<le> length k" "length rnd = 16" "length sqn_ms = 6" "length autn = 16"
  shows "(\<exists>c. milenage_check ssl opc k sqn_ms rnd autn = Inr c \<and> chk_rc c = 0) \<longleftrightarrow>
    (\<exists>sqn amf v. length sqn = 6 \<and> length amf = 2 \<and> be_nat sqn_ms < be_nat sqn \<and>
      milenage_generate ssl opc amf k sqn rnd 8 = Inr (Some v) \<and> autn = av_autn v)"
proof -
  have l: "length (AK ssl opc k rnd) = 6" using assms length_OUT [of ssl opc k rnd 0 1] by simp
  have "\<exists>sqn. length sqn = length (AK ssl opc k rnd) \<and> take 6 autn = xor_list sqn (AK ssl opc k rnd)"
    by (rule xor_list_solve) (use l assms(6) in simp)
  then obtain sqn where sqn: "length sqn = 6" "take 6 autn = xor_list sqn (AK ssl opc k rnd)"
    by (auto simp only: l)
  define amf mac where "amf = take 2 (drop 6 autn)" and "mac = drop 8 autn"
  have am: "length amf = 2" "length mac = 8" using assms(6) by (simp_all add: amf_def mac_def)
  have "drop 6 autn = amf @ mac"
    using append_take_drop_id [of 2 "drop 6 autn"] by (simp add: amf_def mac_def)
  then have autn: "autn = xor_list sqn (AK ssl opc k rnd) @ amf @ mac"
    using append_take_drop_id [of 6 autn] sqn(2) by simp
  note check = milenage_check_eq [OF assms(1-5) sqn(1) am]
  show ?thesis (is "?L \<longleftrightarrow> ?R")
  proof
    assume ?L
    then have "be_nat sqn_ms < be_nat sqn" "mac = MAC_A ssl opc k rnd sqn amf"
      unfolding autn check by (auto split: if_splits)
    then show ?R
      using assms sqn(1) am(1) autn
      by (intro exI [of _ sqn] exI [of _ amf] exI) (auto simp: milenage_generate_ok)
  next
    assume ?R
    then obtain sqn' amf' v where "length sqn' = 6" "length amf' = 2" "be_nat sqn_ms < be_nat sqn'"
      "milenage_generate ssl opc amf' k sqn' rnd 8 = Inr (Some v)" "autn = av_autn v" by blast
    moreover have "length (OUT1 ssl opc k rnd sqn' amf') = 16"
      using assms calculation(1,2) by (intro length_OUT1) simp_all
    ultimately show ?L
      using assms milenage_check_eq [OF assms(1-5), of sqn' amf' "MAC_A ssl opc k rnd sqn' amf'"]
      by (auto simp: milenage_generate_ok)
  qed
qed

theorem milenage_check_sound_witness:
  "(\<exists>c. milenage_check identity_cipher (replicate 16 1) (replicate 16 2) (replicate 6 4) (replicate 16 3) (replicate 16 0) = Inr c \<and>
      chk_rc c = 0) \<longleftrightarrow>
    (\<exists>sqn amf v. length sqn = 6 \<and> length amf = 2 \<and> be_nat (replicate 6 4) < be_nat sqn \<and>
      milenage_generate identity_cipher (replicate 16 1) amf (replicate 16 2) sqn (replicate 16 3) 8 = Inr (Some v) \<and>
      replicate 16 0 = av_autn v)"
  by (rule milenage_check_sound) (simp_all add: identity_cipher_ok)

end
