(* ===== verification/Key_Derivation.thy ===== *)
theory Key_Derivation
  imports Prelude
begin

text \<open>
  The key hierarchies of 5G and LTE: \<^verbatim>\<open>library/ng_crypto/key_derivation.c\<close>,
  \<^verbatim>\<open>library/lte_crypto/key_derivation.c\<close> and the external functions of
  \<^verbatim>\<open>library/NG_CryptoFunctionDefs.cc\<close> and \<^verbatim>\<open>library/LTE_CryptoFunctionDefs.cc\<close>. HMAC-SHA-256 is
  GnuTLS's: a parameter \<open>hmac\<close> of every function, from a key and a message to 32 octets (the code
  ignores its return value). For each derivation one definition builds the message in the array
  \<^verbatim>\<open>s\<close> of the code.
\<close>

unbundle bit_operations_syntax

text \<open>Writing the parts one after the other into an array of \<open>n\<close> octets.\<close>

definition put_all :: "nat \<Rightarrow> octets list \<Rightarrow> octets result" where
  "put_all n parts = foldl (\<lambda>r p. bind_result r
     (\<lambda>s. if n < length s + length p then Inl OutOfBounds else Inr (s @ p))) (Inr []) parts"

text \<open>Copying \<open>n\<close> octets from a buffer.\<close>

definition copy_octets :: "nat \<Rightarrow> octets \<Rightarrow> (octets \<Rightarrow> 'a result) \<Rightarrow> 'a result" where
  "copy_octets n buf f = have_octets n buf (f (take n buf))"

section \<open>5G\<close>

definition kausf_S :: "octets \<Rightarrow> u16 \<Rightarrow> octets \<Rightarrow> octets result" where
  "kausf_S serving_network_name serving_network_name_len autn =
    copy_octets (unat serving_network_name_len) serving_network_name (\<lambda>ssn.
    copy_octets 6 autn (\<lambda>a.
      put_all 1024 [[0x6A], ssn, be16_octets serving_network_name_len, a, be16_octets 6]))"

definition kdf_kausf ::
  "(octets \<Rightarrow> octets \<Rightarrow> octets) \<Rightarrow> octets \<Rightarrow> octets \<Rightarrow> octets \<Rightarrow> u16 \<Rightarrow> octets \<Rightarrow> octets result" where
  "kdf_kausf hmac ck ik serving_network_name serving_network_name_len autn =
    copy_octets 16 ck (\<lambda>ck. copy_octets 16 ik (\<lambda>ik.
      map_result (hmac (ck @ ik)) (kausf_S serving_network_name serving_network_name_len autn)))"

definition xres_star_S :: "octets \<Rightarrow> u16 \<Rightarrow> octets \<Rightarrow> octets \<Rightarrow> octets result" where
  "xres_star_S serving_network_name serving_network_name_len rnd xres =
    copy_octets (unat serving_network_name_len) serving_network_name (\<lambda>ssn.
    copy_octets 16 rnd (\<lambda>r.
      put_all 1024 [[0x6B], ssn, be16_octets serving_network_name_len, r, be16_octets 16,
                    xres, be16_octets (of_nat (length xres))]))"

definition kdf_xres_star ::
  "(octets \<Rightarrow> octets \<Rightarrow> octets) \<Rightarrow> octets \<Rightarrow> u16 \<Rightarrow> octets \<Rightarrow> octets \<Rightarrow> octets \<Rightarrow> octets \<Rightarrow> octets result" where
  "kdf_xres_star hmac serving_network_name serving_network_name_len ck ik rnd xres =
    copy_octets 16 ck (\<lambda>ck. copy_octets 16 ik (\<lambda>ik.
      map_result (\<lambda>s. take 16 (drop 16 (hmac (ck @ ik) s)))
        (xres_star_S serving_network_name serving_network_name_len rnd xres)))"

definition kseaf_S :: "octets \<Rightarrow> u16 \<Rightarrow> octets result" where
  "kseaf_S serving_network_name serving_network_name_len =
    copy_octets (unat serving_network_name_len) serving_network_name (\<lambda>ssn.
      put_all 1024 [[0x6C], ssn, be16_octets serving_network_name_len])"

definition kdf_kseaf :: "(octets \<Rightarrow> octets \<Rightarrow> octets) \<Rightarrow> octets \<Rightarrow> octets \<Rightarrow> u16 \<Rightarrow> octets result" where
  "kdf_kseaf hmac kausf serving_network_name serving_network_name_len =
    copy_octets 32 kausf (\<lambda>key.
      map_result (hmac key) (kseaf_S serving_network_name serving_network_name_len))"

definition kamf_S :: "octets \<Rightarrow> u16 \<Rightarrow> octets \<Rightarrow> octets result" where
  "kamf_S supi supi_len abba =
    copy_octets (unat supi_len) supi (\<lambda>supi.
    copy_octets 2 abba (\<lambda>abba.
      put_all 1024 [[0x6D], supi, be16_octets supi_len, abba, be16_octets 2]))"

definition kdf_kamf :: "(octets \<Rightarrow> octets \<Rightarrow> octets) \<Rightarrow> octets \<Rightarrow> octets \<Rightarrow> u16 \<Rightarrow> octets \<Rightarrow> octets result" where
  "kdf_kamf hmac kseaf supi supi_len abba =
    copy_octets 32 kseaf (\<lambda>key. map_result (hmac key) (kamf_S supi supi_len abba))"

definition ng_nas_algo_S :: "u8 \<Rightarrow> u8 \<Rightarrow> octets result" where
  "ng_nas_algo_S algo_type algo_id =
    put_all 1024 [[0x69], [algo_type], be16_octets 1, [algo_id], be16_octets 1]"

definition kdf_ng_nas_algo :: "(octets \<Rightarrow> octets \<Rightarrow> octets) \<Rightarrow> octets \<Rightarrow> u8 \<Rightarrow> u8 \<Rightarrow> octets result" where
  "kdf_ng_nas_algo hmac kamf algo_type algo_id =
    copy_octets 32 kamf (\<lambda>key. map_result (hmac key) (ng_nas_algo_S algo_type algo_id))"

section \<open>LTE\<close>

definition MME_KDF_NAS_ENC_ALG :: u8 where "MME_KDF_NAS_ENC_ALG = 0x01"
definition MME_KDF_NAS_INT_ALG :: u8 where "MME_KDF_NAS_INT_ALG = 0x02"

definition mme_kdf_nas :: "(octets \<Rightarrow> octets \<Rightarrow> octets) \<Rightarrow> u8 \<Rightarrow> u8 \<Rightarrow> octets \<Rightarrow> octets result" where
  "mme_kdf_nas hmac algorithm_type_distinguishers algorithm_identity kasme =
    copy_octets 32 kasme (\<lambda>key.
      let s = [0x15, algorithm_type_distinguishers, 0x00, 0x01, algorithm_identity, 0x00, 0x01]
      in Inr (take 16 (drop 16 (hmac key s))))"

definition mme_kdf_enb :: "(octets \<Rightarrow> octets \<Rightarrow> octets) \<Rightarrow> octets \<Rightarrow> u32 \<Rightarrow> octets result" where
  "mme_kdf_enb hmac kasme ul_count =
    copy_octets 32 kasme (\<lambda>key. Inr (hmac key ([0x11] @ be32_octets ul_count @ [0x00, 0x04])))"

definition mme_kdf_nh :: "(octets \<Rightarrow> octets \<Rightarrow> octets) \<Rightarrow> octets \<Rightarrow> octets \<Rightarrow> octets result" where
  "mme_kdf_nh hmac kasme sync_input =
    copy_octets 32 sync_input (\<lambda>sync. copy_octets 32 kasme (\<lambda>key.
      Inr (hmac key ([0x12] @ sync @ [0x00, 0x20]))))"

definition FC_VALUE :: u8 where "FC_VALUE = 0x10"

definition hss_auc_kasme ::
  "(octets \<Rightarrow> octets \<Rightarrow> octets) \<Rightarrow> octets \<Rightarrow> octets \<Rightarrow> octets \<Rightarrow> octets \<Rightarrow> octets \<Rightarrow> octets result" where
  "hss_auc_kasme hmac ck ik plmn_id sqn ak =
    copy_octets 16 ck (\<lambda>ck. copy_octets 16 ik (\<lambda>ik. copy_octets 3 plmn_id (\<lambda>plmn_id.
    copy_octets 6 sqn (\<lambda>sqn. copy_octets 6 ak (\<lambda>ak.
      Inr (hmac (ck @ ik) ([FC_VALUE] @ plmn_id @ [0x00, 0x03] @ xor_list sqn ak @ [0x00, 0x06])))))))"

definition mme_kdf_nas_token :: "(octets \<Rightarrow> octets \<Rightarrow> octets) \<Rightarrow> octets \<Rightarrow> u32 \<Rightarrow> octets result" where
  "mme_kdf_nas_token hmac kasme ul_count =
    copy_octets 32 kasme (\<lambda>key. Inr (hmac key ([0x17] @ be32_octets ul_count @ [0x00, 0x04])))"

section \<open>The external functions\<close>

text \<open>The length of a buffer is passed as a 16-bit value, so it is cut to 16 bits.\<close>

definition f_kdf_kausf where
  "f_kdf_kausf hmac ck ik ssn autn = kdf_kausf hmac ck ik ssn (of_nat (length ssn)) autn"

definition f_kdf_xres_star where
  "f_kdf_xres_star hmac ssn ck ik rnd xres = kdf_xres_star hmac ssn (of_nat (length ssn)) ck ik rnd xres"

definition f_kdf_kseaf where
  "f_kdf_kseaf hmac kausf ssn = kdf_kseaf hmac kausf ssn (of_nat (length ssn))"

definition f_kdf_kamf where
  "f_kdf_kamf hmac kseaf supi abba = kdf_kamf hmac kseaf supi (of_nat (length supi)) abba"

text \<open>The runtime raises an error for an index outside an octet string.\<close>

definition f_kdf_ng_nas_algo where
  "f_kdf_ng_nas_algo hmac kamf algo_type algo_id =
    (if algo_type = [] \<or> algo_id = [] then Inl TtcnError
     else kdf_ng_nas_algo hmac kamf (algo_type ! 0) (algo_id ! 0))"

definition f_kdf_kasme where
  "f_kdf_kasme hmac ck ik plmn_id sqn ak = hss_auc_kasme hmac ck ik plmn_id sqn ak"

text \<open>\<open>to_int\<close> is the runtime's conversion of a TTCN-3 integer, which can raise an error.\<close>

definition f_kdf_nas_int :: "(int \<Rightarrow> int result) \<Rightarrow> (octets \<Rightarrow> octets \<Rightarrow> octets) \<Rightarrow> int \<Rightarrow> octets \<Rightarrow> octets result" where
  "f_kdf_nas_int to_int hmac alg_id kasme =
    bind_result (to_int alg_id) (\<lambda>a. mme_kdf_nas hmac MME_KDF_NAS_INT_ALG (word_of_int a) kasme)"

definition f_kdf_nas_enc :: "(int \<Rightarrow> int result) \<Rightarrow> (octets \<Rightarrow> octets \<Rightarrow> octets) \<Rightarrow> int \<Rightarrow> octets \<Rightarrow> octets result" where
  "f_kdf_nas_enc to_int hmac alg_id kasme =
    bind_result (to_int alg_id) (\<lambda>a. mme_kdf_nas hmac MME_KDF_NAS_ENC_ALG (word_of_int a) kasme)"

definition f_kdf_enb :: "(int \<Rightarrow> int result) \<Rightarrow> (octets \<Rightarrow> octets \<Rightarrow> octets) \<Rightarrow> octets \<Rightarrow> int \<Rightarrow> octets result" where
  "f_kdf_enb to_int hmac kasme ul_count =
    bind_result (to_int ul_count) (\<lambda>c. mme_kdf_enb hmac kasme (word_of_int c))"

definition f_kdf_nh :: "(octets \<Rightarrow> octets \<Rightarrow> octets) \<Rightarrow> octets \<Rightarrow> octets \<Rightarrow> octets result" where
  "f_kdf_nh hmac kasme sync_inp = mme_kdf_nh hmac kasme sync_inp"

definition f_kdf_nas_token :: "(int \<Rightarrow> int result) \<Rightarrow> (octets \<Rightarrow> octets \<Rightarrow> octets) \<Rightarrow> octets \<Rightarrow> int \<Rightarrow> octets result" where
  "f_kdf_nas_token to_int hmac kasme ul_count =
    bind_result (to_int ul_count) (\<lambda>c. mme_kdf_nas_token hmac kasme (word_of_int c))"

section \<open>The generic key derivation function\<close>

text \<open>TS 33.220 Annex B: a code, and each parameter followed by its length in two octets.\<close>

definition kdf_string :: "u8 \<Rightarrow> octets list \<Rightarrow> octets" where
  "kdf_string FC Ps = FC # concat (map (\<lambda>P. P @ be16_octets (of_nat (length P))) Ps)"

lemma kdf_string_inject:
  assumes "length Ps = length Qs" "\<forall>P\<in>set Ps. length P < 2 ^ 16" "\<forall>Q\<in>set Qs. length Q < 2 ^ 16"
  shows "kdf_string FC Ps = kdf_string FC' Qs \<longleftrightarrow> FC = FC' \<and> Ps = Qs"
proof -
  have *: "Ps = Qs"
    if "length Ps = length Qs" "\<forall>P\<in>set Ps. length P < 2 ^ 16" "\<forall>Q\<in>set Qs. length Q < 2 ^ 16"
      "concat (map (\<lambda>P. P @ be16_octets (of_nat (length P))) Ps) = concat (map (\<lambda>P. P @ be16_octets (of_nat (length P))) Qs)"
    for Ps Qs
    using that
  proof (induction Ps arbitrary: Qs rule: rev_induct)
    case (snoc P Ps)
    then obtain Q Qs' where Q: "Qs = Qs' @ [Q]" by (cases Qs rule: rev_cases) auto
    let ?e = "\<lambda>Ps. concat (map (\<lambda>P. P @ be16_octets (of_nat (length P))) Ps)"
    from snoc.prems(4) have e: "(?e Ps @ P) @ be16_octets (of_nat (length P)) = (?e Qs' @ Q) @ be16_octets (of_nat (length Q))"
      by (simp add: Q)
    then have "?e Ps @ P = ?e Qs' @ Q" "be16_octets (of_nat (length P)) = be16_octets (of_nat (length Q))"
      by (simp_all only: append_eq_append_conv length_be16_octets disjI2)
    moreover from this(2) have "unat (of_nat (length P) :: u16) = unat (of_nat (length Q) :: u16)" by simp
    then have "length P = length Q" using snoc.prems by (simp add: Q unat_of_nat)
    ultimately have "?e Ps = ?e Qs'" "P = Q" by simp_all
    with snoc.IH [of Qs'] snoc.prems show ?case by (simp add: Q)
  qed simp
  show ?thesis using * [OF assms] by (auto simp: kdf_string_def)
qed

lemma put_all_eq:
  "put_all n parts = (if length (concat parts) \<le> n then Inr (concat parts) else Inl OutOfBounds)"
proof (induction parts rule: rev_induct)
  case (snoc p parts)
  then show ?case by (simp add: put_all_def)
qed (simp add: put_all_def)

lemma be16_length: "n < 2 ^ 16 \<Longrightarrow> unat (of_nat n :: u16) = n"
  by (simp add: unat_of_nat)

lemma be16_octets_numeral: "be16_octets 1 = [0, 1]" "be16_octets 2 = [0, 2]" "be16_octets 3 = [0, 3]"
  "be16_octets 4 = [0, 4]" "be16_octets 6 = [0, 6]" "be16_octets 32 = [0, 0x20]"
  by (simp_all add: be16_octets_def octet_of_def)

named_theorems kdf_messages \<open>the message strings in the form of TS 33.220\<close>

lemma kausf_S_eq [kdf_messages]:
  assumes "length ssn \<le> 1013" "6 \<le> length autn"
  shows "kausf_S ssn (of_nat (length ssn)) autn = Inr (kdf_string 0x6A [ssn, take 6 autn])"
  using assms by (simp add: kausf_S_def copy_octets_def have_octets_def put_all_eq be16_length kdf_string_def)

lemma xres_star_S_eq [kdf_messages]:
  assumes "length ssn + length xres \<le> 1001" "16 \<le> length rnd"
  shows "xres_star_S ssn (of_nat (length ssn)) rnd xres = Inr (kdf_string 0x6B [ssn, take 16 rnd, xres])"
  using assms by (simp add: xres_star_S_def copy_octets_def have_octets_def put_all_eq be16_length kdf_string_def)

lemma kseaf_S_eq [kdf_messages]:
  assumes "length ssn \<le> 1021"
  shows "kseaf_S ssn (of_nat (length ssn)) = Inr (kdf_string 0x6C [ssn])"
  using assms by (simp add: kseaf_S_def copy_octets_def have_octets_def put_all_eq be16_length kdf_string_def)

lemma kamf_S_eq [kdf_messages]:
  assumes "length supi \<le> 1017" "2 \<le> length abba"
  shows "kamf_S supi (of_nat (length supi)) abba = Inr (kdf_string 0x6D [supi, take 2 abba])"
  using assms by (simp add: kamf_S_def copy_octets_def have_octets_def put_all_eq be16_length kdf_string_def)

lemma ng_nas_algo_S_eq [kdf_messages]: "ng_nas_algo_S t i = Inr (kdf_string 0x69 [[t], [i]])"
  by (simp add: ng_nas_algo_S_def put_all_eq kdf_string_def)

section \<open>Properties\<close>

text \<open>
  The five derivations of 5G are the generic key derivation function of TS 33.220 at the key,
  the code and the parameters of TS 33.501, for serving network names and identities that fit the
  buffer: the message is the code and each parameter followed by its length.
\<close>

theorem ng_derivations:
  assumes "length ck = 16" "length ik = 16" "length ssn \<le> 900" "length autn = 16" "length rnd = 16"
    "length xres \<le> 16" "length kausf = 32" "length kseaf = 32" "length kamf = 32" "length supi \<le> 900" "length abba = 2"
  shows "f_kdf_kausf hmac ck ik ssn autn = Inr (hmac (ck @ ik) (kdf_string 0x6A [ssn, take 6 autn])) \<and>
    f_kdf_xres_star hmac ssn ck ik rnd xres =
      Inr (take 16 (drop 16 (hmac (ck @ ik) (kdf_string 0x6B [ssn, rnd, xres])))) \<and>
    f_kdf_kseaf hmac kausf ssn = Inr (hmac kausf (kdf_string 0x6C [ssn])) \<and>
    f_kdf_kamf hmac kseaf supi abba = Inr (hmac kseaf (kdf_string 0x6D [supi, abba])) \<and>
    f_kdf_ng_nas_algo hmac kamf [t] [i] = Inr (hmac kamf (kdf_string 0x69 [[t], [i]]))"
  using assms
  by (simp add: f_kdf_kausf_def kdf_kausf_def f_kdf_xres_star_def kdf_xres_star_def f_kdf_kseaf_def kdf_kseaf_def
      f_kdf_kamf_def kdf_kamf_def f_kdf_ng_nas_algo_def kdf_ng_nas_algo_def copy_octets_def have_octets_def kdf_messages)

theorem ng_derivations_witness:
  "f_kdf_kausf (@) (replicate 16 1) (replicate 16 2) [53, 71] (replicate 16 3) =
      Inr ((replicate 16 1 @ replicate 16 2) @ kdf_string 0x6A [[53, 71], take 6 (replicate 16 3)])"
  using ng_derivations [of "replicate 16 1" "replicate 16 2" "[53, 71]" "replicate 16 3" "replicate 16 4"
      "replicate 8 5" "replicate 32 6" "replicate 32 7" "replicate 32 8" "[49]" "[0, 0]" "(@)" 1 1] by simp

text \<open>
  The derivations of LTE are the generic key derivation function at the codes and parameters of
  TS 33.401: the NAS keys are its second half, for the two distinguishers 1 and 2.
\<close>

theorem lte_derivations:
  assumes "length ck = 16" "length ik = 16" "length plmn = 3" "length sqn = 6" "length ak = 6"
    "length kasme = 32" "length sync = 32" "to_int n = Inr n"
  shows "f_kdf_kasme hmac ck ik plmn sqn ak = Inr (hmac (ck @ ik) (kdf_string 0x10 [plmn, xor_list sqn ak])) \<and>
    f_kdf_nas_enc to_int hmac n kasme = Inr (take 16 (drop 16 (hmac kasme (kdf_string 0x15 [[1], [word_of_int n]])))) \<and>
    f_kdf_nas_int to_int hmac n kasme = Inr (take 16 (drop 16 (hmac kasme (kdf_string 0x15 [[2], [word_of_int n]])))) \<and>
    f_kdf_enb to_int hmac kasme n = Inr (hmac kasme (kdf_string 0x11 [be32_octets (word_of_int n)])) \<and>
    f_kdf_nh hmac kasme sync = Inr (hmac kasme (kdf_string 0x12 [sync])) \<and>
    f_kdf_nas_token to_int hmac kasme n = Inr (hmac kasme (kdf_string 0x17 [be32_octets (word_of_int n)]))"
  using assms
  by (simp add: f_kdf_kasme_def hss_auc_kasme_def f_kdf_nas_enc_def f_kdf_nas_int_def mme_kdf_nas_def f_kdf_enb_def
      mme_kdf_enb_def f_kdf_nh_def mme_kdf_nh_def f_kdf_nas_token_def mme_kdf_nas_token_def copy_octets_def
      have_octets_def kdf_string_def be16_octets_numeral be16_octets_numeral [unfolded One_nat_def] FC_VALUE_def
      MME_KDF_NAS_ENC_ALG_def MME_KDF_NAS_INT_ALG_def)

theorem lte_derivations_witness:
  "f_kdf_enb Inr (@) (replicate 32 1) 7 = Inr (replicate 32 1 @ kdf_string 0x11 [be32_octets (word_of_int 7)])"
  using lte_derivations [of "replicate 16 1" "replicate 16 2" "[1, 2, 3]" "replicate 6 3" "replicate 6 4"
      "replicate 32 1" "replicate 32 6" Inr 7 "(@)"] by simp

text \<open>
  The messages of the derivations leave no room for confusion: two calls hand the same message
  to HMAC only for the same parameters, although the parameters have varying lengths and are only
  concatenated.
\<close>

theorem ng_messages_injective:
  assumes "length ssn \<le> 900" "length ssn' \<le> 900" "6 \<le> length autn" "6 \<le> length autn'" "length rnd = 16"
    "length rnd' = 16" "length xres \<le> 16" "length xres' \<le> 16" "length supi \<le> 900" "length supi' \<le> 900"
    "length abba = 2" "length abba' = 2"
  shows "(kausf_S ssn (of_nat (length ssn)) autn = kausf_S ssn' (of_nat (length ssn')) autn' \<longleftrightarrow>
      ssn = ssn' \<and> take 6 autn = take 6 autn') \<and>
    (xres_star_S ssn (of_nat (length ssn)) rnd xres = xres_star_S ssn' (of_nat (length ssn')) rnd' xres' \<longleftrightarrow>
      ssn = ssn' \<and> rnd = rnd' \<and> xres = xres') \<and>
    (kamf_S supi (of_nat (length supi)) abba = kamf_S supi' (of_nat (length supi')) abba' \<longleftrightarrow>
      supi = supi' \<and> abba = abba')"
  using assms by (simp add: kdf_messages kdf_string_inject)

theorem ng_messages_injective_witness:
  "kausf_S [1, 2] (of_nat (length [1, 2 :: u8])) (replicate 6 9) = kausf_S [1] (of_nat (length [1 :: u8])) (replicate 6 9) \<longleftrightarrow>
      [1, 2] = [1 :: u8] \<and> take 6 (replicate 6 9) = take 6 (replicate 6 (9 :: u8))"
  using ng_messages_injective [of "[1, 2]" "[1]" "replicate 6 9" "replicate 6 9" "replicate 16 4" "replicate 16 4"
      "[]" "[]" "[]" "[]" "[0, 0]" "[0, 0]"] by (simp only:) simp

end
