(* ===== verification/BSP_Crypto.thy ===== *)
theory BSP_Crypto
  imports Prelude
begin

text \<open>
  \<^verbatim>\<open>smdpp/bsp_crypto.cc\<close>: the protection of bound profile packages between a subscription
  manager and an eUICC. A \<^verbatim>\<open>BspCrypto\<close> object, here the record \<open>bsp\<close>, holds two keys, the chaining
  value of the message codes and a block counter; its methods are state transformers that return a
  value or the exception and the object after the call. OpenSSL is the record \<open>evp\<close> that every
  method takes.
\<close>

unbundle bit_operations_syntax

section \<open>OpenSSL\<close>

text \<open>
  The result codes and outputs of the calls, as functions of what the object they work on has been
  given; the flag of the cipher calls tells encryption from decryption.
\<close>

record evp =
  evp_mac_fetch :: bool
  evp_mac_ctx_new :: bool
  evp_mac_init :: "octets \<Rightarrow> int"
  evp_mac_update :: "octets \<Rightarrow> octets \<Rightarrow> int"
  evp_mac_final :: "octets \<Rightarrow> octets \<Rightarrow> int \<times> octets"
  evp_cipher_ctx_new :: bool
  evp_init :: "bool \<Rightarrow> octets \<Rightarrow> octets \<Rightarrow> int"
  evp_set_padding :: int
  evp_update :: "bool \<Rightarrow> octets \<Rightarrow> octets \<Rightarrow> octets \<Rightarrow> int \<times> octets"
  evp_final :: "bool \<Rightarrow> octets \<Rightarrow> octets \<Rightarrow> octets \<Rightarrow> int \<times> nat"
  evp_sha256 :: "octets \<Rightarrow> octets option"

section \<open>The object and its methods\<close>

record bsp =
  s_enc :: octets
  s_mac :: octets
  mac_chain :: octets
  block_number :: u32

type_synonym 'a bsp_method = "bsp \<Rightarrow> 'a result \<times> bsp"

definition bsp_return :: "'a \<Rightarrow> 'a bsp_method" where
  "bsp_return a s = (Inr a, s)"

definition bsp_throw :: "'a bsp_method" where
  "bsp_throw s = (Inl Thrown, s)"

definition bsp_lift :: "'a result \<Rightarrow> 'a bsp_method" where
  "bsp_lift r s = (r, s)"

definition bsp_bind :: "'a bsp_method \<Rightarrow> ('a \<Rightarrow> 'b bsp_method) \<Rightarrow> 'b bsp_method" where
  "bsp_bind m f s = (case m s of (Inl e, s') \<Rightarrow> (Inl e, s') | (Inr a, s') \<Rightarrow> f a s')"

definition MAX_SEGMENT_SIZE :: nat where "MAX_SEGMENT_SIZE = 1020"
definition MAC_LENGTH :: nat where "MAC_LENGTH = 8"
definition AES_KEY_SIZE :: nat where "AES_KEY_SIZE = 16"
definition AES_BLOCK_SIZE :: nat where "AES_BLOCK_SIZE = 16"

text \<open>The constructor's assertions end the process.\<close>

definition BspCrypto :: "octets \<Rightarrow> octets \<Rightarrow> octets \<Rightarrow> bsp result" where
  "BspCrypto s_enc_key s_mac_key initial_mcv =
    (if length s_enc_key = AES_KEY_SIZE \<and> length s_mac_key = AES_KEY_SIZE \<and> length initial_mcv = AES_BLOCK_SIZE
     then Inr \<lparr>s_enc = s_enc_key, s_mac = s_mac_key, mac_chain = initial_mcv, block_number = 1\<rparr>
     else Inl ProcessExit)"

definition compute_cmac :: "evp \<Rightarrow> octets \<Rightarrow> octets \<Rightarrow> octets result" where
  "compute_cmac evp key data =
    (if \<not> evp_mac_fetch evp then Inl Thrown
     else if \<not> evp_mac_ctx_new evp then Inl Thrown
     else if evp_mac_init evp key \<noteq> 1 then Inl Thrown
     else if evp_mac_update evp key data \<noteq> 1 then Inl Thrown
     else let (r, output) = evp_mac_final evp key data
       in if r \<noteq> 1 then Inl Thrown else Inr output)"

definition aes_cipher_operation :: "evp \<Rightarrow> octets \<Rightarrow> octets \<Rightarrow> octets \<Rightarrow> bool \<Rightarrow> octets result" where
  "aes_cipher_operation evp input key iv encrypt =
    (if length key \<noteq> AES_KEY_SIZE then Inl Thrown
     else if length iv \<noteq> AES_BLOCK_SIZE then Inl Thrown
     else if \<not> evp_cipher_ctx_new evp then Inl Thrown
     else if evp_init evp encrypt key iv \<noteq> 1 then Inl Thrown
     else if evp_set_padding evp \<noteq> 1 then Inl Thrown
     else let (result, output) = evp_update evp encrypt key iv input in
       if result \<noteq> 1 then Inl Thrown
       else if length output \<noteq> length input then Inl Thrown
       else let (result, final_len) = evp_final evp encrypt key iv input in
         if result \<noteq> 1 then Inl Thrown
         else if final_len \<noteq> 0 then Inl Thrown
         else Inr output)"

definition encode_bertlv_length :: "nat \<Rightarrow> octets result" where
  "encode_bertlv_length len =
    (if len < 0x80 then Inr [of_nat len]
     else if len < 0x100 then Inr [0x81, of_nat len]
     else if len < 0x10000 then Inr [0x82, of_nat (len div 2 ^ 8), of_nat (len mod 2 ^ 8)]
     else Inl Thrown)"

definition parse_bertlv_length :: "octets \<Rightarrow> nat \<Rightarrow> (nat \<times> nat) result" where
  "parse_bertlv_length data offset =
    (if length data \<le> offset then Inl Thrown
     else let first_byte = data ! offset in
       if first_byte < 0x80 then Inr (unat first_byte, offset + 1)
       else if first_byte = 0x81 then
         if length data \<le> offset + 1 then Inl Thrown
         else Inr (unat (data ! (offset + 1)), offset + 2)
       else if first_byte = 0x82 then
         if length data \<le> offset + 2 then Inl Thrown
         else Inr (unat (data ! (offset + 1)) * 2 ^ 8 + unat (data ! (offset + 2)), offset + 3)
       else Inl Thrown)"

section \<open>Key derivation\<close>

text \<open>The hash is written into an array of 32 octets.\<close>

function x963_loop :: "evp \<Rightarrow> octets \<Rightarrow> octets \<Rightarrow> nat \<Rightarrow> u32 \<Rightarrow> octets \<Rightarrow> octets result" where
  "x963_loop evp shared_secret shared_info output_length counter output =
    (if length output < output_length then
       case evp_sha256 evp (shared_secret @ be32_octets counter @ shared_info) of
         None \<Rightarrow> Inl Thrown
       | Some h \<Rightarrow>
           let hash_output = take 32 (h @ replicate 32 0);
               bytes_needed = min 32 (output_length - length output)
           in x963_loop evp shared_secret shared_info output_length (counter + 1)
                (output @ take bytes_needed hash_output)
     else Inr output)"
  by pat_completeness auto
termination
  by (relation "measure (\<lambda>(evp, shared_secret, shared_info, output_length, counter, output).
      output_length - length output)") (auto simp: min_def)

declare x963_loop.simps [simp del]

definition x963_kdf_sha256 :: "evp \<Rightarrow> octets \<Rightarrow> octets \<Rightarrow> nat \<Rightarrow> octets result" where
  "x963_kdf_sha256 evp shared_secret shared_info output_length =
    map_result (take output_length) (x963_loop evp shared_secret shared_info output_length 1 [])"

definition from_kdf :: "evp \<Rightarrow> octets \<Rightarrow> u8 \<Rightarrow> u8 \<Rightarrow> octets \<Rightarrow> octets \<Rightarrow> bsp result" where
  "from_kdf evp shared_secret key_type key_length host_id eid =
    (if 255 < length host_id then Inl Thrown
     else if 255 < length eid then Inl Thrown
     else
       let shared_info = [key_type, key_length] @ [of_nat (length host_id)] @ host_id @ [of_nat (length eid)] @ eid
       in bind_result (x963_kdf_sha256 evp shared_secret shared_info 48) (\<lambda>kdf_output.
            BspCrypto (take 16 (drop 16 kdf_output)) (take 16 (drop 32 kdf_output)) (take 16 kdf_output)))"

section \<open>Padding and ciphering\<close>

function pad_loop :: "octets \<Rightarrow> octets" where
  "pad_loop padded = (if length padded mod AES_BLOCK_SIZE \<noteq> 0 then pad_loop (padded @ [0x00]) else padded)"
  by pat_completeness auto
termination
  by (relation "measure (\<lambda>padded. (16 - length padded mod 16) mod 16)")
    (auto simp: AES_BLOCK_SIZE_def mod_Suc)

declare pad_loop.simps [simp del]

definition add_padding :: "octets \<Rightarrow> octets" where
  "add_padding data = pad_loop (data @ [0x80])"

text \<open>The result is the index of the last octet that is not 0, plus 1.\<close>

fun last_nonzero :: "octets \<Rightarrow> nat \<Rightarrow> nat" where
  "last_nonzero data 0 = 0"
| "last_nonzero data (Suc i) = (if data ! i = 0x00 then last_nonzero data i else Suc i)"

definition remove_padding :: "octets \<Rightarrow> octets" where
  "remove_padding data =
    (if data = [] then data
     else let n = last_nonzero data (length data)
       in if 0 < n \<and> data ! (n - 1) = 0x80 then take (n - 1) data else data)"

definition generate_icv_for_block :: "evp \<Rightarrow> u32 \<Rightarrow> octets bsp_method" where
  "generate_icv_for_block evp block_num s =
    bsp_lift (aes_cipher_operation evp (replicate 12 0 @ be32_octets block_num) (s_enc s)
      (replicate AES_BLOCK_SIZE 0) True) s"

definition incr_block_number :: "unit bsp_method" where
  "incr_block_number s = (Inr (), s\<lparr>block_number := block_number s + 1\<rparr>)"

definition generate_icv :: "evp \<Rightarrow> octets bsp_method" where
  "generate_icv evp s =
    bsp_bind (generate_icv_for_block evp (block_number s))
      (\<lambda>icv. bsp_bind incr_block_number (\<lambda>_. bsp_return icv)) s"

definition aes_encrypt :: "evp \<Rightarrow> octets \<Rightarrow> octets bsp_method" where
  "aes_encrypt evp plaintext =
    bsp_bind (generate_icv evp) (\<lambda>icv s.
      bsp_lift (aes_cipher_operation evp (add_padding plaintext) (s_enc s) icv True) s)"

definition aes_decrypt_with_icv :: "evp \<Rightarrow> octets \<Rightarrow> octets \<Rightarrow> octets bsp_method" where
  "aes_decrypt_with_icv evp ciphertext icv s =
    bsp_lift (map_result remove_padding (aes_cipher_operation evp ciphertext (s_enc s) icv False)) s"

section \<open>Segments\<close>

definition set_mac_chain :: "octets \<Rightarrow> unit bsp_method" where
  "set_mac_chain v s = (Inr (), s\<lparr>mac_chain := v\<rparr>)"

definition compute_mac :: "evp \<Rightarrow> u8 \<Rightarrow> octets \<Rightarrow> octets bsp_method" where
  "compute_mac evp tag data s =
    bsp_bind (bsp_lift (encode_bertlv_length (length data + MAC_LENGTH))) (\<lambda>length_bytes.
    bsp_bind (bsp_lift (compute_cmac evp (s_mac s) (mac_chain s @ [tag] @ length_bytes @ data))) (\<lambda>full_mac.
    bsp_bind (set_mac_chain full_mac) (\<lambda>_.
      bsp_return (take MAC_LENGTH full_mac)))) s"

definition verify_and_decrypt_helper :: "evp \<Rightarrow> octets \<Rightarrow> octets \<Rightarrow> bool \<Rightarrow> octets bsp_method" where
  "verify_and_decrypt_helper evp segment mac_chain_to_use decrypt s =
    (if length segment < 3 then bsp_throw s
     else bsp_bind (bsp_lift (parse_bertlv_length segment 1)) (\<lambda>(len, length_end).
       if length segment < length_end + len then bsp_throw
       else if len \<le> MAC_LENGTH then bsp_throw
       else
         let payload_length = len - MAC_LENGTH;
             payload = take payload_length (drop length_end segment);
             received_mac = take MAC_LENGTH (drop (length_end + payload_length) segment);
             lcc = length payload + MAC_LENGTH
         in bsp_bind (bsp_lift (encode_bertlv_length lcc)) (\<lambda>length_bytes.
            bsp_bind (bsp_lift (compute_cmac evp (s_mac s)
                (mac_chain_to_use @ [segment ! 0] @ length_bytes @ payload))) (\<lambda>computed_full_mac.
              if received_mac \<noteq> take MAC_LENGTH computed_full_mac then bsp_throw
              else bsp_bind (set_mac_chain computed_full_mac) (\<lambda>_.
                if decrypt
                then bsp_bind (generate_icv evp) (aes_decrypt_with_icv evp payload)
                else bsp_bind incr_block_number (\<lambda>_. bsp_return payload))))) s)"

definition decrypt_and_verify :: "evp \<Rightarrow> octets \<Rightarrow> bool \<Rightarrow> octets bsp_method" where
  "decrypt_and_verify evp segments decrypt s = verify_and_decrypt_helper evp segments (mac_chain s) decrypt s"

definition encrypt_and_mac_one :: "evp \<Rightarrow> u8 \<Rightarrow> octets \<Rightarrow> octets bsp_method" where
  "encrypt_and_mac_one evp tag plaintext =
    (if MAX_SEGMENT_SIZE - 10 < length plaintext then bsp_throw
     else bsp_bind (aes_encrypt evp plaintext) (\<lambda>ciphertext.
          bsp_bind (compute_mac evp tag ciphertext) (\<lambda>mac.
          bsp_bind (bsp_lift (encode_bertlv_length (length ciphertext + MAC_LENGTH))) (\<lambda>length_bytes.
            bsp_return ([tag] @ length_bytes @ ciphertext @ mac)))))"

definition mac_only_one :: "evp \<Rightarrow> u8 \<Rightarrow> octets \<Rightarrow> octets bsp_method" where
  "mac_only_one evp tag plaintext =
    (if MAX_SEGMENT_SIZE - 10 < length plaintext then bsp_throw
     else bsp_bind (compute_mac evp tag plaintext) (\<lambda>mac.
          bsp_bind (bsp_lift (encode_bertlv_length (length plaintext + MAC_LENGTH))) (\<lambda>length_bytes.
          bsp_bind incr_block_number (\<lambda>_.
            bsp_return ([tag] @ length_bytes @ plaintext @ mac)))))"

text \<open>The loop over the pieces of at most 1010 octets, from an offset.\<close>

function seg_loop :: "(octets \<Rightarrow> octets bsp_method) \<Rightarrow> octets \<Rightarrow> nat \<Rightarrow> octets list bsp_method" where
  "seg_loop one data offset =
    (if offset < length data then
       let max_payload = MAX_SEGMENT_SIZE - 10;
           segment_size = min max_payload (length data - offset)
       in bsp_bind (one (take segment_size (drop offset data))) (\<lambda>seg.
            bsp_bind (seg_loop one data (offset + max_payload)) (\<lambda>segs. bsp_return (seg # segs)))
     else bsp_return [])"
  by pat_completeness auto
termination
  by (relation "measure (\<lambda>(one, data, offset). length data - offset)") (auto simp: MAX_SEGMENT_SIZE_def)

declare seg_loop.simps [simp del]

definition encrypt_and_mac_seg :: "evp \<Rightarrow> u8 \<Rightarrow> octets \<Rightarrow> octets list bsp_method" where
  "encrypt_and_mac_seg evp tag data = seg_loop (encrypt_and_mac_one evp tag) data 0"

definition mac_only_seg :: "evp \<Rightarrow> u8 \<Rightarrow> octets \<Rightarrow> octets list bsp_method" where
  "mac_only_seg evp tag data = seg_loop (mac_only_one evp tag) data 0"

definition reset :: "octets \<Rightarrow> unit bsp_method" where
  "reset initial_mcv s = (Inr (), s\<lparr>mac_chain := initial_mcv, block_number := 1\<rparr>)"

section \<open>Bound profile packages\<close>

record ReplaceSessionKeysRequest =
  ppkEnc :: octets
  ppkCmac :: octets
  initialMacChainingValue :: octets

text \<open>
  A decoded ASN.1 structure: OpenSSL's decoder is the argument \<open>d2i\<close> of the functions that use it,
  and a member that the decoder leaves null is \<^const>\<open>None\<close>.
\<close>

record ReplaceSessionKeysRequest_ASN1 =
  asn1_initialMacChainingValue :: "octets option"
  asn1_ppkEnc :: "octets option"
  asn1_ppkCmac :: "octets option"

definition asn1_octet_string_to_vector :: "octets option \<Rightarrow> octets result" where
  "asn1_octet_string_to_vector asn1_str =
    (case asn1_str of None \<Rightarrow> Inl Thrown | Some data \<Rightarrow> if length data \<le> 0 then Inl Thrown else Inr data)"

definition parse_replace_session_keys ::
  "(octets \<Rightarrow> ReplaceSessionKeysRequest_ASN1 option) \<Rightarrow> octets \<Rightarrow> ReplaceSessionKeysRequest result" where
  "parse_replace_session_keys d2i data =
    (if data = [] then Inl Thrown
     else case d2i data of
       None \<Rightarrow> Inl Thrown
     | Some rsk \<Rightarrow>
         (case (asn1_initialMacChainingValue rsk, asn1_ppkEnc rsk, asn1_ppkCmac rsk) of
            (Some mcv, Some enc, Some cmac) \<Rightarrow>
              if length mcv \<noteq> 16 then Inl Thrown
              else if length enc \<noteq> 16 then Inl Thrown
              else if length cmac \<noteq> 16 then Inl Thrown
              else bind_result (asn1_octet_string_to_vector (Some mcv)) (\<lambda>m.
                   bind_result (asn1_octet_string_to_vector (Some enc)) (\<lambda>e.
                   bind_result (asn1_octet_string_to_vector (Some cmac)) (\<lambda>c.
                     Inr \<lparr>ppkEnc = e, ppkCmac = c, initialMacChainingValue = m\<rparr>)))
          | _ \<Rightarrow> Inl Thrown))"

definition from_replace_session_keys :: "ReplaceSessionKeysRequest \<Rightarrow> bsp result" where
  "from_replace_session_keys rsk = BspCrypto (ppkEnc rsk) (ppkCmac rsk) (initialMacChainingValue rsk)"

definition generate_replace_session_keys_data :: "octets \<Rightarrow> octets \<Rightarrow> octets \<Rightarrow> octets result" where
  "generate_replace_session_keys_data ppk_enc ppk_mac initial_mcv =
    (if length ppk_enc \<noteq> 16 \<or> length ppk_mac \<noteq> 16 \<or> length initial_mcv \<noteq> 16 then Inl Thrown
     else Inr (ppk_enc @ ppk_mac @ initial_mcv))"

record BppProcessingResult =
  configureIsdp :: octets
  storeMetadata :: octets
  replaceSessionKeys :: "ReplaceSessionKeysRequest option"
  profileData :: octets

text \<open>
  The package as OpenSSL decodes it: the four sequences of segments, each segment as OpenSSL encodes
  it again; a null pointer is \<^const>\<open>None\<close>, and the encoding of a missing first element is empty.
\<close>

record BoundProfilePackage =
  bpp_firstSequenceOf87 :: "octets list option"
  bpp_sequenceOf88 :: "octets list option"
  bpp_secondSequenceOf87 :: "octets list option"
  bpp_sequenceOf86 :: "octets list option"

definition first_segment :: "octets list \<Rightarrow> octets" where
  "first_segment segs = (case segs of [] \<Rightarrow> [] | seg # _ \<Rightarrow> seg)"

fun decrypt_all :: "evp \<Rightarrow> bool \<Rightarrow> octets list \<Rightarrow> octets bsp_method" where
  "decrypt_all evp decrypt [] = bsp_return []"
| "decrypt_all evp decrypt (seg # segs) =
     bsp_bind (decrypt_and_verify evp seg decrypt) (\<lambda>rv.
     bsp_bind (decrypt_all evp decrypt segs) (\<lambda>rest. bsp_return (rv @ rest)))"

text \<open>
  A method of another object, whose state after the call is dropped: the keys of the replacement
  protect the profile, in an object that lives only here.
\<close>

definition with_bsp :: "bsp \<Rightarrow> 'a bsp_method \<Rightarrow> 'a bsp_method" where
  "with_bsp other m s = (fst (m other), s)"

definition process_sequences :: "evp \<Rightarrow> (octets \<Rightarrow> ReplaceSessionKeysRequest_ASN1 option) \<Rightarrow>
    octets \<Rightarrow> octets bsp_method \<Rightarrow> octets option \<Rightarrow> octets bsp_method \<Rightarrow> BppProcessingResult bsp_method" where
  "process_sequences evp d2i_rsk first87 metadata second87 profile =
    bsp_bind (decrypt_and_verify evp first87 True) (\<lambda>isdp.
    bsp_bind metadata (\<lambda>meta.
      case second87 of
        Some seg \<Rightarrow>
          bsp_bind (decrypt_and_verify evp seg True) (\<lambda>rsk_data.
          bsp_bind (bsp_lift (parse_replace_session_keys d2i_rsk rsk_data)) (\<lambda>rsk.
          bsp_bind (bsp_lift (from_replace_session_keys rsk)) (\<lambda>ppk_bsp.
          bsp_bind (with_bsp ppk_bsp profile) (\<lambda>prof.
            bsp_return \<lparr>configureIsdp = isdp, storeMetadata = meta, replaceSessionKeys = Some rsk, profileData = prof\<rparr>))))
      | None \<Rightarrow>
          bsp_bind profile (\<lambda>prof.
            bsp_return \<lparr>configureIsdp = isdp, storeMetadata = meta, replaceSessionKeys = None, profileData = prof\<rparr>)))"

text \<open>The two overloads; \<^const>\<open>None\<close> is the empty result that the first returns for a package
  that cannot be decoded or lacks a mandatory sequence.\<close>

definition process_bound_profile_package :: "evp \<Rightarrow> (octets \<Rightarrow> BoundProfilePackage option) \<Rightarrow>
    (octets \<Rightarrow> ReplaceSessionKeysRequest_ASN1 option) \<Rightarrow> octets \<Rightarrow> BppProcessingResult option bsp_method" where
  "process_bound_profile_package evp d2i_bpp d2i_rsk allofit =
    (case d2i_bpp allofit of
       None \<Rightarrow> bsp_return None
     | Some bpp \<Rightarrow>
         (case (bpp_firstSequenceOf87 bpp, bpp_sequenceOf88 bpp, bpp_sequenceOf86 bpp) of
            (Some first87, Some seq88, Some seq86) \<Rightarrow>
              bsp_bind (process_sequences evp d2i_rsk (first_segment first87) (decrypt_all evp False seq88)
                  (map_option first_segment (bpp_secondSequenceOf87 bpp)) (decrypt_all evp True seq86))
                (\<lambda>r. bsp_return (Some r))
          | _ \<Rightarrow> bsp_return None))"

definition process_bound_profile_package_4 :: "evp \<Rightarrow> (octets \<Rightarrow> ReplaceSessionKeysRequest_ASN1 option) \<Rightarrow>
    octets \<Rightarrow> octets \<Rightarrow> octets \<Rightarrow> octets \<Rightarrow> BppProcessingResult bsp_method" where
  "process_bound_profile_package_4 evp d2i_rsk firstSequenceOf87 sequenceOf88 secondSequenceOf87 sequenceOf86 =
    process_sequences evp d2i_rsk firstSequenceOf87 (decrypt_and_verify evp sequenceOf88 False)
      (if secondSequenceOf87 = [] then None else Some secondSequenceOf87) (decrypt_and_verify evp sequenceOf86 True)"

section \<open>Methods: lemmas\<close>

lemmas bsp_method_defs = bsp_return_def bsp_throw_def bsp_lift_def bsp_bind_def

lemma bsp_bind_Inr: "m s = (Inr a, s') \<Longrightarrow> bsp_bind m f s = f a s'"
  by (simp add: bsp_bind_def)

lemma bsp_bind_Inl: "m s = (Inl e, s') \<Longrightarrow> bsp_bind m f s = (Inl e, s')"
  by (simp add: bsp_bind_def)

lemma bsp_bind_lift [simp]: "bsp_bind (bsp_lift (Inr a)) f s = f a s"
  by (simp add: bsp_bind_def bsp_lift_def)

lemma bsp_return_apply [simp]: "bsp_return a s = (Inr a, s)"
  by (simp add: bsp_return_def)

lemma bsp_lift_apply [simp]: "bsp_lift r s = (r, s)"
  by (simp add: bsp_lift_def)

section \<open>Lengths\<close>

lemma encode_bertlv_length_ok:
  assumes "n < 0x10000"
  obtains L where "encode_bertlv_length n = Inr L" "1 \<le> length L" "length L \<le> 3"
    "\<And>pre rest. parse_bertlv_length (pre @ L @ rest) (length pre) = Inr (n, length pre + length L)"
proof -
  have u: "unat (of_nat k :: u8) = k" if "k < 256" for k
    using that by (simp add: unat_of_nat)
  consider "n < 0x80" | "0x80 \<le> n" "n < 0x100" | "0x100 \<le> n" by linarith
  then show ?thesis
  proof cases
    case 1
    with u [of n] have "parse_bertlv_length (pre @ [of_nat n] @ rest) (length pre) = Inr (n, length pre + 1)" for pre rest
      by (simp add: parse_bertlv_length_def word_less_nat_alt)
    with 1 that [of "[of_nat n]"] show ?thesis by (simp add: encode_bertlv_length_def)
  next
    case 2
    with u [of n] have "parse_bertlv_length (pre @ [0x81, of_nat n] @ rest) (length pre) = Inr (n, length pre + 2)" for pre rest
      by (simp add: parse_bertlv_length_def nth_append)
    with 2 that [of "[0x81, of_nat n]"] show ?thesis by (simp add: encode_bertlv_length_def)
  next
    case 3
    have "n div 2 ^ 8 < 256" "n mod 2 ^ 8 < 256" using assms by (simp_all add: less_mult_imp_div_less)
    then have "parse_bertlv_length (pre @ [0x82, of_nat (n div 2 ^ 8), of_nat (n mod 2 ^ 8)] @ rest) (length pre)
        = Inr (n, length pre + 3)" for pre rest
      using u [of "n div 2 ^ 8"] u [of "n mod 2 ^ 8"] div_mult_mod_eq [of n "2 ^ 8"]
      by (simp add: parse_bertlv_length_def nth_append)
    with 3 assms that [of "[0x82, of_nat (n div 2 ^ 8), of_nat (n mod 2 ^ 8)]"] show ?thesis
      by (simp add: encode_bertlv_length_def)
  qed
qed

section \<open>Padding\<close>

lemma pad_loop_shape: "\<exists>n<16. pad_loop data = data @ replicate n 0 \<and> (length data + n) mod 16 = 0"
proof (induction data rule: pad_loop.induct)
  case (1 data)
  show ?case
  proof (cases "length data mod 16 = 0")
    case True
    then have "pad_loop data = data" by (subst pad_loop.simps) (simp add: AES_BLOCK_SIZE_def)
    with True show ?thesis by (intro exI [of _ 0]) simp
  next
    case False
    with 1 obtain n where n: "pad_loop (data @ [0]) = (data @ [0]) @ replicate n 0" "n < 16"
      "(length data + Suc n) mod 16 = 0" by (auto simp: AES_BLOCK_SIZE_def)
    have "pad_loop data = pad_loop (data @ [0])"
      using False by (subst pad_loop.simps) (simp add: AES_BLOCK_SIZE_def)
    moreover have "Suc n < 16" using n(2,3) False by (cases "n = 15") auto
    ultimately show ?thesis using n by (intro exI [of _ "Suc n"]) simp
  qed
qed

lemma last_nonzero_zeros: "last_nonzero (data @ replicate n 0) (length data + n) = last_nonzero (data @ replicate n 0) (length data)"
proof (induction n)
  case (Suc n)
  have p: "last_nonzero xs k = last_nonzero ys k" if "take k xs = take k ys" "k \<le> length xs" "k \<le> length ys" for xs ys k
    using that
  proof (induction k)
    case (Suc k)
    then have "xs ! k = ys ! k" by (metis Suc_le_lessD lessI nth_take)
    moreover have "take k xs = take k ys" using Suc.prems(1) by (metis Suc_n_not_le_n nat_le_linear take_Suc_conv_app_nth take_take min.absorb1)
    ultimately show ?case using Suc by simp
  qed simp
  have r: "replicate (Suc n) (0 :: u8) = replicate n 0 @ [0]" by (simp add: replicate_append_same)
  have "last_nonzero (data @ replicate (Suc n) 0) (length data + Suc n) = last_nonzero (data @ replicate (Suc n) 0) (length data + n)"
    by (simp add: r nth_append del: replicate_Suc)
  also have "\<dots> = last_nonzero (data @ replicate n 0) (length data + n)"
    by (rule p) (simp_all add: r del: replicate_Suc)
  also have "\<dots> = last_nonzero (data @ replicate n 0) (length data)" by (rule Suc)
  also have "\<dots> = last_nonzero (data @ replicate (Suc n) 0) (length data)"
    by (rule p) simp_all
  finally show ?case .
qed simp

lemma remove_add_padding: "remove_padding (add_padding data) = data"
proof -
  obtain n where n: "add_padding data = (data @ [0x80]) @ replicate n 0"
    using pad_loop_shape [of "data @ [0x80]"] by (auto simp: add_padding_def)
  have "last_nonzero ((data @ [0x80]) @ replicate n 0) (length (data @ [0x80]) + n) = Suc (length data)"
    unfolding last_nonzero_zeros by (simp add: nth_append)
  then show ?thesis by (simp add: n remove_padding_def nth_append)
qed

lemma length_add_padding: "length (add_padding data) mod 16 = 0" "length data < length (add_padding data)"
  "length (add_padding data) \<le> length data + 16"
proof -
  obtain n where "n < 16" "add_padding data = (data @ [0x80]) @ replicate n 0" "(Suc (length data) + n) mod 16 = 0"
    using pad_loop_shape [of "data @ [0x80]"] by (auto simp: add_padding_def)
  then show "length (add_padding data) mod 16 = 0" "length data < length (add_padding data)"
    "length (add_padding data) \<le> length data + 16" by simp_all
qed

section \<open>What the code relies on\<close>

text \<open>
  OpenSSL as documented: the calls succeed on keys of 16 octets and whole blocks, a message code has
  16 octets, ciphering keeps the length and leaves nothing for the final call, and deciphering with
  the same key and initial vector is the inverse of ciphering.
\<close>

definition evp_ok :: "evp \<Rightarrow> bool" where
  "evp_ok evp \<longleftrightarrow> evp_mac_fetch evp \<and> evp_mac_ctx_new evp \<and> evp_cipher_ctx_new evp \<and> evp_set_padding evp = 1 \<and>
    (\<forall>key data. length key = 16 \<longrightarrow> evp_mac_init evp key = 1 \<and> evp_mac_update evp key data = 1 \<and>
       fst (evp_mac_final evp key data) = 1 \<and> length (snd (evp_mac_final evp key data)) = 16) \<and>
    (\<forall>enc key iv data. length key = 16 \<longrightarrow> length iv = 16 \<longrightarrow> length data mod 16 = 0 \<longrightarrow>
       evp_init evp enc key iv = 1 \<and> fst (evp_update evp enc key iv data) = 1 \<and>
       length (snd (evp_update evp enc key iv data)) = length data \<and> evp_final evp enc key iv data = (1, 0)) \<and>
    (\<forall>key iv data. length key = 16 \<longrightarrow> length iv = 16 \<longrightarrow> length data mod 16 = 0 \<longrightarrow>
       snd (evp_update evp False key iv (snd (evp_update evp True key iv data))) = data)"

definition bsp_wf :: "bsp \<Rightarrow> bool" where
  "bsp_wf s \<longleftrightarrow> length (s_enc s) = 16 \<and> length (s_mac s) = 16 \<and> length (mac_chain s) = 16"

definition cmac :: "evp \<Rightarrow> octets \<Rightarrow> octets \<Rightarrow> octets" where
  "cmac evp key data = snd (evp_mac_final evp key data)"

definition cbc :: "evp \<Rightarrow> bool \<Rightarrow> octets \<Rightarrow> octets \<Rightarrow> octets \<Rightarrow> octets" where
  "cbc evp enc key iv data = snd (evp_update evp enc key iv data)"

lemma compute_cmac_ok: "evp_ok evp \<Longrightarrow> length key = 16 \<Longrightarrow> compute_cmac evp key data = Inr (cmac evp key data)"
  by (simp add: evp_ok_def compute_cmac_def cmac_def Let_def split_beta)

lemma length_cmac: "evp_ok evp \<Longrightarrow> length key = 16 \<Longrightarrow> length (cmac evp key data) = 16"
  by (simp add: evp_ok_def cmac_def)

lemma cipher_ok: "evp_ok evp \<Longrightarrow> length key = 16 \<Longrightarrow> length iv = 16 \<Longrightarrow> length data mod 16 = 0 \<Longrightarrow>
  aes_cipher_operation evp data key iv enc = Inr (cbc evp enc key iv data)"
  by (simp add: evp_ok_def aes_cipher_operation_def cbc_def Let_def split_beta AES_KEY_SIZE_def AES_BLOCK_SIZE_def)

lemma length_cbc: "evp_ok evp \<Longrightarrow> length key = 16 \<Longrightarrow> length iv = 16 \<Longrightarrow> length data mod 16 = 0 \<Longrightarrow>
  length (cbc evp enc key iv data) = length data"
  by (simp add: evp_ok_def cbc_def)

lemma cbc_inverse: "evp_ok evp \<Longrightarrow> length key = 16 \<Longrightarrow> length iv = 16 \<Longrightarrow> length data mod 16 = 0 \<Longrightarrow>
  cbc evp False key iv (cbc evp True key iv data) = data"
  by (simp add: evp_ok_def cbc_def)

section \<open>One segment\<close>

text \<open>The initial vector of the next block, and the object after a segment with message code \<open>m\<close>.\<close>

definition next_icv :: "evp \<Rightarrow> bsp \<Rightarrow> octets" where
  "next_icv evp s = cbc evp True (s_enc s) (replicate 16 0) (replicate 12 0 @ be32_octets (block_number s))"

definition after_segment :: "octets \<Rightarrow> bsp \<Rightarrow> bsp" where
  "after_segment m s = s\<lparr>mac_chain := m, block_number := block_number s + 1\<rparr>"

lemma length_next_icv: "evp_ok evp \<Longrightarrow> bsp_wf s \<Longrightarrow> length (next_icv evp s) = 16"
  by (simp add: next_icv_def length_cbc bsp_wf_def)

lemma generate_icv_ok: "evp_ok evp \<Longrightarrow> bsp_wf s \<Longrightarrow>
  generate_icv evp s = (Inr (next_icv evp s), s\<lparr>block_number := block_number s + 1\<rparr>)"
  by (simp add: generate_icv_def generate_icv_for_block_def bsp_bind_def incr_block_number_def cipher_ok bsp_wf_def
      next_icv_def AES_BLOCK_SIZE_def)

lemma aes_encrypt_ok: "evp_ok evp \<Longrightarrow> bsp_wf s \<Longrightarrow>
  aes_encrypt evp p s = (Inr (cbc evp True (s_enc s) (next_icv evp s) (add_padding p)), s\<lparr>block_number := block_number s + 1\<rparr>)"
  by (simp add: aes_encrypt_def bsp_bind_def generate_icv_ok cipher_ok length_next_icv length_add_padding)
    (simp add: bsp_wf_def cipher_ok length_add_padding length_next_icv)

lemma compute_mac_ok:
  assumes "evp_ok evp" "bsp_wf s" "encode_bertlv_length (length data + 8) = Inr L"
    "m = cmac evp (s_mac s) (mac_chain s @ [tag] @ L @ data)"
  shows "compute_mac evp tag data s = (Inr (take 8 m), s\<lparr>mac_chain := m\<rparr>)"
  using assms by (simp add: compute_mac_def MAC_LENGTH_def bsp_bind_def compute_cmac_ok bsp_wf_def set_mac_chain_def)

text \<open>The verifier's way through a segment that its peer built.\<close>

lemma verify_segment:
  assumes "evp_ok evp" "bsp_wf s" "payload \<noteq> []" "encode_bertlv_length (length payload + 8) = Inr L"
    "m = cmac evp (s_mac s) (mac_chain s @ [tag] @ L @ payload)" "length payload + 8 < 0x10000"
  shows "decrypt_and_verify evp ([tag] @ L @ payload @ take 8 m) decrypt s =
    (if decrypt then bsp_bind (generate_icv evp) (aes_decrypt_with_icv evp payload) (s\<lparr>mac_chain := m\<rparr>)
     else (Inr payload, after_segment m s))"
proof -
  have lm: "length m = 16" using assms(1,2,5) by (simp add: length_cmac bsp_wf_def)
  obtain L' where L': "encode_bertlv_length (length payload + 8) = Inr L'" "1 \<le> length L'"
    "\<And>pre rest. parse_bertlv_length (pre @ L' @ rest) (length pre) = Inr (length payload + 8, length pre + length L')"
    using encode_bertlv_length_ok [OF assms(6)] by metis
  then have p: "parse_bertlv_length (tag # L @ payload @ take 8 m) (Suc 0) = Inr (length payload + 8, Suc (length L))"
    and L1: "1 \<le> length L"
    using assms(4) L'(3) [of "[tag]" "payload @ take 8 m"] by simp_all
  let ?seg = "[tag] @ L @ payload @ take 8 m"
  have tk: "take 8 (drop (length L + length payload) (L @ payload @ take 8 m)) = take 8 m" using lm by simp
  have "length ?seg = Suc (length L + length payload + 8)" using lm by simp
  then have v: "decrypt_and_verify evp ?seg decrypt s =
     bsp_bind (bsp_lift (compute_cmac evp (s_mac s) (mac_chain s @ [tag] @ L @ payload))) (\<lambda>full.
       if take 8 m \<noteq> take 8 full then bsp_throw
       else bsp_bind (set_mac_chain full) (\<lambda>_.
         if decrypt then bsp_bind (generate_icv evp) (aes_decrypt_with_icv evp payload)
         else bsp_bind incr_block_number (\<lambda>_. bsp_return payload))) s"
    using p L1 assms(3,4) tk by (cases decrypt) (simp_all cong: if_cong add: decrypt_and_verify_def verify_and_decrypt_helper_def MAC_LENGTH_def Let_def)
  show ?thesis
    unfolding v using assms(1,2,5) by (simp add: compute_cmac_ok bsp_wf_def)
      (simp add: bsp_bind_def set_mac_chain_def incr_block_number_def after_segment_def)
qed

text \<open>The sender builds such a segment, and both ends reach the same object.\<close>

lemma protect_one:
  assumes "evp_ok evp" "bsp_wf s" "length p \<le> 1010"
  shows "\<exists>seg s'. encrypt_and_mac_one evp tag p s = (Inr seg, s') \<and> decrypt_and_verify evp seg True s = (Inr p, s')
    \<and> bsp_wf s' \<and> length seg \<le> 1036"
proof -
  let ?c = "cbc evp True (s_enc s) (next_icv evp s) (add_padding p)"
  let ?s1 = "s\<lparr>block_number := block_number s + 1\<rparr>"
  have k: "length (s_enc s) = 16" "length (next_icv evp s) = 16"
    using assms by (simp_all add: length_next_icv) (simp add: bsp_wf_def)
  have c: "length ?c = length (add_padding p)" "cbc evp False (s_enc s) (next_icv evp s) ?c = add_padding p"
    using length_cbc [OF assms(1) k] cbc_inverse [OF assms(1) k] by (simp_all add: length_add_padding)
  have b: "length ?c mod 16 = 0" "?c \<noteq> []" "length ?c + 8 < 0x10000" "length ?c \<le> 1024"
    using length_add_padding [of p] assms(3) by (auto simp flip: length_greater_0_conv simp: c)
  obtain L where L: "encode_bertlv_length (length ?c + 8) = Inr L" "length L \<le> 3"
    using encode_bertlv_length_ok [OF b(3)] by metis
  define m where "m = cmac evp (s_mac s) (mac_chain s @ [tag] @ L @ ?c)"
  have wf1: "bsp_wf ?s1" and lm: "length m = 16" using assms by (simp_all add: bsp_wf_def m_def length_cmac)
  have mac: "compute_mac evp tag ?c ?s1 = (Inr (take 8 m), after_segment m s)"
    using compute_mac_ok [OF assms(1) wf1 L(1), of m tag] by (simp add: m_def after_segment_def)
  have "encrypt_and_mac_one evp tag p s = (Inr ([tag] @ L @ ?c @ take 8 m), after_segment m s)"
    using assms L by (simp add: encrypt_and_mac_one_def MAX_SEGMENT_SIZE_def MAC_LENGTH_def bsp_bind_def aes_encrypt_ok mac)
  moreover have "decrypt_and_verify evp ([tag] @ L @ ?c @ take 8 m) True s = (Inr p, after_segment m s)"
  proof -
    have wf2: "bsp_wf (s\<lparr>mac_chain := m\<rparr>)" using assms lm by (simp add: bsp_wf_def)
    have "next_icv evp (s\<lparr>mac_chain := m\<rparr>) = next_icv evp s" by (simp add: next_icv_def)
    then have "bsp_bind (generate_icv evp) (aes_decrypt_with_icv evp ?c) (s\<lparr>mac_chain := m\<rparr>) = (Inr p, after_segment m s)"
      using assms c b(1) generate_icv_ok [OF assms(1) wf2]
      by (simp add: bsp_bind_def aes_decrypt_with_icv_def cipher_ok length_next_icv bsp_wf_def remove_add_padding after_segment_def)
    then show ?thesis using verify_segment [OF assms(1,2) b(2) L(1) m_def b(3), of True] by simp
  qed
  moreover have "bsp_wf (after_segment m s)" using assms lm by (simp add: bsp_wf_def after_segment_def)
  moreover have "length ([tag] @ L @ ?c @ take 8 m) \<le> 1036" using L b(4) by simp
  ultimately show ?thesis by blast
qed

lemma authenticate_one:
  assumes "evp_ok evp" "bsp_wf s" "p \<noteq> []" "length p \<le> 1010"
  shows "\<exists>seg s'. mac_only_one evp tag p s = (Inr seg, s') \<and> decrypt_and_verify evp seg False s = (Inr p, s')
    \<and> bsp_wf s'"
proof -
  have b: "length p + 8 < 0x10000" using assms(4) by simp
  obtain L where L: "encode_bertlv_length (length p + 8) = Inr L"
    using encode_bertlv_length_ok [OF b] by metis
  define m where "m = cmac evp (s_mac s) (mac_chain s @ [tag] @ L @ p)"
  have lm: "length m = 16" using assms by (simp add: bsp_wf_def m_def length_cmac)
  have "mac_only_one evp tag p s = (Inr ([tag] @ L @ p @ take 8 m), after_segment m s)"
    using assms L compute_mac_ok [OF assms(1,2) L m_def]
    by (simp add: mac_only_one_def MAX_SEGMENT_SIZE_def MAC_LENGTH_def bsp_bind_def incr_block_number_def after_segment_def)
  moreover have "decrypt_and_verify evp ([tag] @ L @ p @ take 8 m) False s = (Inr p, after_segment m s)"
    using verify_segment [OF assms(1,2,3) L m_def b, of False] by simp
  moreover have "bsp_wf (after_segment m s)" using assms lm by (simp add: bsp_wf_def after_segment_def)
  ultimately show ?thesis by blast
qed

section \<open>Sequences of segments\<close>

fun recv_all :: "('w \<Rightarrow> 'a bsp_method) \<Rightarrow> 'w list \<Rightarrow> 'a list bsp_method" where
  "recv_all recv [] = bsp_return []"
| "recv_all recv (w # ws) = bsp_bind (recv w) (\<lambda>p. bsp_bind (recv_all recv ws) (\<lambda>ps. bsp_return (p # ps)))"

lemma decrypt_all_eq: "recv_all (\<lambda>w. decrypt_and_verify evp w d) segs s = (Inr ps, s') \<Longrightarrow>
  decrypt_all evp d segs s = (Inr (concat ps), s')"
  by (induction segs arbitrary: s ps) (auto simp: bsp_bind_def split: prod.splits sum.splits)

lemma recv_all_snoc:
  "recv_all recv ws s = (Inr ps, s') \<Longrightarrow> recv w s' = (Inr p, s'') \<Longrightarrow> recv_all recv (ws @ [w]) s = (Inr (ps @ [p]), s'')"
  by (induction ws arbitrary: s ps) (auto simp: bsp_bind_def split: prod.splits sum.splits)

text \<open>
  The contract between the two ends: what one end sends from an object, the other end, in the same
  object, receives, and both go on in the same object.
\<close>

locale segment_channel =
  fixes inv :: "bsp \<Rightarrow> bool" and fits :: "octets \<Rightarrow> bool" and send :: "octets \<Rightarrow> octets bsp_method"
    and recv :: "octets \<Rightarrow> octets bsp_method"
  assumes deliver: "inv s \<Longrightarrow> fits p \<Longrightarrow> \<exists>w s'. send p s = (Inr w, s') \<and> recv w s = (Inr p, s') \<and> inv s'"
    and fits_piece: "p \<noteq> [] \<Longrightarrow> length p \<le> MAX_SEGMENT_SIZE - 10 \<Longrightarrow> fits p"
begin

lemma received: "inv s \<Longrightarrow> fits p \<Longrightarrow> send p s = (Inr w, s') \<Longrightarrow> recv w s = (Inr p, s') \<and> inv s'"
  using deliver [of s p] by auto

lemma seg_deliver:
  "inv s \<Longrightarrow> \<exists>segs ps s'. seg_loop send data n s = (Inr segs, s') \<and> recv_all recv segs s = (Inr ps, s') \<and>
     concat ps = drop n data \<and> inv s'"
proof (induction "length data - n" arbitrary: n s rule: less_induct)
  case less
  show ?case
  proof (cases "n < length data")
    case True
    let ?max = "MAX_SEGMENT_SIZE - 10"
    let ?p = "take (min ?max (length data - n)) (drop n data)"
    have "?p = take ?max (drop n data)" "drop (n + ?max) data = drop ?max (drop n data)"
      by (auto simp: min_def add.commute)
    then have p: "?p \<noteq> []" "length ?p \<le> ?max" "?p @ drop (n + ?max) data = drop n data"
      using True by (simp_all only: append_take_drop_id) (auto simp: MAX_SEGMENT_SIZE_def)
    obtain w s1 where 1: "send ?p s = (Inr w, s1)" "recv w s = (Inr ?p, s1)" "inv s1"
      using deliver [OF less.prems fits_piece [OF p(1,2)]] by blast
    obtain segs ps s2 where 2: "seg_loop send data (n + ?max) s1 = (Inr segs, s2)"
      "recv_all recv segs s1 = (Inr ps, s2)" "concat ps = drop (n + ?max) data" "inv s2"
      using less.hyps [of "n + ?max" s1] 1(3) True diff_less_mono2 [of n "n + ?max" "length data"]
      by (auto simp only: MAX_SEGMENT_SIZE_def)
    have "seg_loop send data n s = (Inr (w # segs), s2)"
      using True 1 2 by (subst seg_loop.simps) (simp add: bsp_bind_def Let_def)
    moreover have "recv_all recv (w # segs) s = (Inr (?p # ps), s2)" using 1 2 by (simp add: bsp_bind_def)
    ultimately show ?thesis using 2(3,4) p(3) by (metis concat.simps(2))
  next
    case False
    with less show ?thesis by (subst seg_loop.simps) (auto intro!: exI [of _ "[]"])
  qed
qed

end

interpretation enc: segment_channel "\<lambda>s. evp_ok evp \<and> bsp_wf s" "\<lambda>p. length p \<le> 1010"
    "encrypt_and_mac_one evp tag" "\<lambda>w. decrypt_and_verify evp w True" for evp tag
  using protect_one by unfold_locales (fastforce simp: MAX_SEGMENT_SIZE_def)+

interpretation mac: segment_channel "\<lambda>s. evp_ok evp \<and> bsp_wf s" "\<lambda>p. p \<noteq> [] \<and> length p \<le> 1010"
    "mac_only_one evp tag" "\<lambda>w. decrypt_and_verify evp w False" for evp tag
  using authenticate_one by unfold_locales (fastforce simp: MAX_SEGMENT_SIZE_def)+

lemma encrypted_sequence:
  assumes "evp_ok evp" "bsp_wf s"
  shows "\<exists>segs s'. encrypt_and_mac_seg evp tag data s = (Inr segs, s') \<and> decrypt_all evp True segs s = (Inr data, s') \<and> bsp_wf s'"
  using enc.seg_deliver [of evp s tag data 0] assms decrypt_all_eq [of evp True]
  by (fastforce simp: encrypt_and_mac_seg_def)

lemma authenticated_sequence:
  assumes "evp_ok evp" "bsp_wf s"
  shows "\<exists>segs s'. mac_only_seg evp tag data s = (Inr segs, s') \<and> decrypt_all evp False segs s = (Inr data, s') \<and> bsp_wf s'"
  using mac.seg_deliver [of evp s tag data 0] assms decrypt_all_eq [of evp False]
  by (fastforce simp: mac_only_seg_def)

lemma encrypt_fits: "encrypt_and_mac_one evp tag p s = (Inr w, s') \<Longrightarrow> length p \<le> 1010"
  by (auto simp: encrypt_and_mac_one_def MAX_SEGMENT_SIZE_def bsp_throw_def split: if_splits)

lemma mac_only_fits: "mac_only_one evp tag p s = (Inr w, s') \<Longrightarrow> length p \<le> 1010"
  by (auto simp: mac_only_one_def MAX_SEGMENT_SIZE_def bsp_throw_def split: if_splits)

section \<open>The key derivation: lemmas\<close>

definition x963_block :: "(octets \<Rightarrow> octets) \<Rightarrow> octets \<Rightarrow> octets \<Rightarrow> nat \<Rightarrow> octets" where
  "x963_block hash secret info i = hash (secret @ be32_octets (of_nat i) @ info)"

text \<open>The octets that the definition of the derivation asks for: the hashes of the numbered inputs, in order.\<close>

definition x963_stream :: "(octets \<Rightarrow> octets) \<Rightarrow> octets \<Rightarrow> octets \<Rightarrow> nat \<Rightarrow> octets" where
  "x963_stream hash secret info k = concat (map (x963_block hash secret info) [1..<Suc k])"

lemma x963_stream_Suc: "x963_stream hash secret info (Suc k) = x963_stream hash secret info k @ x963_block hash secret info (Suc k)"
  by (simp add: x963_stream_def)

lemma length_x963_stream: "(\<And>x. length (hash x) = 32) \<Longrightarrow> length (x963_stream hash secret info k) = 32 * k"
  by (induction k) (simp_all add: x963_stream_Suc, simp_all add: x963_stream_def x963_block_def)

lemma x963_loop_more:
  assumes "evp_sha256 evp = (\<lambda>x. Some (hash x))" "\<And>x. length (hash x) = 32" "length out < n"
  shows "x963_loop evp secret info n (of_nat (Suc i)) out
    = x963_loop evp secret info n (of_nat (Suc (Suc i))) (out @ take (min 32 (n - length out)) (x963_block hash secret info (Suc i)))"
  using assms by (subst x963_loop.simps) (simp add: x963_block_def Let_def add.commute)

lemma x963_loop_stream:
  assumes hash: "evp_sha256 evp = (\<lambda>x. Some (hash x))" "\<And>x. length (hash x) = 32"
    and "n \<le> 32 * k" "i \<le> k"
  shows "map_result (take n) (x963_loop evp secret info n (of_nat (Suc i)) (take n (x963_stream hash secret info i)))
    = Inr (take n (x963_stream hash secret info k))"
  using assms(4)
proof (induction rule: inc_induct)
  case base
  have "length (take n (x963_stream hash secret info k)) = n"
    using assms(3) length_x963_stream [of hash, OF hash(2)] by simp
  then show ?case by (subst x963_loop.simps) simp
next
  case (step i)
  let ?out = "take n (x963_stream hash secret info i)"
  have l: "length (x963_stream hash secret info i) = 32 * i" by (rule length_x963_stream [OF hash(2)])
  show ?case
  proof (cases "32 * i < n")
    case True
    then have "take n (x963_stream hash secret info (Suc i))
        = ?out @ take (min 32 (n - length ?out)) (x963_block hash secret info (Suc i))"
      using l hash(2) by (simp add: x963_stream_Suc x963_block_def min_def)
    moreover have "length ?out < n" using True l by simp
    ultimately show ?thesis
      using step.IH x963_loop_more [OF hash, of ?out n secret info i] by argo
  next
    case False
    then have full: "length ?out = n" using l by simp
    moreover have "take n (x963_stream hash secret info k) = ?out"
    proof -
      have "take (32 * i) (x963_stream hash secret info k) = x963_stream hash secret info i"
        if "i \<le> k" for k using that
      proof (induction rule: dec_induct)
        case base
        then show ?case using l by simp
      next
        case (step m)
        then show ?case using length_x963_stream [of hash secret info m, OF hash(2)] by (simp add: x963_stream_Suc)
      qed
      from this [of k] step.hyps False show ?thesis by (metis less_imp_le_nat min.absorb1 not_less take_take)
    qed
    ultimately show ?thesis by (subst x963_loop.simps) simp
  qed
qed

section \<open>An OpenSSL for the examples\<close>

definition toy_sum :: "octets \<Rightarrow> u8" where
  "toy_sum data = foldl (\<lambda>a x. 3 * a + x) 0 data"

definition toy_evp :: evp where
  "toy_evp = \<lparr>evp_mac_fetch = True, evp_mac_ctx_new = True, evp_mac_init = (\<lambda>_. 1), evp_mac_update = (\<lambda>_ _. 1),
     evp_mac_final = (\<lambda>key data. (1, replicate 16 (toy_sum (key @ data)))), evp_cipher_ctx_new = True,
     evp_init = (\<lambda>_ _ _. 1), evp_set_padding = 1,
     evp_update = (\<lambda>_ key iv data. (1, map (\<lambda>x. x XOR toy_sum (key @ iv)) data)),
     evp_final = (\<lambda>_ _ _ _. (1, 0)), evp_sha256 = (\<lambda>data. Some (replicate 32 (toy_sum data)))\<rparr>"

lemma toy_evp_ok: "evp_ok toy_evp"
  by (auto simp: evp_ok_def toy_evp_def xor.assoc intro!: map_idI)

definition toy_bsp :: bsp where
  "toy_bsp = \<lparr>s_enc = replicate 16 1, s_mac = replicate 16 2, mac_chain = replicate 16 3, block_number = 1\<rparr>"

lemma toy_bsp_wf: "bsp_wf toy_bsp"
  by (simp add: bsp_wf_def toy_bsp_def)

section \<open>Packages: lemmas\<close>

lemma process_sequences_ok:
  assumes "evp_ok evp" "bsp_wf s" "encrypt_and_mac_one evp t1 isdp s = (Inr w1, s1)"
    "metadata s1 = (Inr meta, s2)"
    "profile s2 = (Inr prof, s3)"
  shows "process_sequences evp d2i w1 metadata None profile s
    = (Inr \<lparr>configureIsdp = isdp, storeMetadata = meta, replaceSessionKeys = None, profileData = prof\<rparr>, s3)"
  using assms enc.received [of evp s isdp t1 w1 s1] encrypt_fits [OF assms(3)]
  by (simp add: process_sequences_def bsp_bind_def)

lemma process_sequences_rsk_ok:
  assumes "evp_ok evp" "bsp_wf s" "encrypt_and_mac_one evp t1 isdp s = (Inr w1, s1)"
    "metadata s1 = (Inr meta, s2)" "bsp_wf s2" "encrypt_and_mac_one evp t2 keys s2 = (Inr w2, s3)"
    "parse_replace_session_keys d2i keys = Inr rsk" "from_replace_session_keys rsk = Inr ppk"
    "profile ppk = (Inr prof, s4)"
  shows "process_sequences evp d2i w1 metadata (Some w2) profile s
    = (Inr \<lparr>configureIsdp = isdp, storeMetadata = meta, replaceSessionKeys = Some rsk, profileData = prof\<rparr>, s3)"
  using assms enc.received [of evp s isdp t1 w1 s1] encrypt_fits [OF assms(3)]
    enc.received [of evp s2 keys t2 w2 s3] encrypt_fits [OF assms(6)]
  by (simp add: process_sequences_def bsp_bind_def with_bsp_def)

lemma encrypted_sequence_received: "evp_ok evp \<Longrightarrow> bsp_wf s \<Longrightarrow> encrypt_and_mac_seg evp tag data s = (Inr segs, s') \<Longrightarrow>
  decrypt_all evp True segs s = (Inr data, s') \<and> bsp_wf s'"
  using encrypted_sequence [of evp s tag data] by auto

lemma authenticated_sequence_received: "evp_ok evp \<Longrightarrow> bsp_wf s \<Longrightarrow> mac_only_seg evp tag data s = (Inr segs, s') \<Longrightarrow>
  decrypt_all evp False segs s = (Inr data, s') \<and> bsp_wf s'"
  using authenticated_sequence [of evp s tag data] by auto

lemma from_replace_session_keys_wf: "from_replace_session_keys rsk = Inr ppk \<Longrightarrow> bsp_wf ppk"
  by (auto simp: from_replace_session_keys_def BspCrypto_def bsp_wf_def AES_KEY_SIZE_def AES_BLOCK_SIZE_def split: if_splits)

section \<open>Properties\<close>

lemma toy_encrypt: "bsp_wf s \<Longrightarrow> length p \<le> 1010 \<Longrightarrow> \<exists>seg s'. encrypt_and_mac_one toy_evp tag p s = (Inr seg, s') \<and> bsp_wf s'"
  using protect_one [OF toy_evp_ok] by blast

lemma toy_mac_only: "p \<noteq> [] \<Longrightarrow> length p \<le> 1010 \<Longrightarrow> \<exists>seg s'. decrypt_and_verify toy_evp seg False toy_bsp = (Inr p, s')"
  using authenticate_one [OF toy_evp_ok toy_bsp_wf] by blast

text \<open>
  C14. Data of any length, cut into segments, ciphered and authenticated, and given to an end in the
  same object, comes back; the sender never fails, and the two ends agree
  afterwards.
\<close>

theorem encrypt_and_mac_seg_roundtrip:
  assumes "evp_ok evp" "bsp_wf s"
  shows "\<exists>segs s'. encrypt_and_mac_seg evp tag data s = (Inr segs, s') \<and>
    decrypt_all evp True segs s = (Inr data, s') \<and> bsp_wf s'"
  by (rule encrypted_sequence [OF assms])

theorem encrypt_and_mac_seg_roundtrip_witness:
  "\<exists>segs s'. encrypt_and_mac_seg toy_evp 0x86 [1, 2, 3] toy_bsp = (Inr segs, s') \<and>
    decrypt_all toy_evp True segs toy_bsp = (Inr [1, 2, 3], s') \<and> bsp_wf s'"
  by (rule encrypt_and_mac_seg_roundtrip [OF toy_evp_ok toy_bsp_wf])

text \<open>
  C8. What the verifier accepts is authentic: the segment's eight last octets are the message code,
  under the chaining value and key of the object, of the tag, the length and the content; the result
  is the content (deciphered and stripped of its padding if it is to be deciphered), and the chaining
  value and the counter advance.
\<close>

theorem decrypt_and_verify_authentic:
  assumes "evp_ok evp" "bsp_wf s" "decrypt_and_verify evp seg decrypt s = (Inr p, s')"
  shows "\<exists>len ofs L. parse_bertlv_length seg 1 = Inr (len, ofs) \<and> 8 < len \<and> ofs + len \<le> length seg \<and>
    encode_bertlv_length len = Inr L \<and>
    (let payload = take (len - 8) (drop ofs seg);
         full = cmac evp (s_mac s) (mac_chain s @ [seg ! 0] @ L @ payload)
     in take 8 (drop (ofs + (len - 8)) seg) = take 8 full \<and> s' = after_segment full s \<and>
       (if decrypt then aes_decrypt_with_icv evp payload (next_icv evp s) s = (Inr p, s) else p = payload))"
proof -
  from assms(3) obtain len ofs where lo: "parse_bertlv_length seg 1 = Inr (len, ofs)"
    by (auto simp: decrypt_and_verify_def verify_and_decrypt_helper_def bsp_bind_def bsp_throw_def split: if_splits sum.splits)
  let ?payload = "take (len - 8) (drop ofs seg)"
  have lens: "8 < len" "ofs + len \<le> length seg"
    using assms(3) lo by (auto simp: decrypt_and_verify_def verify_and_decrypt_helper_def bsp_throw_def MAC_LENGTH_def split: if_splits)
  then have lp: "length ?payload = len - 8" by simp
  obtain L where L: "encode_bertlv_length len = Inr L"
    using assms(3) lo lens lp by (cases "encode_bertlv_length len")
      (auto simp: decrypt_and_verify_def verify_and_decrypt_helper_def bsp_throw_def bsp_bind_def MAC_LENGTH_def Let_def split: if_splits)
  let ?full = "cmac evp (s_mac s) (mac_chain s @ [seg ! 0] @ L @ ?payload)"
  have v: "(if take 8 (drop (ofs + (len - 8)) seg) \<noteq> take 8 ?full then bsp_throw
    else bsp_bind (set_mac_chain ?full) (\<lambda>_. if decrypt then bsp_bind (generate_icv evp) (aes_decrypt_with_icv evp ?payload)
      else bsp_bind incr_block_number (\<lambda>_. bsp_return ?payload))) s = (Inr p, s')"
    using assms lo lens L lp compute_cmac_ok [OF assms(1)]
    by (simp add: decrypt_and_verify_def verify_and_decrypt_helper_def MAC_LENGTH_def Let_def bsp_wf_def bsp_throw_def
        cong: if_cong split: if_splits)
  then have m: "take 8 (drop (ofs + (len - 8)) seg) = take 8 ?full" by (auto simp: bsp_throw_def split: if_splits)
  have wf: "bsp_wf (s\<lparr>mac_chain := ?full\<rparr>)" using assms by (simp add: bsp_wf_def length_cmac)
  have "s' = after_segment ?full s \<and>
       (if decrypt then aes_decrypt_with_icv evp ?payload (next_icv evp s) s = (Inr p, s) else p = ?payload)"
    using v m generate_icv_ok [OF assms(1) wf]
    by (auto simp: bsp_bind_def set_mac_chain_def incr_block_number_def aes_decrypt_with_icv_def after_segment_def next_icv_def
        split: if_splits)
  with m lo lens L show ?thesis unfolding Let_def by blast
qed

theorem decrypt_and_verify_authentic_witness:
  "\<exists>seg p s'. decrypt_and_verify toy_evp seg False toy_bsp = (Inr p, s') \<and> p = [7, 8] \<and>
    (\<exists>len ofs. parse_bertlv_length seg 1 = Inr (len, ofs) \<and> take (len - 8) (drop ofs seg) = [7, 8])"
proof -
  obtain seg s' where v: "decrypt_and_verify toy_evp seg False toy_bsp = (Inr [7, 8], s')"
    using toy_mac_only [of "[7, 8]"] by auto
  then show ?thesis
    using decrypt_and_verify_authentic [OF toy_evp_ok toy_bsp_wf v] by (auto simp: Let_def)
qed

lemma process_package_ok:
  assumes "evp_ok evp" "bsp_wf s"
    and "encrypt_and_mac_one evp 0x87 isdp s = (Inr w87, s1)" "mac_only_seg evp 0x88 meta s1 = (Inr ws88, s2)"
      "encrypt_and_mac_seg evp 0x86 profile s2 = (Inr ws86, s3)"
    and "d2i_bpp package = Some \<lparr>bpp_firstSequenceOf87 = Some [w87], bpp_sequenceOf88 = Some ws88,
      bpp_secondSequenceOf87 = None, bpp_sequenceOf86 = Some ws86\<rparr>"
  shows "process_bound_profile_package evp d2i_bpp d2i_rsk package s =
    (Inr (Some \<lparr>configureIsdp = isdp, storeMetadata = meta, replaceSessionKeys = None, profileData = profile\<rparr>), s3)"
proof -
  have 1: "bsp_wf s1" using enc.received [OF _ _ assms(3)] assms(1,2) encrypt_fits [OF assms(3)] by simp
  then have 2: "decrypt_all evp False ws88 s1 = (Inr meta, s2)" "bsp_wf s2"
    using authenticated_sequence_received [OF assms(1) 1 assms(4)] by simp_all
  then have 3: "decrypt_all evp True ws86 s2 = (Inr profile, s3)"
    using encrypted_sequence_received [OF assms(1) 2(2) assms(5)] by simp
  show ?thesis
    using process_sequences_ok [where metadata = "decrypt_all evp False ws88" and profile = "decrypt_all evp True ws86",
        OF assms(1-3) 2(1) 3] assms(6)
    by (simp add: process_bound_profile_package_def first_segment_def bsp_bind_def)
qed

text \<open>
  Profile packages: if the decoder of the package finds the segments that a sender in the same
  object has built (the ciphered configuration, the authenticated metadata, the ciphered profile),
  then processing the package returns exactly the three parts, and the object the sender ended in.
\<close>

theorem process_bound_profile_package_roundtrip:
  assumes "evp_ok evp" "bsp_wf s"
    and "encrypt_and_mac_one evp 0x87 isdp s = (Inr w87, s1)" "mac_only_seg evp 0x88 meta s1 = (Inr ws88, s2)"
      "encrypt_and_mac_seg evp 0x86 profile s2 = (Inr ws86, s3)"
    and "d2i_bpp package = Some \<lparr>bpp_firstSequenceOf87 = Some [w87], bpp_sequenceOf88 = Some ws88,
      bpp_secondSequenceOf87 = None, bpp_sequenceOf86 = Some ws86\<rparr>"
  shows "process_bound_profile_package evp d2i_bpp d2i_rsk package s =
    (Inr (Some \<lparr>configureIsdp = isdp, storeMetadata = meta, replaceSessionKeys = None, profileData = profile\<rparr>), s3)"
  using assms by (rule process_package_ok)

theorem process_bound_profile_package_roundtrip_witness:
  "\<exists>bpp s3. process_bound_profile_package toy_evp (\<lambda>package. if package = [0xbf, 0x36] then Some bpp else None) (\<lambda>_. None)
     [0xbf, 0x36] toy_bsp =
    (Inr (Some \<lparr>configureIsdp = [1], storeMetadata = [2, 3], replaceSessionKeys = None, profileData = [4, 5, 6]\<rparr>), s3)"
proof -
  obtain w87 s1 where 1: "encrypt_and_mac_one toy_evp 0x87 [1] toy_bsp = (Inr w87, s1)" "bsp_wf s1"
    using toy_encrypt [OF toy_bsp_wf, where p = "[1]" and tag = "0x87"] by auto
  obtain ws88 s2 where 2: "mac_only_seg toy_evp 0x88 [2, 3] s1 = (Inr ws88, s2)" "bsp_wf s2"
    using authenticated_sequence [OF toy_evp_ok 1(2)] by blast
  obtain ws86 s3 where 3: "encrypt_and_mac_seg toy_evp 0x86 [4, 5, 6] s2 = (Inr ws86, s3)"
    using encrypted_sequence [OF toy_evp_ok 2(2)] by blast
  show ?thesis
    using process_bound_profile_package_roundtrip [OF toy_evp_ok toy_bsp_wf 1(1) 2(1) 3,
        of "\<lambda>package. if package = [0xbf, 0x36] then
              Some \<lparr>bpp_firstSequenceOf87 = Some [w87], bpp_sequenceOf88 = Some ws88,
                bpp_secondSequenceOf87 = None, bpp_sequenceOf86 = Some ws86\<rparr> else None" "[0xbf, 0x36]"]
    by fastforce
qed

text \<open>
  The same for a package that replaces the session keys: the keys travel in the second sequence
  under the session's object, the profile under a new object made of them; the parser of the keys
  and the constructor must accept them.
\<close>

theorem process_bound_profile_package_replacing_keys:
  assumes "evp_ok evp" "bsp_wf s"
    and "encrypt_and_mac_one evp 0x87 isdp s = (Inr w87, s1)" "mac_only_seg evp 0x88 meta s1 = (Inr ws88, s2)"
      "encrypt_and_mac_one evp 0x87 keys s2 = (Inr w87', s3)"
    and "parse_replace_session_keys d2i_rsk keys = Inr rsk" "from_replace_session_keys rsk = Inr ppk"
    and "encrypt_and_mac_seg evp 0x86 profile ppk = (Inr ws86, ppk')"
    and "d2i_bpp package = Some \<lparr>bpp_firstSequenceOf87 = Some [w87], bpp_sequenceOf88 = Some ws88,
      bpp_secondSequenceOf87 = Some [w87'], bpp_sequenceOf86 = Some ws86\<rparr>"
  shows "process_bound_profile_package evp d2i_bpp d2i_rsk package s =
    (Inr (Some \<lparr>configureIsdp = isdp, storeMetadata = meta, replaceSessionKeys = Some rsk, profileData = profile\<rparr>), s3)"
proof -
  have 1: "bsp_wf s1" using enc.received [OF _ _ assms(3)] assms(1,2) encrypt_fits [OF assms(3)] by simp
  then have 2: "decrypt_all evp False ws88 s1 = (Inr meta, s2)" "bsp_wf s2"
    using authenticated_sequence_received [OF assms(1) 1 assms(4)] by simp_all
  have 3: "decrypt_all evp True ws86 ppk = (Inr profile, ppk')"
    using encrypted_sequence_received [OF assms(1) from_replace_session_keys_wf [OF assms(7)] assms(8)] by simp
  show ?thesis
    using process_sequences_rsk_ok [where metadata = "decrypt_all evp False ws88" and profile = "decrypt_all evp True ws86",
        OF assms(1-3) 2 assms(5-7) 3] assms(9)
    by (simp add: process_bound_profile_package_def first_segment_def bsp_bind_def)
qed

theorem process_bound_profile_package_replacing_keys_witness:
  "\<exists>bpp rsk s3. process_bound_profile_package toy_evp (\<lambda>package. if package = [0xbf, 0x36] then Some bpp else None)
     (\<lambda>_. Some \<lparr>asn1_initialMacChainingValue = Some (replicate 16 1), asn1_ppkEnc = Some (replicate 16 2),
        asn1_ppkCmac = Some (replicate 16 3)\<rparr>) [0xbf, 0x36] toy_bsp =
    (Inr (Some \<lparr>configureIsdp = [1], storeMetadata = [2, 3], replaceSessionKeys = Some rsk, profileData = [4, 5, 6]\<rparr>), s3) \<and>
    ppkCmac rsk = replicate 16 3"
proof -
  let ?rsk = "\<lparr>ppkEnc = replicate 16 2, ppkCmac = replicate 16 3, initialMacChainingValue = replicate 16 (1 :: u8)\<rparr>"
  let ?d2i = "\<lambda>_ :: octets. Some \<lparr>asn1_initialMacChainingValue = Some (replicate 16 (1 :: u8)), asn1_ppkEnc = Some (replicate 16 2),
        asn1_ppkCmac = Some (replicate 16 3)\<rparr>"
  obtain w87 s1 where 1: "encrypt_and_mac_one toy_evp 0x87 [1] toy_bsp = (Inr w87, s1)" "bsp_wf s1"
    using toy_encrypt [OF toy_bsp_wf, where p = "[1]" and tag = "0x87"] by auto
  obtain ws88 s2 where 2: "mac_only_seg toy_evp 0x88 [2, 3] s1 = (Inr ws88, s2)" "bsp_wf s2"
    using authenticated_sequence [OF toy_evp_ok 1(2)] by blast
  obtain w87' s3 where 3: "encrypt_and_mac_one toy_evp 0x87 [9] s2 = (Inr w87', s3)"
    using toy_encrypt [OF 2(2), where p = "[9]" and tag = "0x87"] by auto
  have k: "parse_replace_session_keys ?d2i [9] = Inr ?rsk"
    by (simp add: parse_replace_session_keys_def asn1_octet_string_to_vector_def)
  obtain ppk where p: "from_replace_session_keys ?rsk = Inr ppk"
    by (simp add: from_replace_session_keys_def BspCrypto_def AES_KEY_SIZE_def AES_BLOCK_SIZE_def)
  obtain ws86 ppk' where 4: "encrypt_and_mac_seg toy_evp 0x86 [4, 5, 6] ppk = (Inr ws86, ppk')"
    using encrypted_sequence [OF toy_evp_ok from_replace_session_keys_wf [OF p]] by blast
  show ?thesis
    using process_bound_profile_package_replacing_keys [OF toy_evp_ok toy_bsp_wf 1(1) 2(1) 3 k p 4,
        of "\<lambda>package. if package = [0xbf, 0x36] then
              Some \<lparr>bpp_firstSequenceOf87 = Some [w87], bpp_sequenceOf88 = Some ws88,
                bpp_secondSequenceOf87 = Some [w87'], bpp_sequenceOf86 = Some ws86\<rparr> else None" "[0xbf, 0x36]"]
    by fastforce
qed

text \<open>
  A datum that is only authenticated must not be empty: the sender protects it like any other and
  goes on to the next block, and the verifier refuses the segment it gets and stays where it was, so
  that the two ends no longer agree.
\<close>

theorem mac_only_empty_refused:
  assumes "evp_ok evp" "bsp_wf s"
  shows "\<exists>seg s'. mac_only_one evp tag [] s = (Inr seg, s') \<and> block_number s' = block_number s + 1 \<and>
    decrypt_and_verify evp seg False s = (Inl Thrown, s)"
proof -
  have L: "encode_bertlv_length (length ([] :: octets) + 8) = Inr [8]" by (simp add: encode_bertlv_length_def)
  define m where "m = cmac evp (s_mac s) (mac_chain s @ [tag] @ [8] @ [])"
  have "mac_only_one evp tag [] s = (Inr ([tag, 8] @ take 8 m), after_segment m s)"
    using assms compute_mac_ok [OF assms L m_def]
    by (simp add: mac_only_one_def MAC_LENGTH_def bsp_bind_def incr_block_number_def after_segment_def encode_bertlv_length_def)
  moreover have "decrypt_and_verify evp ([tag, 8] @ take 8 m) False s = (Inl Thrown, s)"
    by (simp add: decrypt_and_verify_def verify_and_decrypt_helper_def parse_bertlv_length_def bsp_bind_def bsp_throw_def MAC_LENGTH_def)
  ultimately show ?thesis by (simp add: after_segment_def)
qed

theorem mac_only_empty_refused_witness:
  "\<exists>seg s'. mac_only_one toy_evp 0x88 [] toy_bsp = (Inr seg, s') \<and> block_number s' = 2 \<and>
    decrypt_and_verify toy_evp seg False toy_bsp = (Inl Thrown, toy_bsp)"
  using mac_only_empty_refused [OF toy_evp_ok toy_bsp_wf, of "0x88"] by (simp add: toy_bsp_def)

text \<open>
  The length of a ciphered segment: its padded content, the message code, the tag and the length
  exceed the maximum segment size exactly for the data of 1008 to 1010 octets that the sender still accepts.
\<close>

lemma length_add_padding_eq: "length (add_padding data) = 16 * (length data div 16 + 1)"
proof -
  obtain k where k: "length (add_padding data) = 16 * k" using length_add_padding(1) [of data] by (metis mod_0_imp_dvd dvdE)
  have "16 * k \<le> length data + 16" "length data < 16 * k" using length_add_padding(2,3) [of data] k by linarith+
  then have "k = length data div 16 + 1" by linarith
  with k show ?thesis by simp
qed

lemma length_encode_bertlv_length: "encode_bertlv_length n = Inr L \<Longrightarrow> length L = (if n < 0x80 then 1 else if n < 0x100 then 2 else 3)"
  by (auto simp: encode_bertlv_length_def split: if_splits)

theorem encrypt_and_mac_one_length:
  assumes "evp_ok evp" "bsp_wf s" "encrypt_and_mac_one evp tag p s = (Inr seg, s')"
  shows "length p \<le> 1010 \<and> (MAX_SEGMENT_SIZE < length seg \<longleftrightarrow> 1008 \<le> length p) \<and> length seg \<le> 1036"
proof -
  let ?c = "cbc evp True (s_enc s) (next_icv evp s) (add_padding p)"
  let ?s1 = "s\<lparr>block_number := block_number s + 1\<rparr>"
  have p: "length p \<le> 1010" by (rule encrypt_fits [OF assms(3)])
  have wf1: "bsp_wf ?s1" "length (s_enc s) = 16" using assms(2) by (simp_all add: bsp_wf_def)
  have c: "length ?c = 16 * (length p div 16 + 1)"
    using length_cbc [OF assms(1) wf1(2) length_next_icv [OF assms(1,2)]] by (simp add: length_add_padding_eq)
  then have "length ?c + 8 < 0x10000" using p div_le_dividend [of "length p" 16] by simp
  then obtain L where L: "encode_bertlv_length (length ?c + 8) = Inr L" using encode_bertlv_length_ok by metis
  define m where "m = cmac evp (s_mac s) (mac_chain s @ [tag] @ L @ ?c)"
  have "length m = 16" using assms by (simp add: bsp_wf_def m_def length_cmac)
  moreover have "compute_mac evp tag ?c ?s1 = (Inr (take 8 m), after_segment m s)"
    using compute_mac_ok [OF assms(1) wf1(1) L, of m tag] by (simp add: m_def after_segment_def)
  then have "seg = [tag] @ L @ ?c @ take 8 m"
    using assms p L by (simp add: encrypt_and_mac_one_def MAX_SEGMENT_SIZE_def MAC_LENGTH_def bsp_bind_def aes_encrypt_ok)
  ultimately have "length seg = length L + length ?c + 9" by simp
  then show ?thesis
    using p length_encode_bertlv_length [OF L] unfolding c MAX_SEGMENT_SIZE_def by (auto split: if_splits)
qed

theorem encrypt_and_mac_one_length_witness:
  "\<exists>seg s'. encrypt_and_mac_one toy_evp 0x86 (replicate 1010 5) toy_bsp = (Inr seg, s') \<and> MAX_SEGMENT_SIZE < length seg"
proof -
  obtain seg s' where "encrypt_and_mac_one toy_evp 0x86 (replicate 1010 5) toy_bsp = (Inr seg, s')"
    using toy_encrypt [OF toy_bsp_wf, where p = "replicate 1010 5" and tag = "0x86"] by auto
  then show ?thesis
    using encrypt_and_mac_one_length [OF toy_evp_ok toy_bsp_wf, of "0x86" "replicate 1010 5" seg s'] by auto
qed

text \<open>
  The key derivation gives the first octets of the sequence of hashes of the secret, the number of
  the hash from 1, and the shared information, however many are asked for.
\<close>

theorem x963_kdf_sha256_stream:
  assumes "evp_sha256 evp = (\<lambda>x. Some (hash x))" "\<And>x. length (hash x) = 32"
  shows "x963_kdf_sha256 evp secret info n = Inr (take n (x963_stream hash secret info (n div 32 + 1)))"
proof -
  have "n \<le> 32 * (n div 32 + 1)" by presburger
  from x963_loop_stream [OF assms this, of 0 secret info] show ?thesis
    by (simp add: x963_kdf_sha256_def x963_stream_def)
qed

theorem x963_kdf_sha256_stream_witness:
  "x963_kdf_sha256 toy_evp [1, 2] [3] 48 =
    Inr (take 48 (x963_stream (\<lambda>data. replicate 32 (toy_sum data)) [1, 2] [3] 2)) \<and>
   x963_stream (\<lambda>data. replicate 32 (toy_sum data)) [1, 2] [3] 2 =
     replicate 32 (toy_sum [1, 2, 0, 0, 0, 1, 3]) @ replicate 32 (toy_sum [1, 2, 0, 0, 0, 2, 3])"
proof
  show "x963_kdf_sha256 toy_evp [1, 2] [3] 48 =
    Inr (take 48 (x963_stream (\<lambda>data. replicate 32 (toy_sum data)) [1, 2] [3] 2))"
    using x963_kdf_sha256_stream [of toy_evp "\<lambda>data. replicate 32 (toy_sum data)" "[1, 2]" "[3]" 48]
    by (simp add: toy_evp_def numeral_2_eq_2)
qed (simp add: x963_stream_def x963_block_def be32_octets_def octet_of_def upt_rec)

text \<open>
  Padding and removing the padding gives the data back, whatever its last octets are, and the
  padded data fills whole blocks.
\<close>

theorem remove_padding_add_padding:
  "remove_padding (add_padding data) = data \<and> length (add_padding data) = 16 * (length data div 16 + 1)"
  by (simp add: remove_add_padding length_add_padding_eq)

end
