(* ===== verification/BSP_Session.thy ===== *)
theory BSP_Session
  imports BSP_Crypto
begin

text \<open>
  Two ends that protect and verify segments with \<^verbatim>\<open>BspCrypto\<close> objects, \<^verbatim>\<open>smdpp/bsp_crypto.cc\<close>: a step relation of sending and
  receiving, in any order, with what the receiver has got at every time. An empty datum that is authenticated only is
  sent by the code and refused by it; the receiver stops there.
\<close>

section \<open>A session between two ends\<close>

text \<open>
  The state of a session: the objects of the two ends, the segments on the way (with the mode the
  receiver applies, true for ciphered ones), what was sent in which mode, and what was received.
\<close>

record session =
  tx :: bsp
  rx :: bsp
  wire :: "(bool \<times> octets) list"
  sent :: "(bool \<times> octets) list"
  received_data :: "octets list"

inductive session_step :: "evp \<Rightarrow> session \<Rightarrow> session \<Rightarrow> bool" for evp where
  send_encrypted: "encrypt_and_mac_one evp tag p (tx c) = (Inr w, s') \<Longrightarrow>
    session_step evp c (c\<lparr>tx := s', wire := wire c @ [(True, w)], sent := sent c @ [(True, p)]\<rparr>)"
| send_mac_only: "mac_only_one evp tag p (tx c) = (Inr w, s') \<Longrightarrow>
    session_step evp c (c\<lparr>tx := s', wire := wire c @ [(False, w)], sent := sent c @ [(False, p)]\<rparr>)"
| receive: "wire c = (d, w) # ws \<Longrightarrow> decrypt_and_verify evp w d (rx c) = (Inr p, s') \<Longrightarrow>
    session_step evp c (c\<lparr>rx := s', wire := ws, received_data := received_data c @ [p]\<rparr>)"

inductive_cases session_stepE: "session_step evp c c'"

definition session_start :: "bsp \<Rightarrow> session" where
  "session_start s = \<lparr>tx = s, rx = s, wire = [], sent = [], received_data = []\<rparr>"

text \<open>The datum that the verifier refuses, and what comes before the first of them.\<close>

abbreviation empty_mac_only :: "bool \<times> octets" where
  "empty_mac_only \<equiv> (False, [])"

definition deliverable :: "(bool \<times> octets) list \<Rightarrow> octets list" where
  "deliverable ps = map snd (takeWhile (\<lambda>x. x \<noteq> empty_mac_only) ps)"

lemma deliverable_all: "empty_mac_only \<notin> set ps \<Longrightarrow> deliverable ps = map snd ps"
  by (induction ps) (auto simp: deliverable_def)

section \<open>The invariant\<close>

lemma empty_mac_only_refused:
  assumes "mac_only_one evp tag [] s = (Inr w, s')"
  shows "decrypt_and_verify evp w d r = (Inl Thrown, r)"
proof -
  have "encode_bertlv_length 8 = Inr [8]" by (simp add: encode_bertlv_length_def)
  then obtain mac where w: "w = [tag, 8] @ mac"
    using assms by (auto simp: mac_only_one_def MAC_LENGTH_def bsp_bind_def incr_block_number_def split: if_splits prod.splits sum.splits)
  have "parse_bertlv_length ([tag, 8] @ mac) 1 = Inr (8, 2)" by (simp add: parse_bertlv_length_def Let_def)
  then show ?thesis
    unfolding w by (auto simp: decrypt_and_verify_def verify_and_decrypt_helper_def MAC_LENGTH_def bsp_throw_def)
qed

lemma empty_mac_only_wf:
  assumes "evp_ok evp" "bsp_wf s" "mac_only_one evp tag [] s = (Inr w, s')"
  shows "bsp_wf s'"
proof -
  have L: "encode_bertlv_length (length ([] :: octets) + 8) = Inr [8]" by (simp add: encode_bertlv_length_def)
  define m where "m = cmac evp (s_mac s) (mac_chain s @ [tag] @ [8] @ [])"
  have "length m = 16" using assms(1,2) by (simp add: bsp_wf_def m_def length_cmac)
  moreover have "compute_mac evp tag [] s = (Inr (take 8 m), s\<lparr>mac_chain := m\<rparr>)"
    by (rule compute_mac_ok [OF assms(1,2) L m_def])
  then have "s' = s\<lparr>mac_chain := m, block_number := block_number s + 1\<rparr>"
    using assms(3) L by (simp add: mac_only_one_def MAX_SEGMENT_SIZE_def MAC_LENGTH_def bsp_bind_def incr_block_number_def)
  ultimately show ?thesis using assms(2) by (simp add: bsp_wf_def)
qed

text \<open>
  What is on the way is what is missing: received from \<open>s\<close>, each segment gives its datum, or is refused by every
  object if its datum is empty and not ciphered, and the objects lead to the sender's.
\<close>

fun follows :: "evp \<Rightarrow> bsp \<Rightarrow> (bool \<times> octets) list \<Rightarrow> (bool \<times> octets) list \<Rightarrow> bsp \<Rightarrow> bool" where
  "follows evp s [] [] t = (s = t)"
| "follows evp s ((d, w) # ws) (x # ps) t = (fst x = d \<and> (\<exists>s'.
     (if x = empty_mac_only then \<forall>r. decrypt_and_verify evp w d r = (Inl Thrown, r)
      else decrypt_and_verify evp w d s = (Inr (snd x), s')) \<and> follows evp s' ws ps t))"
| "follows evp s _ _ t = False"

lemma follows_snoc:
  assumes "follows evp s ws ps t"
    and "if x = empty_mac_only then \<forall>r. decrypt_and_verify evp w (fst x) r = (Inl Thrown, r)
      else decrypt_and_verify evp w (fst x) t = (Inr (snd x), t')"
  shows "follows evp s (ws @ [(fst x, w)]) (ps @ [x]) t'"
  using assms(1)
proof (induction ws arbitrary: s ps)
  case Nil
  then show ?case using assms(2) by (cases ps) auto
next
  case (Cons y ws)
  obtain d v where y: "y = (d, v)" by (cases y)
  obtain z qs where ps: "ps = z # qs" using Cons.prems y by (cases ps) auto
  then obtain s' where "fst z = d" "follows evp s' ws qs t" and z: "if z = empty_mac_only then \<forall>r. decrypt_and_verify evp v d r = (Inl Thrown, r)
      else decrypt_and_verify evp v d s = (Inr (snd z), s')"
    using Cons.prems by (auto simp: y)
  moreover from this have "follows evp s' (ws @ [(fst x, w)]) (qs @ [x]) t'" using Cons.IH by blast
  ultimately show ?case unfolding y ps append_Cons follows.simps by blast
qed

definition session_inv :: "evp \<Rightarrow> session \<Rightarrow> bool" where
  "session_inv evp c \<longleftrightarrow> bsp_wf (tx c) \<and>
    (\<exists>got missing. sent c = got @ missing \<and> received_data c = map snd got \<and> empty_mac_only \<notin> set got \<and>
       follows evp (rx c) (wire c) missing (tx c))"

lemma session_invI:
  assumes "bsp_wf (tx c)" "sent c = got @ missing" "received_data c = map snd got" "empty_mac_only \<notin> set got"
    and "follows evp (rx c) (wire c) missing (tx c)"
  shows "session_inv evp c"
  unfolding session_inv_def using assms by blast

lemma session_inv_send:
  assumes "session_inv evp c" "bsp_wf s'"
    and "if x = empty_mac_only then \<forall>r. decrypt_and_verify evp w (fst x) r = (Inl Thrown, r)
      else decrypt_and_verify evp w (fst x) (tx c) = (Inr (snd x), s')"
  shows "session_inv evp (c\<lparr>tx := s', wire := wire c @ [(fst x, w)], sent := sent c @ [x]\<rparr>)"
proof -
  obtain got missing where g: "sent c = got @ missing" "received_data c = map snd got" "empty_mac_only \<notin> set got"
      "follows evp (rx c) (wire c) missing (tx c)"
    using assms(1) by (auto simp: session_inv_def)
  have "follows evp (rx c) (wire c @ [(fst x, w)]) (missing @ [x]) s'" by (rule follows_snoc [OF g(4) assms(3)])
  with g(1-3) assms(2) show ?thesis by (intro session_invI [where got = got and missing = "missing @ [x]"]) simp_all
qed

lemma session_inv_step:
  assumes "session_step evp c c'" "evp_ok evp" "session_inv evp c"
  shows "session_inv evp c'"
  using assms(1)
proof cases
  case (send_encrypted tag p w s')
  have "bsp_wf (tx c)" using assms(3) by (simp add: session_inv_def)
  then have "decrypt_and_verify evp w True (tx c) = (Inr p, s') \<and> bsp_wf s'"
    using enc.received [of evp "tx c" p] encrypt_fits [OF send_encrypted(2)] assms(2) send_encrypted(2) by auto
  then show ?thesis using session_inv_send [OF assms(3), of s' "(True, p)" w] send_encrypted(1) by simp
next
  case (send_mac_only tag p w s')
  have wf: "bsp_wf (tx c)" using assms(3) by (simp add: session_inv_def)
  have "bsp_wf s' \<and> (if p = [] then \<forall>r. decrypt_and_verify evp w False r = (Inl Thrown, r)
      else decrypt_and_verify evp w False (tx c) = (Inr p, s'))"
  proof (cases "p = []")
    case True
    then show ?thesis
      using empty_mac_only_refused [of evp tag "tx c" w s'] empty_mac_only_wf [OF assms(2) wf, of tag w s'] send_mac_only(2) by simp
  next
    case False
    then show ?thesis
      using mac.received [of evp "tx c" p] mac_only_fits [OF send_mac_only(2)] assms(2) wf send_mac_only(2) by auto
  qed
  then show ?thesis using session_inv_send [OF assms(3), of s' "(False, p)" w] send_mac_only(1) by simp
next
  case (receive d w ws p s')
  obtain got missing where g: "sent c = got @ missing" "received_data c = map snd got" "empty_mac_only \<notin> set got"
      "follows evp (rx c) ((d, w) # ws) missing (tx c)" and wf: "bsp_wf (tx c)"
    using assms(3) receive(2) by (auto simp: session_inv_def)
  then obtain x ps where x: "missing = x # ps" by (cases missing) auto
  have "x \<noteq> empty_mac_only" using g(4) receive(3) by (auto simp: x)
  then have "snd x = p" "follows evp s' ws ps (tx c)" using g(4) receive(3) by (auto simp: x)
  then show ?thesis using g(1-3) wf \<open>x \<noteq> empty_mac_only\<close> receive(1)
    by (intro session_invI [where got = "got @ [x]" and missing = ps]) (simp_all add: x)
qed

lemma session_inv_reachable:
  "(session_step evp)\<^sup>*\<^sup>* (session_start s) c \<Longrightarrow> evp_ok evp \<Longrightarrow> bsp_wf s \<Longrightarrow> session_inv evp c"
proof (induction rule: rtranclp_induct)
  case base
  then show ?case by (simp add: session_inv_def session_start_def)
next
  case (step c c')
  then show ?case using session_inv_step by blast
qed

section \<open>Properties\<close>

text \<open>
  C3. Delivery: two ends that start from the same object, and whatever they send (ciphered or only
  authenticated, empty or not, one or many segments before the other end reads) and receive in turn: what has been
  received is a prefix of what was sent, in order; the next segment on the way gives the next datum, unless that is
  empty and only authenticated: then it is refused with an exception and the receiver's object stays as it was; and
  when nothing is on the way the two objects are equal and everything was received.
\<close>

theorem session_delivery:
  assumes "evp_ok evp" "bsp_wf s" "(session_step evp)\<^sup>*\<^sup>* (session_start s) c"
  defines "n \<equiv> length (received_data c)"
  shows "received_data c = map snd (take n (sent c)) \<and>
    (\<forall>d w ws. wire c = (d, w) # ws \<longrightarrow> n < length (sent c) \<and> fst (sent c ! n) = d \<and>
       (if sent c ! n = (False, []) then decrypt_and_verify evp w d (rx c) = (Inl Thrown, rx c)
        else \<exists>s'. decrypt_and_verify evp w d (rx c) = (Inr (snd (sent c ! n)), s'))) \<and>
    (wire c = [] \<longrightarrow> rx c = tx c \<and> received_data c = map snd (sent c))"
proof -
  obtain got missing where g: "sent c = got @ missing" "received_data c = map snd got"
      "follows evp (rx c) (wire c) missing (tx c)"
    using session_inv_reachable [OF assms(3,1,2)] by (auto simp: session_inv_def)
  then show ?thesis by (cases missing; cases "wire c") (auto simp: n_def split: if_splits)
qed

theorem session_delivery_witness:
  "\<exists>c c'. (session_step toy_evp)\<^sup>*\<^sup>* (session_start toy_bsp) c \<and> sent c = [(True, [1, 2, 3])] \<and> received_data c = [] \<and>
     length (wire c) = 1 \<and> session_step toy_evp c c' \<and> received_data c' = [[1, 2, 3]] \<and> rx c' = tx c'"
proof -
  obtain w s' where 1: "encrypt_and_mac_one toy_evp 0x86 [1, 2, 3] toy_bsp = (Inr w, s')"
    using toy_encrypt [OF toy_bsp_wf, where p = "[1, 2, 3]" and tag = "0x86"] by auto
  define c where "c = (session_start toy_bsp)\<lparr>tx := s', wire := [(True, w)], sent := [(True, [1, 2, 3])]\<rparr>"
  have step: "session_step toy_evp (session_start toy_bsp) c"
    using send_encrypted [where evp = toy_evp and tag = "0x86" and p = "[1, 2, 3]" and c = "session_start toy_bsp"] 1 by (simp add: c_def session_start_def)
  obtain s2 where 2: "decrypt_and_verify toy_evp w True (rx c) = (Inr [1, 2, 3], s2)"
    using session_delivery [OF toy_evp_ok toy_bsp_wf, of c] step by (auto simp: c_def session_start_def)
  define c' where "c' = c\<lparr>rx := s2, wire := [], received_data := [[1, 2, 3]]\<rparr>"
  have step2: "session_step toy_evp c c'"
    using receive [where evp = toy_evp and c = c and d = True and w = w and ws = "[]"] 2 by (simp add: c_def c'_def session_start_def)
  have "(session_step toy_evp)\<^sup>*\<^sup>* (session_start toy_bsp) c'"
    using step step2 by (meson converse_rtranclp_into_rtranclp r_into_rtranclp)
  then have "rx c' = tx c'"
    using session_delivery [OF toy_evp_ok toy_bsp_wf, of c'] by (simp add: c'_def)
  with step step2 show ?thesis
    by (intro exI [of _ c] exI [of _ c']) (simp add: c_def c'_def session_start_def)
qed

text \<open>The steps in which only the receiver acts.\<close>

definition receive_step :: "evp \<Rightarrow> session \<Rightarrow> session \<Rightarrow> bool" where
  "receive_step evp c c' \<longleftrightarrow> session_step evp c c' \<and> tx c' = tx c \<and> sent c' = sent c"

lemma receive_step_wire: "receive_step evp c c' \<Longrightarrow> \<exists>d w ws p s'. wire c = (d, w) # ws \<and> decrypt_and_verify evp w d (rx c) = (Inr p, s')"
  by (auto simp: receive_step_def elim!: session_stepE)

lemma session_inv_drains:
  assumes "evp_ok evp" and "session_inv evp c"
  shows "\<exists>c'. (receive_step evp)\<^sup>*\<^sup>* c c' \<and> received_data c' = deliverable (sent c) \<and>
    (if empty_mac_only \<in> set (sent c) then \<forall>c''. \<not> receive_step evp c' c'' else wire c' = [] \<and> rx c' = tx c)"
  using assms(2)
proof (induction "wire c" arbitrary: c)
  case Nil
  then have w: "wire c = []" by simp
  obtain got missing where g: "sent c = got @ missing" "received_data c = map snd got" "empty_mac_only \<notin> set got"
      "follows evp (rx c) [] missing (tx c)"
    using Nil.prems w by (auto simp: session_inv_def)
  then have "missing = []" "rx c = tx c" by (cases missing; simp)+
  with g(1-3) w show ?case by (intro exI [of _ c]) (simp add: deliverable_all)
next
  case (Cons y ws)
  obtain d w where y: "wire c = (d, w) # ws" using Cons.hyps(2) [symmetric] by (cases y) simp
  obtain got x ps where g: "sent c = got @ x # ps" "received_data c = map snd got" "empty_mac_only \<notin> set got"
      "follows evp (rx c) ((d, w) # ws) (x # ps) (tx c)"
    using Cons.prems y unfolding session_inv_def by (metis follows.simps(3) list.exhaust)
  show ?case
  proof (cases "x = empty_mac_only")
    case True
    then have "decrypt_and_verify evp w d (rx c) = (Inl Thrown, rx c)" using g(4) by auto
    then have "\<not> receive_step evp c c''" for c'' using receive_step_wire [of evp c c''] y by auto
    moreover have "deliverable (sent c) = map snd got" "empty_mac_only \<in> set (sent c)"
      using g(1,3) True by (auto simp: deliverable_def takeWhile_append)
    ultimately show ?thesis using g(2) by (intro exI [of _ c]) auto
  next
    case False
    then obtain s' where v: "decrypt_and_verify evp w d (rx c) = (Inr (snd x), s')" using g(4) by auto
    define c1 where "c1 = c\<lparr>rx := s', wire := ws, received_data := received_data c @ [snd x]\<rparr>"
    have step: "session_step evp c c1" unfolding c1_def using y v by (rule receive)
    then have "session_inv evp c1" using session_inv_step [OF _ assms(1) Cons.prems] by blast
    moreover have c1: "ws = wire c1" "tx c1 = tx c" "sent c1 = sent c" by (simp_all add: c1_def)
    ultimately obtain c' where c': "(receive_step evp)\<^sup>*\<^sup>* c1 c'" "received_data c' = deliverable (sent c)"
        "if empty_mac_only \<in> set (sent c) then \<forall>c''. \<not> receive_step evp c' c'' else wire c' = [] \<and> rx c' = tx c"
      using Cons.hyps(1) [of c1] by metis
    have "receive_step evp c c1" using step c1 by (simp add: receive_step_def)
    with c' show ?thesis by (meson converse_rtranclp_into_rtranclp)
  qed
qed

text \<open>
  C24. Whatever state a session has reached, the receiver alone can go on until it has received everything that was sent
  before the first empty datum that is only authenticated. When there is none, nothing is left on the way and both objects
  agree; otherwise it is stuck: no receiving step is possible any more.
\<close>

theorem session_drains:
  assumes "evp_ok evp" "bsp_wf s" "(session_step evp)\<^sup>*\<^sup>* (session_start s) c"
  shows "\<exists>c'. (receive_step evp)\<^sup>*\<^sup>* c c' \<and> received_data c' = deliverable (sent c) \<and>
    (if (False, []) \<in> set (sent c) then \<forall>c''. \<not> receive_step evp c' c'' else wire c' = [] \<and> rx c' = tx c)"
  using session_inv_drains [OF assms(1) session_inv_reachable [OF assms(3,1,2)]] .

theorem session_drains_witness:
  "\<exists>c c'. sent c = [(True, [1, 2, 3]), (False, [])] \<and> received_data c = [] \<and> (session_step toy_evp)\<^sup>*\<^sup>* (session_start toy_bsp) c \<and>
     (receive_step toy_evp)\<^sup>*\<^sup>* c c' \<and> received_data c' = [[1, 2, 3]]"
proof -
  obtain w s1 where 1: "encrypt_and_mac_one toy_evp 0x86 [1, 2, 3] toy_bsp = (Inr w, s1)" "bsp_wf s1"
    using toy_encrypt [OF toy_bsp_wf, where p = "[1, 2, 3]" and tag = "0x86"] by auto
  have L: "encode_bertlv_length (length ([] :: octets) + 8) = Inr [8]" by (simp add: encode_bertlv_length_def)
  obtain v s2 where 2: "mac_only_one toy_evp 0x88 [] s1 = (Inr v, s2)"
    using compute_mac_ok [OF toy_evp_ok 1(2) L refl, of "0x88"] L
    by (simp add: mac_only_one_def MAC_LENGTH_def bsp_bind_def incr_block_number_def)
  define c1 where "c1 = (session_start toy_bsp)\<lparr>tx := s1, wire := [(True, w)], sent := [(True, [1, 2, 3])]\<rparr>"
  define c where "c = c1\<lparr>tx := s2, wire := [(True, w), (False, v)], sent := [(True, [1, 2, 3]), (False, [])]\<rparr>"
  have "session_step toy_evp (session_start toy_bsp) c1"
    using send_encrypted [where evp = toy_evp and tag = "0x86" and p = "[1, 2, 3]" and c = "session_start toy_bsp"] 1 by (simp add: c1_def session_start_def)
  moreover have "session_step toy_evp c1 c"
    using send_mac_only [where evp = toy_evp and tag = "0x88" and p = "[]" and c = c1] 2 by (simp add: c_def c1_def session_start_def)
  ultimately have reach: "(session_step toy_evp)\<^sup>*\<^sup>* (session_start toy_bsp) c"
    by (meson converse_rtranclp_into_rtranclp r_into_rtranclp)
  obtain c' where "(receive_step toy_evp)\<^sup>*\<^sup>* c c'" "received_data c' = deliverable (sent c)"
    using session_drains [OF toy_evp_ok toy_bsp_wf reach] by blast
  then have "(receive_step toy_evp)\<^sup>*\<^sup>* c c' \<and> received_data c' = [[1, 2, 3]]" by (simp add: c_def deliverable_def)
  then show ?thesis using reach by (intro exI [of _ c] exI [of _ c']) (simp add: c_def c1_def session_start_def)
qed

end
