(* ===== verification/C_Library.thy ===== *)
theory C_Library
  imports Prelude
begin

text \<open>
  What the sources use of the C library's character classes and of its conversions of numbers to and from strings: digits in
  bases up to 16, upper and lower case, white space, in the C locale.
\<close>

unbundle bit_operations_syntax

section \<open>Characters\<close>

definition toupper :: "char \<Rightarrow> char" where
  "toupper c = (if 97 \<le> (of_char c :: nat) \<and> (of_char c :: nat) \<le> 122 then char_of (of_char c - 32 :: nat) else c)"

definition tolower :: "char \<Rightarrow> char" where
  "tolower c = (if 65 \<le> (of_char c :: nat) \<and> (of_char c :: nat) \<le> 90 then char_of (of_char c + 32 :: nat) else c)"

definition is_space :: "char \<Rightarrow> bool" where
  "is_space c \<longleftrightarrow> (of_char c :: nat) \<in> {9, 10, 11, 12, 13, 32}"

definition hex_digit :: "char \<Rightarrow> nat option" where
  "hex_digit c = (let n = of_char c :: nat in
     if 48 \<le> n \<and> n \<le> 57 then Some (n - 48) else if 65 \<le> n \<and> n \<le> 70 then Some (n - 55)
     else if 97 \<le> n \<and> n \<le> 102 then Some (n - 87) else None)"

definition is_digit :: "char \<Rightarrow> bool" where
  "is_digit c \<longleftrightarrow> 48 \<le> (of_char c :: nat) \<and> (of_char c :: nat) \<le> 57"

definition strip_0x :: "string \<Rightarrow> string" where
  "strip_0x s = (case s of a # b # c # cs \<Rightarrow>
       if a = CHR ''0'' \<and> (b = CHR ''x'' \<or> b = CHR ''X'') \<and> hex_digit c \<noteq> None then c # cs else s
     | _ \<Rightarrow> s)"

text \<open>The C string in an array of characters: what stands before the first character 0.\<close>

definition c_string :: "string \<Rightarrow> string" where
  "c_string s = takeWhile (\<lambda>c. of_char c \<noteq> (0 :: nat)) s"

section \<open>Reading numbers\<close>

definition digit_below :: "nat \<Rightarrow> char \<Rightarrow> bool" where
  "digit_below base c = (case hex_digit c of None \<Rightarrow> False | Some d \<Rightarrow> d < base)"

definition digits_value :: "nat \<Rightarrow> string \<Rightarrow> nat" where
  "digits_value base ds = foldl (\<lambda>v c. base * v + the (hex_digit c)) 0 ds"

definition number :: "nat \<Rightarrow> string \<Rightarrow> nat \<times> string" where
  "number base s = (digits_value base (takeWhile (digit_below base) s), dropWhile (digit_below base) s)"

text \<open>
  \<^verbatim>\<open>strtoul(s, &end, 0)\<close> of a text that begins with a digit: the base is in the prefix; the number and what follows it.
\<close>

definition strtoul_0 :: "string \<Rightarrow> nat \<times> string" where
  "strtoul_0 s = (if strip_0x s \<noteq> s then number 16 (strip_0x s)
     else if s \<noteq> [] \<and> hd s = CHR ''0'' then number 8 s else number 10 s)"

section \<open>Writing numbers\<close>

text \<open>A digit as \<^verbatim>\<open>printf\<close> writes it, and a number in a base: \<^verbatim>\<open>%d\<close>, \<^verbatim>\<open>%x\<close>.\<close>

definition hexd :: "nat \<Rightarrow> char" where
  "hexd n = char_of (if n < 10 then 48 + n else 87 + n)"

fun digits :: "nat \<Rightarrow> nat \<Rightarrow> string" where
  "digits base n = (if base < 2 \<or> n < base then [hexd n] else digits base (n div base) @ [hexd (n mod base)])"

declare digits.simps [simp del]

lemma of_char_hexd: "n < 16 \<Longrightarrow> of_char (hexd n) = (if n < 10 then 48 + n else 87 + n)"
  by (simp add: hexd_def)

lemma hex_digit_hexd: "n < 16 \<Longrightarrow> hex_digit (hexd n) = Some n"
  by (simp add: hex_digit_def of_char_hexd Let_def)

lemma hexd_not_space: "n < 16 \<Longrightarrow> \<not> is_space (hexd n)"
  by (auto simp: is_space_def of_char_hexd)

lemma hexd_not_sign: "n < 16 \<Longrightarrow> hexd n \<noteq> CHR ''-'' \<and> hexd n \<noteq> CHR ''+''"
proof -
  have "list_all (\<lambda>n. hexd n \<noteq> CHR ''-'' \<and> hexd n \<noteq> CHR ''+'') [0..<16]" by code_simp
  then show "n < 16 \<Longrightarrow> hexd n \<noteq> CHR ''-'' \<and> hexd n \<noteq> CHR ''+''" by (auto simp: list_all_iff)
qed

end
