(* ===== verification/RSP_Certificates.thy ===== *)
theory RSP_Certificates
  imports C_Library
begin

text \<open>
  The certificate utilities and signature conversions of the eSIM provisioning client,
  \<^verbatim>\<open>smdpp/rsp_client.cc\<close>: the permitted EID ranges of an EUM certificate, the roles and curves of
  certificates, the verification of certificate chains, and the signatures of BSI TR-03111 with their
  conversion to and from DER. Certificates and keys are objects of OpenSSL, values of type variables;
  what the code uses of OpenSSL is the record \<open>openssl\<close>, an argument of the definitions. A C++ string
  is a HOL string. Logging is left out.
\<close>

unbundle bit_operations_syntax

section \<open>OpenSSL\<close>

text \<open>How the store takes a certificate, and the errors the verification callback is told.\<close>

datatype store_add = StoreAdded | StoreDuplicate | StoreFailed

datatype verify_error = PermittedViolation | ExcludedViolation | SubtreeMinmax | OtherError nat

text \<open>
  The fields in the order of the code's first use: parsing of a DER certificate and writing it; the
  subject's serial number; the content of the subject key identifier extension and its DER object
  (header octets, length); the policies by their OIDs, if the extension is there; the serial numbers of
  the permitted directory names; the content of the extension of permitted EINs; reading the
  header of a DER object, from the octets at the position, the number of remaining octets and the old
  values of length and tag, which yields the octets of the header, the length and the tag, or
  nothing if it reads outside the octets; whether a certificate is issued by itself; equality of
  certificates; adding to a store; verification of a chain with a callback, the trusted and the
  untrusted certificates; the base type and group name of a certificate's public key; the public key of
  a certificate; and the conversions of a signature, a pair of numbers, to and from DER, and
  the verification and creation of DER signatures over SHA-256.
\<close>

record ('c, 'p, 'k) openssl =
  parse_cert :: "octets \<Rightarrow> 'c option"
  cert_der :: "'c \<Rightarrow> octets"
  serial_number :: "'c \<Rightarrow> string option"
  ski_extension :: "'c \<Rightarrow> octets"
  policies :: "'c \<Rightarrow> string list option"
  constraint_serials :: "'c \<Rightarrow> string list"
  permitted_ext :: "'c \<Rightarrow> octets option"
  get_object :: "octets \<Rightarrow> int \<Rightarrow> nat \<times> int \<Rightarrow> (nat \<times> nat \<times> int) option"
  self_issued :: "'c \<Rightarrow> bool"
  same_cert :: "'c \<Rightarrow> 'c \<Rightarrow> bool"
  store_add_cert :: "'c list \<Rightarrow> 'c \<Rightarrow> store_add"
  verify_cert :: "(bool \<Rightarrow> verify_error \<Rightarrow> bool) \<Rightarrow> 'c list \<Rightarrow> 'c list \<Rightarrow> 'c \<Rightarrow> bool"
  pubkey :: "'c \<Rightarrow> 'p option"
  is_ec_key :: "'p \<Rightarrow> bool"
  group_name :: "'p \<Rightarrow> string option"
  i2d_ecdsa :: "nat \<times> nat \<Rightarrow> octets"
  d2i_ecdsa :: "octets \<Rightarrow> (nat \<times> nat) option"
  digest_verify :: "'p \<Rightarrow> octets \<Rightarrow> octets \<Rightarrow> bool"
  digest_sign :: "'k \<Rightarrow> octets \<Rightarrow> octets result"
  public_of :: "'k \<Rightarrow> 'p"
  sha256 :: "octets \<Rightarrow> octets"

section \<open>Strings\<close>

definition char_of_octet :: "u8 \<Rightarrow> char" where
  "char_of_octet b = char_of (unat b)"

text \<open>\<^verbatim>\<open>s.find(t) == 0\<close>\<close>

fun find_at_start :: "string \<Rightarrow> string \<Rightarrow> bool" where
  "find_at_start s [] = True"
| "find_at_start [] (c # cs) = False"
| "find_at_start (d # ds) (c # cs) = (d = c \<and> find_at_start ds cs)"

definition loadCertFromDER :: "('c, 'p, 'k) openssl \<Rightarrow> octets \<Rightarrow> 'c result" where
  "loadCertFromDER ssl der = (case parse_cert ssl der of None \<Rightarrow> Inl Thrown | Some c \<Rightarrow> Inr c)"

definition getEID :: "('c, 'p, 'k) openssl \<Rightarrow> 'c \<Rightarrow> string" where
  "getEID ssl c = (case serial_number ssl c of None \<Rightarrow> [] | Some s \<Rightarrow> s)"

text \<open>The key identifier is the content of the extension's DER object; without one it is the whole extension.\<close>

definition getSubjectKeyIdentifier :: "('c, 'p, 'k) openssl \<Rightarrow> 'c \<Rightarrow> octets result" where
  "getSubjectKeyIdentifier ssl c =
     (let ext = ski_extension ssl c in
      if ext = [] then Inr []
      else case get_object ssl ext (int (length ext)) (length ext, 0) of
          None \<Rightarrow> Inl OutOfBounds
        | Some (h, xlen, tag) \<Rightarrow> if h + xlen \<le> length ext then Inr (take xlen (drop h ext)) else Inl OutOfBounds)"

section \<open>Permitted EINs\<close>

definition V_ASN1_SEQUENCE :: int where
  "V_ASN1_SEQUENCE = 16"

definition V_ASN1_PRINTABLESTRING :: int where
  "V_ASN1_PRINTABLESTRING = 19"

text \<open>
  The loop over the elements of the sequence: \<open>p\<close> the position, \<open>xlen\<close> and \<open>tag\<close> the variables that a
  failing call leaves as they were. \<open>None\<close> is a loop that does not end, \<open>Some (Inl OutOfBounds)\<close> a read outside the
  extension.
\<close>

partial_function (option) ein_loop ::
  "(octets \<Rightarrow> int \<Rightarrow> nat \<times> int \<Rightarrow> (nat \<times> nat \<times> int) option) \<Rightarrow> octets \<Rightarrow> nat \<Rightarrow> int \<Rightarrow> nat \<Rightarrow> int \<Rightarrow> string list \<Rightarrow>
   string list result option"
where
  "ein_loop get data p remaining xlen tag iins =
     (if remaining > 0 then
        (case get (drop p data) remaining (xlen, tag) of
           None \<Rightarrow> Some (Inl OutOfBounds)
         | Some (h, xlen, tag) \<Rightarrow>
             if tag = V_ASN1_PRINTABLESTRING then
               (if p + h + xlen \<le> length data then
                  ein_loop get data (p + h + xlen) (remaining - int (h + xlen)) xlen tag
                    (iins @ [map char_of_octet (take xlen (drop (p + h) data))])
                else Some (Inl OutOfBounds))
             else ein_loop get data (p + h + xlen) (remaining - int (h + xlen)) xlen tag iins)
      else Some (Inr iins))"

text \<open>The length and tag that the first call finds uninitialised are 0 here.\<close>

definition parse_permitted_ext :: "('c, 'p, 'k) openssl \<Rightarrow> octets \<Rightarrow> string list result option" where
  "parse_permitted_ext ssl data =
     (case get_object ssl data (int (length data)) (0, 0) of
        None \<Rightarrow> Some (Inl OutOfBounds)
      | Some (h, xlen, tag) \<Rightarrow>
          if tag = V_ASN1_SEQUENCE then ein_loop (get_object ssl) data h (int xlen) xlen tag [] else Some (Inr []))"

definition is_old_variant :: "('c, 'p, 'k) openssl \<Rightarrow> 'c \<Rightarrow> bool" where
  "is_old_variant ssl c = (case policies ssl c of None \<Rightarrow> False | Some ps \<Rightarrow> list_ex (\<lambda>oid. oid = ''2.23.146.1.2.1.2'') ps)"

definition parse_permitted_eins_from_cert :: "('c, 'p, 'k) openssl \<Rightarrow> 'c \<Rightarrow> string list result option" where
  "parse_permitted_eins_from_cert ssl c =
     (if is_old_variant ssl c then Some (Inr (constraint_serials ssl c))
      else case permitted_ext ssl c of None \<Rightarrow> Some (Inr []) | Some data \<Rightarrow> parse_permitted_ext ssl data)"

text \<open>Joined with commas, the empty string on an exception.\<close>

fun join_comma :: "string list \<Rightarrow> string" where
  "join_comma [] = []"
| "join_comma [e] = e"
| "join_comma (e # es) = e @ '','' @ join_comma es"

definition getPermittedEINs :: "('c, 'p, 'k) openssl \<Rightarrow> octets \<Rightarrow> string result option" where
  "getPermittedEINs ssl der =
     (case loadCertFromDER ssl der of Inl e \<Rightarrow> Some (Inr [])
      | Inr c \<Rightarrow> map_option (map_result join_comma) (parse_permitted_eins_from_cert ssl c))"

definition validateEIDRange :: "('c, 'p, 'k) openssl \<Rightarrow> string \<Rightarrow> octets \<Rightarrow> bool result option" where
  "validateEIDRange ssl eid der =
     (case loadCertFromDER ssl der of Inl e \<Rightarrow> Some (Inr False)
      | Inr c \<Rightarrow> map_option (map_result (\<lambda>permittedEins.
          if permittedEins = [] then False
          else let eidNormalized = map toupper eid in list_ex (\<lambda>ein. find_at_start eidNormalized ein) permittedEins))
          (parse_permitted_eins_from_cert ssl c))"

section \<open>Roles, curves, keys\<close>

definition hasRSPRole :: "('c, 'p, 'k) openssl \<Rightarrow> octets \<Rightarrow> string \<Rightarrow> bool" where
  "hasRSPRole ssl der roleOid =
     (case loadCertFromDER ssl der of Inl e \<Rightarrow> False
      | Inr c \<Rightarrow> (case policies ssl c of None \<Rightarrow> False | Some ps \<Rightarrow> list_ex (\<lambda>oid. oid = roleOid) ps))"

definition getCurveOID :: "('c, 'p, 'k) openssl \<Rightarrow> octets \<Rightarrow> string" where
  "getCurveOID ssl der =
     (case loadCertFromDER ssl der of Inl e \<Rightarrow> []
      | Inr c \<Rightarrow> (case pubkey ssl c of None \<Rightarrow> []
        | Some k \<Rightarrow> if \<not> is_ec_key ssl k then []
            else (case group_name ssl k of None \<Rightarrow> []
              | Some g \<Rightarrow> if g \<in> {''prime256v1'', ''secp384r1'', ''brainpoolP256r1'', ''brainpoolP384r1''} then g else ''unknown'')))"

datatype curve = P256 | BrainpoolP256r1

definition getCertificateCurveNID :: "('c, 'p, 'k) openssl \<Rightarrow> 'c \<Rightarrow> curve result" where
  "getCertificateCurveNID ssl c =
     (case pubkey ssl c of None \<Rightarrow> Inl Thrown
      | Some k \<Rightarrow> (case group_name ssl k of None \<Rightarrow> Inl Thrown
        | Some g \<Rightarrow> if g = ''prime256v1'' \<or> g = ''P-256'' then Inr P256
            else if g = ''brainpoolP256r1'' then Inr BrainpoolP256r1 else Inl Thrown))"

definition verifyECDHCompatible :: "octets \<Rightarrow> octets \<Rightarrow> bool" where
  "verifyECDHCompatible k1 k2 =
     (if k1 = [] \<or> k2 = [] \<or> k1 ! 0 \<noteq> 0x04 \<or> k2 ! 0 \<noteq> 0x04 then False
      else if length k1 = 65 \<and> length k2 = 65 then True
      else if length k1 = 97 \<and> length k2 = 97 then True
      else False)"

section \<open>Certificate chains\<close>

text \<open>The callback forgives the violations of name constraints, whatever the certificate.\<close>

definition verify_cb :: "bool \<Rightarrow> verify_error \<Rightarrow> bool" where
  "verify_cb ok e = (if \<not> ok \<and> (e = PermittedViolation \<or> e = ExcludedViolation \<or> e = SubtreeMinmax) then True else ok)"

text \<open>Without a root, every certificate of the pool that is issued by itself is trusted.\<close>

fun add_self_signed :: "('c, 'p, 'k) openssl \<Rightarrow> 'c list \<Rightarrow> 'c list \<Rightarrow> 'c list result" where
  "add_self_signed ssl store [] = Inr store"
| "add_self_signed ssl store (c # cs) =
     (if self_issued ssl c then
        (case store_add_cert ssl store c of
           StoreAdded \<Rightarrow> add_self_signed ssl (store @ [c]) cs
         | StoreDuplicate \<Rightarrow> add_self_signed ssl store cs
         | StoreFailed \<Rightarrow> Inl Thrown)
      else add_self_signed ssl store cs)"

definition trusted_store :: "('c, 'p, 'k) openssl \<Rightarrow> 'c list \<Rightarrow> 'c option \<Rightarrow> 'c list result" where
  "trusted_store ssl certPool rootCA =
     (case rootCA of
        Some r \<Rightarrow> if store_add_cert ssl [] r = StoreAdded then Inr [r] else Inl Thrown
      | None \<Rightarrow> add_self_signed ssl [] certPool)"

fun untrusted_chain :: "('c, 'p, 'k) openssl \<Rightarrow> 'c \<Rightarrow> 'c option \<Rightarrow> 'c list \<Rightarrow> 'c list" where
  "untrusted_chain ssl cert rootCA [] = []"
| "untrusted_chain ssl cert rootCA (c # cs) =
     (if same_cert ssl c cert then untrusted_chain ssl cert rootCA cs
      else if (case rootCA of None \<Rightarrow> False | Some r \<Rightarrow> same_cert ssl c r) then untrusted_chain ssl cert rootCA cs
      else c # untrusted_chain ssl cert rootCA cs)"

definition verifyCertificateChainDynamic ::
  "('c, 'p, 'k) openssl \<Rightarrow> 'c \<Rightarrow> 'c list \<Rightarrow> 'c option \<Rightarrow> bool result" where
  "verifyCertificateChainDynamic ssl cert certPool rootCA =
     map_result (\<lambda>store. verify_cert ssl verify_cb store (untrusted_chain ssl cert rootCA certPool) cert)
       (trusted_store ssl certPool rootCA)"

section \<open>Signatures\<close>

text \<open>Big numbers: \<^verbatim>\<open>BN_bin2bn\<close>, \<^verbatim>\<open>BN_num_bytes\<close> and \<^verbatim>\<open>BN_bn2bin\<close>.\<close>

definition bin2bn :: "octets \<Rightarrow> nat" where
  "bin2bn bs = foldl (\<lambda>n b. 256 * n + unat b) 0 bs"

fun bn2bin :: "nat \<Rightarrow> octets" where
  "bn2bin n = (if n = 0 then [] else bn2bin (n div 256) @ [word_of_nat (n mod 256)])"

declare bn2bin.simps [simp del]

definition bn_num_bytes :: "nat \<Rightarrow> nat" where
  "bn_num_bytes n = length (bn2bin n)"

text \<open>The empty vector is the failure.\<close>

definition convertBSI_TR03111_to_DER :: "('c, 'p, 'k) openssl \<Rightarrow> octets \<Rightarrow> octets" where
  "convertBSI_TR03111_to_DER ssl bsi =
     (if length bsi \<noteq> 64 then [] else i2d_ecdsa ssl (bin2bn (take 32 bsi), bin2bn (take 32 (drop 32 bsi))))"

definition write_at :: "nat \<Rightarrow> octets \<Rightarrow> octets \<Rightarrow> octets" where
  "write_at ofs ys xs = take ofs xs @ ys @ drop (ofs + length ys) xs"

definition convertDER_to_BSI_TR03111 :: "('c, 'p, 'k) openssl \<Rightarrow> octets \<Rightarrow> octets" where
  "convertDER_to_BSI_TR03111 ssl der =
     (if der = [] then []
      else case d2i_ecdsa ssl der of None \<Rightarrow> []
      | Some (r, s) \<Rightarrow>
          if bn_num_bytes r > 32 \<or> bn_num_bytes s > 32 then []
          else write_at (64 - bn_num_bytes s) (bn2bin s) (write_at (32 - bn_num_bytes r) (bn2bin r) (replicate 64 0)))"

definition verify_TR031111 :: "('c, 'p, 'k) openssl \<Rightarrow> octets \<Rightarrow> octets \<Rightarrow> 'p \<Rightarrow> bool" where
  "verify_TR031111 ssl message bsi_signature publicKey =
     (let der_signature = convertBSI_TR03111_to_DER ssl bsi_signature in
      if der_signature = [] then False else digest_verify ssl publicKey message der_signature)"

definition signDataWithKey :: "('c, 'p, 'k) openssl \<Rightarrow> octets \<Rightarrow> 'k \<Rightarrow> octets result" where
  "signDataWithKey ssl dataToSign k =
     (if dataToSign = [] then Inl Thrown
      else bind_result (digest_sign ssl k dataToSign) (\<lambda>signature. if signature = [] then Inl Thrown else Inr signature))"

text \<open>The signature may have the tag and length of its data object in front.\<close>

definition strip_5f3740 :: "octets \<Rightarrow> octets" where
  "strip_5f3740 signature =
     (if length signature \<ge> 3 \<and> signature ! 0 = 0x5f \<and> signature ! 1 = 0x37 \<and> signature ! 2 = 0x40
      then drop 3 signature else signature)"

definition verifyServerSignature_with :: "('c, 'p, 'k) openssl \<Rightarrow> octets \<Rightarrow> octets \<Rightarrow> 'c \<Rightarrow> bool" where
  "verifyServerSignature_with ssl signedData signature cert =
     (case pubkey ssl cert of None \<Rightarrow> False
      | Some k \<Rightarrow> verify_TR031111 ssl signedData (strip_5f3740 signature) k)"

definition verifyServerSignature :: "('c, 'p, 'k) openssl \<Rightarrow> octets \<Rightarrow> octets \<Rightarrow> octets \<Rightarrow> bool result" where
  "verifyServerSignature ssl serverSigned serverSignature derDataServerCert =
     map_result (verifyServerSignature_with ssl serverSigned serverSignature) (loadCertFromDER ssl derDataServerCert)"

end
