(* ===== verification/RSP_Client.thy ===== *)
theory RSP_Client
  imports RSP_Certificates
begin

text \<open>
  The eSIM provisioning client of \<^verbatim>\<open>smdpp/rsp_client.cc\<close>, its state and methods. A method
  changes the client also when it throws, so it yields a result and the client. The file system, random numbers,
  key operations and the HTTP transfer are arguments, the record \<open>environment\<close> beside \<open>openssl\<close>.
\<close>

unbundle bit_operations_syntax

section \<open>The environment\<close>

text \<open>
  A request as it is handed to libcurl: URL, port, headers, body, the added trusted certificates, and
  the client's certificate with its type, and key, for mutual TLS.
\<close>

record 'c http_request =
  rq_url :: string
  rq_port :: nat
  rq_headers :: "string list"
  rq_body :: string
  rq_certs :: "'c list"
  rq_client_cert :: "(string \<times> string) option"
  rq_client_key :: "string option"

text \<open>
  Files: whether a path exists (and can be opened), is a directory or a regular file, the files under a directory, the
  certificates of a PEM file and the octets of a file, if it opens; the PEM private key and the public
  key octets of a file, if they can be read; random octets; a new key of a curve; the public
  key octets of a key; a peer's public key from octets; the common secret; the HTTP transfer.
\<close>

record ('c, 'p, 'k) environment =
  file_exists :: "string \<Rightarrow> bool"
  is_directory :: "string \<Rightarrow> bool"
  is_regular :: "string \<Rightarrow> bool"
  dir_files :: "string \<Rightarrow> string list"
  pem_certs :: "string \<Rightarrow> 'c list option"
  file_octets :: "string \<Rightarrow> octets option"
  pem_private_key :: "string \<Rightarrow> 'k option"
  pem_public_key :: "string \<Rightarrow> octets option"
  rand_bytes :: "nat \<Rightarrow> octets option"
  ec_keygen :: "curve \<Rightarrow> 'k option"
  public_octets :: "'k \<Rightarrow> octets option"
  peer_key :: "curve \<Rightarrow> octets \<Rightarrow> 'p option"
  ecdh :: "'k \<Rightarrow> 'p \<Rightarrow> octets option"
  curl_perform :: "'c http_request \<Rightarrow> (string \<times> int) result"

section \<open>Finding and loading certificates\<close>

text \<open>\<^verbatim>\<open>path.filename()\<close> and \<^verbatim>\<open>path.extension()\<close>.\<close>

definition filename :: "string \<Rightarrow> string" where
  "filename path = rev (takeWhile (\<lambda>c. c \<noteq> CHR ''/'') (rev path))"

definition extension :: "string \<Rightarrow> string" where
  "extension path = (let f = filename path; suffix = rev (takeWhile (\<lambda>c. c \<noteq> CHR ''.'') (rev f)) in
     if f = ''.'' \<or> f = ''..'' \<or> length f \<le> length suffix + 1 then [] else CHR ''.'' # suffix)"

fun contains :: "string \<Rightarrow> string \<Rightarrow> bool" where
  "contains [] t = (t = [])"
| "contains (c # cs) t = (find_at_start (c # cs) t \<or> contains cs t)"

definition file_matches :: "string list \<Rightarrow> string \<Rightarrow> bool" where
  "file_matches name_filters path =
     (if extension path \<notin> {''.pem'', ''.der'', ''.crt''} then False
      else if name_filters = [] then True
      else list_ex (contains (filename path)) name_filters)"

definition find_cert_files :: "('c, 'p, 'k) environment \<Rightarrow> string \<Rightarrow> string list \<Rightarrow> string list" where
  "find_cert_files env root_path name_filters =
     (if \<not> file_exists env root_path then []
      else if is_regular env root_path then (if file_matches name_filters root_path then [root_path] else [])
      else if is_directory env root_path then filter (file_matches name_filters) (dir_files env root_path)
      else [])"

text \<open>A DER file that is no certificate yields a null pointer, \<^term>\<open>None\<close>, in the chain.\<close>

definition loadCertificateChain :: "('c, 'p, 'k) openssl \<Rightarrow> ('c, 'p, 'k) environment \<Rightarrow> string \<Rightarrow> 'c option list result" where
  "loadCertificateChain ssl env path =
     (if extension path = ''.der'' then
        (case file_octets env path of None \<Rightarrow> Inl Thrown | Some der \<Rightarrow> Inr [parse_cert ssl der])
      else (case pem_certs env path of None \<Rightarrow> Inl Thrown
        | Some chain \<Rightarrow> if chain = [] then Inl Thrown else Inr (map Some chain)))"

definition certs_of_file :: "('c, 'p, 'k) openssl \<Rightarrow> ('c, 'p, 'k) environment \<Rightarrow> string \<Rightarrow> 'c list" where
  "certs_of_file ssl env path =
     (if extension path = ''.pem'' \<or> extension path = ''.crt'' then
        (case loadCertificateChain ssl env path of Inl e \<Rightarrow> [] | Inr cs \<Rightarrow> List.map_filter (\<lambda>c. c) cs)
      else if extension path = ''.der'' then
        (case file_octets env path of None \<Rightarrow> []
         | Some der \<Rightarrow> (case parse_cert ssl der of None \<Rightarrow> [] | Some c \<Rightarrow> [c]))
      else [])"

definition loadCertificatesFromDirectory ::
  "('c, 'p, 'k) openssl \<Rightarrow> ('c, 'p, 'k) environment \<Rightarrow> string \<Rightarrow> string list \<Rightarrow> 'c list" where
  "loadCertificatesFromDirectory ssl env directory name_filters =
     concat (map (certs_of_file ssl env) (find_cert_files env directory name_filters))"

section \<open>The client\<close>

text \<open>
  The two flags have no initial value, \<^term>\<open>None\<close>. The server certificate \<^verbatim>\<open>m_serverCert\<close> is never
  set, and left out.
\<close>

record ('c, 'k) rsp_client =
  m_serverUrl :: string
  m_rootCA :: "'c option"
  m_intermediateCA :: "'c list"
  m_certPool :: "'c list"
  m_euiccSKI :: octets
  m_EID :: string
  m_euiccCert :: "'c option"
  m_euiccPrivateKey :: "'k option"
  m_euiccPublicKeyData :: octets
  m_euicc_ot_PrivateKey :: "'k option"
  m_euiccOtpk :: octets
  m_eumCert :: "'c option"
  m_eumPrivateKey :: "'k option"
  m_eumPublicKeyData :: octets
  m_confirmationCode :: string
  m_confirmationCodeHash :: octets
  m_transactionId :: octets
  m_caCertPath :: string
  m_useCustomTlsCert :: "bool option"
  m_customTlsCertPath :: string
  m_useMutualTLS :: "bool option"
  m_clientCertPath :: string
  m_clientKeyPath :: string

definition new_client :: "string \<Rightarrow> ('c, 'k) rsp_client" where
  "new_client serverUrl = \<lparr> m_serverUrl = serverUrl, m_rootCA = None, m_intermediateCA = [], m_certPool = [],
     m_euiccSKI = [], m_EID = [], m_euiccCert = None, m_euiccPrivateKey = None, m_euiccPublicKeyData = [],
     m_euicc_ot_PrivateKey = None, m_euiccOtpk = [], m_eumCert = None, m_eumPrivateKey = None,
     m_eumPublicKeyData = [], m_confirmationCode = [], m_confirmationCodeHash = [], m_transactionId = [],
     m_caCertPath = [], m_useCustomTlsCert = None, m_customTlsCertPath = [], m_useMutualTLS = None,
     m_clientCertPath = [], m_clientKeyPath = [] \<rparr>"

text \<open>The constructor: roots and others of a directory, and the chain of a file.\<close>

fun sort_certs :: "('c, 'p, 'k) openssl \<Rightarrow> 'c list \<Rightarrow> ('c, 'k) rsp_client \<Rightarrow> ('c, 'k) rsp_client" where
  "sort_certs ssl [] cl = cl"
| "sort_certs ssl (c # cs) cl =
     (if self_issued ssl c then
        (if m_rootCA cl = None then sort_certs ssl cs (cl\<lparr>m_rootCA := Some c\<rparr>)
         else sort_certs ssl cs (cl\<lparr>m_certPool := m_certPool cl @ [c]\<rparr>))
      else sort_certs ssl cs (cl\<lparr>m_certPool := m_certPool cl @ [c]\<rparr>))"

definition load_cert_path ::
  "('c, 'p, 'k) openssl \<Rightarrow> ('c, 'p, 'k) environment \<Rightarrow> string list \<Rightarrow> string \<Rightarrow> ('c, 'k) rsp_client \<Rightarrow> ('c, 'k) rsp_client result" where
  "load_cert_path ssl env name_filters cpath cl =
     (if is_directory env cpath then Inr (sort_certs ssl (loadCertificatesFromDirectory ssl env cpath name_filters) cl)
      else bind_result (loadCertificateChain ssl env cpath) (\<lambda>caChain.
        case hd caChain of None \<Rightarrow> Inl OutOfBounds
        | Some root \<Rightarrow> (let cs = List.map_filter (\<lambda>c. c) (tl caChain) in
            Inr (cl\<lparr>m_rootCA := Some root, m_intermediateCA := m_intermediateCA cl @ cs,
              m_certPool := m_certPool cl @ m_intermediateCA cl @ cs\<rparr>))))"

fun load_cert_paths ::
  "('c, 'p, 'k) openssl \<Rightarrow> ('c, 'p, 'k) environment \<Rightarrow> string list \<Rightarrow> string list \<Rightarrow> ('c, 'k) rsp_client \<Rightarrow> ('c, 'k) rsp_client result" where
  "load_cert_paths ssl env name_filters [] cl = Inr cl"
| "load_cert_paths ssl env name_filters (p # ps) cl =
     bind_result (load_cert_path ssl env name_filters p cl) (load_cert_paths ssl env name_filters ps)"

definition RSPClient :: "('c, 'p, 'k) openssl \<Rightarrow> ('c, 'p, 'k) environment \<Rightarrow> string \<Rightarrow> string list \<Rightarrow> string list \<Rightarrow>
    ('c, 'k) rsp_client result" where
  "RSPClient ssl env serverUrl certPath name_filters = load_cert_paths ssl env name_filters certPath (new_client serverUrl)"

section \<open>Methods\<close>

type_synonym ('c, 'k, 'a) client_method = "('c, 'k) rsp_client \<Rightarrow> 'a result \<times> ('c, 'k) rsp_client"

definition setCACertPath :: "string \<Rightarrow> ('c, 'k, unit) client_method" where
  "setCACertPath path cl = (Inr (), cl\<lparr>m_caCertPath := path\<rparr>)"

text \<open>The first certificate of a file. Naming a null certificate in the log is an access to a null pointer.\<close>

definition loadCertificate :: "('c, 'p, 'k) openssl \<Rightarrow> ('c, 'p, 'k) environment \<Rightarrow> string \<Rightarrow> 'c result" where
  "loadCertificate ssl env certPath =
     bind_result (loadCertificateChain ssl env certPath) (\<lambda>certs.
       if certs = [] then Inl Thrown
       else (case hd certs of None \<Rightarrow> Inl OutOfBounds | Some c \<Rightarrow> Inr c))"

definition loadEUICCCertificate :: "('c, 'p, 'k) openssl \<Rightarrow> ('c, 'p, 'k) environment \<Rightarrow> string \<Rightarrow> ('c, 'k, unit) client_method" where
  "loadEUICCCertificate ssl env path cl =
     (case loadCertificate ssl env path of Inl e \<Rightarrow> (Inl e, cl)
      | Inr c \<Rightarrow> (let cl = cl\<lparr>m_euiccCert := Some c, m_EID := getEID ssl c\<rparr> in
          case getSubjectKeyIdentifier ssl c of Inl e \<Rightarrow> (Inl e, cl)
          | Inr ski \<Rightarrow> (Inr (), cl\<lparr>m_euiccSKI := ski\<rparr>)))"

definition loadEUMCertificate :: "('c, 'p, 'k) openssl \<Rightarrow> ('c, 'p, 'k) environment \<Rightarrow> string \<Rightarrow> ('c, 'k, unit) client_method" where
  "loadEUMCertificate ssl env path cl =
     (case loadCertificate ssl env path of Inl e \<Rightarrow> (Inl e, cl) | Inr c \<Rightarrow> (Inr (), cl\<lparr>m_eumCert := Some c\<rparr>))"

text \<open>A key pair: the private key, and the public key from its file or, failing that, from the private one. A file
  that is there and does not open counts as one without a key; how files are read is in \<^theory_text>\<open>Key_Files\<close>.\<close>

definition loadKeyPair :: "('c, 'p, 'k) environment \<Rightarrow> string \<Rightarrow> string \<Rightarrow> ('k \<times> octets) result" where
  "loadKeyPair env privateKeyPath publicKeyPath =
     (if \<not> file_exists env privateKeyPath then Inl Thrown
      else case pem_private_key env privateKeyPath of None \<Rightarrow> Inl Thrown
      | Some k \<Rightarrow>
          (case (if publicKeyPath \<noteq> [] \<and> file_exists env publicKeyPath then pem_public_key env publicKeyPath else None) of
             Some pub \<Rightarrow> Inr (k, pub)
           | None \<Rightarrow> (case public_octets env k of None \<Rightarrow> Inl Thrown | Some pub \<Rightarrow> Inr (k, pub))))"

definition loadEUICCKeyPair :: "('c, 'p, 'k) environment \<Rightarrow> string \<Rightarrow> string \<Rightarrow> ('c, 'k, unit) client_method" where
  "loadEUICCKeyPair env privateKeyPath publicKeyPath cl =
     (case loadKeyPair env privateKeyPath publicKeyPath of Inl e \<Rightarrow> (Inl e, cl\<lparr>m_euiccPrivateKey :=
          (if file_exists env privateKeyPath then pem_private_key env privateKeyPath else m_euiccPrivateKey cl)\<rparr>)
      | Inr (k, pub) \<Rightarrow> (Inr (), cl\<lparr>m_euiccPrivateKey := Some k, m_euiccPublicKeyData := pub\<rparr>))"

definition loadEUMKeyPair :: "('c, 'p, 'k) environment \<Rightarrow> string \<Rightarrow> string \<Rightarrow> ('c, 'k, unit) client_method" where
  "loadEUMKeyPair env privateKeyPath publicKeyPath cl =
     (case loadKeyPair env privateKeyPath publicKeyPath of Inl e \<Rightarrow> (Inl e, cl\<lparr>m_eumPrivateKey :=
          (if file_exists env privateKeyPath then pem_private_key env privateKeyPath else m_eumPrivateKey cl)\<rparr>)
      | Inr (k, pub) \<Rightarrow> (Inr (), cl\<lparr>m_eumPrivateKey := Some k, m_eumPublicKeyData := pub\<rparr>))"

definition generateChallenge :: "('c, 'p, 'k) environment \<Rightarrow> ('c, 'k, octets) client_method" where
  "generateChallenge env cl = ((case rand_bytes env 16 of None \<Rightarrow> Inl Thrown | Some r \<Rightarrow> Inr r), cl)"

definition getEUICCCurveNID :: "('c, 'p, 'k) openssl \<Rightarrow> ('c, 'k) rsp_client \<Rightarrow> curve result" where
  "getEUICCCurveNID ssl cl = (case m_euiccCert cl of None \<Rightarrow> Inl Thrown | Some c \<Rightarrow> getCertificateCurveNID ssl c)"

text \<open>The one-time key: 65 octets of an uncompressed point. The private key is set before the checks.\<close>

definition generateEUICCOtpk :: "('c, 'p, 'k) openssl \<Rightarrow> ('c, 'p, 'k) environment \<Rightarrow> ('c, 'k, unit) client_method" where
  "generateEUICCOtpk ssl env cl =
     (case getEUICCCurveNID ssl cl of Inl e \<Rightarrow> (Inl e, cl)
      | Inr curve \<Rightarrow> (case ec_keygen env curve of None \<Rightarrow> (Inl Thrown, cl)
        | Some k \<Rightarrow> (let cl = cl\<lparr>m_euicc_ot_PrivateKey := Some k\<rparr> in
            case public_octets env k of None \<Rightarrow> (Inl Thrown, cl)
            | Some pub \<Rightarrow> if length pub \<noteq> 65 then (Inl Thrown, cl)
                else (let cl = cl\<lparr>m_euiccOtpk := pub\<rparr> in
                  if pub ! 0 \<noteq> 0x04 then (Inl Thrown, cl) else (Inr (), cl)))))"

definition getEUICCOtpk :: "('c, 'k, octets) client_method" where
  "getEUICCOtpk cl = (Inr (m_euiccOtpk cl), cl)"

definition computeECDHSharedSecret ::
  "('c, 'p, 'k) openssl \<Rightarrow> ('c, 'p, 'k) environment \<Rightarrow> octets \<Rightarrow> ('c, 'k, octets) client_method" where
  "computeECDHSharedSecret ssl env otherPublicKey cl =
     ((case m_euicc_ot_PrivateKey cl of None \<Rightarrow> Inl Thrown
       | Some k \<Rightarrow> bind_result (getEUICCCurveNID ssl cl) (\<lambda>curve.
           case peer_key env curve otherPublicKey of None \<Rightarrow> Inl Thrown
           | Some p \<Rightarrow> (case ecdh env k p of None \<Rightarrow> Inl Thrown | Some secret \<Rightarrow> Inr secret))), cl)"

definition signDataWithEUICC :: "('c, 'p, 'k) openssl \<Rightarrow> octets \<Rightarrow> ('c, 'k, octets) client_method" where
  "signDataWithEUICC ssl dataToSign cl =
     ((case m_euiccPrivateKey cl of None \<Rightarrow> Inl Thrown
       | Some k \<Rightarrow> map_result (convertDER_to_BSI_TR03111 ssl) (signDataWithKey ssl dataToSign k)), cl)"

section \<open>Confirmation code and transaction\<close>

text \<open>\<^verbatim>\<open>std::stoi(s, nullptr, 16)\<close>: white space, sign, prefix, digits; nothing where it throws.\<close>

definition strip_sign :: "string \<Rightarrow> bool \<times> string" where
  "strip_sign s = (case s of c # cs \<Rightarrow> if c = CHR ''-'' then (True, cs) else if c = CHR ''+'' then (False, cs) else (False, s)
     | [] \<Rightarrow> (False, s))"

definition stoi16 :: "string \<Rightarrow> int option" where
  "stoi16 s = (let (neg, t) = strip_sign (dropWhile is_space s);
       ds = takeWhile (\<lambda>c. hex_digit c \<noteq> None) (strip_0x t);
       v = foldl (\<lambda>n c. 16 * n + int (the (hex_digit c))) 0 ds;
       i = (if neg then - v else v) in
     if ds = [] \<or> i < - (2 ^ 31) \<or> 2 ^ 31 \<le> i then None else Some i)"

text \<open>The octets of a string of hexadecimal digits, without a last single character.\<close>

fun code_bytes :: "string \<Rightarrow> octets result" where
  "code_bytes (a # b # cs) = (case stoi16 [a, b] of None \<Rightarrow> Inl Thrown
     | Some i \<Rightarrow> map_result (Cons (word_of_int i)) (code_bytes cs))"
| "code_bytes cs = Inr []"

definition computeConfirmationCodeHash :: "('c, 'p, 'k) openssl \<Rightarrow> string \<Rightarrow> octets \<Rightarrow> octets result" where
  "computeConfirmationCodeHash ssl confirmationCode transactionId =
     map_result (\<lambda>ccBytes. sha256 ssl (sha256 ssl ccBytes @ transactionId)) (code_bytes confirmationCode)"

definition setConfirmationCode :: "('c, 'p, 'k) openssl \<Rightarrow> string \<Rightarrow> ('c, 'k, unit) client_method" where
  "setConfirmationCode ssl confirmationCode cl =
     (let cl = cl\<lparr>m_confirmationCode := confirmationCode\<rparr> in
      if m_transactionId cl \<noteq> [] then
        (case computeConfirmationCodeHash ssl (m_confirmationCode cl) (m_transactionId cl) of
           Inl e \<Rightarrow> (Inl e, cl) | Inr h \<Rightarrow> (Inr (), cl\<lparr>m_confirmationCodeHash := h\<rparr>))
      else (Inr (), cl))"

definition setTransactionId :: "('c, 'p, 'k) openssl \<Rightarrow> octets \<Rightarrow> ('c, 'k, unit) client_method" where
  "setTransactionId ssl transactionId cl =
     (let cl = cl\<lparr>m_transactionId := transactionId\<rparr> in
      if m_confirmationCode cl \<noteq> [] then
        (case computeConfirmationCodeHash ssl (m_confirmationCode cl) (m_transactionId cl) of
           Inl e \<Rightarrow> (Inl e, cl) | Inr h \<Rightarrow> (Inr (), cl\<lparr>m_confirmationCodeHash := h\<rparr>))
      else (Inr (), cl))"

definition getConfirmationCodeHash :: "('c, 'k, octets) client_method" where
  "getConfirmationCodeHash cl = (Inr (m_confirmationCodeHash cl), cl)"

definition setConfirmationCodeHash :: "octets \<Rightarrow> ('c, 'k, unit) client_method" where
  "setConfirmationCodeHash h cl = (Inr (), cl\<lparr>m_confirmationCodeHash := h\<rparr>)"

section \<open>Certificates of the client\<close>

text \<open>Writing a null certificate writes nothing.\<close>

definition certToDER :: "('c, 'p, 'k) openssl \<Rightarrow> 'c option \<Rightarrow> octets" where
  "certToDER ssl c = (case c of None \<Rightarrow> [] | Some c \<Rightarrow> cert_der ssl c)"

definition getEUMCertificate :: "('c, 'p, 'k) openssl \<Rightarrow> ('c, 'k, octets) client_method" where
  "getEUMCertificate ssl cl = (Inr (certToDER ssl (m_eumCert cl)), cl)"

definition getEUICCCertificate :: "('c, 'p, 'k) openssl \<Rightarrow> ('c, 'k, octets) client_method" where
  "getEUICCCertificate ssl cl = (Inr (certToDER ssl (m_euiccCert cl)), cl)"

text \<open>The first certificate of the pool that is issued by itself and has the curve.\<close>

fun find_matching_root :: "('c, 'p, 'k) openssl \<Rightarrow> curve \<Rightarrow> 'c list \<Rightarrow> 'c option" where
  "find_matching_root ssl curve [] = None"
| "find_matching_root ssl curve (c # cs) =
     (if self_issued ssl c \<and> getCertificateCurveNID ssl c = Inr curve then Some c else find_matching_root ssl curve cs)"

definition select_CI :: "('c, 'p, 'k) openssl \<Rightarrow> ('c, 'k) rsp_client \<Rightarrow> 'c option result" where
  "select_CI ssl cl =
     (case m_euiccCert cl of None \<Rightarrow> Inr (m_rootCA cl)
      | Some e \<Rightarrow> bind_result (getEUICCCurveNID ssl cl) (\<lambda>euicc_curve.
          let search = (case find_matching_root ssl euicc_curve (m_certPool cl) of
              Some c \<Rightarrow> Inr (Some c) | None \<Rightarrow> Inr (m_rootCA cl)) in
          case m_rootCA cl of
            None \<Rightarrow> search
          | Some r \<Rightarrow> if getCertificateCurveNID ssl r = Inr euicc_curve then Inr (Some r) else search))"

definition getCICertificate :: "('c, 'p, 'k) openssl \<Rightarrow> ('c, 'k, octets) client_method" where
  "getCICertificate ssl cl = (map_result (certToDER ssl) (select_CI ssl cl), cl)"

section \<open>HTTP\<close>

definition configureHttpClient :: "bool \<Rightarrow> string \<Rightarrow> ('c, 'k, unit) client_method" where
  "configureHttpClient useCustomTlsCert customTlsCertPath cl =
     (Inr (), cl\<lparr>m_useCustomTlsCert := Some useCustomTlsCert, m_customTlsCertPath := customTlsCertPath\<rparr>)"

definition setAuthParams :: "bool \<Rightarrow> string \<Rightarrow> string \<Rightarrow> ('c, 'k, unit) client_method" where
  "setAuthParams useMutualTLS clientCertPath clientKeyPath cl =
     (Inr (), cl\<lparr>m_useMutualTLS := Some useMutualTLS, m_clientCertPath := clientCertPath, m_clientKeyPath := clientKeyPath\<rparr>)"

record post_config =
  useMutualTLS :: bool
  clientCertPath :: string
  clientKeyPath :: string
  includeAdminProtocolHeader :: bool
  contentType :: string

definition post_headers :: "post_config \<Rightarrow> string list" where
  "post_headers config =
     (let contentTypeHeader = ''Content-Type: '' @ contentType config in
      if useMutualTLS config then
        [if contentType config = ''application/json'' then contentTypeHeader @ '';charset=UTF-8'' else contentTypeHeader,
         ''Accept: application/json''] @
        (if includeAdminProtocolHeader config then [''X-Admin-Protocol: gsma/rsp/v2.5.0''] else [])
      else
        [contentTypeHeader,
         ''Accept: '' @ (if contentType config = ''application/x-gsma-rsp-asn1'' then contentType config else ''application/json''),
         ''X-Admin-Protocol: gsma/rsp/v2.5.0''])"

definition postJson :: "('c, 'p, 'k) environment \<Rightarrow> string \<Rightarrow> nat \<Rightarrow> string \<Rightarrow> 'c list \<Rightarrow> post_config \<Rightarrow> (string \<times> int) result" where
  "postJson env url port jsonData certPool config =
     curl_perform env \<lparr> rq_url = url, rq_port = port, rq_headers = post_headers config, rq_body = jsonData, rq_certs = certPool,
       rq_client_cert = (if useMutualTLS config \<and> clientCertPath config \<noteq> [] then
          Some (clientCertPath config, if contains (clientCertPath config) ''.der'' \<or> contains (clientCertPath config) ''.DER''
            then ''DER'' else ''PEM'') else None),
       rq_client_key = (if useMutualTLS config \<and> clientKeyPath config \<noteq> [] then Some (clientKeyPath config) else None) \<rparr>"

definition is_loaded :: "'a result \<Rightarrow> bool" where
  "is_loaded r = (case r of Inl e \<Rightarrow> False | Inr x \<Rightarrow> True)"

text \<open>
  The flag is read without a value when the client was not configured. The certificates of the
  configured TLS certificate file are freed at the end of the block that loads them, and their pointers
  are in the pool that the transfer uses.
\<close>

definition sendHttpsPostUnified ::
  "('c, 'p, 'k) openssl \<Rightarrow> ('c, 'p, 'k) environment \<Rightarrow> string \<Rightarrow> string \<Rightarrow> nat \<Rightarrow> bool \<Rightarrow> string \<Rightarrow> string \<Rightarrow> string \<Rightarrow>
   ('c, 'k, string \<times> int) client_method" where
  "sendHttpsPostUnified ssl env endpoint body portOverride mutual certPath keyPath ctype cl =
     ((case m_useCustomTlsCert cl of
         None \<Rightarrow> Inl OutOfBounds
       | Some custom \<Rightarrow>
           if custom \<and> m_customTlsCertPath cl \<noteq> [] \<and> is_loaded (loadCertificateChain ssl env (m_customTlsCertPath cl))
           then Inl OutOfBounds
           else postJson env (''https://'' @ m_serverUrl cl @ endpoint) portOverride body (m_certPool cl)
             \<lparr> useMutualTLS = mutual, clientCertPath = certPath, clientKeyPath = keyPath,
               includeAdminProtocolHeader = mutual, contentType = ctype \<rparr>), cl)"

definition sendHttpsPost ::
  "('c, 'p, 'k) openssl \<Rightarrow> ('c, 'p, 'k) environment \<Rightarrow> string \<Rightarrow> string \<Rightarrow> nat \<Rightarrow> ('c, 'k, string \<times> int) client_method" where
  "sendHttpsPost ssl env endpoint body port = sendHttpsPostUnified ssl env endpoint body port False [] [] ''application/json''"

definition sendHttpsPostWithAuth ::
  "('c, 'p, 'k) openssl \<Rightarrow> ('c, 'p, 'k) environment \<Rightarrow> string \<Rightarrow> string \<Rightarrow> nat \<Rightarrow> ('c, 'k, string \<times> int) client_method" where
  "sendHttpsPostWithAuth ssl env endpoint body port cl =
     (case m_useMutualTLS cl of None \<Rightarrow> (Inl OutOfBounds, cl)
      | Some mutual \<Rightarrow> sendHttpsPostUnified ssl env endpoint body port mutual (m_clientCertPath cl) (m_clientKeyPath cl)
          ''application/json'' cl)"

definition sendHttpsPostWithContentType ::
  "('c, 'p, 'k) openssl \<Rightarrow> ('c, 'p, 'k) environment \<Rightarrow> string \<Rightarrow> string \<Rightarrow> string \<Rightarrow> nat \<Rightarrow> ('c, 'k, string \<times> int) client_method" where
  "sendHttpsPostWithContentType ssl env endpoint body ctype port = sendHttpsPostUnified ssl env endpoint body port False [] [] ctype"

end
