(* ===== verification/SMDPP_Functions.thy ===== *)
theory SMDPP_Functions
  imports RSP_Client BSP_Crypto
begin

text \<open>
  The external functions of \<^verbatim>\<open>smdpp/smdpp_Tests_Functions.cc\<close>: the registry that maps handles to
  clients, the wrappers that turn exceptions into error values, and the functions that the test suite
  calls. An exception of the C++ library, \<^term>\<open>Thrown\<close>, is caught and becomes the error value; undefined
  behaviour and errors of the TITAN runtime are not. Arguments have a value, integers fit an \<^verbatim>\<open>int\<close>, and
  strings are what \<^verbatim>\<open>charstring_to_string\<close> makes of them.
\<close>

unbundle bit_operations_syntax

section \<open>The registry\<close>

record ('c, 'k) registry =
  m_clients :: "int \<rightharpoonup> ('c, 'k) rsp_client"
  m_nextHandle :: int

definition registry_start :: "('c, 'k) registry" where
  "registry_start = \<lparr> m_clients = (\<lambda>h. None), m_nextHandle = 1 \<rparr>"

text \<open>The value of a method on a client that has been made, for the chain of loading calls of \<^verbatim>\<open>createClient\<close>.\<close>

definition run_load :: "('c, 'k, unit) client_method \<Rightarrow> ('c, 'k) rsp_client \<Rightarrow> ('c, 'k) rsp_client result" where
  "run_load f cl = map_result (\<lambda>_. snd (f cl)) (fst (f cl))"

definition makeClient :: "('c, 'p, 'k) openssl \<Rightarrow> ('c, 'p, 'k) environment \<Rightarrow> string \<Rightarrow> string \<Rightarrow> string \<Rightarrow>
    ('c, 'k) rsp_client result" where
  "makeClient ssl env serverUrl certPath nameFilter =
     (let certType = (if nameFilter = ''BRP'' then ''BRP'' else ''NIST'') in
      bind_result (RSPClient ssl env serverUrl [certPath, ''./sgp26/EUM'', ''./sgp26/DPtls''] [nameFilter, nameFilter, nameFilter]) (\<lambda>cl.
      bind_result (run_load (loadEUICCCertificate ssl env (''./sgp26/eUICC/CERT_EUICC_ECDSA_'' @ certType @ ''.der'')) cl) (\<lambda>cl.
      bind_result (run_load (loadEUICCKeyPair env (''./sgp26/eUICC/SK_EUICC_ECDSA_'' @ certType @ ''.pem'') []) cl) (\<lambda>cl.
      bind_result (run_load (loadEUMCertificate ssl env (''./sgp26/EUM/CERT_EUM_ECDSA_'' @ certType @ ''.der'')) cl) (\<lambda>cl.
      bind_result (run_load (loadEUMKeyPair env (''./sgp26/EUM/SK_EUM_ECDSA_'' @ certType @ ''.pem'') []) cl) (\<lambda>cl.
      run_load (setCACertPath ''/etc/ssl/certs/ca-certificates.crt'') cl))))))"

definition catch_std :: "'a \<Rightarrow> 'a result \<Rightarrow> 'a result" where
  "catch_std error_value r = (if r = Inl Thrown then Inr error_value else r)"

text \<open>
  The handle is \<^verbatim>\<open>m_nextHandle++\<close> on an \<^verbatim>\<open>int\<close>, which overflows, undefined behaviour, when it is the largest one.
\<close>

definition INT_MAX :: int where
  "INT_MAX = 2 ^ 31 - 1"

definition createClient :: "('c, 'p, 'k) openssl \<Rightarrow> ('c, 'p, 'k) environment \<Rightarrow> string \<Rightarrow> string \<Rightarrow> string \<Rightarrow>
    ('c, 'k) registry \<Rightarrow> int result \<times> ('c, 'k) registry" where
  "createClient ssl env serverUrl certPath nameFilter reg =
     (case makeClient ssl env serverUrl certPath nameFilter of
        Inl e \<Rightarrow> (if e = Thrown then Inr (- 1) else Inl e, reg)
      | Inr cl \<Rightarrow>
          (if m_nextHandle reg = INT_MAX then (Inl Undefined, reg)
           else (Inr (m_nextHandle reg),
             reg\<lparr>m_clients := (m_clients reg)(m_nextHandle reg \<mapsto> cl), m_nextHandle := m_nextHandle reg + 1\<rparr>)))"

definition destroyClient :: "int \<Rightarrow> ('c, 'k) registry \<Rightarrow> bool \<times> ('c, 'k) registry" where
  "destroyClient h reg =
     (if m_clients reg h \<noteq> None then (True, reg\<lparr>m_clients := (m_clients reg)(h := None)\<rparr>) else (False, reg))"

definition destroyAllClients :: "('c, 'k) registry \<Rightarrow> ('c, 'k) registry" where
  "destroyAllClients reg = reg\<lparr>m_clients := (\<lambda>h. None)\<rparr>"

section \<open>The wrappers\<close>

text \<open>A call of a method on the client of a handle; a handle without a client is an exception.\<close>

definition with_client :: "int \<Rightarrow> 'a \<Rightarrow> ('c, 'k, 'a) client_method \<Rightarrow> ('c, 'k) registry \<Rightarrow> 'a result \<times> ('c, 'k) registry" where
  "with_client h error_value f reg =
     (case m_clients reg h of
        None \<Rightarrow> (catch_std error_value (Inl Thrown), reg)
      | Some cl \<Rightarrow> (catch_std error_value (fst (f cl)), reg\<lparr>m_clients := (m_clients reg)(h \<mapsto> snd (f cl))\<rparr>))"

definition then_0 :: "('c, 'k, unit) client_method \<Rightarrow> ('c, 'k, int) client_method" where
  "then_0 f cl = (map_result (\<lambda>_. 0) (fst (f cl)), snd (f cl))"

definition client_loader :: "int \<Rightarrow> ('c, 'k, unit) client_method \<Rightarrow> ('c, 'k) registry \<Rightarrow> int result \<times> ('c, 'k) registry" where
  "client_loader h f = with_client h (- 1) (then_0 f)"

text \<open>An octetstring without a value is \<^term>\<open>None\<close>: the error value of the getters that declare it as \<^verbatim>\<open>OCTETSTRING()\<close>.\<close>

definition client_getter :: "int \<Rightarrow> 'b \<Rightarrow> (octets \<Rightarrow> 'b) \<Rightarrow> ('c, 'k, octets) client_method \<Rightarrow> ('c, 'k) registry \<Rightarrow> 'b result \<times> ('c, 'k) registry" where
  "client_getter h error_value converter f = with_client h error_value (\<lambda>cl. (map_result converter (fst (f cl)), snd (f cl)))"

definition client_setter :: "int \<Rightarrow> ('c, 'k, unit) client_method \<Rightarrow> ('c, 'k) registry \<Rightarrow> int result \<times> ('c, 'k) registry" where
  "client_setter h f = with_client h (- 1) (then_0 f)"

section \<open>The external functions on clients\<close>

definition ext_create :: "('c, 'p, 'k) openssl \<Rightarrow> ('c, 'p, 'k) environment \<Rightarrow> string \<Rightarrow> string \<Rightarrow> string \<Rightarrow>
    ('c, 'k) registry \<Rightarrow> int result \<times> ('c, 'k) registry" where
  "ext_create ssl env serverUrl certPath nameFilter reg =
     (let (r, reg') = createClient ssl env serverUrl certPath nameFilter reg in (catch_std (- 1) r, reg'))"

definition ext_destroy :: "int \<Rightarrow> ('c, 'k) registry \<Rightarrow> int result \<times> ('c, 'k) registry" where
  "ext_destroy h reg = (let (success, reg') = destroyClient h reg in (Inr (if success then 0 else - 1), reg'))"

definition ext_destroyAll :: "('c, 'k) registry \<Rightarrow> int result \<times> ('c, 'k) registry" where
  "ext_destroyAll reg = (Inr 0, destroyAllClients reg)"

definition ext_getEUMCertificate :: "('c, 'p, 'k) openssl \<Rightarrow> int \<Rightarrow> ('c, 'k) registry \<Rightarrow> octets option result \<times> ('c, 'k) registry" where
  "ext_getEUMCertificate ssl h = client_getter h None Some (getEUMCertificate ssl)"

definition ext_getEUICCCertificate :: "('c, 'p, 'k) openssl \<Rightarrow> int \<Rightarrow> ('c, 'k) registry \<Rightarrow> octets option result \<times> ('c, 'k) registry" where
  "ext_getEUICCCertificate ssl h = client_getter h None Some (getEUICCCertificate ssl)"

definition ext_getCICertificate :: "('c, 'p, 'k) openssl \<Rightarrow> int \<Rightarrow> ('c, 'k) registry \<Rightarrow> octets option result \<times> ('c, 'k) registry" where
  "ext_getCICertificate ssl h = client_getter h None Some (getCICertificate ssl)"

definition ext_loadEUICCCertificate ::
  "('c, 'p, 'k) openssl \<Rightarrow> ('c, 'p, 'k) environment \<Rightarrow> int \<Rightarrow> string \<Rightarrow> ('c, 'k) registry \<Rightarrow> int result \<times> ('c, 'k) registry" where
  "ext_loadEUICCCertificate ssl env h path = client_loader h (loadEUICCCertificate ssl env path)"

definition ext_loadEUICCKeyPair ::
  "('c, 'p, 'k) environment \<Rightarrow> int \<Rightarrow> string \<Rightarrow> ('c, 'k) registry \<Rightarrow> int result \<times> ('c, 'k) registry" where
  "ext_loadEUICCKeyPair env h path = client_loader h (loadEUICCKeyPair env path [])"

definition ext_loadEUMCertificate ::
  "('c, 'p, 'k) openssl \<Rightarrow> ('c, 'p, 'k) environment \<Rightarrow> int \<Rightarrow> string \<Rightarrow> ('c, 'k) registry \<Rightarrow> int result \<times> ('c, 'k) registry" where
  "ext_loadEUMCertificate ssl env h path = client_loader h (loadEUMCertificate ssl env path)"

definition ext_loadEUMKeyPair ::
  "('c, 'p, 'k) environment \<Rightarrow> int \<Rightarrow> string \<Rightarrow> ('c, 'k) registry \<Rightarrow> int result \<times> ('c, 'k) registry" where
  "ext_loadEUMKeyPair env h path = client_loader h (loadEUMKeyPair env path [])"

definition ext_setCACertPath :: "int \<Rightarrow> string \<Rightarrow> ('c, 'k) registry \<Rightarrow> int result \<times> ('c, 'k) registry" where
  "ext_setCACertPath h path = client_loader h (setCACertPath path)"

definition ext_generateChallenge :: "('c, 'p, 'k) environment \<Rightarrow> int \<Rightarrow> ('c, 'k) registry \<Rightarrow> octets result \<times> ('c, 'k) registry" where
  "ext_generateChallenge env h = client_getter h [] (\<lambda>r. r) (generateChallenge env)"

definition ext_signDataWithEUICC :: "('c, 'p, 'k) openssl \<Rightarrow> int \<Rightarrow> octets \<Rightarrow> ('c, 'k) registry \<Rightarrow> octets result \<times> ('c, 'k) registry" where
  "ext_signDataWithEUICC ssl h dataToSign = with_client h [] (signDataWithEUICC ssl dataToSign)"

definition generate_and_get :: "('c, 'p, 'k) openssl \<Rightarrow> ('c, 'p, 'k) environment \<Rightarrow> ('c, 'k, octets) client_method" where
  "generate_and_get ssl env cl =
     (case generateEUICCOtpk ssl env cl of (Inl e, cl') \<Rightarrow> (Inl e, cl') | (Inr _, cl') \<Rightarrow> getEUICCOtpk cl')"

definition ext_generateEUICCOtpk ::
  "('c, 'p, 'k) openssl \<Rightarrow> ('c, 'p, 'k) environment \<Rightarrow> int \<Rightarrow> ('c, 'k) registry \<Rightarrow> octets result \<times> ('c, 'k) registry" where
  "ext_generateEUICCOtpk ssl env h = with_client h [] (generate_and_get ssl env)"

definition ext_getEUICCOtpk :: "int \<Rightarrow> ('c, 'k) registry \<Rightarrow> octets result \<times> ('c, 'k) registry" where
  "ext_getEUICCOtpk h = client_getter h [] (\<lambda>r. r) getEUICCOtpk"

definition ext_setConfirmationCode :: "('c, 'p, 'k) openssl \<Rightarrow> int \<Rightarrow> string \<Rightarrow> ('c, 'k) registry \<Rightarrow> int result \<times> ('c, 'k) registry" where
  "ext_setConfirmationCode ssl h code = client_setter h (setConfirmationCode ssl code)"

definition ext_setTransactionId :: "('c, 'p, 'k) openssl \<Rightarrow> int \<Rightarrow> octets \<Rightarrow> ('c, 'k) registry \<Rightarrow> int result \<times> ('c, 'k) registry" where
  "ext_setTransactionId ssl h tid = client_setter h (setTransactionId ssl tid)"

definition ext_getConfirmationCodeHash :: "int \<Rightarrow> ('c, 'k) registry \<Rightarrow> octets option result \<times> ('c, 'k) registry" where
  "ext_getConfirmationCodeHash h = client_getter h None Some getConfirmationCodeHash"

definition ext_setConfirmationCodeHash :: "int \<Rightarrow> octets \<Rightarrow> ('c, 'k) registry \<Rightarrow> int result \<times> ('c, 'k) registry" where
  "ext_setConfirmationCodeHash h hash = client_setter h (setConfirmationCodeHash hash)"

definition ext_verifyServerSignature ::
  "('c, 'p, 'k) openssl \<Rightarrow> int \<Rightarrow> octets \<Rightarrow> octets \<Rightarrow> octets \<Rightarrow> ('c, 'k) registry \<Rightarrow> bool result \<times> ('c, 'k) registry" where
  "ext_verifyServerSignature ssl h serverSigned serverSignature serverCert =
     with_client h False (\<lambda>cl. (verifyServerSignature ssl serverSigned serverSignature serverCert, cl))"

definition ext_computeSharedSecret ::
  "('c, 'p, 'k) openssl \<Rightarrow> ('c, 'p, 'k) environment \<Rightarrow> int \<Rightarrow> octets \<Rightarrow> ('c, 'k) registry \<Rightarrow> octets result \<times> ('c, 'k) registry" where
  "ext_computeSharedSecret ssl env h otherPublicKey = with_client h [] (computeECDHSharedSecret ssl env otherPublicKey)"

definition ext_configureHttpClient :: "int \<Rightarrow> bool \<Rightarrow> string \<Rightarrow> ('c, 'k) registry \<Rightarrow> int result \<times> ('c, 'k) registry" where
  "ext_configureHttpClient h custom path = with_client h (- 1) (then_0 (configureHttpClient custom path))"

definition ext_setAuthParams :: "int \<Rightarrow> bool \<Rightarrow> string \<Rightarrow> string \<Rightarrow> ('c, 'k) registry \<Rightarrow> int result \<times> ('c, 'k) registry" where
  "ext_setAuthParams h mutual certPath keyPath = with_client h (- 1) (then_0 (setAuthParams mutual certPath keyPath))"

text \<open>A CHARSTRING is made of a C string: what stands behind a character 0 is lost.\<close>

definition string_to_charstring :: "string \<Rightarrow> string" where
  "string_to_charstring s = c_string s"

definition answer_method :: "('c, 'k, string \<times> int) client_method \<Rightarrow> ('c, 'k, string \<times> int) client_method" where
  "answer_method f cl = (map_result (\<lambda>(response, httpStatus). (string_to_charstring response, httpStatus)) (fst (f cl)), snd (f cl))"

text \<open>The port is an \<^verbatim>\<open>int\<close> that becomes an \<^verbatim>\<open>unsigned int\<close>.\<close>

definition unsigned_int :: "int \<Rightarrow> nat" where
  "unsigned_int i = nat (i mod 2 ^ 32)"

text \<open>The requests: the answer's body and the status, 0 and an empty body on an exception.\<close>

definition ext_sendHttpsPost ::
  "('c, 'p, 'k) openssl \<Rightarrow> ('c, 'p, 'k) environment \<Rightarrow> int \<Rightarrow> string \<Rightarrow> string \<Rightarrow> int \<Rightarrow> ('c, 'k) registry \<Rightarrow> (string \<times> int) result \<times> ('c, 'k) registry" where
  "ext_sendHttpsPost ssl env h endpoint body port = with_client h ([], 0) (answer_method (sendHttpsPost ssl env endpoint body (unsigned_int port)))"

definition ext_sendHttpsPostWithAuth ::
  "('c, 'p, 'k) openssl \<Rightarrow> ('c, 'p, 'k) environment \<Rightarrow> int \<Rightarrow> string \<Rightarrow> string \<Rightarrow> int \<Rightarrow> ('c, 'k) registry \<Rightarrow> (string \<times> int) result \<times> ('c, 'k) registry" where
  "ext_sendHttpsPostWithAuth ssl env h endpoint body port = with_client h ([], 0) (answer_method (sendHttpsPostWithAuth ssl env endpoint body (unsigned_int port)))"

definition ext_sendHttpsPostWithContentType ::
  "('c, 'p, 'k) openssl \<Rightarrow> ('c, 'p, 'k) environment \<Rightarrow> int \<Rightarrow> string \<Rightarrow> string \<Rightarrow> int \<Rightarrow> string \<Rightarrow> ('c, 'k) registry \<Rightarrow> (string \<times> int) result \<times> ('c, 'k) registry" where
  "ext_sendHttpsPostWithContentType ssl env h endpoint body port ctype =
     with_client h ([], 0) (answer_method (sendHttpsPostWithContentType ssl env endpoint body ctype (unsigned_int port)))"

text \<open>
  The binary form logs and converts its arguments first. A status of 0 or an empty answer is a failure:
  an octetstring without a value, \<^term>\<open>None\<close>, as for an exception.
\<close>

definition send_binary :: "('c, 'p, 'k) openssl \<Rightarrow> ('c, 'p, 'k) environment \<Rightarrow> string \<Rightarrow> octets \<Rightarrow> string \<Rightarrow> nat \<Rightarrow>
    ('c, 'k, octets option \<times> int) client_method" where
  "send_binary ssl env endpoint body ctype port cl =
     (let (r, cl') = sendHttpsPostWithContentType ssl env endpoint (map char_of_octet body) ctype port cl in
      (map_result (\<lambda>(response, httpStatus).
         if httpStatus = 0 \<or> response = [] then (None, 0)
         else (Some (map (\<lambda>c. of_char c) response), httpStatus)) r, cl'))"

definition ext_sendHttpsPostBinary ::
  "('c, 'p, 'k) openssl \<Rightarrow> ('c, 'p, 'k) environment \<Rightarrow> int \<Rightarrow> string \<Rightarrow> octets \<Rightarrow> int \<Rightarrow> string \<Rightarrow> ('c, 'k) registry \<Rightarrow>
   (octets option \<times> int) result \<times> ('c, 'k) registry" where
  "ext_sendHttpsPostBinary ssl env h endpoint body port ctype = with_client h (None, 0) (send_binary ssl env endpoint body ctype (unsigned_int port))"

section \<open>The external functions on certificates\<close>

definition cert_string_wrapper :: "string result \<Rightarrow> string result" where
  "cert_string_wrapper func = catch_std [] (map_result string_to_charstring func)"

definition cert_bool_wrapper :: "bool result \<Rightarrow> bool result" where
  "cert_bool_wrapper func = catch_std False func"

definition ext_getEID :: "('c, 'p, 'k) openssl \<Rightarrow> octets \<Rightarrow> string result" where
  "ext_getEID ssl certData = cert_string_wrapper (map_result (getEID ssl) (loadCertFromDER ssl certData))"

definition ext_validateEIDRange :: "('c, 'p, 'k) openssl \<Rightarrow> string \<Rightarrow> octets \<Rightarrow> bool result option" where
  "ext_validateEIDRange ssl eid eumCertData = map_option cert_bool_wrapper (validateEIDRange ssl eid eumCertData)"

definition ext_hasRSPRole :: "('c, 'p, 'k) openssl \<Rightarrow> octets \<Rightarrow> string \<Rightarrow> bool result" where
  "ext_hasRSPRole ssl certData roleOid = cert_bool_wrapper (Inr (hasRSPRole ssl certData roleOid))"

definition ext_getPermittedEINs :: "('c, 'p, 'k) openssl \<Rightarrow> octets \<Rightarrow> string result option" where
  "ext_getPermittedEINs ssl eumCertData = map_option cert_string_wrapper (getPermittedEINs ssl eumCertData)"

definition ext_verifyECDHCompatible :: "octets \<Rightarrow> octets \<Rightarrow> bool result" where
  "ext_verifyECDHCompatible pubKey1 pubKey2 = cert_bool_wrapper (Inr (verifyECDHCompatible pubKey1 pubKey2))"

definition ext_getCurveOID :: "('c, 'p, 'k) openssl \<Rightarrow> octets \<Rightarrow> string result" where
  "ext_getCurveOID ssl certData = cert_string_wrapper (Inr (getCurveOID ssl certData))"

definition ext_verifyCertificateChainDynamic ::
  "('c, 'p, 'k) openssl \<Rightarrow> ('c, 'p, 'k) environment \<Rightarrow> octets \<Rightarrow> string \<Rightarrow> octets \<Rightarrow> bool result" where
  "ext_verifyCertificateChainDynamic ssl env cert certPoolDir rootCA =
     cert_bool_wrapper
       (bind_result (loadCertFromDER ssl cert) (\<lambda>certObj.
        bind_result (loadCertFromDER ssl rootCA) (\<lambda>rootObj.
        verifyCertificateChainDynamic ssl certObj (loadCertificatesFromDirectory ssl env certPoolDir []) (Some rootObj))))"

definition ext_verifyCertificateChainWithIntermediate :: "('c, 'p, 'k) openssl \<Rightarrow> octets \<Rightarrow> octets \<Rightarrow> octets \<Rightarrow> bool result" where
  "ext_verifyCertificateChainWithIntermediate ssl cert intermediateCert rootCA =
     cert_bool_wrapper
       (bind_result (loadCertFromDER ssl cert) (\<lambda>certObj.
        bind_result (loadCertFromDER ssl intermediateCert) (\<lambda>intermediateObj.
        bind_result (loadCertFromDER ssl rootCA) (\<lambda>rootObj.
        verifyCertificateChainDynamic ssl certObj [intermediateObj] (Some rootObj)))))"

section \<open>Bound profile packages\<close>

text \<open>The EID in octets; a last single digit is an octet of its own.\<close>

fun eid_bytes :: "string \<Rightarrow> octets result" where
  "eid_bytes [] = Inr []"
| "eid_bytes [a] = (case stoi16 [a] of None \<Rightarrow> Inl Thrown | Some i \<Rightarrow> Inr [word_of_int i])"
| "eid_bytes (a # b # cs) = (case stoi16 [a, b] of None \<Rightarrow> Inl Thrown
     | Some i \<Rightarrow> map_result (Cons (word_of_int i)) (eid_bytes cs))"

record ProcessedBoundProfilePackage =
  pb_configureIsdp :: octets
  pb_storeMetadata :: octets
  pb_hasReplaceSessionKeys :: bool
  pb_ppkEnc :: "octets option"
  pb_ppkMac :: "octets option"
  pb_ppkInitialMCV :: "octets option"
  pb_profileData :: octets

definition pb_error :: ProcessedBoundProfilePackage where
  "pb_error = \<lparr> pb_configureIsdp = [], pb_storeMetadata = [], pb_hasReplaceSessionKeys = False, pb_ppkEnc = None,
     pb_ppkMac = None, pb_ppkInitialMCV = None, pb_profileData = [] \<rparr>"

text \<open>
  The conversion of the result. For a package that is not decoded or malformed (\<^const>\<open>None\<close>) the member
  \<^verbatim>\<open>hasReplaceSessionKeys\<close> was never set, and reading it is undefined.
\<close>

definition pb_result :: "BppProcessingResult option \<Rightarrow> ProcessedBoundProfilePackage result" where
  "pb_result r = (case r of None \<Rightarrow> Inl Undefined
     | Some r \<Rightarrow> Inr \<lparr> pb_configureIsdp = configureIsdp r, pb_storeMetadata = storeMetadata r,
         pb_hasReplaceSessionKeys = (replaceSessionKeys r \<noteq> None),
         pb_ppkEnc = map_option ppkEnc (replaceSessionKeys r), pb_ppkMac = map_option ppkCmac (replaceSessionKeys r),
         pb_ppkInitialMCV = map_option initialMacChainingValue (replaceSessionKeys r), pb_profileData = profileData r \<rparr>)"

definition ext_processBoundProfilePackage ::
  "evp \<Rightarrow> (octets \<Rightarrow> BoundProfilePackage option) \<Rightarrow> (octets \<Rightarrow> ReplaceSessionKeysRequest_ASN1 option) \<Rightarrow>
   octets \<Rightarrow> int \<Rightarrow> int \<Rightarrow> octets \<Rightarrow> string \<Rightarrow> octets \<Rightarrow> ProcessedBoundProfilePackage result" where
  "ext_processBoundProfilePackage evp d2i_bpp d2i_rsk sharedSecret keyType keyLength hostId eid encodedBoundProfilePackage =
     catch_std pb_error
       (bind_result (eid_bytes eid) (\<lambda>eidVec.
        bind_result (from_kdf evp sharedSecret (word_of_int keyType) (word_of_int keyLength) hostId eidVec) (\<lambda>bsp.
        bind_result (fst (process_bound_profile_package evp d2i_bpp d2i_rsk encodedBoundProfilePackage bsp)) pb_result)))"

end
