(* ===== verification/BSP_Robustness.thy ===== *)
theory BSP_Robustness
  imports SMDPP_Functions
begin

text \<open>
  The processing of bound profile packages on arbitrary input: whatever the package, the keys, OpenSSL's decoders
  and its primitives yield, the methods fail by exceptions only, which the external function turns into its error
  value. No assertion of the constructor ends the process. What remains is the value that is not set for a malformed package.
\<close>

section \<open>Methods that fail by exceptions only\<close>

definition throws_only :: "'a result \<Rightarrow> bool" where
  "throws_only r \<longleftrightarrow> (\<forall>e. r = Inl e \<longrightarrow> e = Thrown)"

named_theorems throws_intros \<open>failures are exceptions only\<close>

lemma throws_Inr [throws_intros]: "throws_only (Inr a)"
  by (simp add: throws_only_def)

lemma throws_Thrown [throws_intros]: "throws_only (Inl Thrown)"
  by (simp add: throws_only_def)

lemma throws_bind [throws_intros]: "throws_only r \<Longrightarrow> (\<And>a. throws_only (f a)) \<Longrightarrow> throws_only (bind_result r f)"
  by (cases r) (auto simp: throws_only_def)

lemma throws_map [throws_intros]: "throws_only r \<Longrightarrow> throws_only (map_result f r)"
  by (cases r) (auto simp: throws_only_def)

lemma method_return [throws_intros]: "throws_only (fst (bsp_return a s))"
  by (simp add: throws_only_def bsp_return_def)

lemma method_throw [throws_intros]: "throws_only (fst (bsp_throw s))"
  by (simp add: throws_only_def bsp_throw_def)

lemma method_lift [throws_intros]: "throws_only r \<Longrightarrow> throws_only (fst (bsp_lift r s))"
  by (simp add: bsp_lift_def)

lemma method_bind [throws_intros]:
  assumes "throws_only (fst (m s))" "\<And>a s'. throws_only (fst (f a s'))"
  shows "throws_only (fst (bsp_bind m f s))"
proof (cases "m s")
  case (Pair r s')
  then show ?thesis using assms by (cases r) (simp_all add: bsp_bind_def throws_only_def)
qed

lemma method_if [throws_intros]:
  "throws_only (fst (m s)) \<Longrightarrow> throws_only (fst (n s)) \<Longrightarrow> throws_only (fst ((if b then m else n) s))"
  by simp

lemma throws_if [throws_intros]: "throws_only (fst x) \<Longrightarrow> throws_only (fst y) \<Longrightarrow> throws_only (fst (if b then x else y))"
  by simp

lemma method_case_prod [throws_intros]:
  "(\<And>a b. throws_only (fst (f a b s))) \<Longrightarrow> throws_only (fst ((case p of (a, b) \<Rightarrow> f a b) s))"
  by (simp split: prod.split)

lemma method_with_bsp [throws_intros]: "throws_only (fst (m other)) \<Longrightarrow> throws_only (fst (with_bsp other m s))"
  by (simp add: with_bsp_def)

section \<open>The parts of the processing\<close>

lemma throws_cmac [throws_intros]: "throws_only (compute_cmac evp key data)"
  by (auto simp: compute_cmac_def throws_only_def Let_def split: if_splits prod.splits)

lemma throws_cipher [throws_intros]: "throws_only (aes_cipher_operation evp inp key iv encrypt)"
  by (auto simp: aes_cipher_operation_def throws_only_def Let_def split: if_splits prod.splits)

lemma throws_encode_length [throws_intros]: "throws_only (encode_bertlv_length n)"
  by (auto simp: encode_bertlv_length_def throws_only_def)

lemma throws_parse_length [throws_intros]: "throws_only (parse_bertlv_length data ofs)"
  by (auto simp: parse_bertlv_length_def throws_only_def Let_def split: if_splits)

lemma method_set_mac_chain [throws_intros]: "throws_only (fst (set_mac_chain v s))"
  by (simp add: set_mac_chain_def throws_only_def)

lemma method_incr [throws_intros]: "throws_only (fst (incr_block_number s))"
  by (simp add: incr_block_number_def throws_only_def)

lemma method_icv [throws_intros]: "throws_only (fst (generate_icv evp s))"
  unfolding generate_icv_def generate_icv_for_block_def by (intro throws_intros)

lemma method_decrypt_with_icv [throws_intros]: "throws_only (fst (aes_decrypt_with_icv evp ciphertext icv s))"
  unfolding aes_decrypt_with_icv_def by (intro throws_intros)

lemma method_decrypt [throws_intros]: "throws_only (fst (decrypt_and_verify evp segment decrypt s))"
  unfolding decrypt_and_verify_def verify_and_decrypt_helper_def Let_def by (intro throws_intros)

lemma method_decrypt_all [throws_intros]: "throws_only (fst (decrypt_all evp decrypt segs s))"
  by (induction segs arbitrary: s) (simp_all only: decrypt_all.simps, (intro throws_intros, assumption?)+)

text \<open>The parsed replacement keys have the lengths that the constructor asserts.\<close>

lemma parsed_keys: "parse_replace_session_keys d2i data = Inr rsk \<Longrightarrow> throws_only (from_replace_session_keys rsk)"
  by (auto simp: parse_replace_session_keys_def from_replace_session_keys_def BspCrypto_def asn1_octet_string_to_vector_def
      AES_KEY_SIZE_def AES_BLOCK_SIZE_def throws_only_def split: if_splits option.splits)

lemma throws_parse_keys [throws_intros]: "throws_only (parse_replace_session_keys d2i data)"
  by (auto simp: parse_replace_session_keys_def asn1_octet_string_to_vector_def throws_only_def split: if_splits option.splits)

lemma method_keys [throws_intros]:
  assumes "\<And>rsk b s'. throws_only (fst (f rsk b s'))"
  shows "throws_only (fst (bsp_bind (bsp_lift (parse_replace_session_keys d2i data))
    (\<lambda>rsk. bsp_bind (bsp_lift (from_replace_session_keys rsk)) (f rsk)) s))"
proof (cases "parse_replace_session_keys d2i data")
  case (Inl e)
  then show ?thesis using throws_parse_keys [of d2i data] by (simp add: bsp_bind_def bsp_lift_def throws_only_def)
next
  case (Inr rsk)
  have "throws_only (fst (bsp_bind (bsp_lift (from_replace_session_keys rsk)) (f rsk) s))"
    by (intro method_bind method_lift parsed_keys [OF Inr] assms)
  then show ?thesis by (simp add: Inr)
qed

lemma method_sequences:
  assumes "\<And>s. throws_only (fst (meta s))" "\<And>s. throws_only (fst (profile s))"
  shows "throws_only (fst (process_sequences evp d2i first87 meta second87 profile s))"
proof (cases second87)
  case None
  then show ?thesis by (simp only: process_sequences_def option.case) (intro throws_intros assms)
next
  case (Some seg)
  have "throws_only (fst (bsp_bind (decrypt_and_verify evp seg True) (\<lambda>rsk_data.
      bsp_bind (bsp_lift (parse_replace_session_keys d2i rsk_data)) (\<lambda>rsk.
      bsp_bind (bsp_lift (from_replace_session_keys rsk)) (\<lambda>ppk_bsp.
      bsp_bind (with_bsp ppk_bsp profile) (\<lambda>prof. bsp_return (g rsk prof))))) s'))" for g s'
    by (rule method_bind [OF method_decrypt], rule method_keys) (intro throws_intros assms)
  then show ?thesis
    using Some by (simp only: process_sequences_def option.case) (intro throws_intros assms)
qed

lemma method_process: "throws_only (fst (process_bound_profile_package evp d2i_bpp d2i_rsk package s))"
proof -
  have "throws_only (fst (bsp_bind (process_sequences evp d2i_rsk a (decrypt_all evp False b) c (decrypt_all evp True d))
      (\<lambda>r. bsp_return (Some r)) s))" for a b c d
    by (intro method_bind method_sequences throws_intros)
  then show ?thesis
    by (auto simp: process_bound_profile_package_def split: option.splits intro: throws_Inr)
qed

section \<open>The session keys\<close>

lemma x963_loop_length: "x963_loop evp secret info n c out = Inr r \<Longrightarrow> n \<le> length r"
proof (induction evp secret info n c out rule: x963_loop.induct)
  case (1 evp secret info n c out)
  show ?case
  proof (cases "length out < n")
    case True
    then show ?thesis using 1
      by (cases "evp_sha256 evp (secret @ be32_octets c @ info)") (auto simp: x963_loop.simps [of evp secret info n c out] Let_def)
  next
    case False
    then show ?thesis using 1(2) by (simp add: x963_loop.simps [of evp secret info n c out])
  qed
qed

lemma throws_x963: "throws_only (x963_loop evp secret info n c out)"
proof (induction evp secret info n c out rule: x963_loop.induct)
  case (1 evp secret info n c out)
  show ?case
    by (subst x963_loop.simps) (auto simp: Let_def throws_only_def split: option.splits dest: 1 [unfolded throws_only_def, rule_format])
qed

lemma throws_from_kdf: "throws_only (from_kdf evp secret t l host eid)"
proof -
  have "throws_only (BspCrypto (take 16 (drop 16 out)) (take 16 (drop 32 out)) (take 16 out))"
    if "x963_kdf_sha256 evp secret info 48 = Inr out" for info out
    using that by (auto simp: x963_kdf_sha256_def BspCrypto_def AES_KEY_SIZE_def AES_BLOCK_SIZE_def throws_only_def
      dest!: x963_loop_length)
  moreover have "throws_only (x963_kdf_sha256 evp secret info 48)" for info
    unfolding x963_kdf_sha256_def by (intro throws_intros throws_x963)
  ultimately show ?thesis
    by (auto simp: from_kdf_def Let_def throws_only_def bind_result_def split: sum.splits)
qed

lemma throws_eid_bytes: "throws_only (eid_bytes eid)"
proof (induction eid rule: eid_bytes.induct)
  case (3 a b cs)
  then show ?case by (auto intro: throws_intros split: option.split)
qed (auto intro: throws_intros split: option.split)

section \<open>The external function\<close>

text \<open>A package that the decoder refuses, or that lacks one of the three sequences that must be there.\<close>

definition malformed_package :: "BoundProfilePackage option \<Rightarrow> bool" where
  "malformed_package p = (case p of None \<Rightarrow> True
     | Some bpp \<Rightarrow> bpp_firstSequenceOf87 bpp = None \<or> bpp_sequenceOf88 bpp = None \<or> bpp_sequenceOf86 bpp = None)"

lemma process_malformed:
  "malformed_package (d2i_bpp package) \<Longrightarrow> process_bound_profile_package evp d2i_bpp d2i_rsk package s = (Inr None, s)"
  by (auto simp: malformed_package_def process_bound_profile_package_def split: option.splits)

lemma process_well_formed:
  assumes "\<not> malformed_package (d2i_bpp package)"
  shows "fst (process_bound_profile_package evp d2i_bpp d2i_rsk package s) \<noteq> Inr None"
  using assms by (auto simp: malformed_package_def process_bound_profile_package_def bsp_bind_def split: option.splits prod.splits sum.splits)


end
