(* ===== verification/RSP_Certificate_Props.thy ===== *)
theory RSP_Certificate_Props
  imports RSP_Certificates
begin

text \<open>
  What is proved of the certificate utilities: the conversions of signatures are inverse to each other,
  the loop over the permitted EINs reads well-formed sequences and may not end on others, EID ranges are
  prefixes, and a verified chain ends at the root certificate. The last section has an OpenSSL for the examples.
\<close>

unbundle bit_operations_syntax

section \<open>Strings and numbers\<close>

lemma find_at_start_iff: "find_at_start s t \<longleftrightarrow> (\<exists>r. s = t @ r)"
  by (induction s t rule: find_at_start.induct) auto

lemma bin2bn_snoc [simp]: "bin2bn (bs @ [b]) = 256 * bin2bn bs + unat b"
  by (simp add: bin2bn_def)

lemma bin2bn_Nil [simp]: "bin2bn [] = 0"
  by (simp add: bin2bn_def)

lemma bin2bn_less: "bin2bn bs < 256 ^ length bs"
proof (induction bs rule: rev_induct)
  case (snoc b bs)
  have "256 * bin2bn bs + unat b < 256 * bin2bn bs + 256" using unat_u8 [of b] by simp
  also have "\<dots> \<le> 256 * 256 ^ length bs" using snoc by (simp add: Suc_le_eq)
  finally show ?case by simp
qed simp

lemma bin2bn_bn2bin [simp]: "bin2bn (bn2bin n) = n"
proof (induction n rule: bn2bin.induct)
  case (1 n)
  then show ?case
    by (subst bn2bin.simps) (simp add: unat_of_nat take_bit_eq_mod)
qed

lemma bin2bn_zeros: "bin2bn (replicate k 0 @ bs) = bin2bn bs"
  by (induction bs rule: rev_induct) (simp_all add: replicate_append_same flip: append_assoc,
      induction k, simp_all add: replicate_append_same [symmetric])

lemma bin2bn_inject: "length as = length bs \<Longrightarrow> bin2bn as = bin2bn bs \<Longrightarrow> as = bs"
proof (induction as arbitrary: bs rule: rev_induct)
  case (snoc a as)
  then obtain bs' b where bs: "bs = bs' @ [b]" by (cases bs rule: rev_cases) simp_all
  from snoc.prems bs have eq: "256 * bin2bn as + unat a = 256 * bin2bn bs' + unat b" by simp
  then have "(256 * bin2bn as + unat a) div 256 = (256 * bin2bn bs' + unat b) div 256"
    "(256 * bin2bn as + unat a) mod 256 = (256 * bin2bn bs' + unat b) mod 256" by simp_all
  with unat_u8 [of a] unat_u8 [of b] have "bin2bn as = bin2bn bs'" "unat a = unat b" by simp_all
  with snoc bs show ?case by (simp add: word_unat_eq_iff)
qed simp

lemma bn2bin_length_le: "n < 256 ^ k \<Longrightarrow> length (bn2bin n) \<le> k"
proof (induction k arbitrary: n)
  case 0
  then show ?case by (simp add: bn2bin.simps)
next
  case (Suc k)
  show ?case
  proof (cases "n = 0")
    case False
    from Suc.prems have "n div 256 < 256 ^ k" by (simp add: less_mult_imp_div_less mult.commute)
    with Suc.IH False show ?thesis by (subst bn2bin.simps) simp
  qed (simp add: bn2bin.simps)
qed

lemma bn_num_bytes_le: "bn_num_bytes n \<le> k \<longleftrightarrow> n < 256 ^ k"
proof
  assume "bn_num_bytes n \<le> k"
  have "n < 256 ^ bn_num_bytes n" using bin2bn_less [of "bn2bin n"] by (simp add: bn_num_bytes_def)
  also have "\<dots> \<le> 256 ^ k" using \<open>bn_num_bytes n \<le> k\<close> by (simp add: power_increasing)
  finally show "n < 256 ^ k" .
qed (simp add: bn_num_bytes_def bn2bin_length_le)

text \<open>A number in 32 octets, with zeros in front.\<close>

definition be256 :: "nat \<Rightarrow> octets" where
  "be256 n = replicate (32 - length (bn2bin n)) 0 @ bn2bin n"

lemma length_be256: "n < 256 ^ 32 \<Longrightarrow> length (be256 n) = 32"
  using bn2bin_length_le [of n 32] by (simp add: be256_def)

lemma bin2bn_be256: "bin2bn (be256 n) = n"
  by (simp add: be256_def bin2bn_zeros)

lemma be256_bin2bn: "length bs = 32 \<Longrightarrow> be256 (bin2bn bs) = bs"
  using bin2bn_less [of bs] by (intro bin2bn_inject) (simp_all add: length_be256 bin2bn_be256)

lemma convertDER_write: "r < 256 ^ 32 \<Longrightarrow> s < 256 ^ 32 \<Longrightarrow>
    write_at (64 - bn_num_bytes s) (bn2bin s) (write_at (32 - bn_num_bytes r) (bn2bin r) (replicate 64 0)) = be256 r @ be256 s"
  using bn2bin_length_le [of r 32] bn2bin_length_le [of s 32]
  by (auto simp: write_at_def be256_def bn_num_bytes_def drop_replicate)

section \<open>Signatures\<close>

text \<open>What the conversions of OpenSSL promise, and a key whose signatures its public key accepts.\<close>

definition der_ok :: "('c, 'p, 'k) openssl \<Rightarrow> bool" where
  "der_ok ssl \<longleftrightarrow> (\<forall>r s. r < 256 ^ 32 \<longrightarrow> s < 256 ^ 32 \<longrightarrow> i2d_ecdsa ssl (r, s) \<noteq> [] \<and> d2i_ecdsa ssl (i2d_ecdsa ssl (r, s)) = Some (r, s))"

lemma DER_to_BSI: "der_ok ssl \<Longrightarrow> r < 256 ^ 32 \<Longrightarrow> s < 256 ^ 32 \<Longrightarrow>
    convertDER_to_BSI_TR03111 ssl (i2d_ecdsa ssl (r, s)) = be256 r @ be256 s"
  using bn_num_bytes_le [of r 32] bn_num_bytes_le [of s 32] convertDER_write [of r s]
  by (simp add: convertDER_to_BSI_TR03111_def der_ok_def)

lemma BSI_to_DER: "r < 256 ^ 32 \<Longrightarrow> s < 256 ^ 32 \<Longrightarrow>
    convertBSI_TR03111_to_DER ssl (be256 r @ be256 s) = i2d_ecdsa ssl (r, s)"
  by (simp add: convertBSI_TR03111_to_DER_def length_be256 bin2bn_be256)

lemma BSI_split: "length x = 64 \<Longrightarrow> x = be256 (bin2bn (take 32 x)) @ be256 (bin2bn (take 32 (drop 32 x)))"
proof -
  assume l: "length x = 64"
  have "x = take 32 x @ take 32 (drop 32 x)" using l by simp
  then show ?thesis using l by (simp add: be256_bin2bn)
qed

lemma BSI_DER_BSI:
  assumes "der_ok ssl" and "length x = 64"
  shows "convertDER_to_BSI_TR03111 ssl (convertBSI_TR03111_to_DER ssl x) = x"
proof -
  let ?r = "bin2bn (take 32 x)" and ?s = "bin2bn (take 32 (drop 32 x))"
  have "?r < 256 ^ 32" "?s < 256 ^ 32"
    using bin2bn_less [of "take 32 x"] bin2bn_less [of "take 32 (drop 32 x)"] assms(2) by simp_all
  from DER_to_BSI [OF assms(1) this] show ?thesis
    using assms(2) BSI_split [OF assms(2)] by (simp add: convertBSI_TR03111_to_DER_def)
qed

text \<open>
  A key of a curve of 256 bits: what it signs is the DER form of two numbers below \<open>2 ^ 256\<close> that the
  public key accepts for the message.
\<close>

definition key_ok :: "('c, 'p, 'k) openssl \<Rightarrow> 'k \<Rightarrow> 'p \<Rightarrow> bool" where
  "key_ok ssl k pub \<longleftrightarrow> (\<forall>m. \<exists>r s. r < 256 ^ 32 \<and> s < 256 ^ 32 \<and> digest_sign ssl k m = Inr (i2d_ecdsa ssl (r, s)) \<and>
     digest_verify ssl pub m (i2d_ecdsa ssl (r, s)))"

lemma sign_verify:
  assumes "der_ok ssl" and "key_ok ssl k pub" and "m \<noteq> []"
  obtains sig where "map_result (convertDER_to_BSI_TR03111 ssl) (signDataWithKey ssl m k) = Inr sig" "length sig = 64" "verify_TR031111 ssl m sig pub"
proof -
  from assms(2) obtain r s where rs: "r < 256 ^ 32" "s < 256 ^ 32" "digest_sign ssl k m = Inr (i2d_ecdsa ssl (r, s))"
    "digest_verify ssl pub m (i2d_ecdsa ssl (r, s))" unfolding key_ok_def by blast
  have ne: "i2d_ecdsa ssl (r, s) \<noteq> []" using assms(1) rs(1,2) by (simp add: der_ok_def)
  show thesis
  proof (rule that)
    show "map_result (convertDER_to_BSI_TR03111 ssl) (signDataWithKey ssl m k) = Inr (be256 r @ be256 s)"
      unfolding signDataWithKey_def rs(3)
      using ne assms(3) DER_to_BSI [OF assms(1) rs(1,2)] by simp
    show "length (be256 r @ be256 s) = 64" using rs(1,2) by (simp only: length_append length_be256)
    show "verify_TR031111 ssl m (be256 r @ be256 s) pub"
      unfolding verify_TR031111_def Let_def BSI_to_DER [OF rs(1,2)] using ne rs(4) by simp
  qed
qed

lemma strip_prefixed: "strip_5f3740 ([0x5f, 0x37, 0x40] @ sig) = sig"
  by (simp add: strip_5f3740_def)

lemma strip_plain: "take 3 sig \<noteq> [0x5f, 0x37, 0x40] \<Longrightarrow> strip_5f3740 sig = sig"
proof -
  assume ne: "take 3 sig \<noteq> [0x5f, 0x37, 0x40]"
  have "take 3 sig = [sig ! 0, sig ! 1, sig ! 2]" if "3 \<le> length sig"
    using that by (cases sig; cases "tl sig"; cases "tl (tl sig)") auto
  with ne show ?thesis by (auto simp: strip_5f3740_def)
qed

section \<open>Chains\<close>

lemma add_self_signed_subset:
  "add_self_signed ssl store pool = Inr store' \<Longrightarrow> set store' \<subseteq> set store \<union> {c \<in> set pool. self_issued ssl c}"
  by (induction ssl store pool rule: add_self_signed.induct) (auto split: if_splits store_add.splits)

lemma untrusted_chain_subset: "set (untrusted_chain ssl cert rootCA pool) \<subseteq> set pool"
  by (induction ssl cert rootCA pool rule: untrusted_chain.induct) auto

text \<open>
  A path from the certificate to a trusted one, each certificate of which is signed by the next, with all but the ends
  from the untrusted and trusted certificates.
\<close>

definition chain_path :: "('c \<Rightarrow> 'c \<Rightarrow> bool) \<Rightarrow> 'c list \<Rightarrow> 'c list \<Rightarrow> 'c \<Rightarrow> 'c list \<Rightarrow> bool" where
  "chain_path signed_by trusted untrusted cert path \<longleftrightarrow> path \<noteq> [] \<and> hd path = cert \<and> path ! (length path - 1) \<in> set trusted \<and>
     set (tl path) \<subseteq> set trusted \<union> set untrusted \<and> (\<forall>i < length path - 1. signed_by (path ! i) (path ! Suc i))"

text \<open>
  What OpenSSL documents of the verification: it passes what is wrong with a chain to the callback, one error after the
  other, and goes on only if the callback answers 1. So when it succeeds although there is no such path, it has told the callback an
  error of building the chain or of a signature (no issuer found, an untrusted certificate at the end, a signature that
  fails), which is none of the errors of name constraints, and the callback forgave it. A callback that
  forgives everything makes it accept any certificate.
\<close>

definition verify_reports :: "('c, 'p, 'k) openssl \<Rightarrow> ('c \<Rightarrow> 'c \<Rightarrow> bool) \<Rightarrow> bool" where
  "verify_reports ssl signed_by \<longleftrightarrow> (\<forall>cb trusted untrusted cert. verify_cert ssl cb trusted untrusted cert \<longrightarrow>
     (\<exists>path. chain_path signed_by trusted untrusted cert path) \<or> (\<exists>n. cb False (OtherError n)))"

lemma verify_cb_forgives: "verify_cb False e \<longleftrightarrow> e = PermittedViolation \<or> e = ExcludedViolation \<or> e = SubtreeMinmax"
  by (auto simp: verify_cb_def)

lemma verified_path:
  assumes "verify_reports ssl signed_by" and "verify_cert ssl verify_cb trusted untrusted cert"
  obtains path where "chain_path signed_by trusted untrusted cert path"
  using assms unfolding verify_reports_def by (force simp: verify_cb_forgives)

lemma verifyChain_with_root:
  assumes "verify_reports ssl signed_by" and "verifyCertificateChainDynamic ssl cert pool (Some r) = Inr True"
  shows "\<exists>path. path \<noteq> [] \<and> hd path = cert \<and> path ! (length path - 1) = r \<and> set (tl path) \<subseteq> {r} \<union> set pool \<and>
    (\<forall>i < length path - 1. signed_by (path ! i) (path ! Suc i))"
proof -
  from assms(2) have "verify_cert ssl verify_cb [r] (untrusted_chain ssl cert (Some r) pool) cert"
    by (auto simp: verifyCertificateChainDynamic_def trusted_store_def split: if_splits)
  with assms(1) obtain path where "chain_path signed_by [r] (untrusted_chain ssl cert (Some r) pool) cert path"
    by (rule verified_path)
  then show ?thesis using untrusted_chain_subset [of ssl cert "Some r" pool]
    unfolding chain_path_def by (intro exI [of _ path]) auto
qed

lemma verifyChain_without_root:
  assumes "verify_reports ssl signed_by" and "verifyCertificateChainDynamic ssl cert pool None = Inr True"
  shows "\<exists>path. path \<noteq> [] \<and> hd path = cert \<and> self_issued ssl (path ! (length path - 1)) \<and> path ! (length path - 1) \<in> set pool"
proof -
  from assms(2) obtain store where st: "add_self_signed ssl [] pool = Inr store"
    and "verify_cert ssl verify_cb store (untrusted_chain ssl cert None pool) cert"
    by (auto simp: verifyCertificateChainDynamic_def trusted_store_def)
  from verified_path [OF assms(1) this(2)] obtain path where "chain_path signed_by store (untrusted_chain ssl cert None pool) cert path"
    by blast
  then show ?thesis using add_self_signed_subset [OF st] unfolding chain_path_def by (intro exI [of _ path]) auto
qed

section \<open>The loop over the permitted EINs\<close>

text \<open>An element of the sequence: header octets, content, tag; and that the header is read as such wherever it stands.\<close>

type_synonym element = "octets \<times> octets \<times> int"

definition elem_octets :: "element \<Rightarrow> octets" where
  "elem_octets e = (case e of (hs, content, tag) \<Rightarrow> hs @ content)"

definition reads_as :: "(octets \<Rightarrow> int \<Rightarrow> nat \<times> int \<Rightarrow> (nat \<times> nat \<times> int) option) \<Rightarrow> element \<Rightarrow> bool" where
  "reads_as get e = (case e of (hs, content, tag) \<Rightarrow> hs \<noteq> [] \<and> (\<forall>rest remaining old.
     int (length (hs @ content)) \<le> remaining \<longrightarrow> get (hs @ content @ rest) remaining old = Some (length hs, length content, tag)))"

definition printable :: "element list \<Rightarrow> string list" where
  "printable es = [map char_of_octet content. (hs, content, tag) \<leftarrow> es, tag = V_ASN1_PRINTABLESTRING]"

lemma printable_simps [simp]: "printable [] = []"
  "printable ((hs, content, tag) # es) =
     (if tag = V_ASN1_PRINTABLESTRING then map char_of_octet content # printable es else printable es)"
  by (simp_all add: printable_def)

definition last_len :: "element list \<Rightarrow> nat \<Rightarrow> nat" where
  "last_len es xlen = (if es = [] then xlen else length (fst (snd (last es))))"

definition last_tag :: "element list \<Rightarrow> int \<Rightarrow> int" where
  "last_tag es tag = (if es = [] then tag else snd (snd (last es)))"

lemma ein_loop_elements:
  assumes "list_all (reads_as get) es" and "0 \<le> k"
  shows "ein_loop get (pre @ concat (map elem_octets es) @ post) (length pre) (int (length (concat (map elem_octets es))) + k) xlen tag iins =
    ein_loop get (pre @ concat (map elem_octets es) @ post) (length pre + length (concat (map elem_octets es))) k
      (last_len es xlen) (last_tag es tag) (iins @ printable es)"
  using assms
proof (induction es arbitrary: pre xlen tag iins)
  case Nil
  then show ?case by (simp add: last_len_def last_tag_def)
next
  case (Cons e es)
  obtain hs content t where e: "e = (hs, content, t)" by (cases e)
  let ?rest = "concat (map elem_octets es)"
  have ne: "hs \<noteq> []" using Cons.prems by (simp add: e reads_as_def)
  let ?rem = "int (length hs) + (int (length content) + (int (length ?rest) + k))"
  have get: "get (hs @ content @ ?rest @ post) ?rem (xlen, tag) = Some (length hs, length content, t)"
    using Cons.prems by (simp add: e reads_as_def)
  have IH: "ein_loop get (pre @ hs @ content @ ?rest @ post) (length pre + length hs + length content) (int (length ?rest) + k) (length content) t z =
      ein_loop get (pre @ hs @ content @ ?rest @ post) (length pre + (length hs + (length content + length ?rest))) k
        (last_len (e # es) xlen) (last_tag (e # es) tag) (z @ printable es)" for z
    using Cons.IH [of "pre @ hs @ content" "length content" t z] Cons.prems
    by (simp add: add.assoc last_len_def last_tag_def e)
  have "0 < length hs" using ne by simp
  then have pos: "0 < ?rem" using Cons.prems(2) by linarith
  show ?case
    using get IH pos
    by (subst ein_loop.simps, cases "t = V_ASN1_PRINTABLESTRING") (simp_all add: e elem_octets_def ac_simps)
qed

lemma ein_loop_done: "remaining \<le> 0 \<Longrightarrow> ein_loop get data p remaining xlen tag iins = Some (Inr iins)"
  by (subst ein_loop.simps) simp

lemma reads_as_get: "reads_as get (hs, content, tag) \<Longrightarrow>
    get (hs @ content) (int (length (hs @ content))) old = Some (length hs, length content, tag)"
proof -
  assume "reads_as get (hs, content, tag)"
  then have "get (hs @ content @ []) (int (length (hs @ content))) old = Some (length hs, length content, tag)"
    unfolding reads_as_def prod.case by blast
  then show ?thesis by simp
qed

text \<open>
  Where the header at the position cannot be read and the length left from before is 0, nothing moves: the
  loop does not end.
\<close>

lemma ein_loop_stuck:
  assumes "0 < remaining" and "p \<le> length data" and stuck: "get (drop p data) remaining (0, tag) = Some (0, 0, tag)"
  shows "ein_loop get data p remaining 0 tag iins = None"
proof (rule ccontr)
  assume "ein_loop get data p remaining 0 tag iins \<noteq> None"
  then obtain r where r: "ein_loop get data p remaining 0 tag iins = Some r" by blast
  have "\<not> (g = get \<and> d = data \<and> q = p \<and> rm = remaining \<and> x = 0 \<and> t = tag)"
    if "ein_loop g d q rm x t i = Some r" for g d q rm x t i
  proof (rule ein_loop.raw_induct [where P = "\<lambda>g d q rm x t i r. \<not> (g = get \<and> d = data \<and> q = p \<and> rm = remaining \<and> x = 0 \<and> t = tag)", OF _ that])
    fix f g d q rm x t i r
    assume IH: "\<And>g d q rm x t i r. f g d q rm x t i = Some r \<Longrightarrow> \<not> (g = get \<and> d = data \<and> q = p \<and> rm = remaining \<and> x = 0 \<and> t = tag)"
      and eq: "(if rm > 0 then
        (case g (drop q d) rm (x, t) of
           None \<Rightarrow> Some (Inl OutOfBounds)
         | Some (h, xlen, tag) \<Rightarrow>
             if tag = V_ASN1_PRINTABLESTRING then
               (if q + h + xlen \<le> length d then
                  f g d (q + h + xlen) (rm - int (h + xlen)) xlen tag
                    (i @ [map char_of_octet (take xlen (drop (q + h) d))])
                else Some (Inl OutOfBounds))
             else f g d (q + h + xlen) (rm - int (h + xlen)) xlen tag i)
      else Some (Inr i)) = Some r"
    show "\<not> (g = get \<and> d = data \<and> q = p \<and> rm = remaining \<and> x = 0 \<and> t = tag)"
      using eq IH [of get data p remaining 0 tag] stuck assms(1,2) by (auto split: if_splits)
  qed
  from this [OF r] show False by simp
qed

section \<open>An OpenSSL\<close>

lemma unat_small: "n < 256 \<Longrightarrow> unat (word_of_nat n :: u8) = n"
  by (simp add: unat_of_nat take_bit_nat_eq_self)

text \<open>
  An OpenSSL for the examples: a certificate is a triple of its policies, its extension of permitted
  EINs and its name, the first octet of its DER form; headers are read with lengths below 128 only; the
  signature of a message under a key is the pair of both as numbers.
\<close>

definition short_get_object :: "octets \<Rightarrow> int \<Rightarrow> nat \<times> int \<Rightarrow> (nat \<times> nat \<times> int) option" where
  "short_get_object xs remaining old =
     (case xs of [] \<Rightarrow> None
      | [t] \<Rightarrow> if remaining \<le> 1 then Some (0, old) else None
      | t # l # _ \<Rightarrow> if remaining \<le> 1 \<or> l \<ge> 128 then Some (0, old) else Some (2, unat l, uint (t AND 0x1f)))"


definition example_der :: "nat \<times> nat \<Rightarrow> octets" where
  "example_der = (\<lambda>(r, s). word_of_nat (length (bn2bin r)) # bn2bin r @ bn2bin s)"

definition example_sig :: "octets \<Rightarrow> octets \<Rightarrow> octets" where
  "example_sig k m = example_der (bin2bn m mod 256 ^ 32, bin2bn k mod 256 ^ 32)"

definition example_ssl :: "(string list option \<times> octets option \<times> octets, octets, octets) openssl" where
  "example_ssl = \<lparr> parse_cert = (\<lambda>der. if der = [] then None else Some (None, Some (tl der), [hd der])),
     cert_der = (\<lambda>(ps, e, n). n @ (case e of None \<Rightarrow> [] | Some x \<Rightarrow> x)), serial_number = (\<lambda>c. None), ski_extension = (\<lambda>c. []),
     policies = fst, constraint_serials = (\<lambda>c. []), permitted_ext = (\<lambda>c. fst (snd c)), get_object = short_get_object,
     self_issued = (\<lambda>c. snd (snd c) = [1]), same_cert = (=), store_add_cert = (\<lambda>st c. if c \<in> set st then StoreDuplicate else StoreAdded),
     verify_cert = (\<lambda>cb trusted untrusted c. c \<in> set trusted \<or> cb False (OtherError 20)), pubkey = (\<lambda>c. Some (snd (snd c))), is_ec_key = (\<lambda>k. True),
     group_name = (\<lambda>k. Some ''prime256v1''), i2d_ecdsa = example_der,
     d2i_ecdsa = (\<lambda>der. case der of [] \<Rightarrow> None | n # x \<Rightarrow> Some (bin2bn (take (unat n) x), bin2bn (drop (unat n) x))),
     digest_verify = (\<lambda>k m sig. sig = example_sig k m), digest_sign = (\<lambda>k m. Inr (example_sig k m)),
     public_of = (\<lambda>k. k), sha256 = (\<lambda>m. m) \<rparr>"

lemma example_der_ok: "der_ok example_ssl"
  unfolding der_ok_def
proof (intro allI impI)
  fix r s :: nat assume "r < 256 ^ 32" "s < 256 ^ 32"
  then have "length (bn2bin r) \<le> 32" by (simp add: bn2bin_length_le)
  then have "unat (word_of_nat (length (bn2bin r)) :: u8) = length (bn2bin r)" by (simp add: unat_small)
  then show "i2d_ecdsa example_ssl (r, s) \<noteq> [] \<and> d2i_ecdsa example_ssl (i2d_ecdsa example_ssl (r, s)) = Some (r, s)"
    by (simp add: example_ssl_def example_der_def)
qed

lemma example_key_ok: "key_ok example_ssl k k"
  unfolding key_ok_def
proof
  fix m
  show "\<exists>r s. r < 256 ^ 32 \<and> s < 256 ^ 32 \<and> digest_sign example_ssl k m = Inr (i2d_ecdsa example_ssl (r, s)) \<and>
      digest_verify example_ssl k m (i2d_ecdsa example_ssl (r, s))"
    by (rule exI [of _ "bin2bn m mod 256 ^ 32"], rule exI [of _ "bin2bn k mod 256 ^ 32"])
      (simp add: example_ssl_def example_sig_def)
qed

lemma example_verify_reports: "verify_reports example_ssl signed_by"
  unfolding verify_reports_def
proof (intro allI impI)
  fix cb trusted untrusted cert assume "verify_cert example_ssl cb trusted untrusted cert"
  then consider "cert \<in> set trusted" | "cb False (OtherError 20)" by (auto simp: example_ssl_def)
  then show "(\<exists>path. chain_path signed_by trusted untrusted cert path) \<or> (\<exists>n. cb False (OtherError n))"
  proof cases
    case 1
    then have "chain_path signed_by trusted untrusted cert [cert]" by (simp add: chain_path_def)
    then show ?thesis by blast
  qed blast
qed

lemma example_reads_as: "length content < 128 \<Longrightarrow> t AND 0x1f = u \<Longrightarrow> tag = uint u \<Longrightarrow>
    reads_as short_get_object ([t, word_of_nat (length content)], content, tag)"
  by (auto simp: reads_as_def short_get_object_def unat_small word_le_nat_alt split: list.splits)

section \<open>Properties\<close>

text \<open>
  C26. Converting a signature of BSI TR-03111 to DER and back gives the same 64 octets, leading zeros
  included, and every DER signature with numbers below \<open>2 ^ 256\<close> survives the other way round.
\<close>

theorem BSI_DER_roundtrip:
  assumes "der_ok ssl" and "length x = 64" and "r < 256 ^ 32" and "s < 256 ^ 32"
  shows "convertDER_to_BSI_TR03111 ssl (convertBSI_TR03111_to_DER ssl x) = x \<and>
    convertBSI_TR03111_to_DER ssl (convertDER_to_BSI_TR03111 ssl (i2d_ecdsa ssl (r, s))) = i2d_ecdsa ssl (r, s)"
  using BSI_DER_BSI [OF assms(1,2)] DER_to_BSI [OF assms(1,3,4)] BSI_to_DER [OF assms(3,4)] by simp

theorem BSI_DER_roundtrip_witness:
  "convertDER_to_BSI_TR03111 example_ssl (convertBSI_TR03111_to_DER example_ssl (replicate 64 0)) = replicate 64 0"
  using BSI_DER_roundtrip [OF example_der_ok, of "replicate 64 0" 1 1] by simp

text \<open>
  C21. For an EUM certificate of the new form, whose extension is a sequence of elements, the check of
  the EID range ends and accepts an EID exactly if one of the printable strings of the sequence is a
  prefix of the EID in capital letters.
\<close>

theorem validateEIDRange_prefix:
  assumes "parse_cert ssl der = Some c" and "\<not> is_old_variant ssl c"
    and "permitted_ext ssl c = Some (hs @ concat (map elem_octets es))"
    and "reads_as (get_object ssl) (hs, concat (map elem_octets es), V_ASN1_SEQUENCE)"
    and "list_all (reads_as (get_object ssl)) es"
  shows "validateEIDRange ssl eid der = Some (Inr (\<exists>ein \<in> set (printable es). \<exists>r. map toupper eid = ein @ r))"
proof -
  let ?body = "concat (map elem_octets es)"
  note get = reads_as_get [OF assms(4), of "(0, 0)"]
  have "ein_loop (get_object ssl) (hs @ ?body) (length hs) (int (length ?body)) (length ?body) V_ASN1_SEQUENCE [] =
      Some (Inr (printable es))"
    using ein_loop_elements [OF assms(5), of 0 hs "[]" "length ?body" V_ASN1_SEQUENCE "[]"] by (simp add: ein_loop_done)
  with get have "parse_permitted_eins_from_cert ssl c = Some (Inr (printable es))"
    using assms(2,3) by (simp add: parse_permitted_eins_from_cert_def parse_permitted_ext_def)
  then show ?thesis
    using assms(1) by (auto simp: validateEIDRange_def loadCertFromDER_def Let_def find_at_start_iff list_ex_iff)
qed

theorem validateEIDRange_prefix_witness:
  "validateEIDRange example_ssl ''89ab'' [7, 0x30, 0x04, 0x13, 0x02, 0x38, 0x39] = Some (Inr True)"
proof -
  let ?e = "([0x13, 0x02], [0x38, 0x39], V_ASN1_PRINTABLESTRING) :: element"
  have body: "concat (map elem_octets [?e]) = [0x13, 0x02, 0x38, 0x39]" by (simp add: elem_octets_def)
  have e: "reads_as short_get_object ?e"
    using example_reads_as [of "[0x38, 0x39]" "0x13" "0x13" V_ASN1_PRINTABLESTRING] by (simp add: V_ASN1_PRINTABLESTRING_def)
  have s: "reads_as short_get_object ([0x30, 0x04], [0x13, 0x02, 0x38, 0x39], V_ASN1_SEQUENCE)"
    using example_reads_as [of "[0x13, 0x02, 0x38, 0x39]" "0x30" "0x10" V_ASN1_SEQUENCE] by (simp add: V_ASN1_SEQUENCE_def)
  have "printable [?e] = [''89'']" by code_simp
  moreover have "map toupper ''89ab'' = ''89AB''" by code_simp
  ultimately have "\<exists>ein \<in> set (printable [?e]). \<exists>r. map toupper ''89ab'' = ein @ r" by simp
  moreover have "validateEIDRange example_ssl ''89ab'' [7, 0x30, 0x04, 0x13, 0x02, 0x38, 0x39] =
      Some (Inr (\<exists>ein \<in> set (printable [?e]). \<exists>r. map toupper ''89ab'' = ein @ r))"
  proof (rule validateEIDRange_prefix)
    show "parse_cert example_ssl [7, 0x30, 0x04, 0x13, 0x02, 0x38, 0x39] = Some (None, Some [0x30, 0x04, 0x13, 0x02, 0x38, 0x39], [7])"
      "\<not> is_old_variant example_ssl (None, Some [0x30, 0x04, 0x13, 0x02, 0x38, 0x39], [7])"
      "permitted_ext example_ssl (None, Some [0x30, 0x04, 0x13, 0x02, 0x38, 0x39], [7]) = Some ([0x30, 0x04] @ concat (map elem_octets [?e]))"
      unfolding body by (simp_all add: example_ssl_def is_old_variant_def)
    show "reads_as (get_object example_ssl) ([0x30, 0x04], concat (map elem_octets [?e]), V_ASN1_SEQUENCE)"
      unfolding body using s by (simp add: example_ssl_def)
    show "list_all (reads_as (get_object example_ssl)) [?e]" using e by (simp add: example_ssl_def)
  qed
  ultimately show ?thesis by simp
qed

text \<open>
  C34. The loop over the permitted EINs need not end: after an element of length 0, a last octet that is no
  header leaves position, length and remaining octets as they are, so that the check of the EID range
  never returns.
\<close>

theorem validateEIDRange_never_ends:
  assumes "parse_cert ssl der = Some c" and "\<not> is_old_variant ssl c"
    and "permitted_ext ssl c = Some (hs @ concat (map elem_octets es) @ [b])"
    and "reads_as (get_object ssl) (hs, concat (map elem_octets es) @ [b], V_ASN1_SEQUENCE)"
    and "list_all (reads_as (get_object ssl)) es" and "es \<noteq> []" and "fst (snd (last es)) = []"
    and "\<And>old. get_object ssl [b] 1 old = Some (0, old)"
  shows "validateEIDRange ssl eid der = None"
proof -
  let ?body = "concat (map elem_octets es)"
  let ?data = "hs @ ?body @ [b]"
  note get = reads_as_get [OF assms(4), of "(0, 0)"]
  have "ein_loop (get_object ssl) ?data (length hs) (int (length ?body) + 1) x t [] =
      ein_loop (get_object ssl) ?data (length hs + length ?body) 1 0 (last_tag es t) (printable es)" for x t
    using ein_loop_elements [OF assms(5), of 1 hs "[b]" x t "[]"] assms(6,7) by (simp add: last_len_def)
  moreover have "ein_loop (get_object ssl) ?data (length hs + length ?body) 1 0 (last_tag es t) (printable es) = None" for t
    by (rule ein_loop_stuck) (simp_all add: assms(8))
  ultimately have "parse_permitted_eins_from_cert ssl c = None"
    using get assms(2,3) by (simp add: parse_permitted_eins_from_cert_def parse_permitted_ext_def add.commute)
  then show ?thesis using assms(1) by (simp add: validateEIDRange_def loadCertFromDER_def)
qed

theorem validateEIDRange_never_ends_witness:
  "validateEIDRange example_ssl ''89'' [7, 0x30, 0x03, 0x13, 0x00, 0x13] = None"
proof -
  let ?e = "([0x13, 0x00], [], 19) :: element"
  have body: "concat (map elem_octets [?e]) = [0x13, 0x00]" by (simp add: elem_octets_def)
  have e: "reads_as short_get_object ?e"
  proof -
    have "reads_as short_get_object ([0x13, word_of_nat (length ([] :: octets))], [], 19)"
      by (rule example_reads_as [where u = "0x13"]) simp_all
    then show ?thesis by simp
  qed
  have s: "reads_as short_get_object ([0x30, 0x03], [0x13, 0x00, 0x13], V_ASN1_SEQUENCE)"
    using example_reads_as [of "[0x13, 0x00, 0x13]" "0x30" "0x10" V_ASN1_SEQUENCE] by (simp add: V_ASN1_SEQUENCE_def)
  let ?c = "(None, Some [0x30, 0x03, 0x13, 0x00, 0x13], [7]) :: string list option \<times> octets option \<times> octets"
  have c: "parse_cert example_ssl [7, 0x30, 0x03, 0x13, 0x00, 0x13] = Some ?c" "\<not> is_old_variant example_ssl ?c"
    and get: "get_object example_ssl = short_get_object"
    by (simp_all add: example_ssl_def is_old_variant_def)
  have ext: "permitted_ext example_ssl ?c = Some ([0x30, 0x03] @ concat (map elem_octets [?e]) @ [0x13])"
    unfolding body by (simp add: example_ssl_def)
  have s': "reads_as (get_object example_ssl) ([0x30, 0x03], concat (map elem_octets [?e]) @ [0x13], V_ASN1_SEQUENCE)"
    unfolding body get using s by simp
  show ?thesis
  proof (rule validateEIDRange_never_ends [OF c ext s'])
    show "list_all (reads_as (get_object example_ssl)) [?e]" unfolding get using e by simp
    show "get_object example_ssl [0x13] 1 old = Some (0, old)" for old unfolding get by (simp add: short_get_object_def)
  qed simp_all
qed

text \<open>
  C31. With a root certificate given, an accepted certificate has a path of signatures to that very
  root over certificates of the pool: no other certificate of the pool is trusted, self-signed or not, and the callback,
  which lets OpenSSL go on after some errors, forgives none that stands for a missing or broken path.
\<close>

theorem verifyCertificateChainDynamic_anchored:
  assumes "verify_reports ssl signed_by" and "verifyCertificateChainDynamic ssl cert pool (Some r) = Inr True"
  shows "\<exists>path. path \<noteq> [] \<and> hd path = cert \<and> path ! (length path - 1) = r \<and> set (tl path) \<subseteq> {r} \<union> set pool \<and>
    (\<forall>i < length path - 1. signed_by (path ! i) (path ! Suc i))"
  by (rule verifyChain_with_root [OF assms])

theorem verifyCertificateChainDynamic_anchored_witness:
  "\<exists>path. path \<noteq> [] \<and> hd path = ((None, None, [5]) :: string list option \<times> octets option \<times> octets) \<and> path ! (length path - 1) = (None, None, [5]) \<and>
    set (tl path) \<subseteq> {(None, None, [5])} \<union> {(None, None, [1])}"
proof -
  have "verifyCertificateChainDynamic example_ssl (None, None, [5]) [(None, None, [1])] (Some (None, None, [5])) = Inr True"
    by (simp add: verifyCertificateChainDynamic_def trusted_store_def example_ssl_def)
  from verifyCertificateChainDynamic_anchored [OF example_verify_reports [of "\<lambda>c d. True"] this] show ?thesis by auto
qed

end
