(* ===== verification/SMDPP_Props.thy ===== *)
theory SMDPP_Props
  imports RSP_Certificate_Props SMDPP_Functions
begin

text \<open>
  What is proved of the provisioning client and its registry: handles are never reused and a destroyed one
  stays dead, whatever is called; the confirmation code's hash does not depend on the order in which
  code and transaction come; the certificate of the CI has the curve of the eUICC; what the client
  signs it verifies; a package protected with the keys derived from the common secret is processed
  to its parts.
\<close>

unbundle bit_operations_syntax

section \<open>Handles\<close>

text \<open>
  The contract of a table of handles: only handles that have been issued are live, an issued handle
  stays issued, and a dead one is not issued again.
\<close>

locale handle_table =
  fixes live :: "'s \<Rightarrow> int \<Rightarrow> bool" and issued :: "'s \<Rightarrow> int \<Rightarrow> bool" and step :: "'s \<Rightarrow> 's \<Rightarrow> bool" and start :: 's
  assumes start_dead: "\<not> live start h"
    and step_live: "\<forall>h. live s h \<longrightarrow> issued s h \<Longrightarrow> step s s' \<Longrightarrow> live s' h \<Longrightarrow> issued s' h"
    and step_issued: "step s s' \<Longrightarrow> issued s h \<Longrightarrow> issued s' h"
    and step_dead: "step s s' \<Longrightarrow> issued s h \<Longrightarrow> \<not> live s h \<Longrightarrow> \<not> live s' h"
begin

lemma live_issued: "step\<^sup>*\<^sup>* start s \<Longrightarrow> live s h \<Longrightarrow> issued s h"
proof (induction arbitrary: h rule: rtranclp_induct)
  case base
  then show ?case by (simp add: start_dead)
next
  case (step s s')
  show ?case by (rule step_live [OF _ step.hyps(2) step.prems]) (use step.IH in blast)
qed

lemma issued_forever: "step\<^sup>*\<^sup>* s s' \<Longrightarrow> issued s h \<Longrightarrow> issued s' h"
  by (induction rule: rtranclp_induct) (auto intro: step_issued)

lemma dead_forever: "step\<^sup>*\<^sup>* s s' \<Longrightarrow> issued s h \<Longrightarrow> \<not> live s h \<Longrightarrow> \<not> live s' h"
proof (induction rule: rtranclp_induct)
  case (step t t')
  from issued_forever [OF step.hyps(1) step.prems(1)] step show ?case by (auto dest: step_dead)
qed simp

text \<open>A handle that was live at some time and is not now never comes back.\<close>

lemma destroyed_stays_dead:
  "step\<^sup>*\<^sup>* start s \<Longrightarrow> live s h \<Longrightarrow> step\<^sup>*\<^sup>* s t \<Longrightarrow> \<not> live t h \<Longrightarrow> step\<^sup>*\<^sup>* t u \<Longrightarrow> \<not> live u h"
  using live_issued issued_forever dead_forever by blast

end

text \<open>
  The steps of the registry: creating a client, destroying one or all, and a call that changes a client. After the
  overflow of the counter of handles there is no behaviour to speak of, so it is no step.
\<close>

inductive registry_step :: "('c, 'p, 'k) openssl \<Rightarrow> ('c, 'p, 'k) environment \<Rightarrow> ('c, 'k) registry \<Rightarrow> ('c, 'k) registry \<Rightarrow> bool"
  for ssl env where
  create: "ext_create ssl env url path nameFilter reg = (r, reg') \<Longrightarrow> r \<noteq> Inl Undefined \<Longrightarrow> registry_step ssl env reg reg'"
| destroy: "ext_destroy h reg = (r, reg') \<Longrightarrow> registry_step ssl env reg reg'"
| destroyAll: "ext_destroyAll reg = (r, reg') \<Longrightarrow> registry_step ssl env reg reg'"
| call: "m_clients reg h = Some cl \<Longrightarrow> registry_step ssl env reg (reg\<lparr>m_clients := (m_clients reg)(h \<mapsto> cl')\<rparr>)"

inductive_cases registry_stepE: "registry_step ssl env reg reg'"

lemma with_client_step: "with_client h v f reg = (r, reg') \<Longrightarrow> reg' = reg \<or> registry_step ssl env reg reg'"
  by (auto simp: with_client_def intro: registry_step.call split: option.splits)

lemma with_client_dead: "m_clients reg h = None \<Longrightarrow> with_client h v f reg = (Inr v, reg)"
  by (simp add: with_client_def catch_std_def)

lemma ext_create_cases:
  "ext_create ssl env url path nameFilter reg = (r, reg') \<Longrightarrow> reg' = reg \<and> (r = Inr (- 1) \<or> (\<exists>e. r = Inl e)) \<or>
    r = Inr (m_nextHandle reg) \<and> m_nextHandle reg \<noteq> INT_MAX \<and>
    (\<exists>cl. reg' = reg\<lparr>m_clients := (m_clients reg)(m_nextHandle reg \<mapsto> cl), m_nextHandle := m_nextHandle reg + 1\<rparr>)"
  by (auto simp: ext_create_def createClient_def catch_std_def split: sum.splits if_splits prod.splits)

lemma registry_step_issued: "registry_step ssl env reg reg' \<Longrightarrow> h < m_nextHandle reg \<Longrightarrow> h < m_nextHandle reg'"
  by (auto elim!: registry_stepE dest!: ext_create_cases
      simp: ext_destroy_def ext_destroyAll_def destroyClient_def destroyAllClients_def split: if_splits)

lemma registry_step_dead: "registry_step ssl env reg reg' \<Longrightarrow> h < m_nextHandle reg \<Longrightarrow> m_clients reg h = None \<Longrightarrow> m_clients reg' h = None"
  by (auto elim!: registry_stepE dest!: ext_create_cases
      simp: ext_destroy_def ext_destroyAll_def destroyClient_def destroyAllClients_def split: if_splits)

lemma registry_step_live:
  assumes live: "\<forall>h. m_clients reg h \<noteq> None \<longrightarrow> h < m_nextHandle reg" and step: "registry_step ssl env reg reg'"
    and h: "m_clients reg' h \<noteq> None"
  shows "h < m_nextHandle reg'"
  using step h live [rule_format, of h] by (auto elim!: registry_stepE dest!: ext_create_cases
      simp: ext_destroy_def ext_destroyAll_def destroyClient_def destroyAllClients_def split: if_splits)

interpretation handles: handle_table "\<lambda>reg h. m_clients reg h \<noteq> None" "\<lambda>reg h. h < m_nextHandle reg"
  "registry_step ssl env" registry_start for ssl env
proof unfold_locales
  show "\<not> m_clients registry_start h \<noteq> None" for h by (simp add: registry_start_def)
  show "m_clients reg' h \<noteq> None \<Longrightarrow> h < m_nextHandle reg'"
    if "\<forall>h. m_clients reg h \<noteq> None \<longrightarrow> h < m_nextHandle reg" "registry_step ssl env reg reg'" for reg reg' h
    using registry_step_live [OF that] .
  show "h < m_nextHandle reg'" if "registry_step ssl env reg reg'" "h < m_nextHandle reg" for reg reg' h
    using registry_step_issued [OF that] .
  show "\<not> m_clients reg' h \<noteq> None"
    if "registry_step ssl env reg reg'" "h < m_nextHandle reg" "\<not> m_clients reg h \<noteq> None" for reg reg' h
    using registry_step_dead [OF that(1,2)] that(3) by simp
qed

lemma ext_destroy_dead: "ext_destroy h reg = (r, reg') \<Longrightarrow> m_clients reg' h = None"
  by (auto simp: ext_destroy_def destroyClient_def split: if_splits)

section \<open>Confirmation code\<close>

lemma confirmation_either_order:
  assumes "code_bytes code = Inr b" and "code \<noteq> []" and "tid \<noteq> []"
  shows "snd (setTransactionId ssl tid (snd (setConfirmationCode ssl code cl))) =
      cl\<lparr>m_confirmationCode := code, m_transactionId := tid, m_confirmationCodeHash := sha256 ssl (sha256 ssl b @ tid)\<rparr>"
    "snd (setConfirmationCode ssl code (snd (setTransactionId ssl tid cl))) =
      cl\<lparr>m_confirmationCode := code, m_transactionId := tid, m_confirmationCodeHash := sha256 ssl (sha256 ssl b @ tid)\<rparr>"
proof -
  have c: "computeConfirmationCodeHash ssl code t = Inr (sha256 ssl (sha256 ssl b @ t))" for t
    by (simp add: computeConfirmationCodeHash_def assms(1))
  show "snd (setTransactionId ssl tid (snd (setConfirmationCode ssl code cl))) =
      cl\<lparr>m_confirmationCode := code, m_transactionId := tid, m_confirmationCodeHash := sha256 ssl (sha256 ssl b @ tid)\<rparr>"
    using assms by (cases "m_transactionId cl = []") (simp_all add: setTransactionId_def setConfirmationCode_def c Let_def)
  have "\<exists>h. snd (setTransactionId ssl tid cl) = cl\<lparr>m_transactionId := tid, m_confirmationCodeHash := h\<rparr>"
    by (cases "computeConfirmationCodeHash ssl (m_confirmationCode cl) tid")
      (auto simp: setTransactionId_def Let_def intro: exI [of _ "m_confirmationCodeHash cl"])
  then show "snd (setConfirmationCode ssl code (snd (setTransactionId ssl tid cl))) =
      cl\<lparr>m_confirmationCode := code, m_transactionId := tid, m_confirmationCodeHash := sha256 ssl (sha256 ssl b @ tid)\<rparr>"
    using assms by (auto simp: setConfirmationCode_def c Let_def)
qed

section \<open>The certificate of the CI\<close>

lemma find_matching_root_Some: "find_matching_root ssl curve pool = Some c \<Longrightarrow>
    c \<in> set pool \<and> self_issued ssl c \<and> getCertificateCurveNID ssl c = Inr curve"
  by (induction ssl curve pool rule: find_matching_root.induct) (auto split: if_splits)

lemma find_matching_root_None: "find_matching_root ssl curve pool = None \<Longrightarrow>
    \<not> (\<exists>c \<in> set pool. self_issued ssl c \<and> getCertificateCurveNID ssl c = Inr curve)"
  by (induction ssl curve pool rule: find_matching_root.induct) (auto split: if_splits)

lemma select_CI_matches:
  assumes "m_euiccCert cl = Some e" and "getCertificateCurveNID ssl e = Inr curve"
  shows "\<exists>c. select_CI ssl cl = Inr c \<and>
    (if (\<exists>r. m_rootCA cl = Some r \<and> getCertificateCurveNID ssl r = Inr curve) \<or>
        (\<exists>r \<in> set (m_certPool cl). self_issued ssl r \<and> getCertificateCurveNID ssl r = Inr curve)
     then \<exists>r. c = Some r \<and> getCertificateCurveNID ssl r = Inr curve else c = m_rootCA cl)"
proof -
  have curve: "getEUICCCurveNID ssl cl = Inr curve" using assms by (simp add: getEUICCCurveNID_def)
  show ?thesis
    using assms(1) curve find_matching_root_Some [of ssl curve "m_certPool cl"] find_matching_root_None [of ssl curve "m_certPool cl"]
    by (cases "m_rootCA cl"; cases "find_matching_root ssl curve (m_certPool cl)") (auto simp: select_CI_def Let_def)
qed

section \<open>The constructor\<close>

lemma sort_certs_root: "m_rootCA cl = Some r \<Longrightarrow> sort_certs ssl cs cl = cl\<lparr>m_certPool := m_certPool cl @ cs\<rparr>"
  by (induction ssl cs cl rule: sort_certs.induct) auto

lemma sort_certs_append: "sort_certs ssl (as @ bs) cl = sort_certs ssl bs (sort_certs ssl as cl)"
  by (induction ssl as cl rule: sort_certs.induct) auto

lemma sort_certs_no_root: "m_rootCA cl = None \<Longrightarrow> sort_certs ssl cs cl =
    cl\<lparr>m_rootCA := find (self_issued ssl) cs,
      m_certPool := m_certPool cl @ takeWhile (\<lambda>c. \<not> self_issued ssl c) cs @ tl (dropWhile (\<lambda>c. \<not> self_issued ssl c) cs)\<rparr>"
  by (induction cs arbitrary: cl) (auto simp: sort_certs_root)

lemma load_cert_paths_directories:
  "list_all (is_directory env) ps \<Longrightarrow> load_cert_paths ssl env filters ps cl =
    Inr (sort_certs ssl (concat (map (\<lambda>p. loadCertificatesFromDirectory ssl env p filters) ps)) cl)"
  by (induction ps arbitrary: cl) (auto simp: load_cert_path_def sort_certs_append simp del: bind_result_eq_Inr)

section \<open>Hexadecimal strings\<close>

definition hex_of :: "octets \<Rightarrow> string" where
  "hex_of bs = concat (map (\<lambda>b. [hexd (unat b div 16), hexd (unat b mod 16)]) bs)"

lemma stoi16_hexd: "m < 16 \<Longrightarrow> n < 16 \<Longrightarrow> stoi16 [hexd m, hexd n] = Some (int (16 * m + n))"
  by (simp add: stoi16_def hexd_not_space strip_sign_def hexd_not_sign strip_0x_def hex_digit_hexd Let_def)

lemma octet_hexd: "stoi16 [hexd (unat (b :: u8) div 16), hexd (unat b mod 16)] = Some (uint b)"
proof -
  have "unat b div 16 < 16" using unat_u8 [of b] by simp
  then have "stoi16 [hexd (unat b div 16), hexd (unat b mod 16)] = Some (int (16 * (unat b div 16) + unat b mod 16))"
    by (rule stoi16_hexd) simp
  then show ?thesis by (simp add: mult_div_mod_eq del: of_nat_add of_nat_mult)
qed

lemma code_bytes_hex_of: "length rest \<le> 1 \<Longrightarrow> code_bytes (hex_of bs @ rest) = Inr bs"
proof (induction bs)
  case Nil
  then show ?case by (cases rest) (auto simp: hex_of_def)
next
  case (Cons b bs)
  then show ?case using octet_hexd [of b] by (simp add: hex_of_def)
qed

lemma eid_bytes_hex_of: "eid_bytes (hex_of bs @ rest) = map_result ((@) bs) (eid_bytes rest)"
proof (induction bs)
  case Nil
  then show ?case by (cases "eid_bytes rest") (simp_all add: hex_of_def)
next
  case (Cons b bs)
  then show ?case using octet_hexd [of b] by (cases "eid_bytes rest") (simp_all add: hex_of_def)
qed

section \<open>A client for the examples\<close>

text \<open>
  A file system whose directories are empty: the files of the eUICC and the EUM can be read, and the key of a
  file is its own public key; a key ends with the mark of its curve, and other curves refuse it; the common secret is the exclusive or of both keys' first octets.
\<close>

definition curve_mark :: "curve \<Rightarrow> u8" where
  "curve_mark curve = (case curve of P256 \<Rightarrow> 5 | BrainpoolP256r1 \<Rightarrow> 7)"

definition example_env :: "(string list option \<times> octets option \<times> octets, octets, octets) environment" where
  "example_env = \<lparr> file_exists = (\<lambda>p. True), is_directory = (\<lambda>p. extension p = []), is_regular = (\<lambda>p. extension p \<noteq> []),
     dir_files = (\<lambda>p. []), pem_certs = (\<lambda>p. None), file_octets = (\<lambda>p. Some [7]), pem_private_key = (\<lambda>p. Some [7]),
     pem_public_key = (\<lambda>p. None), rand_bytes = (\<lambda>n. Some (replicate n 9)), ec_keygen = (\<lambda>c. Some (4 # replicate 64 (curve_mark c))),
     public_octets = (\<lambda>k. Some k), peer_key = (\<lambda>c p. if p \<noteq> [] \<and> last p = curve_mark c then Some p else None), ecdh = (\<lambda>k p. Some [k ! 1 XOR p ! 1]),
     curl_perform = (\<lambda>r. Inr (''ok'', 200)) \<rparr>"

definition example_client :: "(string list option \<times> octets option \<times> octets, octets) rsp_client" where
  "example_client = (new_client ''smdp'')\<lparr>m_EID := [], m_euiccCert := Some (None, Some [], [7]), m_euiccPrivateKey := Some [7],
     m_euiccPublicKeyData := [7], m_eumCert := Some (None, Some [], [7]), m_eumPrivateKey := Some [7], m_eumPublicKeyData := [7],
     m_caCertPath := ''/etc/ssl/certs/ca-certificates.crt''\<rparr>"

lemma example_makeClient: "makeClient example_ssl example_env ''smdp'' ''certs'' ''NIST'' = Inr example_client"
proof -
  have d: "extension ''certs'' = []" "extension ''./sgp26/EUM'' = []" "extension ''./sgp26/DPtls'' = []" by code_simp+
  have e: "extension ''./sgp26/eUICC/CERT_EUICC_ECDSA_NIST.der'' = ''.der''" "extension ''./sgp26/EUM/CERT_EUM_ECDSA_NIST.der'' = ''.der''"
    by code_simp+
  have p: "load_cert_paths example_ssl example_env fs [''certs'', ''./sgp26/EUM'', ''./sgp26/DPtls''] cl = Inr cl" for fs cl
    using d load_cert_paths_directories [of example_env "[''certs'', ''./sgp26/EUM'', ''./sgp26/DPtls'']" example_ssl fs cl]
    by (simp add: example_env_def loadCertificatesFromDirectory_def find_cert_files_def)
  have c: "loadCertificate example_ssl example_env path = Inr (None, Some [], [7])" if "extension path = ''.der''" for path
    using that by (simp add: loadCertificate_def loadCertificateChain_def example_env_def example_ssl_def)
  have k: "loadKeyPair example_env path [] = Inr ([7], [7])" for path
    by (simp add: loadKeyPair_def example_env_def)
  have x: "getEID example_ssl z = []" "getSubjectKeyIdentifier example_ssl z = Inr []" for z
    by (simp_all add: getEID_def getSubjectKeyIdentifier_def example_ssl_def)
  show ?thesis
    using c [OF e(1)] c [OF e(2)]
    by (simp add: makeClient_def RSPClient_def p run_load_def loadEUICCCertificate_def loadEUICCKeyPair_def loadEUMCertificate_def
        loadEUMKeyPair_def setCACertPath_def k x example_client_def new_client_def Let_def del: load_cert_paths.simps)
qed

definition example_registry :: "(string list option \<times> octets option \<times> octets, octets) registry" where
  "example_registry = \<lparr> m_clients = [1 \<mapsto> example_client], m_nextHandle = 2 \<rparr>"

lemma example_create: "ext_create example_ssl example_env ''smdp'' ''certs'' ''NIST'' registry_start = (Inr 1, example_registry)"
  by (simp add: ext_create_def createClient_def example_makeClient catch_std_def registry_start_def example_registry_def INT_MAX_def)

section \<open>Properties\<close>

text \<open>The handles given out are positive numbers below the largest \<^verbatim>\<open>int\<close>.\<close>

definition handles_ok :: "('c, 'k) registry \<Rightarrow> bool" where
  "handles_ok reg \<longleftrightarrow> 1 \<le> m_nextHandle reg \<and> m_nextHandle reg \<le> INT_MAX \<and>
     (\<forall>h. m_clients reg h \<noteq> None \<longrightarrow> 1 \<le> h \<and> h < m_nextHandle reg)"

lemma registry_step_handles:
  assumes "registry_step ssl env reg reg'" and "handles_ok reg"
  shows "handles_ok reg'"
  using assms(1)
proof cases
  case (create url path nameFilter r)
  then show ?thesis using ext_create_cases [OF create(1)] assms(2) by (fastforce simp: handles_ok_def)
qed (use assms(2) in \<open>auto simp: handles_ok_def ext_destroy_def ext_destroyAll_def destroyClient_def destroyAllClients_def split: if_splits\<close>)

lemma reachable_handles: "(registry_step ssl env)\<^sup>*\<^sup>* registry_start reg \<Longrightarrow> handles_ok reg"
proof (induction rule: rtranclp_induct)
  case base
  show ?case by (simp add: handles_ok_def registry_start_def INT_MAX_def)
qed (rule registry_step_handles)

text \<open>
  C10. A destroyed client stays destroyed: whatever clients are created, destroyed and changed afterwards, every call on
  its handle is refused with the error value and changes nothing, and no new client gets its handle. The counter of handles
  is an \<^verbatim>\<open>int\<close>: this holds as long as it has not overflowed, and with the counter at its largest value, after
  \<open>2 ^ 31 - 2\<close> clients, creating another one is undefined.
\<close>

theorem handle_dead_after_destroy:
  assumes "(registry_step ssl env)\<^sup>*\<^sup>* registry_start reg" and "ext_destroy h reg = (Inr 0, reg1)"
    and "(registry_step ssl env)\<^sup>*\<^sup>* reg1 reg2"
  shows "1 \<le> h \<and> h < m_nextHandle reg2 \<and> m_nextHandle reg2 \<le> INT_MAX \<and>
    with_client h v f reg2 = (Inr v, reg2) \<and> ext_destroy h reg2 = (Inr (- 1), reg2) \<and>
    fst (ext_create ssl env url path nameFilter reg2) \<noteq> Inr h \<and>
    (m_nextHandle reg2 = INT_MAX \<longrightarrow> makeClient ssl env url path nameFilter = Inr cl \<longrightarrow>
       fst (ext_create ssl env url path nameFilter reg2) = Inl Undefined)"
proof -
  have live: "m_clients reg h \<noteq> None" using assms(2) by (auto simp: ext_destroy_def destroyClient_def split: if_splits)
  have step: "(registry_step ssl env)\<^sup>*\<^sup>* reg reg1" using registry_step.destroy [OF assms(2)] by blast
  have dead: "\<not> m_clients reg1 h \<noteq> None" using ext_destroy_dead [OF assms(2)] by simp
  have none: "m_clients reg2 h = None"
    using handles.destroyed_stays_dead [OF assms(1) live step dead assms(3)] by simp
  have "1 \<le> h" "h < m_nextHandle reg" using reachable_handles [OF assms(1)] live by (auto simp: handles_ok_def)
  then have h: "1 \<le> h" "h < m_nextHandle reg2"
    using handles.issued_forever [OF rtranclp_trans [OF step assms(3)]] by blast+
  have max: "m_nextHandle reg2 \<le> INT_MAX"
    using reachable_handles rtranclp_trans [OF assms(1) rtranclp_trans [OF step assms(3)]] by (auto simp: handles_ok_def)
  obtain r reg3 where r: "ext_create ssl env url path nameFilter reg2 = (r, reg3)" by fastforce
  have "fst (ext_create ssl env url path nameFilter reg2) \<noteq> Inr h"
    using ext_create_cases [OF r] h by (auto simp: r)
  with none h max show ?thesis
    by (auto simp: with_client_dead ext_destroy_def destroyClient_def ext_create_def createClient_def catch_std_def)
qed

theorem handle_dead_after_destroy_witness:
  "\<exists>reg1. ext_destroy 1 example_registry = (Inr 0, reg1) \<and>
    with_client 1 [] (signDataWithEUICC example_ssl [1]) reg1 = (Inr [], reg1)"
proof -
  obtain reg1 where d: "ext_destroy 1 example_registry = (Inr 0, reg1)"
    by (simp add: ext_destroy_def destroyClient_def example_registry_def)
  have "(registry_step example_ssl example_env)\<^sup>*\<^sup>* registry_start example_registry"
    using registry_step.create [OF example_create] by blast
  from handle_dead_after_destroy [OF this d rtranclp.rtrancl_refl, of "[]" "signDataWithEUICC example_ssl [1]"] d show ?thesis by blast
qed

text \<open>
  The hash over the confirmation code does not depend on whether the code or the transaction is set
  first, and is the hash of the code's hash and the transaction; the code may be any octets in
  hexadecimal digits, and a single last character is ignored.
\<close>

theorem confirmation_code_order:
  assumes "m_clients reg h = Some cl" and "b \<noteq> []" and "tid \<noteq> []" and "length rest \<le> 1"
  shows "\<exists>reg'. snd (ext_setTransactionId ssl h tid (snd (ext_setConfirmationCode ssl h (hex_of b @ rest) reg))) = reg' \<and>
    snd (ext_setConfirmationCode ssl h (hex_of b @ rest) (snd (ext_setTransactionId ssl h tid reg))) = reg' \<and>
    ext_getConfirmationCodeHash h reg' = (Inr (Some (sha256 ssl (sha256 ssl b @ tid))), reg')"
proof -
  let ?code = "hex_of b @ rest"
  let ?cl = "cl\<lparr>m_confirmationCode := ?code, m_transactionId := tid, m_confirmationCodeHash := sha256 ssl (sha256 ssl b @ tid)\<rparr>"
  have ne: "?code \<noteq> []" using assms(2) by (cases b) (simp_all add: hex_of_def)
  note either = confirmation_either_order [where cl = cl and ssl = ssl, OF code_bytes_hex_of [OF assms(4)] ne assms(3)]
  show ?thesis
    by (rule exI [of _ "reg\<lparr>m_clients := (m_clients reg)(h \<mapsto> ?cl)\<rparr>"])
      (simp add: ext_setTransactionId_def ext_setConfirmationCode_def ext_getConfirmationCodeHash_def client_setter_def client_getter_def
        with_client_def then_0_def either assms(1) getConfirmationCodeHash_def catch_std_def)
qed

theorem confirmation_code_order_witness:
  "\<exists>reg'. snd (ext_setTransactionId example_ssl 1 [1] (snd (ext_setConfirmationCode example_ssl 1 ''1f3'' example_registry))) = reg' \<and>
    ext_getConfirmationCodeHash 1 reg' = (Inr (Some [0x1f, 1]), reg')"
proof -
  have "hex_of [0x1f] @ ''3'' = ''1f3''" by code_simp
  moreover have "m_clients example_registry 1 = Some example_client" by (simp add: example_registry_def)
  ultimately show ?thesis
    using confirmation_code_order [of example_registry 1 example_client "[0x1f]" "[1]" "''3''" example_ssl]
    by (auto simp: example_ssl_def)
qed

text \<open>
  The certificate of the CI that a client shows has the curve of its eUICC whenever the configured root or
  a certificate of the pool that is issued by itself has it; otherwise it is the configured root, whatever its curve.
\<close>

theorem getCICertificate_curve:
  assumes "m_clients reg h = Some cl" and "m_euiccCert cl = Some e" and "getCertificateCurveNID ssl e = Inr curve"
  shows "\<exists>c. ext_getCICertificate ssl h reg = (Inr (Some (certToDER ssl c)), reg) \<and>
    (if (\<exists>r. m_rootCA cl = Some r \<and> getCertificateCurveNID ssl r = Inr curve) \<or>
        (\<exists>r \<in> set (m_certPool cl). self_issued ssl r \<and> getCertificateCurveNID ssl r = Inr curve)
     then \<exists>r. c = Some r \<and> getCertificateCurveNID ssl r = Inr curve else c = m_rootCA cl)"
proof -
  obtain c where c: "select_CI ssl cl = Inr c" and
    curve: "if (\<exists>r. m_rootCA cl = Some r \<and> getCertificateCurveNID ssl r = Inr curve) \<or>
        (\<exists>r \<in> set (m_certPool cl). self_issued ssl r \<and> getCertificateCurveNID ssl r = Inr curve)
     then \<exists>r. c = Some r \<and> getCertificateCurveNID ssl r = Inr curve else c = m_rootCA cl"
    using select_CI_matches [OF assms(2,3)] by blast
  have "ext_getCICertificate ssl h reg = (Inr (Some (certToDER ssl c)), reg)"
    using c assms(1) by (simp add: ext_getCICertificate_def client_getter_def with_client_def getCICertificate_def catch_std_def map_upd_triv)
  with curve show ?thesis by blast
qed

theorem getCICertificate_curve_witness:
  "ext_getCICertificate example_ssl 1 example_registry = (Inr (Some []), example_registry)"
  using getCICertificate_curve [of example_registry 1 example_client "(None, Some [], [7])" example_ssl P256]
  by (simp add: example_registry_def example_client_def new_client_def getCertificateCurveNID_def example_ssl_def certToDER_def)

text \<open>
  A client made from directories: its root is the first certificate, in the order of the
  directories and their files, that is issued by itself, and its pool holds all others in their order.
\<close>

theorem RSPClient_directories:
  assumes "list_all (is_directory env) ps"
  shows "\<exists>cl. RSPClient ssl env url ps filters = Inr cl \<and>
    (let cs = concat (map (\<lambda>p. loadCertificatesFromDirectory ssl env p filters) ps) in
     m_rootCA cl = find (self_issued ssl) cs \<and>
     m_certPool cl = takeWhile (\<lambda>c. \<not> self_issued ssl c) cs @ tl (dropWhile (\<lambda>c. \<not> self_issued ssl c) cs))"
  using load_cert_paths_directories [OF assms, of ssl filters "new_client url"]
  by (simp add: RSPClient_def sort_certs_no_root new_client_def Let_def)

theorem RSPClient_directories_witness:
  "\<exists>cl. RSPClient example_ssl (example_env\<lparr>dir_files := (\<lambda>p. [''a.der'', ''b.der'', ''c.txt'']),
      file_octets := (\<lambda>p. Some (if p = ''a.der'' then [2] else [1]))\<rparr>) ''smdp'' [''certs''] [] = Inr cl \<and>
    m_rootCA cl = Some (None, Some [], [1]) \<and> m_certPool cl = [(None, Some [], [2])]"
proof -
  have e: "extension ''certs'' = []" "extension ''a.der'' = ''.der''" "extension ''b.der'' = ''.der''" "extension ''c.txt'' = ''.txt''"
    by code_simp+
  have m: "file_matches [] ''a.der''" "file_matches [] ''b.der''" "\<not> file_matches [] ''c.txt''"
    by (simp_all add: file_matches_def e)
  let ?env = "example_env\<lparr>dir_files := (\<lambda>p. [''a.der'', ''b.der'', ''c.txt'']),
      file_octets := (\<lambda>p. Some (if p = ''a.der'' then [2] else [1]))\<rparr>"
  have "loadCertificatesFromDirectory example_ssl ?env ''certs'' [] = [(None, Some [], [2]), (None, Some [], [1])]"
    by (simp add: loadCertificatesFromDirectory_def find_cert_files_def certs_of_file_def e m example_env_def example_ssl_def)
  moreover have "list_all (is_directory ?env) [''certs'']" by (simp add: example_env_def e)
  ultimately show ?thesis
    using RSPClient_directories [of ?env "[''certs'']" example_ssl "''smdp''" "[]"] by (simp add: example_ssl_def)
qed

section \<open>The flags of a new client\<close>

definition flags_unset :: "('c, 'k) rsp_client \<Rightarrow> bool" where
  "flags_unset cl \<longleftrightarrow> m_useCustomTlsCert cl = None \<and> m_useMutualTLS cl = None"

lemma sort_certs_flags: "flags_unset (sort_certs ssl cs cl) = flags_unset cl"
  by (induction ssl cs cl rule: sort_certs.induct) (simp_all add: flags_unset_def)

lemma load_cert_path_flags: "load_cert_path ssl env fs p cl = Inr cl' \<Longrightarrow> flags_unset cl \<Longrightarrow> flags_unset cl'"
proof (cases "is_directory env p")
  case False
  then show "load_cert_path ssl env fs p cl = Inr cl' \<Longrightarrow> flags_unset cl \<Longrightarrow> flags_unset cl'"
    by (auto simp: load_cert_path_def Let_def flags_unset_def split: option.splits)
qed (auto simp: load_cert_path_def sort_certs_flags)

lemma load_cert_paths_flags: "load_cert_paths ssl env fs ps cl = Inr cl' \<Longrightarrow> flags_unset cl \<Longrightarrow> flags_unset cl'"
  by (induction ps arbitrary: cl) (auto dest: load_cert_path_flags)

lemma run_load_flags:
  "run_load (loadEUICCCertificate ssl env p) cl = Inr cl' \<Longrightarrow> flags_unset cl \<Longrightarrow> flags_unset cl'"
  "run_load (loadEUMCertificate ssl env p) cl = Inr cl' \<Longrightarrow> flags_unset cl \<Longrightarrow> flags_unset cl'"
  "run_load (loadEUICCKeyPair env p q) cl = Inr cl' \<Longrightarrow> flags_unset cl \<Longrightarrow> flags_unset cl'"
  "run_load (loadEUMKeyPair env p q) cl = Inr cl' \<Longrightarrow> flags_unset cl \<Longrightarrow> flags_unset cl'"
  "run_load (setCACertPath p) cl = Inr cl' \<Longrightarrow> flags_unset cl \<Longrightarrow> flags_unset cl'"
  by (auto simp: run_load_def loadEUICCCertificate_def loadEUMCertificate_def loadEUICCKeyPair_def loadEUMKeyPair_def
      setCACertPath_def flags_unset_def Let_def split: sum.splits prod.splits)

lemma makeClient_flags: "makeClient ssl env url path nameFilter = Inr cl \<Longrightarrow> flags_unset cl"
  by (auto simp: makeClient_def RSPClient_def Let_def dest!: load_cert_paths_flags run_load_flags simp del: load_cert_paths.simps)
    (simp add: flags_unset_def new_client_def)

section \<open>Session keys\<close>

lemma from_kdf_wf: "from_kdf evp secret t l host eid = Inr s \<Longrightarrow> bsp_wf s"
  by (auto simp: from_kdf_def BspCrypto_def bsp_wf_def AES_KEY_SIZE_def AES_BLOCK_SIZE_def Let_def split: if_splits)

section \<open>Key agreement\<close>

text \<open>
  What key agreement on a curve promises, for the private keys \<open>K\<close> of that curve: keys generated on it are such keys, the
  octets of such a key's public key can be read as a peer on the curve, and the secret of one key with the other's public key is
  the secret of the other with the one's. Nothing is said of keys of other curves, whose points the curve may refuse.
\<close>

definition agreement_ok :: "('c, 'p, 'k) environment \<Rightarrow> curve \<Rightarrow> 'k set \<Rightarrow> bool" where
  "agreement_ok env curve K \<longleftrightarrow>
     (\<forall>k. ec_keygen env curve = Some k \<longrightarrow> k \<in> K) \<and>
     (\<forall>k \<in> K. \<forall>pub. public_octets env k = Some pub \<longrightarrow> peer_key env curve pub \<noteq> None) \<and>
     (\<forall>k \<in> K. \<forall>k' \<in> K. \<forall>pub p pub' p'. public_octets env k = Some pub \<longrightarrow> public_octets env k' = Some pub' \<longrightarrow>
        peer_key env curve pub = Some p \<longrightarrow> peer_key env curve pub' = Some p' \<longrightarrow> ecdh env k p' = ecdh env k' p \<and> ecdh env k p' \<noteq> None)"

definition example_keys :: "curve \<Rightarrow> octets set" where
  "example_keys curve = {k. k \<noteq> [] \<and> last k = curve_mark curve}"

lemma example_agreement_ok: "agreement_ok example_env curve (example_keys curve)"
  by (auto simp: agreement_ok_def example_env_def example_keys_def xor.commute split: if_splits)

lemma generateEUICCOtpk_ok:
  assumes "generateEUICCOtpk ssl env cl = (Inr (), cl')"
  obtains curve k where "getEUICCCurveNID ssl cl = Inr curve" "ec_keygen env curve = Some k" "m_euicc_ot_PrivateKey cl' = Some k"
    "public_octets env k = Some (m_euiccOtpk cl')" "length (m_euiccOtpk cl') = 65" "m_euiccOtpk cl' ! 0 = 0x04"
    "getEUICCCurveNID ssl cl' = Inr curve"
  using assms that by (auto simp: generateEUICCOtpk_def Let_def getEUICCCurveNID_def split: sum.splits option.splits if_splits)

lemma ext_generateEUICCOtpk_ok:
  assumes "ext_generateEUICCOtpk ssl env h reg = (Inr otpk, reg')" and "otpk \<noteq> []"
  obtains cl cl' where "m_clients reg h = Some cl" "generateEUICCOtpk ssl env cl = (Inr (), cl')" "otpk = m_euiccOtpk cl'"
    "reg' = reg\<lparr>m_clients := (m_clients reg)(h \<mapsto> cl')\<rparr>"
  using assms that
  by (auto simp: ext_generateEUICCOtpk_def with_client_def catch_std_def generate_and_get_def getEUICCOtpk_def
      split: option.splits sum.splits prod.splits if_splits)

lemma otpk_made:
  assumes "m_clients reg h = Some cl" and "getEUICCCurveNID ssl cl = Inr curve"
    and "ext_generateEUICCOtpk ssl env h reg = (Inr otpk, reg')" and "otpk \<noteq> []"
  shows "length otpk = 65 \<and> otpk ! 0 = 0x04 \<and> ext_getEUICCOtpk h reg' = (Inr otpk, reg') \<and>
    (\<exists>cl' k. m_clients reg' h = Some cl' \<and> m_euicc_ot_PrivateKey cl' = Some k \<and> public_octets env k = Some otpk \<and>
      getEUICCCurveNID ssl cl' = Inr curve \<and> ec_keygen env curve = Some k)"
proof -
  obtain cl' where cl': "generateEUICCOtpk ssl env cl = (Inr (), cl')" "otpk = m_euiccOtpk cl'"
    "reg' = reg\<lparr>m_clients := (m_clients reg)(h \<mapsto> cl')\<rparr>"
    using ext_generateEUICCOtpk_ok [OF assms(3,4)] assms(1) by (metis option.inject)
  obtain k where "m_euicc_ot_PrivateKey cl' = Some k" "public_octets env k = Some otpk" "length otpk = 65" "otpk ! 0 = 0x04"
    "getEUICCCurveNID ssl cl' = Inr curve" "ec_keygen env curve = Some k"
    using generateEUICCOtpk_ok [OF cl'(1)] cl'(2) assms(2) by (metis sum.inject(2))
  then show ?thesis
    using cl' by (simp add: ext_getEUICCOtpk_def client_getter_def with_client_def getEUICCOtpk_def catch_std_def)
qed

lemma shared_secret_of:
  assumes "m_clients reg h = Some cl" and "getEUICCCurveNID ssl cl = Inr curve"
    and "ext_generateEUICCOtpk ssl env h reg = (Inr otpk, reg')" and "otpk \<noteq> []"
    and "agreement_ok env curve K" and "k' \<in> K" "public_octets env k' = Some pub'" and "peer_key env curve otpk = Some p"
  shows "\<exists>z. ecdh env k' p = Some z \<and> ext_computeSharedSecret ssl env h pub' reg' = (Inr z, reg')"
proof -
  obtain cl' k where k: "m_clients reg' h = Some cl'" "m_euicc_ot_PrivateKey cl' = Some k" "public_octets env k = Some otpk"
    "getEUICCCurveNID ssl cl' = Inr curve" "ec_keygen env curve = Some k"
    using otpk_made [OF assms(1-4)] by blast
  have K: "k \<in> K" using assms(5) k(5) unfolding agreement_ok_def by blast
  obtain p' where p': "peer_key env curve pub' = Some p'" using assms(5,6,7) unfolding agreement_ok_def by blast
  have "ecdh env k p' = ecdh env k' p \<and> ecdh env k p' \<noteq> None"
    using assms(5-8) K k(3) p' unfolding agreement_ok_def by blast
  then obtain z where z: "ecdh env k p' = Some z" "ecdh env k' p = Some z" by (metis not_None_eq)
  have "ext_computeSharedSecret ssl env h pub' reg' = (Inr z, reg')"
    using k p' z(1) by (simp add: ext_computeSharedSecret_def with_client_def computeECDHSharedSecret_def catch_std_def map_upd_triv)
  with z(2) show ?thesis by blast
qed

lemma example_curve: "getEUICCCurveNID example_ssl example_client = Inr P256"
  by (simp add: getEUICCCurveNID_def example_client_def getCertificateCurveNID_def example_ssl_def)

lemma example_otpk: "\<exists>reg'. ext_generateEUICCOtpk example_ssl example_env 1 example_registry = (Inr (4 # replicate 64 5), reg')"
proof -
  have "getCertificateCurveNID example_ssl c = Inr P256" for c by (simp add: getCertificateCurveNID_def example_ssl_def)
  moreover have "ec_keygen example_env P256 = Some (4 # replicate 64 5)" "public_octets example_env k = Some k" for k
    by (simp_all add: example_env_def curve_mark_def)
  ultimately show ?thesis
    by (simp add: ext_generateEUICCOtpk_def with_client_def example_registry_def generate_and_get_def generateEUICCOtpk_def getEUICCOtpk_def
        getEUICCCurveNID_def example_client_def catch_std_def Let_def)
qed

section \<open>Packages\<close>

lemma package_delivered:
  assumes "evp_ok evp" and "from_kdf evp secret (word_of_int keyType) (word_of_int keyLength) host eid = Inr s"
    and "encrypt_and_mac_one evp 0x87 isdp s = (Inr w87, s1)" and "mac_only_seg evp 0x88 meta s1 = (Inr ws88, s2)"
    and "encrypt_and_mac_seg evp 0x86 profile s2 = (Inr ws86, s3)"
    and "d2i_bpp package = Some \<lparr>bpp_firstSequenceOf87 = Some [w87], bpp_sequenceOf88 = Some ws88,
      bpp_secondSequenceOf87 = None, bpp_sequenceOf86 = Some ws86\<rparr>"
  shows "ext_processBoundProfilePackage evp d2i_bpp d2i_rsk secret keyType keyLength host (hex_of eid) package =
    Inr \<lparr>pb_configureIsdp = isdp, pb_storeMetadata = meta, pb_hasReplaceSessionKeys = False, pb_ppkEnc = None, pb_ppkMac = None,
      pb_ppkInitialMCV = None, pb_profileData = profile\<rparr>"
proof -
  have "eid_bytes (hex_of eid) = Inr eid" using eid_bytes_hex_of [of eid "[]"] by simp
  moreover have "process_bound_profile_package evp d2i_bpp d2i_rsk package s =
      (Inr (Some \<lparr>configureIsdp = isdp, storeMetadata = meta, replaceSessionKeys = None, profileData = profile\<rparr>), s3)"
    using assms(1) from_kdf_wf [OF assms(2)] assms(3-6) by (rule process_package_ok)
  ultimately show ?thesis
    using assms(2) by (simp add: ext_processBoundProfilePackage_def pb_result_def catch_std_def)
qed

lemma toy_from_kdf: "length host \<le> 255 \<Longrightarrow> length eid \<le> 255 \<Longrightarrow> \<exists>s. from_kdf toy_evp secret t l host eid = Inr s"
proof -
  assume h: "length host \<le> 255" "length eid \<le> 255"
  have "length (x963_stream (\<lambda>data. replicate 32 (toy_sum data)) secret info 2) = 64" for secret info
    using length_x963_stream [of "\<lambda>data. replicate 32 (toy_sum data)"] by simp
  moreover have "x963_kdf_sha256 toy_evp secret info 48 = Inr (take 48 (x963_stream (\<lambda>data. replicate 32 (toy_sum data)) secret info 2))"
    for secret info
    using x963_loop_stream [of toy_evp "\<lambda>data. replicate 32 (toy_sum data)" 48 2 0 secret info]
    by (simp add: x963_kdf_sha256_def x963_stream_def toy_evp_def)
  ultimately show ?thesis using h
    by (simp add: from_kdf_def BspCrypto_def AES_KEY_SIZE_def AES_BLOCK_SIZE_def Let_def)
qed

lemma toy_sender:
  assumes "bsp_wf s"
  shows "\<exists>w87 s1 ws88 s2 ws86 s3. encrypt_and_mac_one toy_evp 0x87 [1] s = (Inr w87, s1) \<and>
    mac_only_seg toy_evp 0x88 [2, 3] s1 = (Inr ws88, s2) \<and> encrypt_and_mac_seg toy_evp 0x86 [4, 5, 6] s2 = (Inr ws86, s3)"
proof -
  obtain w87 s1 where 1: "encrypt_and_mac_one toy_evp 0x87 [1] s = (Inr w87, s1)" "bsp_wf s1"
    using toy_encrypt [OF assms, where p = "[1]" and tag = "0x87"] by auto
  obtain ws88 s2 where 2: "mac_only_seg toy_evp 0x88 [2, 3] s1 = (Inr ws88, s2)" "bsp_wf s2"
    using authenticated_sequence [OF toy_evp_ok 1(2)] by blast
  obtain ws86 s3 where "encrypt_and_mac_seg toy_evp 0x86 [4, 5, 6] s2 = (Inr ws86, s3)"
    using encrypted_sequence [OF toy_evp_ok 2(2)] by blast
  with 1(1) 2(1) show ?thesis by blast
qed

section \<open>Properties of messages and keys\<close>

text \<open>
  C15. What a client signs with the eUICC's key, the check of a server's signature accepts under the
  certificate of that key, for the signature with the tag and length of its data object in front; the bare
  signature is accepted exactly if it does not begin with the octets of that tag and length itself.
\<close>

theorem sign_then_verify:
  assumes "der_ok ssl" and "key_ok ssl k pub" and "m \<noteq> []" and "m_clients reg h = Some cl" and "m_euiccPrivateKey cl = Some k"
    and "parse_cert ssl der = Some c" and "pubkey ssl c = Some pub"
  shows "\<exists>sig. ext_signDataWithEUICC ssl h m reg = (Inr sig, reg) \<and> length sig = 64 \<and>
    ext_verifyServerSignature ssl h m ([0x5f, 0x37, 0x40] @ sig) der reg = (Inr True, reg) \<and>
    ext_verifyServerSignature ssl h m sig der reg = (Inr (take 3 sig \<noteq> [0x5f, 0x37, 0x40]), reg)"
proof -
  obtain sig where sig: "map_result (convertDER_to_BSI_TR03111 ssl) (signDataWithKey ssl m k) = Inr sig" "length sig = 64"
    "verify_TR031111 ssl m sig pub"
    using sign_verify [OF assms(1-3)] by blast
  have short: "verify_TR031111 ssl m (strip_5f3740 sig) pub = (take 3 sig \<noteq> [0x5f, 0x37, 0x40])"
  proof (cases "take 3 sig = [0x5f, 0x37, 0x40]")
    case True
    then have "sig = [0x5f, 0x37, 0x40] @ drop 3 sig" by (metis append_take_drop_id)
    then have "strip_5f3740 sig = drop 3 sig" by (metis strip_prefixed)
    with True sig(2) show ?thesis by (simp add: verify_TR031111_def convertBSI_TR03111_to_DER_def)
  next
    case False
    with sig(3) show ?thesis by (simp add: strip_plain)
  qed
  have v: "ext_verifyServerSignature ssl h m x der reg = (Inr (verify_TR031111 ssl m (strip_5f3740 x) pub), reg)" for x
    using assms(4,6,7)
    by (simp add: ext_verifyServerSignature_def with_client_def verifyServerSignature_def verifyServerSignature_with_def loadCertFromDER_def
        catch_std_def map_upd_triv)
  have s: "ext_signDataWithEUICC ssl h m reg = (Inr sig, reg)"
    using assms(4,5) sig(1) by (simp add: ext_signDataWithEUICC_def with_client_def signDataWithEUICC_def catch_std_def map_upd_triv
        del: bind_result_eq_Inr map_result_eq_Inr)
  show ?thesis using s sig(2,3) v [of "[0x5f, 0x37, 0x40] @ sig"] v [of sig] by (simp only: strip_prefixed short) blast
qed

theorem sign_then_verify_witness:
  "\<exists>sig. ext_signDataWithEUICC example_ssl 1 [1, 2] example_registry = (Inr sig, example_registry) \<and>
    ext_verifyServerSignature example_ssl 1 [1, 2] ([0x5f, 0x37, 0x40] @ sig) [7] example_registry = (Inr True, example_registry)"
proof -
  have "m_clients example_registry 1 = Some example_client" "m_euiccPrivateKey example_client = Some [7]"
    by (simp_all add: example_registry_def example_client_def)
  moreover have "parse_cert example_ssl [7] = Some (None, Some [], [7])" "pubkey example_ssl (None, Some [], [7]) = Some [7]"
    by (simp_all add: example_ssl_def)
  ultimately show ?thesis
    using sign_then_verify [OF example_der_ok example_key_ok, of "[1, 2]" example_registry 1 example_client "[7]" "[7]"] by blast
qed

text \<open>
  C20. Key agreement: once a client has made its one-time key, the secret it computes with the public key of a peer whose
  key is on the curve of the client's certificate is the one the peer computes with the octets that the client handed
  out, which are 65 and begin with 4.
\<close>

theorem shared_secret_agrees:
  assumes "m_clients reg h = Some cl" and "getEUICCCurveNID ssl cl = Inr curve"
    and "ext_generateEUICCOtpk ssl env h reg = (Inr otpk, reg')" and "otpk \<noteq> []"
    and "agreement_ok env curve K" and "k' \<in> K" "public_octets env k' = Some pub'"
  shows "length otpk = 65 \<and> otpk ! 0 = 0x04 \<and> (\<exists>p z. peer_key env curve otpk = Some p \<and> ecdh env k' p = Some z \<and>
    ext_computeSharedSecret ssl env h pub' reg' = (Inr z, reg') \<and> ext_getEUICCOtpk h reg' = (Inr otpk, reg'))"
proof -
  obtain k where k: "public_octets env k = Some otpk" "ec_keygen env curve = Some k" using otpk_made [OF assms(1-4)] by blast
  then obtain p where p: "peer_key env curve otpk = Some p" using assms(5) unfolding agreement_ok_def by blast
  show ?thesis using otpk_made [OF assms(1-4)] shared_secret_of [OF assms p] p by blast
qed

theorem shared_secret_agrees_witness:
  "\<exists>otpk reg'. ext_generateEUICCOtpk example_ssl example_env 1 example_registry = (Inr otpk, reg') \<and>
    ext_computeSharedSecret example_ssl example_env 1 [4, 6, 5] reg' = (Inr [3], reg')"
proof -
  obtain reg' where g: "ext_generateEUICCOtpk example_ssl example_env 1 example_registry = (Inr (4 # replicate 64 5), reg')"
    using example_otpk by blast
  have "m_clients example_registry 1 = Some example_client" by (simp add: example_registry_def)
  moreover have "public_octets example_env [4, 6, 5] = Some [4, 6, 5]" "[4, 6, 5] \<in> example_keys P256"
    by (simp_all add: example_env_def example_keys_def curve_mark_def)
  ultimately obtain p z where
    "peer_key example_env P256 (4 # replicate 64 5) = Some p" "ecdh example_env [4, 6, 5] p = Some z"
    "ext_computeSharedSecret example_ssl example_env 1 [4, 6, 5] reg' = (Inr z, reg')"
    using shared_secret_agrees [OF _ example_curve g _ example_agreement_ok, of "[4, 6, 5]" "[4, 6, 5]"] by auto
  moreover from this have "z = [3]" by (auto simp: example_env_def split: if_splits)
  ultimately show ?thesis using g by blast
qed

text \<open>
  A package for an eUICC: when a sender has derived its object from the same secret, key type and
  length, host and EID, has protected configuration, metadata and profile in it, and the decoder of packages
  finds the segments, the call on the package returns exactly the three parts.
\<close>

theorem ext_processBoundProfilePackage_delivers:
  assumes "evp_ok evp" and "from_kdf evp secret (word_of_int keyType) (word_of_int keyLength) host eid = Inr s"
    and "encrypt_and_mac_one evp 0x87 isdp s = (Inr w87, s1)" and "mac_only_seg evp 0x88 meta s1 = (Inr ws88, s2)"
    and "encrypt_and_mac_seg evp 0x86 profile s2 = (Inr ws86, s3)"
    and "d2i_bpp package = Some \<lparr>bpp_firstSequenceOf87 = Some [w87], bpp_sequenceOf88 = Some ws88,
      bpp_secondSequenceOf87 = None, bpp_sequenceOf86 = Some ws86\<rparr>"
  shows "ext_processBoundProfilePackage evp d2i_bpp d2i_rsk secret keyType keyLength host (hex_of eid) package =
    Inr \<lparr>pb_configureIsdp = isdp, pb_storeMetadata = meta, pb_hasReplaceSessionKeys = False, pb_ppkEnc = None, pb_ppkMac = None,
      pb_ppkInitialMCV = None, pb_profileData = profile\<rparr>"
  using assms by (rule package_delivered)

theorem ext_processBoundProfilePackage_delivers_witness:
  "\<exists>bpp. ext_processBoundProfilePackage toy_evp (\<lambda>package. if package = [0xbf, 0x36] then Some bpp else None) (\<lambda>_. None)
      [1, 2, 3] 0x88 0x10 [8] ''8904'' [0xbf, 0x36] =
    Inr \<lparr>pb_configureIsdp = [1], pb_storeMetadata = [2, 3], pb_hasReplaceSessionKeys = False, pb_ppkEnc = None, pb_ppkMac = None,
      pb_ppkInitialMCV = None, pb_profileData = [4, 5, 6]\<rparr>"
proof -
  have eid: "hex_of [0x89, 0x04] = ''8904''" by code_simp
  obtain s where s: "from_kdf toy_evp [1, 2, 3] (word_of_int 0x88) (word_of_int 0x10) [8] [0x89, 0x04] = Inr s"
    using toy_from_kdf [of "[8]" "[0x89, 0x04]" "[1, 2, 3]" "word_of_int 0x88" "word_of_int 0x10"] by auto
  obtain w87 s1 ws88 s2 ws86 s3 where w: "encrypt_and_mac_one toy_evp 0x87 [1] s = (Inr w87, s1)"
    "mac_only_seg toy_evp 0x88 [2, 3] s1 = (Inr ws88, s2)" "encrypt_and_mac_seg toy_evp 0x86 [4, 5, 6] s2 = (Inr ws86, s3)"
    using toy_sender [OF from_kdf_wf [OF s]] by blast
  show ?thesis
    using ext_processBoundProfilePackage_delivers [OF toy_evp_ok s w,
        of "\<lambda>package. if package = [0xbf, 0x36] then
              Some \<lparr>bpp_firstSequenceOf87 = Some [w87], bpp_sequenceOf88 = Some ws88,
                bpp_secondSequenceOf87 = None, bpp_sequenceOf86 = Some ws86\<rparr> else None" "[0xbf, 0x36]" "\<lambda>_. None"]
    unfolding eid by fastforce
qed

text \<open>
  A request on a client that was created and not configured reads a flag that has no value yet: the flag
  of the custom certificate for every request, whatever the client was created from.
\<close>

theorem post_unconfigured_undefined:
  assumes "ext_create ssl env url path nameFilter reg = (Inr h, reg')" and "h \<noteq> - 1"
  shows "ext_sendHttpsPost ssl env h endpoint body port reg' = (Inl OutOfBounds, reg') \<and>
    ext_sendHttpsPostWithAuth ssl env h endpoint body port reg' = (Inl OutOfBounds, reg') \<and>
    ext_sendHttpsPostBinary ssl env h endpoint octets port ctype reg' = (Inl OutOfBounds, reg')"
proof -
  obtain cl where cl: "makeClient ssl env url path nameFilter = Inr cl" "m_clients reg' h = Some cl"
    using assms by (auto simp: ext_create_def createClient_def catch_std_def split: sum.splits if_splits prod.splits)
  have flags: "m_useCustomTlsCert cl = None" "m_useMutualTLS cl = None"
    using makeClient_flags [OF cl(1)] by (simp_all add: flags_unset_def)
  show ?thesis
    by (simp add: ext_sendHttpsPost_def ext_sendHttpsPostWithAuth_def ext_sendHttpsPostBinary_def with_client_def cl(2) answer_method_def
        sendHttpsPost_def sendHttpsPostWithAuth_def sendHttpsPostWithContentType_def sendHttpsPostUnified_def send_binary_def flags
        catch_std_def map_upd_triv)
qed

theorem post_unconfigured_undefined_witness:
  "fst (ext_sendHttpsPost example_ssl example_env 1 ''/x'' ''{}'' 443 example_registry) = Inl OutOfBounds"
  using post_unconfigured_undefined [OF example_create, of "''/x''" "''{}''" 443] by simp

end
