(* ===== verification/DER_Codec.thy ===== *)
theory DER_Codec
  imports Prelude "HOL-Library.Sublist"
begin

text \<open>
  The distinguished encoding rules of ASN.1 (ITU-T X.690) for the types that \<^verbatim>\<open>smdpp/bsp_crypto.cc\<close> builds with the template
  macros of OpenSSL: octet strings, integers, sequences with optional members, sequences of one type, and implicit tags.
  The encoding is the specification of what travels. A decoder for it is given too, and shown to undo it: it is the
  concrete instance for the laws of OpenSSL's template functions, which are an argument of the model.
\<close>

unbundle bit_operations_syntax

section \<open>Types and values\<close>

datatype tag_class = UNIVERSAL | APPLICATION | CONTEXT_SPECIFIC

text \<open>A type; the members of a sequence with whether they may be absent. \<open>ImplicitTag\<close> replaces the tag of a type.\<close>

datatype asn1_item =
    OctetString
  | Integer
  | Sequence members
  | SequenceOf asn1_item
  | ImplicitTag tag_class nat asn1_item
and members =
    NoMember
  | Member bool asn1_item members

text \<open>A value: the content of a string or number, the members of a sequence, the elements of a sequence of one type.\<close>

datatype asn1_value =
    Prim octets
  | Members "asn1_value option list"
  | Elements "asn1_value list"

section \<open>Encoding\<close>

text \<open>The length in base 256, the most significant octet first, without leading zeros.\<close>

fun base256 :: "nat \<Rightarrow> octets" where
  "base256 n = (if n < 256 then [of_nat n] else base256 (n div 256) @ [of_nat (n mod 256)])"

declare base256.simps [simp del]

definition length_octets :: "nat \<Rightarrow> octets" where
  "length_octets n = (if n < 128 then [of_nat n] else of_nat (128 + length (base256 n)) # base256 n)"

text \<open>The identifier octets, for tag numbers below 128.\<close>

definition class_number :: "tag_class \<Rightarrow> nat" where
  "class_number c = (case c of UNIVERSAL \<Rightarrow> 0 | APPLICATION \<Rightarrow> 1 | CONTEXT_SPECIFIC \<Rightarrow> 2)"

definition identifier_octets :: "tag_class \<Rightarrow> bool \<Rightarrow> nat \<Rightarrow> octets" where
  "identifier_octets c constr n =
     of_nat (64 * class_number c + (if constr then 32 else 0) + min n 31) # (if n < 31 then [] else [of_nat n])"

definition tlv :: "octets \<Rightarrow> octets \<Rightarrow> octets" where
  "tlv ident c = ident @ length_octets (length c) @ c"

primrec is_constructed :: "asn1_item \<Rightarrow> bool" where
  "is_constructed OctetString = False"
| "is_constructed Integer = False"
| "is_constructed (Sequence ms) = True"
| "is_constructed (SequenceOf i) = True"
| "is_constructed (ImplicitTag c n i) = is_constructed i"

definition ident_of :: "asn1_item \<Rightarrow> octets" where
  "ident_of i = (case i of
       OctetString \<Rightarrow> identifier_octets UNIVERSAL False 4
     | Integer \<Rightarrow> identifier_octets UNIVERSAL False 2
     | Sequence ms \<Rightarrow> identifier_octets UNIVERSAL True 16
     | SequenceOf j \<Rightarrow> identifier_octets UNIVERSAL True 16
     | ImplicitTag c n j \<Rightarrow> identifier_octets c (is_constructed j) n)"

primrec content_of :: "asn1_item \<Rightarrow> asn1_value \<Rightarrow> octets"
  and contents_of :: "members \<Rightarrow> asn1_value option list \<Rightarrow> octets" where
  "content_of OctetString v = (case v of Prim os \<Rightarrow> os | _ \<Rightarrow> [])"
| "content_of Integer v = (case v of Prim os \<Rightarrow> os | _ \<Rightarrow> [])"
| "content_of (Sequence ms) v = (case v of Members vs \<Rightarrow> contents_of ms vs | _ \<Rightarrow> [])"
| "content_of (SequenceOf i) v = (case v of Elements vs \<Rightarrow> concat (map (\<lambda>v. tlv (ident_of i) (content_of i v)) vs) | _ \<Rightarrow> [])"
| "content_of (ImplicitTag c n i) v = content_of i v"
| "contents_of NoMember vs = []"
| "contents_of (Member opt i ms) vs =
     (case vs of [] \<Rightarrow> [] | v # vs \<Rightarrow>
        (case v of None \<Rightarrow> [] | Some v \<Rightarrow> tlv (ident_of i) (content_of i v)) @ contents_of ms vs)"

definition der :: "asn1_item \<Rightarrow> asn1_value \<Rightarrow> octets" where
  "der i v = tlv (ident_of i) (content_of i v)"

section \<open>Well-formed types, values of a type\<close>

definition tag_ok :: "tag_class \<Rightarrow> nat \<Rightarrow> bool" where
  "tag_ok c n \<longleftrightarrow> n < 128"

text \<open>The identifiers that may come next; a member that may be absent must differ from what may follow it.\<close>

primrec first_identifiers :: "members \<Rightarrow> octets list" where
  "first_identifiers NoMember = []"
| "first_identifiers (Member opt i ms) = ident_of i # (if opt then first_identifiers ms else [])"

primrec item_ok :: "asn1_item \<Rightarrow> bool" and members_ok :: "members \<Rightarrow> bool" where
  "item_ok OctetString = True"
| "item_ok Integer = True"
| "item_ok (Sequence ms) = members_ok ms"
| "item_ok (SequenceOf i) = item_ok i"
| "item_ok (ImplicitTag c n i) = (tag_ok c n \<and> item_ok i)"
| "members_ok NoMember = True"
| "members_ok (Member opt i ms) =
     (item_ok i \<and> members_ok ms \<and> (opt \<longrightarrow> ident_of i \<notin> set (first_identifiers ms)))"

text \<open>The content of an integer is not empty and has no octet more than its two's complement needs.\<close>

definition minimal_integer :: "octets \<Rightarrow> bool" where
  "minimal_integer os = (case os of [] \<Rightarrow> False | [a] \<Rightarrow> True
     | a # b # r \<Rightarrow> \<not> (a = 0 \<and> b < 0x80) \<and> \<not> (a = 0xFF \<and> 0x80 \<le> b))"

text \<open>Contents are shorter than \<open>2 ^ 31\<close> octets.\<close>

primrec fits :: "asn1_item \<Rightarrow> asn1_value \<Rightarrow> bool" and fits_members :: "members \<Rightarrow> asn1_value option list \<Rightarrow> bool" where
  "fits OctetString v = (case v of Prim os \<Rightarrow> length os < 2 ^ 31 | _ \<Rightarrow> False)"
| "fits Integer v = (case v of Prim os \<Rightarrow> minimal_integer os \<and> length os < 2 ^ 31 | _ \<Rightarrow> False)"
| "fits (Sequence ms) v = (case v of Members vs \<Rightarrow> fits_members ms vs \<and> length (contents_of ms vs) < 2 ^ 31 | _ \<Rightarrow> False)"
| "fits (SequenceOf i) v =
     (case v of Elements vs \<Rightarrow> list_all (fits i) vs \<and> length (concat (map (\<lambda>v. tlv (ident_of i) (content_of i v)) vs)) < 2 ^ 31
      | _ \<Rightarrow> False)"
| "fits (ImplicitTag c n i) v = fits i v"
| "fits_members NoMember vs = (vs = [])"
| "fits_members (Member opt i ms) vs =
     (case vs of [] \<Rightarrow> False | v # vs \<Rightarrow> (case v of None \<Rightarrow> opt | Some v \<Rightarrow> fits i v) \<and> fits_members ms vs)"

section \<open>Decoding\<close>

definition from_base256 :: "octets \<Rightarrow> nat" where
  "from_base256 os = fold (\<lambda>b n. n * 256 + unat b) os 0"

definition decode_length :: "octets \<Rightarrow> (nat \<times> octets) option" where
  "decode_length os = (case os of [] \<Rightarrow> None
     | b # r \<Rightarrow> if unat b < 128 then Some (unat b, r)
         else if length r < unat b - 128 then None
         else Some (from_base256 (take (unat b - 128) r), drop (unat b - 128) r))"

definition strip_prefix :: "octets \<Rightarrow> octets \<Rightarrow> octets option" where
  "strip_prefix p os = (if prefix p os then Some (drop (length p) os) else None)"

text \<open>One element with the identifier and what follows it.\<close>

definition decode_tlv :: "octets \<Rightarrow> (octets \<Rightarrow> asn1_value option) \<Rightarrow> octets \<Rightarrow> (asn1_value \<times> octets) option" where
  "decode_tlv ident f os =
     (case strip_prefix ident os of None \<Rightarrow> None
      | Some r \<Rightarrow> (case decode_length r of None \<Rightarrow> None
          | Some (n, r) \<Rightarrow> if length r < n then None
              else (case f (take n r) of None \<Rightarrow> None | Some v \<Rightarrow> Some (v, drop n r))))"

text \<open>Elements up to the end; each takes an octet at least, so that as many rounds as octets are enough.\<close>

primrec decode_elements :: "nat \<Rightarrow> (octets \<Rightarrow> (asn1_value \<times> octets) option) \<Rightarrow> octets \<Rightarrow> asn1_value list option" where
  "decode_elements 0 f os = (if os = [] then Some [] else None)"
| "decode_elements (Suc k) f os =
     (if os = [] then Some []
      else case f os of None \<Rightarrow> None | Some (v, r) \<Rightarrow> map_option (Cons v) (decode_elements k f r))"

primrec decode_content :: "asn1_item \<Rightarrow> octets \<Rightarrow> asn1_value option"
  and decode_members :: "members \<Rightarrow> octets \<Rightarrow> asn1_value option list option" where
  "decode_content OctetString os = Some (Prim os)"
| "decode_content Integer os = (if minimal_integer os then Some (Prim os) else None)"
| "decode_content (Sequence ms) os = map_option Members (decode_members ms os)"
| "decode_content (SequenceOf i) os =
     map_option Elements (decode_elements (length os) (decode_tlv (ident_of i) (decode_content i)) os)"
| "decode_content (ImplicitTag c n i) os = decode_content i os"
| "decode_members NoMember os = (if os = [] then Some [] else None)"
| "decode_members (Member opt i ms) os =
     (if opt \<and> \<not> prefix (ident_of i) os then map_option (Cons None) (decode_members ms os)
      else case decode_tlv (ident_of i) (decode_content i) os of None \<Rightarrow> None
        | Some (v, r) \<Rightarrow> map_option (Cons (Some v)) (decode_members ms r))"

definition der_decode :: "asn1_item \<Rightarrow> octets \<Rightarrow> asn1_value option" where
  "der_decode i os = map_option fst (decode_tlv (ident_of i) (decode_content i) os)"

section \<open>Round trip\<close>

lemma length_base256:
  "n < 256 ^ Suc k \<Longrightarrow> 1 \<le> length (base256 n) \<and> length (base256 n) \<le> Suc k"
proof (induction k arbitrary: n)
  case (Suc k)
  have "n div 256 < 256 ^ Suc k" using Suc.prems by (simp add: less_mult_imp_div_less)
  with Suc.IH [of "n div 256"] show ?case by (subst (1 2) base256.simps) auto
qed (simp add: base256.simps)

lemma from_base256_snoc: "from_base256 (os @ [b]) = from_base256 os * 256 + unat b"
  by (simp add: from_base256_def)

lemma from_base256_base256 [simp]: "from_base256 (base256 n) = n"
proof (induction n rule: base256.induct)
  case (1 n)
  have u: "unat (of_nat k :: u8) = k" if "k < 256" for k using that by (simp add: unat_of_nat)
  show ?case
  proof (cases "n < 256")
    case True
    then show ?thesis by (subst base256.simps) (simp add: from_base256_def u)
  next
    case False
    then show ?thesis using 1 by (subst base256.simps) (simp add: from_base256_snoc u)
  qed
qed

lemma decode_length_octets:
  assumes "n < 2 ^ 31"
  shows "decode_length (length_octets n @ r) = Some (n, r)"
proof (cases "n < 128")
  case True
  then show ?thesis by (simp add: length_octets_def decode_length_def unat_of_nat)
next
  case False
  have "length (base256 n) \<le> 4" using length_base256 [of n 3] assms by simp
  then have "unat (of_nat (128 + length (base256 n)) :: u8) = 128 + length (base256 n)"
    by (subst unat_of_nat) simp
  then show ?thesis using False by (simp add: length_octets_def decode_length_def del: of_nat_add)
qed

lemma decode_tlv_tlv:
  assumes "length c < 2 ^ 31"
  shows "decode_tlv ident f (tlv ident c @ r) = (case f c of None \<Rightarrow> None | Some v \<Rightarrow> Some (v, r))"
  by (simp add: decode_tlv_def strip_prefix_def tlv_def decode_length_octets [OF assms] split: option.split)

text \<open>Two identifiers, neither of which is the beginning of the other.\<close>

lemma u8_of_nat_eq:
  assumes "m < 256" "n < 256" "(of_nat m :: u8) = of_nat n"
  shows "m = n"
proof -
  have "unat (of_nat m :: u8) = m" "unat (of_nat n :: u8) = n" using assms(1,2) by (simp_all add: unat_of_nat)
  with assms(3) show ?thesis by metis
qed

definition is_ident :: "octets \<Rightarrow> bool" where
  "is_ident os \<longleftrightarrow> (\<exists>c k n. n < 128 \<and> os = identifier_octets c k n)"

lemma ident_prefix_eq:
  assumes "is_ident p" "is_ident q" "prefix p (q @ r)"
  shows "p = q"
proof -
  have first: "64 * class_number c + (if k then 32 else 0) + min n 31 < 256" for c k n
    by (cases c) (auto simp: class_number_def min_def)
  obtain c k n c' k' n' where p: "p = identifier_octets c k n" "n < 128" and q: "q = identifier_octets c' k' n'" "n' < 128"
    using assms(1,2) by (auto simp: is_ident_def)
  have "(of_nat (64 * class_number c + (if k then 32 else 0) + min n 31) :: u8) =
      of_nat (64 * class_number c' + (if k' then 32 else 0) + min n' 31)"
    using assms(3) unfolding p q identifier_octets_def append_Cons prefix_def by (metis list.inject)
  from u8_of_nat_eq [OF first first this]
  have "min n 31 = min n' 31"
    by (cases c; cases c'; cases k; cases k'; auto simp: class_number_def min_def split: if_splits)
  then have "n < 31 \<longleftrightarrow> n' < 31" by auto
  then show ?thesis using assms(3) unfolding p q identifier_octets_def by (auto split: if_splits)
qed

lemma is_ident_item: "item_ok i \<Longrightarrow> is_ident (ident_of i)"
  unfolding is_ident_def ident_of_def by (cases i) (force simp: tag_ok_def)+

lemma ident_nonempty: "ident_of i \<noteq> []"
  by (cases i) (simp_all add: ident_of_def identifier_octets_def)

lemma members_induct [case_names NoMember Member]:
  assumes "P NoMember" and "\<And>opt i ms. P ms \<Longrightarrow> P (Member opt i ms)"
  shows "P ms"
  by (rule members.induct [of "\<lambda>_. True" P]) (auto intro: assms)

text \<open>What may begin the contents of members: one of the first identifiers, or the end.\<close>

lemma contents_begin:
  "fits_members ms vs \<Longrightarrow> contents_of ms vs = [] \<or> (\<exists>p\<in>set (first_identifiers ms). \<exists>r. contents_of ms vs = p @ r)"
proof (induction ms arbitrary: vs rule: members_induct)
  case (Member opt i ms)
  then show ?case by (fastforce simp: tlv_def split: list.splits option.splits)
qed simp_all

lemma first_identifiers_ident: "members_ok ms \<Longrightarrow> p \<in> set (first_identifiers ms) \<Longrightarrow> is_ident p"
  by (induction ms rule: members_induct) (auto simp: is_ident_item split: if_splits)

lemma length_content: "fits i v \<Longrightarrow> length (content_of i v) < 2 ^ 31"
  by (rule asn1_item.induct [of "\<lambda>i. \<forall>v. fits i v \<longrightarrow> length (content_of i v) < 2 ^ 31" "\<lambda>_. True", THEN spec, THEN mp])
    (auto split: asn1_value.splits)

lemma length_tlv: "ident \<noteq> [] \<Longrightarrow> length (tlv ident c) \<ge> 1"
  by (cases ident) (simp_all add: tlv_def)

lemma decode_elements_tlv:
  assumes "\<And>v r. v \<in> set vs \<Longrightarrow> f (e v @ r) = Some (v, r)" and "\<And>v. e v \<noteq> []" and "length (concat (map e vs)) \<le> k"
  shows "decode_elements k f (concat (map e vs)) = Some vs"
  using assms
proof (induction vs arbitrary: k)
  case Nil
  then show ?case by (cases k) simp_all
next
  case (Cons v vs)
  have "e v \<noteq> []" by fact
  with Cons.prems(3) obtain k' where k: "k = Suc k'" "length (concat (map e vs)) \<le> k'"
    by (cases k; cases "e v") auto
  with Cons.IH [of k'] Cons.prems(1,2) show ?case by simp
qed

lemma absent_member:
  assumes "members_ok (Member True i ms)" "fits_members ms vs"
  shows "\<not> prefix (ident_of i) (contents_of ms vs)"
proof
  assume p: "prefix (ident_of i) (contents_of ms vs)"
  with contents_begin [OF assms(2)] ident_nonempty obtain q r
    where q: "q \<in> set (first_identifiers ms)" "contents_of ms vs = q @ r" by auto
  then have "ident_of i = q"
    using p ident_prefix_eq [of "ident_of i" q r] is_ident_item [of i] first_identifiers_ident [of ms q] assms(1) by simp
  with q(1) assms(1) show False by simp
qed

lemma decode_roundtrip:
  "(item_ok i \<longrightarrow> (\<forall>v. fits i v \<longrightarrow> decode_content i (content_of i v) = Some v)) \<and>
   (members_ok ms \<longrightarrow> (\<forall>vs. fits_members ms vs \<longrightarrow> decode_members ms (contents_of ms vs) = Some vs))"
proof (induction rule: asn1_item_members.induct)
  case (SequenceOf i)
  show ?case
  proof (intro impI allI)
    fix v assume ok: "item_ok (SequenceOf i)" and fits: "fits (SequenceOf i) v"
    then obtain vs where v: "v = Elements vs" "list_all (fits i) vs" by (cases v) simp_all
    let ?e = "\<lambda>v. tlv (ident_of i) (content_of i v)"
    have "decode_tlv (ident_of i) (decode_content i) (?e w @ r) = Some (w, r)" if "w \<in> set vs" for w r
      using SequenceOf ok v(2) that decode_tlv_tlv [OF length_content] by (simp add: list_all_iff)
    moreover have "?e w \<noteq> []" for w using ident_nonempty by (simp add: tlv_def)
    ultimately show "decode_content (SequenceOf i) (content_of (SequenceOf i) v) = Some v"
      using decode_elements_tlv [of vs _ ?e] v(1) by simp
  qed
next
  case (Member opt i ms)
  show ?case
  proof (intro impI allI)
    fix vs assume ok: "members_ok (Member opt i ms)" and fits: "fits_members (Member opt i ms) vs"
    then obtain w ws where vs: "vs = w # ws" "fits_members ms ws" by (cases vs) simp_all
    have ms: "decode_members ms (contents_of ms ws) = Some ws" using Member ok vs(2) by simp
    show "decode_members (Member opt i ms) (contents_of (Member opt i ms) vs) = Some vs"
    proof (cases w)
      case None
      then show ?thesis using ms ok fits vs absent_member [of i ms ws] by simp
    next
      case (Some v)
      have "prefix (ident_of i) (tlv (ident_of i) c @ r)" for c r by (simp add: tlv_def)
      then show ?thesis using ms ok fits vs Some Member decode_tlv_tlv [OF length_content] by simp
    qed
  qed
qed (auto split: asn1_value.splits)

text \<open>The decoder undoes the encoding of every value of a well-formed type, whatever follows.\<close>

lemma der_decode_der:
  assumes "item_ok i" "fits i v"
  shows "der_decode i (der i v @ r) = Some v"
  using decode_roundtrip assms by (simp add: der_decode_def der_def decode_tlv_tlv [OF length_content [OF assms(2)]])

section \<open>The template functions of OpenSSL\<close>

text \<open>
  What the functions do that OpenSSL's macros declare for a template: decoding, which stops behind the value, and
  encoding; each may fail. The law is X.690 for well-formed templates and values of their type.
\<close>

record asn1_library =
  asn1_d2i :: "asn1_item \<Rightarrow> octets \<Rightarrow> asn1_value option"
  asn1_i2d :: "asn1_item \<Rightarrow> asn1_value \<Rightarrow> octets option"

definition asn1_library_ok :: "asn1_library \<Rightarrow> bool" where
  "asn1_library_ok lib \<longleftrightarrow> (\<forall>i v r. item_ok i \<longrightarrow> fits i v \<longrightarrow>
     asn1_i2d lib i v = Some (der i v) \<and> asn1_d2i lib i (der i v @ r) = Some v)"

definition x690_library :: asn1_library where
  "x690_library = \<lparr>asn1_d2i = der_decode, asn1_i2d = (\<lambda>i v. Some (der i v))\<rparr>"

lemma x690_library_ok: "asn1_library_ok x690_library"
  by (simp add: asn1_library_ok_def x690_library_def der_decode_der)

end
