(* ===== verification/BPP_ASN1.thy ===== *)
theory BPP_ASN1
  imports BSP_Crypto DER_Codec
begin

text \<open>
  The ASN.1 templates of \<^verbatim>\<open>smdpp/bsp_crypto.cc\<close> as types of \<^theory_text>\<open>DER_Codec\<close>, the decoded structures that
  \<^theory_text>\<open>BSP_Crypto\<close> works on, and the octets of a bound profile package as SGP.22 lays them out, which the templates
  decode to the segments that were put in.
\<close>

section \<open>Templates\<close>

text \<open>\<^verbatim>\<open>ASN1_IMP\<close> and \<^verbatim>\<open>ASN1_EX_TEMPLATE_TYPE(ASN1_TFLG_IMPTAG | ASN1_TFLG_CONTEXT, n, ...)\<close>\<close>

abbreviation imp :: "nat \<Rightarrow> asn1_item \<Rightarrow> asn1_item" where
  "imp n i \<equiv> ImplicitTag CONTEXT_SPECIFIC n i"

definition ReplaceSessionKeysRequest_ASN1_it :: asn1_item where
  "ReplaceSessionKeysRequest_ASN1_it = Sequence
     (Member False (imp 0 OctetString) (Member False (imp 1 OctetString) (Member False (imp 2 OctetString) NoMember)))"

definition ReplaceSessionKeysRequest_outer_it :: asn1_item where
  "ReplaceSessionKeysRequest_outer_it = imp 38 ReplaceSessionKeysRequest_ASN1_it"

definition RemoteOpId_it :: asn1_item where
  "RemoteOpId_it = imp 2 Integer"

definition ControlRefTemplate_it :: asn1_item where
  "ControlRefTemplate_it = Sequence
     (Member False (imp 0 OctetString) (Member False (imp 1 OctetString) (Member False (imp 4 OctetString) NoMember)))"

definition SmdpOtpk_it :: asn1_item where
  "SmdpOtpk_it = ImplicitTag APPLICATION 73 OctetString"

definition SmdpSign_it :: asn1_item where
  "SmdpSign_it = ImplicitTag APPLICATION 55 OctetString"

definition InitialiseSecureChannelRequest_ASN1_it :: asn1_item where
  "InitialiseSecureChannelRequest_ASN1_it = Sequence
     (Member False RemoteOpId_it (Member False (imp 0 OctetString) (Member False (imp 6 ControlRefTemplate_it)
     (Member False SmdpOtpk_it (Member False SmdpSign_it NoMember)))))"

definition InitialiseSecureChannelRequest_tagged_it :: asn1_item where
  "InitialiseSecureChannelRequest_tagged_it = imp 35 InitialiseSecureChannelRequest_ASN1_it"

definition ASN1_OCTET_STRING_TAG7_it :: asn1_item where
  "ASN1_OCTET_STRING_TAG7_it = imp 7 OctetString"

definition ASN1_OCTET_STRING_TAG8_it :: asn1_item where
  "ASN1_OCTET_STRING_TAG8_it = imp 8 OctetString"

definition ASN1_OCTET_STRING_TAG6_it :: asn1_item where
  "ASN1_OCTET_STRING_TAG6_it = imp 6 OctetString"

definition BoundProfilePackage_it :: asn1_item where
  "BoundProfilePackage_it = Sequence
     (Member False InitialiseSecureChannelRequest_tagged_it
     (Member False (imp 0 (SequenceOf ASN1_OCTET_STRING_TAG7_it))
     (Member False (imp 1 (SequenceOf ASN1_OCTET_STRING_TAG8_it))
     (Member True (imp 2 (SequenceOf ASN1_OCTET_STRING_TAG7_it))
     (Member False (imp 3 (SequenceOf ASN1_OCTET_STRING_TAG6_it)) NoMember)))))"

definition BoundProfilePackage_tagged_it :: asn1_item where
  "BoundProfilePackage_tagged_it = imp 54 BoundProfilePackage_it"

lemmas template_defs = ReplaceSessionKeysRequest_ASN1_it_def ReplaceSessionKeysRequest_outer_it_def RemoteOpId_it_def
  ControlRefTemplate_it_def SmdpOtpk_it_def SmdpSign_it_def InitialiseSecureChannelRequest_ASN1_it_def
  InitialiseSecureChannelRequest_tagged_it_def ASN1_OCTET_STRING_TAG7_it_def ASN1_OCTET_STRING_TAG8_it_def
  ASN1_OCTET_STRING_TAG6_it_def BoundProfilePackage_it_def BoundProfilePackage_tagged_it_def

section \<open>Decoding\<close>

text \<open>
  The members of the decoded structures, and the elements of a sequence as the code encodes each again; where
  OpenSSL cannot, its length is not positive and nothing is copied.
\<close>

definition octet_string :: "asn1_value option \<Rightarrow> octets option" where
  "octet_string v = (case v of Some (Prim os) \<Rightarrow> Some os | _ \<Rightarrow> None)"

definition d2i_ReplaceSessionKeysRequest_outer :: "asn1_library \<Rightarrow> octets \<Rightarrow> ReplaceSessionKeysRequest_ASN1 option" where
  "d2i_ReplaceSessionKeysRequest_outer lib data =
     (case asn1_d2i lib ReplaceSessionKeysRequest_outer_it data of
        Some (Members [mcv, enc_key, mac_key]) \<Rightarrow> Some \<lparr>asn1_initialMacChainingValue = octet_string mcv,
          asn1_ppkEnc = octet_string enc_key, asn1_ppkCmac = octet_string mac_key\<rparr>
      | _ \<Rightarrow> None)"

definition i2d_each :: "asn1_library \<Rightarrow> asn1_item \<Rightarrow> asn1_value option \<Rightarrow> octets list option" where
  "i2d_each lib i v = (case v of
       Some (Elements es) \<Rightarrow> Some (map (\<lambda>e. case asn1_i2d lib i e of Some os \<Rightarrow> os | None \<Rightarrow> []) es)
     | _ \<Rightarrow> None)"

definition d2i_BoundProfilePackage_tagged :: "asn1_library \<Rightarrow> octets \<Rightarrow> BoundProfilePackage option" where
  "d2i_BoundProfilePackage_tagged lib data =
     (case asn1_d2i lib BoundProfilePackage_tagged_it data of
        Some (Members [isc, first87, seq88, second87, seq86]) \<Rightarrow> Some \<lparr>
          bpp_firstSequenceOf87 = i2d_each lib ASN1_OCTET_STRING_TAG7_it first87,
          bpp_sequenceOf88 = i2d_each lib ASN1_OCTET_STRING_TAG8_it seq88,
          bpp_secondSequenceOf87 = i2d_each lib ASN1_OCTET_STRING_TAG7_it second87,
          bpp_sequenceOf86 = i2d_each lib ASN1_OCTET_STRING_TAG6_it seq86\<rparr>
      | _ \<Rightarrow> None)"

section \<open>Packages as SGP.22 lays them out\<close>

record secure_channel_request =
  sc_remoteOpId :: octets
  sc_transactionId :: octets
  sc_keyType :: octets
  sc_keyLen :: octets
  sc_hostId :: octets
  sc_smdpOtpk :: octets
  sc_smdpSign :: octets

definition request_octets :: "secure_channel_request \<Rightarrow> octets" where
  "request_octets r = tlv [0xBF, 0x23]
     (tlv [0x82] (sc_remoteOpId r) @ tlv [0x80] (sc_transactionId r) @
      tlv [0xA6] (tlv [0x80] (sc_keyType r) @ tlv [0x81] (sc_keyLen r) @ tlv [0x84] (sc_hostId r)) @
      tlv [0x5F, 0x49] (sc_smdpOtpk r) @ tlv [0x5F, 0x37] (sc_smdpSign r))"

text \<open>The segment of the configuration, those of the metadata, that of the replacement keys if any, those of the profile.\<close>

definition package_octets :: "secure_channel_request \<Rightarrow> octets \<Rightarrow> octets list \<Rightarrow> octets option \<Rightarrow> octets list \<Rightarrow> octets" where
  "package_octets r w87 ws88 keys ws86 = tlv [0xBF, 0x36]
     (request_octets r @ tlv [0xA0] w87 @ tlv [0xA1] (concat ws88) @
      (case keys of None \<Rightarrow> [] | Some w \<Rightarrow> tlv [0xA2] w) @ tlv [0xA3] (concat ws86))"

definition keys_octets :: "octets \<Rightarrow> octets \<Rightarrow> octets \<Rightarrow> octets" where
  "keys_octets mcv enc_key mac_key = tlv [0xBF, 0x26] (tlv [0x80] mcv @ tlv [0x81] enc_key @ tlv [0x82] mac_key)"

section \<open>The templates fit the layout\<close>

text \<open>The identifiers of the layout, and sizes of nested elements.\<close>

lemma identifiers:
  "identifier_octets CONTEXT_SPECIFIC False 0 = [0x80]" "identifier_octets CONTEXT_SPECIFIC False 1 = [0x81]"
  "identifier_octets CONTEXT_SPECIFIC False (Suc 0) = [0x81]"
  "identifier_octets CONTEXT_SPECIFIC False 2 = [0x82]" "identifier_octets CONTEXT_SPECIFIC False 4 = [0x84]"
  "identifier_octets CONTEXT_SPECIFIC False 6 = [0x86]" "identifier_octets CONTEXT_SPECIFIC False 7 = [0x87]"
  "identifier_octets CONTEXT_SPECIFIC False 8 = [0x88]" "identifier_octets CONTEXT_SPECIFIC True 0 = [0xA0]"
  "identifier_octets CONTEXT_SPECIFIC True 1 = [0xA1]" "identifier_octets CONTEXT_SPECIFIC True (Suc 0) = [0xA1]"
  "identifier_octets CONTEXT_SPECIFIC True 2 = [0xA2]"
  "identifier_octets CONTEXT_SPECIFIC True 3 = [0xA3]" "identifier_octets CONTEXT_SPECIFIC True 6 = [0xA6]"
  "identifier_octets CONTEXT_SPECIFIC True 35 = [0xBF, 0x23]" "identifier_octets CONTEXT_SPECIFIC True 38 = [0xBF, 0x26]"
  "identifier_octets CONTEXT_SPECIFIC True 54 = [0xBF, 0x36]" "identifier_octets APPLICATION False 73 = [0x5F, 0x49]"
  "identifier_octets APPLICATION False 55 = [0x5F, 0x37]"
  by (simp_all add: identifier_octets_def class_number_def)

lemma length_tlv_eq: "length (tlv ident c) = length ident + length (length_octets (length c)) + length c"
  by (simp add: tlv_def)

lemma templates_ok: "item_ok BoundProfilePackage_tagged_it" "item_ok ReplaceSessionKeysRequest_outer_it"
  "item_ok ASN1_OCTET_STRING_TAG7_it" "item_ok ASN1_OCTET_STRING_TAG8_it" "item_ok ASN1_OCTET_STRING_TAG6_it"
  by (simp_all add: template_defs tag_ok_def ident_of_def identifiers)

definition request_value :: "secure_channel_request \<Rightarrow> asn1_value" where
  "request_value r = Members [Some (Prim (sc_remoteOpId r)), Some (Prim (sc_transactionId r)),
     Some (Members [Some (Prim (sc_keyType r)), Some (Prim (sc_keyLen r)), Some (Prim (sc_hostId r))]),
     Some (Prim (sc_smdpOtpk r)), Some (Prim (sc_smdpSign r))]"

definition package_value :: "secure_channel_request \<Rightarrow> octets \<Rightarrow> octets list \<Rightarrow> octets option \<Rightarrow> octets list \<Rightarrow> asn1_value" where
  "package_value r c87 cs88 keys cs86 = Members [Some (request_value r), Some (Elements [Prim c87]),
     Some (Elements (map Prim cs88)), map_option (\<lambda>c. Elements [Prim c]) keys, Some (Elements (map Prim cs86))]"

lemma der_package:
  "der BoundProfilePackage_tagged_it (package_value r c87 cs88 keys cs86) =
   package_octets r (tlv [0x87] c87) (map (tlv [0x88]) cs88) (map_option (tlv [0x87]) keys) (map (tlv [0x86]) cs86)"
  by (simp add: der_def template_defs ident_of_def identifiers package_value_def request_value_def package_octets_def
      request_octets_def comp_def split: option.split)

lemma length_le_concat: "x \<in> set xs \<Longrightarrow> length x \<le> length (concat xs)"
  by (induction xs) auto

lemma package_fits:
  assumes "minimal_integer (sc_remoteOpId r)"
    and "length (package_octets r (tlv [0x87] c87) (map (tlv [0x88]) cs88) (map_option (tlv [0x87]) keys) (map (tlv [0x86]) cs86)) < 2 ^ 31"
  shows "fits BoundProfilePackage_tagged_it (package_value r c87 cs88 keys cs86)"
proof -
  have elem: "\<forall>c\<in>set cs. length c < 2 ^ 31" if "length (concat (map (tlv ident) cs)) < 2 ^ 31" for ident cs
    using that length_le_concat [of _ "map (tlv ident) cs"] by (fastforce simp: length_tlv_eq)
  show ?thesis
    using assms elem [of "[0x88]" cs88] elem [of "[0x86]" cs86]
    by (cases keys) (simp_all add: template_defs ident_of_def identifiers package_value_def request_value_def package_octets_def
      request_octets_def comp_def length_tlv_eq list_all_iff)
qed

text \<open>What OpenSSL decodes of a laid-out package: the segments that were put in.\<close>

lemma d2i_package:
  assumes lib: "asn1_library_ok lib" and "minimal_integer (sc_remoteOpId r)"
    and "length (package_octets r (tlv [0x87] c87) (map (tlv [0x88]) cs88) (map_option (tlv [0x87]) keys) (map (tlv [0x86]) cs86)) < 2 ^ 31"
  shows "d2i_BoundProfilePackage_tagged lib
      (package_octets r (tlv [0x87] c87) (map (tlv [0x88]) cs88) (map_option (tlv [0x87]) keys) (map (tlv [0x86]) cs86) @ rest) =
    Some \<lparr>bpp_firstSequenceOf87 = Some [tlv [0x87] c87], bpp_sequenceOf88 = Some (map (tlv [0x88]) cs88),
      bpp_secondSequenceOf87 = map_option (\<lambda>c. [tlv [0x87] c]) keys, bpp_sequenceOf86 = Some (map (tlv [0x86]) cs86)\<rparr>"
proof -
  note fits = package_fits [OF assms(2,3)]
  have "asn1_d2i lib BoundProfilePackage_tagged_it (der BoundProfilePackage_tagged_it (package_value r c87 cs88 keys cs86) @ rest) =
      Some (package_value r c87 cs88 keys cs86)"
    using lib templates_ok(1) fits by (simp add: asn1_library_ok_def)
  moreover have "asn1_i2d lib (imp n OctetString) (Prim c) = Some (tlv (identifier_octets CONTEXT_SPECIFIC False n) c)"
    if "n < 128" "length c < 2 ^ 31" for n c
    using lib that by (simp add: asn1_library_ok_def der_def ident_of_def tag_ok_def)
  ultimately show ?thesis using fits unfolding der_package
    by (cases keys) (auto simp: d2i_BoundProfilePackage_tagged_def package_value_def i2d_each_def template_defs identifiers
      list_all_iff)
qed

lemma parse_keys_octets:
  assumes "asn1_library_ok lib" and "length mcv = 16" "length enc_key = 16" "length mac_key = 16"
  shows "parse_replace_session_keys (d2i_ReplaceSessionKeysRequest_outer lib) (keys_octets mcv enc_key mac_key) =
    Inr \<lparr>ppkEnc = enc_key, ppkCmac = mac_key, initialMacChainingValue = mcv\<rparr>"
proof -
  let ?v = "Members [Some (Prim mcv), Some (Prim enc_key), Some (Prim mac_key)]"
  have "der ReplaceSessionKeysRequest_outer_it ?v = keys_octets mcv enc_key mac_key"
    by (simp add: der_def template_defs ident_of_def identifiers keys_octets_def)
  moreover have "fits ReplaceSessionKeysRequest_outer_it ?v"
    using assms by (simp add: template_defs ident_of_def identifiers length_tlv_eq length_octets_def)
  ultimately have "asn1_d2i lib ReplaceSessionKeysRequest_outer_it (keys_octets mcv enc_key mac_key) = Some ?v"
    using assms(1) templates_ok(2) unfolding asn1_library_ok_def by (metis append_Nil2)
  then show ?thesis using assms
    by (auto simp: parse_replace_session_keys_def d2i_ReplaceSessionKeysRequest_outer_def octet_string_def
      asn1_octet_string_to_vector_def keys_octets_def tlv_def)
qed

section \<open>Segments are elements\<close>

lemma bertlv_length_octets:
  assumes "encode_bertlv_length n = Inr L"
  shows "L = length_octets n"
proof -
  have "n < 0x10000" using assms by (simp add: encode_bertlv_length_def split: if_splits)
  then have "base256 n = (if n < 256 then [of_nat n] else [of_nat (n div 256), of_nat (n mod 256)])"
    by (subst base256.simps) (simp add: base256.simps [of "n div 256"] less_mult_imp_div_less)
  with assms show ?thesis by (auto simp: encode_bertlv_length_def length_octets_def split: if_splits)
qed

definition is_segment :: "u8 \<Rightarrow> octets \<Rightarrow> bool" where
  "is_segment tag w \<longleftrightarrow> (\<exists>c. w = tlv [tag] c \<and> length w < 0x10010)"

lemma segment_of:
  assumes "encode_bertlv_length (length c + 8) = Inr L" "length m = 8"
  shows "is_segment tag ([tag] @ L @ c @ m)"
proof -
  have "length L \<le> 3" "length c + 8 < 0x10000" using assms(1) by (auto simp: encode_bertlv_length_def split: if_splits)
  then show ?thesis using bertlv_length_octets [OF assms(1)] assms(2) unfolding is_segment_def
    by (intro exI [of _ "c @ m"]) (simp add: tlv_def)
qed

lemma compute_mac_length:
  assumes "evp_ok evp" "bsp_wf s" "compute_mac evp tag c s = (Inr m, s')"
  shows "\<exists>L. encode_bertlv_length (length c + 8) = Inr L \<and> length m = 8"
proof (cases "encode_bertlv_length (length c + 8)")
  case (Inl e)
  then show ?thesis using assms(3) by (simp add: compute_mac_def MAC_LENGTH_def bsp_bind_def bsp_lift_def)
next
  case (Inr L)
  have "length (s_mac s) = 16" using assms(2) by (simp add: bsp_wf_def)
  then show ?thesis using assms(3) length_cmac [OF assms(1)] compute_mac_ok [OF assms(1,2) Inr refl, of tag]
    by (auto simp: Inr)
qed

lemma encrypt_is_segment:
  assumes "evp_ok evp" "bsp_wf s" "encrypt_and_mac_one evp tag p s = (Inr w, s')"
  shows "is_segment tag w"
proof -
  let ?s1 = "s\<lparr>block_number := block_number s + 1\<rparr>" and ?c = "cbc evp True (s_enc s) (next_icv evp s) (add_padding p)"
  have wf: "bsp_wf ?s1" using assms(2) by (simp add: bsp_wf_def)
  obtain m s2 where m: "compute_mac evp tag ?c ?s1 = (Inr m, s2)"
    using assms(3) encrypt_fits [OF assms(3)]
    by (auto simp: encrypt_and_mac_one_def MAX_SEGMENT_SIZE_def bsp_bind_def aes_encrypt_ok [OF assms(1,2)] split: prod.splits sum.splits)
  obtain L where L: "encode_bertlv_length (length ?c + 8) = Inr L" "length m = 8"
    using compute_mac_length [OF assms(1) wf m] by blast
  have "w = [tag] @ L @ ?c @ m"
    using assms(3) encrypt_fits [OF assms(3)] m L
    by (simp add: encrypt_and_mac_one_def MAX_SEGMENT_SIZE_def MAC_LENGTH_def bsp_bind_def aes_encrypt_ok [OF assms(1,2)])
  then show ?thesis using segment_of [OF L] by simp
qed

lemma mac_only_is_segment:
  assumes "evp_ok evp" "bsp_wf s" "mac_only_one evp tag p s = (Inr w, s')"
  shows "is_segment tag w"
proof -
  obtain m s2 where m: "compute_mac evp tag p s = (Inr m, s2)"
    using assms(3) mac_only_fits [OF assms(3)]
    by (auto simp: mac_only_one_def MAX_SEGMENT_SIZE_def bsp_bind_def split: prod.splits sum.splits)
  obtain L where L: "encode_bertlv_length (length p + 8) = Inr L" "length m = 8"
    using compute_mac_length [OF assms(1,2) m] by blast
  have "w = [tag] @ L @ p @ m"
    using assms(3) mac_only_fits [OF assms(3)] m L
    by (simp add: mac_only_one_def MAX_SEGMENT_SIZE_def MAC_LENGTH_def bsp_bind_def incr_block_number_def)
  then show ?thesis using segment_of [OF L] by simp
qed

text \<open>What holds of every segment that a channel sends holds of the segments of longer data.\<close>

context segment_channel
begin

lemma seg_all:
  assumes each: "\<And>p s w s'. inv s \<Longrightarrow> send p s = (Inr w, s') \<Longrightarrow> P w"
  shows "inv s \<Longrightarrow> seg_loop send data n s = (Inr ws, s') \<Longrightarrow> (\<forall>w\<in>set ws. P w) \<and> length ws \<le> length data - n"
proof (induction "length data - n" arbitrary: n s ws rule: less_induct)
  case less
  show ?case
  proof (cases "n < length data")
    case True
    let ?max = "MAX_SEGMENT_SIZE - 10"
    let ?p = "take (min ?max (length data - n)) (drop n data)"
    have p: "?p \<noteq> []" "length ?p \<le> ?max" using True by (auto simp: MAX_SEGMENT_SIZE_def)
    obtain w s1 where 1: "send ?p s = (Inr w, s1)" "inv s1"
      using deliver [OF less.prems(1) fits_piece [OF p]] by blast
    obtain ws' where 2: "seg_loop send data (n + ?max) s1 = (Inr ws', s')" "ws = w # ws'"
      using less.prems(2) True 1(1) by (subst (asm) seg_loop.simps) (auto simp: bsp_bind_def Let_def split: prod.splits sum.splits)
    have "length data - (n + ?max) < length data - n" using True by (simp add: MAX_SEGMENT_SIZE_def)
    then have "(\<forall>w\<in>set ws'. P w) \<and> length ws' \<le> length data - (n + ?max)" using less.hyps 1(2) 2(1) by blast
    moreover from this have "Suc (length ws') \<le> length data - n" using True unfolding MAX_SEGMENT_SIZE_def by linarith
    ultimately show ?thesis using each [OF less.prems(1) 1(1)] 2(2) by simp
  next
    case False
    then show ?thesis using less.prems(2) by (subst (asm) seg_loop.simps) simp
  qed
qed

end

lemma encrypt_seg_are_segments:
  assumes "evp_ok evp" "bsp_wf s" "encrypt_and_mac_seg evp tag data s = (Inr ws, s')"
  shows "(\<forall>w\<in>set ws. is_segment tag w) \<and> length ws \<le> length data"
  using assms enc.seg_all [where P = "is_segment tag", of evp tag s data 0 ws s'] encrypt_is_segment
  unfolding encrypt_and_mac_seg_def by simp

lemma mac_only_seg_are_segments:
  assumes "evp_ok evp" "bsp_wf s" "mac_only_seg evp tag data s = (Inr ws, s')"
  shows "(\<forall>w\<in>set ws. is_segment tag w) \<and> length ws \<le> length data"
  using assms mac.seg_all [where P = "is_segment tag", of evp tag s data 0 ws s'] mac_only_is_segment
  unfolding mac_only_seg_def by simp

text \<open>Decoding in terms of segments.\<close>

lemma d2i_segments:
  assumes "asn1_library_ok lib" "minimal_integer (sc_remoteOpId r)" "is_segment 0x87 w87" "\<forall>w\<in>set ws88. is_segment 0x88 w"
    "\<forall>w. keys = Some w \<longrightarrow> is_segment 0x87 w" "\<forall>w\<in>set ws86. is_segment 0x86 w"
    "length (package_octets r w87 ws88 keys ws86) < 2 ^ 31"
  shows "d2i_BoundProfilePackage_tagged lib (package_octets r w87 ws88 keys ws86 @ rest) =
    Some \<lparr>bpp_firstSequenceOf87 = Some [w87], bpp_sequenceOf88 = Some ws88,
      bpp_secondSequenceOf87 = map_option (\<lambda>w. [w]) keys, bpp_sequenceOf86 = Some ws86\<rparr>"
proof -
  obtain c87 where c87: "w87 = tlv [0x87] c87" using assms(3) by (auto simp: is_segment_def)
  obtain cs88 cs86 where cs: "ws88 = map (tlv [0x88]) cs88" "ws86 = map (tlv [0x86]) cs86"
    using assms(4,6) ex_map_conv [of ws88 "tlv [0x88]"] ex_map_conv [of ws86 "tlv [0x86]"] unfolding is_segment_def by blast
  obtain k where k: "keys = map_option (tlv [0x87]) k"
    using assms(5) by (cases keys) (auto simp: is_segment_def intro: that [of None] that [of "Some c" for c])
  show ?thesis
    using d2i_package [OF assms(1,2), of c87 cs88 k cs86 rest] assms(7) unfolding c87 cs k by (simp add: option.map_comp comp_def)
qed

end
