(* ===== verification/BPP_Delivery.thy ===== *)
theory BPP_Delivery
  imports SMDPP_Props BPP_ASN1
begin

text \<open>
  Bound profile packages from the octets on: what a sender protects under derived keys and lays out as SGP.22
  says is what the external function returns for these octets, decoded with the templates of the code.
\<close>

section \<open>Sizes\<close>

lemma length_length_octets: "n < 2 ^ 31 \<Longrightarrow> length (length_octets n) \<le> 5"
  using length_base256 [of n 3] by (simp add: length_octets_def)

lemma length_concat_segments:
  "\<forall>w\<in>set ws. is_segment tag w \<Longrightarrow> length (concat ws) \<le> length ws * 0x10010"
  by (induction ws) (auto simp: is_segment_def)

section \<open>Properties\<close>

text \<open>
  C4. The octets of a package whose configuration, metadata and profile a sender protected under keys derived
  from the same inputs, laid out as SGP.22 says, are processed to exactly the three parts, for data of any length and
  whatever follows the package: the templates name the tags of the layout, the lengths of the segments are those of DER, and each
  segment is re-encoded to the octets that were authenticated.
\<close>

theorem package_octets_processed:
  assumes "evp_ok evp" and "asn1_library_ok lib"
    and "from_kdf evp secret (word_of_int keyType) (word_of_int keyLength) host eid = Inr s"
    and "encrypt_and_mac_one evp 0x87 isdp s = (Inr w87, s1)" and "mac_only_seg evp 0x88 meta s1 = (Inr ws88, s2)"
    and "encrypt_and_mac_seg evp 0x86 profile s2 = (Inr ws86, s3)"
    and "minimal_integer (sc_remoteOpId r)" and "length (package_octets r w87 ws88 None ws86) < 2 ^ 31"
  shows "ext_processBoundProfilePackage evp (d2i_BoundProfilePackage_tagged lib) (d2i_ReplaceSessionKeysRequest_outer lib)
      secret keyType keyLength host (hex_of eid) (package_octets r w87 ws88 None ws86 @ rest) =
    Inr \<lparr>pb_configureIsdp = isdp, pb_storeMetadata = meta, pb_hasReplaceSessionKeys = False, pb_ppkEnc = None, pb_ppkMac = None,
      pb_ppkInitialMCV = None, pb_profileData = profile\<rparr>"
proof -
  have wf: "bsp_wf s" "bsp_wf s1" "bsp_wf s2"
    using from_kdf_wf [OF assms(3)] enc.received [OF _ _ assms(4)] encrypt_fits [OF assms(4)]
      authenticated_sequence_received [OF assms(1) _ assms(5)] assms(1) by simp_all
  show ?thesis
    using package_delivered [OF assms(1,3-6)] encrypt_is_segment [OF assms(1) wf(1) assms(4)]
      mac_only_seg_are_segments [OF assms(1) wf(2) assms(5)] encrypt_seg_are_segments [OF assms(1) wf(3) assms(6)]
      d2i_segments [OF assms(2,7) _ _ _ _ assms(8), of rest] by simp
qed

text \<open>The same layout, with the session's keys replaced for the profile.\<close>

text \<open>
  C6. The same for a package that replaces the session keys: the request with the new keys, laid out as SGP.22 says, travels
  ciphered in the second sequence, its octets are parsed with the template of the request, and the profile, protected under
  the new keys by an object of its own, comes out with them.
\<close>

theorem package_octets_replacing_keys:
  assumes "evp_ok evp" and "asn1_library_ok lib"
    and "from_kdf evp secret (word_of_int keyType) (word_of_int keyLength) host eid = Inr s"
    and "encrypt_and_mac_one evp 0x87 isdp s = (Inr w87, s1)" and "mac_only_seg evp 0x88 meta s1 = (Inr ws88, s2)"
    and "encrypt_and_mac_one evp 0x87 (keys_octets mcv enc_key mac_key) s2 = (Inr w87', s3)"
    and "BspCrypto enc_key mac_key mcv = Inr ppk" and "encrypt_and_mac_seg evp 0x86 profile ppk = (Inr ws86, ppk')"
    and "minimal_integer (sc_remoteOpId r)" and "length (package_octets r w87 ws88 (Some w87') ws86) < 2 ^ 31"
  shows "ext_processBoundProfilePackage evp (d2i_BoundProfilePackage_tagged lib) (d2i_ReplaceSessionKeysRequest_outer lib)
      secret keyType keyLength host (hex_of eid) (package_octets r w87 ws88 (Some w87') ws86 @ rest) =
    Inr \<lparr>pb_configureIsdp = isdp, pb_storeMetadata = meta, pb_hasReplaceSessionKeys = True, pb_ppkEnc = Some enc_key,
      pb_ppkMac = Some mac_key, pb_ppkInitialMCV = Some mcv, pb_profileData = profile\<rparr>"
proof -
  let ?rsk = "\<lparr>ppkEnc = enc_key, ppkCmac = mac_key, initialMacChainingValue = mcv\<rparr>"
  have keys: "length mcv = 16" "length enc_key = 16" "length mac_key = 16"
    using assms(7) by (auto simp: BspCrypto_def AES_KEY_SIZE_def AES_BLOCK_SIZE_def split: if_splits)
  have ppk: "from_replace_session_keys ?rsk = Inr ppk" using assms(7) by (simp add: from_replace_session_keys_def)
  have wf: "bsp_wf s" "bsp_wf s1" "bsp_wf s2"
    using from_kdf_wf [OF assms(3)] enc.received [OF _ _ assms(4)] encrypt_fits [OF assms(4)]
      authenticated_sequence_received [OF assms(1) _ assms(5)] assms(1) by simp_all
  have "d2i_BoundProfilePackage_tagged lib (package_octets r w87 ws88 (Some w87') ws86 @ rest) =
    Some \<lparr>bpp_firstSequenceOf87 = Some [w87], bpp_sequenceOf88 = Some ws88,
      bpp_secondSequenceOf87 = Some [w87'], bpp_sequenceOf86 = Some ws86\<rparr>"
    using encrypt_is_segment [OF assms(1) wf(1) assms(4)] encrypt_is_segment [OF assms(1) wf(3) assms(6)]
      mac_only_seg_are_segments [OF assms(1) wf(2) assms(5)]
      encrypt_seg_are_segments [OF assms(1) from_replace_session_keys_wf [OF ppk] assms(8)]
      d2i_segments [OF assms(2,9) _ _ _ _ assms(10), of rest] by simp
  from process_bound_profile_package_replacing_keys [where d2i_bpp = "d2i_BoundProfilePackage_tagged lib"
      and package = "package_octets r w87 ws88 (Some w87') ws86 @ rest", OF assms(1) wf(1) assms(4-6) parse_keys_octets [OF assms(2) keys] ppk assms(8) this]
  show ?thesis using assms(3) eid_bytes_hex_of [of eid "[]"]
    by (simp add: ext_processBoundProfilePackage_def pb_result_def catch_std_def)
qed

section \<open>Examples\<close>

definition example_request :: secure_channel_request where
  "example_request = \<lparr>sc_remoteOpId = [1], sc_transactionId = [1, 2], sc_keyType = [0x88], sc_keyLen = [0x10],
     sc_hostId = [8], sc_smdpOtpk = [4, 5], sc_smdpSign = [6, 7]\<rparr>"

lemma example_package_length:
  assumes "is_segment 0x87 w87" "\<forall>w\<in>set ws88. is_segment 0x88 w" "\<forall>w. keys = Some w \<longrightarrow> is_segment 0x87 w"
    "\<forall>w\<in>set ws86. is_segment 0x86 w" "length ws88 \<le> 8" "length ws86 \<le> 8"
  shows "length (package_octets example_request w87 ws88 keys ws86) < 2 ^ 31"
proof -
  have "length (concat ws88) \<le> 8 * 0x10010" "length (concat ws86) \<le> 8 * 0x10010"
    using length_concat_segments [OF assms(2)] length_concat_segments [OF assms(4)] assms(5,6) by linarith+
  moreover have "length w87 < 0x10010" "\<And>w. keys = Some w \<Longrightarrow> length w < 0x10010" using assms(1,3) by (auto simp: is_segment_def)
  moreover have "length (request_octets example_request) = 31"
    by (simp add: request_octets_def example_request_def length_tlv_eq length_octets_def)
  ultimately have l: "length (length_octets (length (concat ws88))) \<le> 5" "length (length_octets (length (concat ws86))) \<le> 5"
    "length (length_octets (length w87)) \<le> 5" "\<And>w. keys = Some w \<Longrightarrow> length (length_octets (length w)) \<le> 5"
    "length (concat ws88) \<le> 524416" "length (concat ws86) \<le> 524416" "length w87 \<le> 65552" "\<And>w. keys = Some w \<Longrightarrow> length w \<le> 65552"
    "length (request_octets example_request) = 31"
    by (force intro!: length_length_octets)+
  define body where "body = request_octets example_request @ tlv [0xA0] w87 @ tlv [0xA1] (concat ws88) @
      (case keys of None \<Rightarrow> [] | Some w \<Rightarrow> tlv [0xA2] w) @ tlv [0xA3] (concat ws86)"
  have "length body \<le> 2000000"
    using l by (cases keys) (fastforce simp: body_def length_tlv_eq simp del: length_concat)+
  moreover from this have "length (length_octets (length body)) \<le> 5" by (intro length_length_octets) simp
  ultimately show ?thesis by (simp add: package_octets_def length_tlv_eq body_def [symmetric])
qed

lemma package_octets_processed_witness:
  "\<exists>package. ext_processBoundProfilePackage toy_evp (d2i_BoundProfilePackage_tagged x690_library)
      (d2i_ReplaceSessionKeysRequest_outer x690_library) [1, 2, 3] 0x88 0x10 [8] ''8904'' (package @ [0xFF]) =
    Inr \<lparr>pb_configureIsdp = [1], pb_storeMetadata = [2, 3], pb_hasReplaceSessionKeys = False, pb_ppkEnc = None, pb_ppkMac = None,
      pb_ppkInitialMCV = None, pb_profileData = [4, 5, 6]\<rparr>"
proof -
  have eid: "hex_of [0x89, 0x04] = ''8904''" by code_simp
  obtain s where s: "from_kdf toy_evp [1, 2, 3] (word_of_int 0x88) (word_of_int 0x10) [8] [0x89, 0x04] = Inr s"
    using toy_from_kdf [of "[8]" "[0x89, 0x04]" "[1, 2, 3]" "word_of_int 0x88" "word_of_int 0x10"] by auto
  obtain w87 s1 where 1: "encrypt_and_mac_one toy_evp 0x87 [1] s = (Inr w87, s1)" "bsp_wf s1"
    using toy_encrypt [OF from_kdf_wf [OF s], where p = "[1]" and tag = "0x87"] by auto
  obtain ws88 s2 where 2: "mac_only_seg toy_evp 0x88 [2, 3] s1 = (Inr ws88, s2)" "bsp_wf s2"
    using authenticated_sequence [OF toy_evp_ok 1(2)] by blast
  obtain ws86 s3 where 3: "encrypt_and_mac_seg toy_evp 0x86 [4, 5, 6] s2 = (Inr ws86, s3)"
    using encrypted_sequence [OF toy_evp_ok 2(2)] by blast
  have "length (package_octets example_request w87 ws88 None ws86) < 2 ^ 31"
    using encrypt_is_segment [OF toy_evp_ok from_kdf_wf [OF s] 1(1)] mac_only_seg_are_segments [OF toy_evp_ok 1(2) 2(1)]
      encrypt_seg_are_segments [OF toy_evp_ok 2(2) 3] by (intro example_package_length) simp_all
  from package_octets_processed [OF toy_evp_ok x690_library_ok s 1(1) 2(1) 3 _ this]
  show ?thesis unfolding eid by (fastforce simp: example_request_def minimal_integer_def)
qed

lemma package_octets_replacing_keys_witness:
  "\<exists>package. ext_processBoundProfilePackage toy_evp (d2i_BoundProfilePackage_tagged x690_library)
      (d2i_ReplaceSessionKeysRequest_outer x690_library) [1, 2, 3] 0x88 0x10 [8] ''8904'' (package @ []) =
    Inr \<lparr>pb_configureIsdp = [1], pb_storeMetadata = [2, 3], pb_hasReplaceSessionKeys = True, pb_ppkEnc = Some (replicate 16 2),
      pb_ppkMac = Some (replicate 16 3), pb_ppkInitialMCV = Some (replicate 16 1), pb_profileData = [4, 5, 6]\<rparr>"
proof -
  let ?keys = "keys_octets (replicate 16 1) (replicate 16 2) (replicate 16 3)"
  have eid: "hex_of [0x89, 0x04] = ''8904''" by code_simp
  obtain s where s: "from_kdf toy_evp [1, 2, 3] (word_of_int 0x88) (word_of_int 0x10) [8] [0x89, 0x04] = Inr s"
    using toy_from_kdf [of "[8]" "[0x89, 0x04]" "[1, 2, 3]" "word_of_int 0x88" "word_of_int 0x10"] by auto
  obtain w87 s1 where 1: "encrypt_and_mac_one toy_evp 0x87 [1] s = (Inr w87, s1)" "bsp_wf s1"
    using toy_encrypt [OF from_kdf_wf [OF s], where p = "[1]" and tag = "0x87"] by auto
  obtain ws88 s2 where 2: "mac_only_seg toy_evp 0x88 [2, 3] s1 = (Inr ws88, s2)" "bsp_wf s2"
    using authenticated_sequence [OF toy_evp_ok 1(2)] by blast
  have "length ?keys \<le> 1010" by (simp add: keys_octets_def length_tlv_eq length_octets_def)
  then obtain w87' s3 where 3: "encrypt_and_mac_one toy_evp 0x87 ?keys s2 = (Inr w87', s3)"
    using toy_encrypt [OF 2(2), where p = ?keys and tag = "0x87"] by blast
  obtain ppk where ppk: "BspCrypto (replicate 16 2) (replicate 16 3) (replicate 16 1) = Inr ppk" "bsp_wf ppk"
    by (simp add: BspCrypto_def AES_KEY_SIZE_def AES_BLOCK_SIZE_def bsp_wf_def)
  obtain ws86 ppk' where 4: "encrypt_and_mac_seg toy_evp 0x86 [4, 5, 6] ppk = (Inr ws86, ppk')"
    using encrypted_sequence [OF toy_evp_ok ppk(2)] by blast
  have "length (package_octets example_request w87 ws88 (Some w87') ws86) < 2 ^ 31"
    using encrypt_is_segment [OF toy_evp_ok from_kdf_wf [OF s] 1(1)] mac_only_seg_are_segments [OF toy_evp_ok 1(2) 2(1)]
      encrypt_is_segment [OF toy_evp_ok 2(2) 3] encrypt_seg_are_segments [OF toy_evp_ok ppk(2) 4]
    by (intro example_package_length) simp_all
  from package_octets_replacing_keys [OF toy_evp_ok x690_library_ok s 1(1) 2(1) 3 ppk(1) 4 _ this]
  show ?thesis unfolding eid by (fastforce simp: example_request_def minimal_integer_def)
qed

end
