(* ===== verification/RLCMAC_Bits.thy ===== *)
theory RLCMAC_Bits
  imports Prelude
begin

text \<open>
  The bit-level layer of \<^verbatim>\<open>library/RLCMAC_EncDec.cc\<close>: octet strings as strings of bits, least
  significant bit first; the packed structures of the EGPRS headers, whose bit fields a little-endian
  compiler allocates in that order; and the two copies between an octet-aligned buffer and a bit
  position of the block.
\<close>

unbundle bit_operations_syntax

section \<open>Bits\<close>

definition bits_of :: "octets \<Rightarrow> bool list" where
  "bits_of xs = concat (map (\<lambda>x. map (bit x) [0..<8]) xs)"

definition word_bits :: "'a::len word \<Rightarrow> bool list" where
  "word_bits w = map (bit w) [0..<LENGTH('a)]"

text \<open>The field at a position, with the width of the result.\<close>

definition field :: "bool list \<Rightarrow> nat \<Rightarrow> 'a::len word" where
  "field bs n = horner_sum of_bool 2 (take LENGTH('a) (drop n bs))"

definition octets_of :: "bool list \<Rightarrow> octets" where
  "octets_of bs = map (\<lambda>i. field bs (8 * i)) [0..<length bs div 8]"

section \<open>Structures with bit fields\<close>

record gprs_rlc_ul_header_egprs_1 =
  ul1_r :: "1 word"
  ul1_si :: "1 word"
  ul1_cv :: "4 word"
  ul1_tfi_hi :: "2 word"
  ul1_tfi_lo :: "3 word"
  ul1_bsn1_hi :: "5 word"
  ul1_bsn1_lo :: "6 word"
  ul1_bsn2_hi :: "2 word"
  ul1_bsn2_lo :: "8 word"
  ul1_cps :: "5 word"
  ul1_rsb :: "1 word"
  ul1_pi :: "1 word"
  ul1_spare_hi :: "1 word"
  ul1_spare_lo :: "6 word"
  ul1_dummy :: "2 word"

record gprs_rlc_ul_header_egprs_2 =
  ul2_r :: "1 word"
  ul2_si :: "1 word"
  ul2_cv :: "4 word"
  ul2_tfi_hi :: "2 word"
  ul2_tfi_lo :: "3 word"
  ul2_bsn1_hi :: "5 word"
  ul2_bsn1_lo :: "6 word"
  ul2_cps_hi :: "2 word"
  ul2_cps_lo :: "1 word"
  ul2_rsb :: "1 word"
  ul2_pi :: "1 word"
  ul2_spare_hi :: "5 word"
  ul2_spare_lo :: "5 word"
  ul2_dummy :: "3 word"

record gprs_rlc_ul_header_egprs_3 =
  ul3_r :: "1 word"
  ul3_si :: "1 word"
  ul3_cv :: "4 word"
  ul3_tfi_hi :: "2 word"
  ul3_tfi_lo :: "3 word"
  ul3_bsn1_hi :: "5 word"
  ul3_bsn1_lo :: "6 word"
  ul3_cps_hi :: "2 word"
  ul3_cps_lo :: "2 word"
  ul3_spb :: "2 word"
  ul3_rsb :: "1 word"
  ul3_pi :: "1 word"
  ul3_spare :: "1 word"
  ul3_dummy :: "1 word"

record gprs_rlc_dl_header_egprs_1 =
  dl1_usf :: "3 word"
  dl1_es_p :: "2 word"
  dl1_rrbp :: "2 word"
  dl1_tfi_hi :: "1 word"
  dl1_tfi_lo :: "4 word"
  dl1_pr :: "2 word"
  dl1_bsn1_hi :: "2 word"
  dl1_bsn1_mid :: "8 word"
  dl1_bsn1_lo :: "1 word"
  dl1_bsn2_hi :: "7 word"
  dl1_bsn2_lo :: "3 word"
  dl1_cps :: "5 word"

record gprs_rlc_dl_header_egprs_2 =
  dl2_usf :: "3 word"
  dl2_es_p :: "2 word"
  dl2_rrbp :: "2 word"
  dl2_tfi_hi :: "1 word"
  dl2_tfi_lo :: "4 word"
  dl2_pr :: "2 word"
  dl2_bsn1_hi :: "2 word"
  dl2_bsn1_mid :: "8 word"
  dl2_bsn1_lo :: "1 word"
  dl2_cps :: "3 word"
  dl2_dummy :: "4 word"

record gprs_rlc_dl_header_egprs_3 =
  dl3_usf :: "3 word"
  dl3_es_p :: "2 word"
  dl3_rrbp :: "2 word"
  dl3_tfi_hi :: "1 word"
  dl3_tfi_lo :: "4 word"
  dl3_pr :: "2 word"
  dl3_bsn1_hi :: "2 word"
  dl3_bsn1_mid :: "8 word"
  dl3_bsn1_lo :: "1 word"
  dl3_cps :: "4 word"
  dl3_spb :: "2 word"
  dl3_dummy :: "1 word"

text \<open>The storage of the uplink structures, which the code writes, and the reading of all that it reads.\<close>

definition ul1_bits :: "gprs_rlc_ul_header_egprs_1 \<Rightarrow> bool list" where
  "ul1_bits h = word_bits (ul1_r h) @ word_bits (ul1_si h) @ word_bits (ul1_cv h) @ word_bits (ul1_tfi_hi h) @
     word_bits (ul1_tfi_lo h) @ word_bits (ul1_bsn1_hi h) @ word_bits (ul1_bsn1_lo h) @ word_bits (ul1_bsn2_hi h) @
     word_bits (ul1_bsn2_lo h) @ word_bits (ul1_cps h) @ word_bits (ul1_rsb h) @ word_bits (ul1_pi h) @
     word_bits (ul1_spare_hi h) @ word_bits (ul1_spare_lo h) @ word_bits (ul1_dummy h)"

definition ul1_of :: "bool list \<Rightarrow> gprs_rlc_ul_header_egprs_1" where
  "ul1_of bs = \<lparr>ul1_r = field bs 0, ul1_si = field bs 1, ul1_cv = field bs 2, ul1_tfi_hi = field bs 6,
     ul1_tfi_lo = field bs 8, ul1_bsn1_hi = field bs 11, ul1_bsn1_lo = field bs 16, ul1_bsn2_hi = field bs 22,
     ul1_bsn2_lo = field bs 24, ul1_cps = field bs 32, ul1_rsb = field bs 37, ul1_pi = field bs 38,
     ul1_spare_hi = field bs 39, ul1_spare_lo = field bs 40, ul1_dummy = field bs 46\<rparr>"

definition ul2_bits :: "gprs_rlc_ul_header_egprs_2 \<Rightarrow> bool list" where
  "ul2_bits h = word_bits (ul2_r h) @ word_bits (ul2_si h) @ word_bits (ul2_cv h) @ word_bits (ul2_tfi_hi h) @
     word_bits (ul2_tfi_lo h) @ word_bits (ul2_bsn1_hi h) @ word_bits (ul2_bsn1_lo h) @ word_bits (ul2_cps_hi h) @
     word_bits (ul2_cps_lo h) @ word_bits (ul2_rsb h) @ word_bits (ul2_pi h) @ word_bits (ul2_spare_hi h) @
     word_bits (ul2_spare_lo h) @ word_bits (ul2_dummy h)"

definition ul2_of :: "bool list \<Rightarrow> gprs_rlc_ul_header_egprs_2" where
  "ul2_of bs = \<lparr>ul2_r = field bs 0, ul2_si = field bs 1, ul2_cv = field bs 2, ul2_tfi_hi = field bs 6,
     ul2_tfi_lo = field bs 8, ul2_bsn1_hi = field bs 11, ul2_bsn1_lo = field bs 16, ul2_cps_hi = field bs 22,
     ul2_cps_lo = field bs 24, ul2_rsb = field bs 25, ul2_pi = field bs 26, ul2_spare_hi = field bs 27,
     ul2_spare_lo = field bs 32, ul2_dummy = field bs 37\<rparr>"

definition ul3_bits :: "gprs_rlc_ul_header_egprs_3 \<Rightarrow> bool list" where
  "ul3_bits h = word_bits (ul3_r h) @ word_bits (ul3_si h) @ word_bits (ul3_cv h) @ word_bits (ul3_tfi_hi h) @
     word_bits (ul3_tfi_lo h) @ word_bits (ul3_bsn1_hi h) @ word_bits (ul3_bsn1_lo h) @ word_bits (ul3_cps_hi h) @
     word_bits (ul3_cps_lo h) @ word_bits (ul3_spb h) @ word_bits (ul3_rsb h) @ word_bits (ul3_pi h) @
     word_bits (ul3_spare h) @ word_bits (ul3_dummy h)"

definition ul3_of :: "bool list \<Rightarrow> gprs_rlc_ul_header_egprs_3" where
  "ul3_of bs = \<lparr>ul3_r = field bs 0, ul3_si = field bs 1, ul3_cv = field bs 2, ul3_tfi_hi = field bs 6,
     ul3_tfi_lo = field bs 8, ul3_bsn1_hi = field bs 11, ul3_bsn1_lo = field bs 16, ul3_cps_hi = field bs 22,
     ul3_cps_lo = field bs 24, ul3_spb = field bs 26, ul3_rsb = field bs 28, ul3_pi = field bs 29,
     ul3_spare = field bs 30, ul3_dummy = field bs 31\<rparr>"

definition dl1_of :: "bool list \<Rightarrow> gprs_rlc_dl_header_egprs_1" where
  "dl1_of bs = \<lparr>dl1_usf = field bs 0, dl1_es_p = field bs 3, dl1_rrbp = field bs 5, dl1_tfi_hi = field bs 7,
     dl1_tfi_lo = field bs 8, dl1_pr = field bs 12, dl1_bsn1_hi = field bs 14, dl1_bsn1_mid = field bs 16,
     dl1_bsn1_lo = field bs 24, dl1_bsn2_hi = field bs 25, dl1_bsn2_lo = field bs 32, dl1_cps = field bs 35\<rparr>"

definition dl2_of :: "bool list \<Rightarrow> gprs_rlc_dl_header_egprs_2" where
  "dl2_of bs = \<lparr>dl2_usf = field bs 0, dl2_es_p = field bs 3, dl2_rrbp = field bs 5, dl2_tfi_hi = field bs 7,
     dl2_tfi_lo = field bs 8, dl2_pr = field bs 12, dl2_bsn1_hi = field bs 14, dl2_bsn1_mid = field bs 16,
     dl2_bsn1_lo = field bs 24, dl2_cps = field bs 25, dl2_dummy = field bs 28\<rparr>"

definition dl3_of :: "bool list \<Rightarrow> gprs_rlc_dl_header_egprs_3" where
  "dl3_of bs = \<lparr>dl3_usf = field bs 0, dl3_es_p = field bs 3, dl3_rrbp = field bs 5, dl3_tfi_hi = field bs 7,
     dl3_tfi_lo = field bs 8, dl3_pr = field bs 12, dl3_bsn1_hi = field bs 14, dl3_bsn1_mid = field bs 16,
     dl3_bsn1_lo = field bs 24, dl3_cps = field bs 25, dl3_spb = field bs 29, dl3_dummy = field bs 31\<rparr>"

section \<open>Copies with a shift\<close>

text \<open>
  The source and the target are what the pointers can reach; an access past them is
  \<^const>\<open>OutOfBounds\<close>. The aligned copy returns the \<^verbatim>\<open>length_bytes\<close> octets it writes.
\<close>

definition clone_aligned_buffer_lsbf :: "nat \<Rightarrow> nat \<Rightarrow> octets \<Rightarrow> octets result" where
  "clone_aligned_buffer_lsbf offset_bits length_bytes src =
    (let hdr_bytes = offset_bits div 8; extra_bits = offset_bits mod 8 in
     if extra_bits = 0 then
       if length src < hdr_bytes + length_bytes then Inl OutOfBounds
       else Inr (take length_bytes (drop hdr_bytes src))
     else if length src < hdr_bytes + 1 + length_bytes then Inl OutOfBounds
     else Inr (map (\<lambda>i. drop_bit extra_bits (src ! (hdr_bytes + i)) OR push_bit (8 - extra_bits) (src ! (hdr_bytes + 1 + i)))
            [0..<length_bytes]))"

text \<open>
  The other copy works in place on the target: the loop, the repair of the octet after it, and the
  repair of the first two.
\<close>

fun clone_loop :: "nat \<Rightarrow> nat \<Rightarrow> octets \<Rightarrow> nat \<Rightarrow> u8 \<Rightarrow> octets \<Rightarrow> nat \<Rightarrow> u8 \<times> octets" where
  "clone_loop extra_bits 0 src i last_c buffer dst = (last_c, buffer)"
| "clone_loop extra_bits (Suc n) src i last_c buffer dst =
     clone_loop extra_bits n src (i + 1) (src ! i)
       (buffer[dst := drop_bit (8 - extra_bits) last_c OR push_bit extra_bits (src ! i)]) (dst + 1)"

definition clone_unaligned_buffer_lsbf :: "nat \<Rightarrow> nat \<Rightarrow> octets \<Rightarrow> octets \<Rightarrow> octets result" where
  "clone_unaligned_buffer_lsbf offset_bits length_bytes src buffer =
    (let hdr_bytes = offset_bits div 8; extra_bits = offset_bits mod 8 in
     if extra_bits = 0 then
       if length src < hdr_bytes + length_bytes \<or> length buffer < length_bytes then Inl OutOfBounds
       else Inr (take length_bytes (drop hdr_bytes src) @ drop length_bytes buffer)
     else if length src < max 1 length_bytes \<or> length buffer \<le> hdr_bytes + max 1 length_bytes then Inl OutOfBounds
     else
       let last_hdr_c = buffer ! hdr_bytes;
           (last_c, buffer) = clone_loop extra_bits length_bytes src 0 (push_bit (8 - extra_bits) last_hdr_c) buffer hdr_bytes;
           end_dst = hdr_bytes + length_bytes;
           buffer = buffer[end_dst := (buffer ! end_dst AND push_bit extra_bits 0xff) OR drop_bit (8 - extra_bits) last_c];
           buffer = buffer[hdr_bytes := last_hdr_c OR push_bit (8 - extra_bits) (src ! 0)];
           buffer = buffer[hdr_bytes + 1 := buffer ! (hdr_bytes + 1) OR (drop_bit extra_bits (src ! 0) AND drop_bit (8 - extra_bits) 0xff)]
       in Inr buffer)"

section \<open>Bits: lemmas\<close>

lemma bits_of_simps [simp]: "bits_of [] = []" "bits_of (x # xs) = map (bit x) [0..<8] @ bits_of xs"
  by (simp_all add: bits_of_def)

lemma bits_of_append: "bits_of (xs @ ys) = bits_of xs @ bits_of ys"
  by (simp add: bits_of_def)

lemma length_bits_of [simp]: "length (bits_of xs) = 8 * length xs"
  by (induction xs) simp_all

lemma nth_bits_of: "j < 8 * length xs \<Longrightarrow> bits_of xs ! j = bit (xs ! (j div 8)) (j mod 8)"
proof (induction xs arbitrary: j)
  case (Cons x xs)
  show ?case
  proof (cases "j < 8")
    case True
    then show ?thesis by (simp add: nth_append)
  next
    case False
    then obtain i where i: "j = i + 8" by (metis add.commute le_add_diff_inverse not_less)
    moreover have "(i + 8) div 8 = Suc (i div 8)" by simp
    ultimately show ?thesis using Cons by (simp add: nth_append)
  qed
qed simp

lemma nth_bits_of': "i < length xs \<Longrightarrow> k < 8 \<Longrightarrow> bits_of xs ! (8 * i + k) = bit (xs ! i) k"
  by (subst nth_bits_of) simp_all

lemma length_word_bits [simp]: "length (word_bits (w :: 'a::len word)) = LENGTH('a)"
  by (simp add: word_bits_def)

lemma bit_field [bit_simps]: "bit (field bs n :: 'a::len word) k \<longleftrightarrow> k < LENGTH('a) \<and> n + k < length bs \<and> bs ! (n + k)"
  by (auto simp: field_def bit_horner_sum_bit_word_iff)

lemma field_word_bits: "field (word_bits w @ rest) 0 = (w :: 'a::len word)"
  by (rule bit_word_eqI) (simp add: bit_simps word_bits_def nth_append)

lemma field_skip: "length (word_bits w) \<le> n \<Longrightarrow> field (word_bits (w :: 'b::len word) @ rest) n = (field rest (n - LENGTH('b)) :: 'a::len word)"
  by (rule bit_word_eqI) (auto simp: bit_simps nth_append)

lemma field_here: "field (word_bits w @ rest) 0 = (w :: 'a::len word)" "field (word_bits w) 0 = w"
  using field_word_bits [of w "[]"] by (simp_all add: field_word_bits)

lemmas field_simps_struct = field_here field_skip

lemma length_octets_of [simp]: "length (octets_of bs) = length bs div 8"
  by (simp add: octets_of_def)

lemma bits_of_octets_of: "length bs = 8 * n \<Longrightarrow> bits_of (octets_of bs) = bs"
  by (rule nth_equalityI) (auto simp: nth_bits_of octets_of_def bit_simps less_mult_imp_div_less mult.commute)

lemma octets_of_bits_of: "octets_of (bits_of xs) = xs"
  by (rule nth_equalityI) (auto simp: octets_of_def nth_bits_of' bit_simps intro!: bit_word_eqI)

lemma octets_eq_bits: "bits_of xs = bits_of ys \<Longrightarrow> xs = ys"
  by (metis octets_of_bits_of)

text \<open>
  A structure of a fixed number of octets, written to memory and read back from the start of what
  is there.
\<close>

locale packed_struct =
  fixes size_octets :: nat and to_bits :: "'s \<Rightarrow> bool list" and of_bits :: "bool list \<Rightarrow> 's"
  assumes length_to_bits: "length (to_bits s) = 8 * size_octets"
    and of_to_bits: "of_bits (to_bits s @ rest) = s"
begin

lemma length_octets: "length (octets_of (to_bits s)) = size_octets"
  by (simp add: length_to_bits)

lemma read_back: "of_bits (bits_of (octets_of (to_bits s) @ rest)) = s"
  by (simp add: bits_of_append bits_of_octets_of [OF length_to_bits] of_to_bits)

lemma storage_inject: "octets_of (to_bits s) = octets_of (to_bits t) \<longleftrightarrow> s = t"
proof
  assume "octets_of (to_bits s) = octets_of (to_bits t)"
  then have "of_bits (bits_of (octets_of (to_bits s) @ [])) = of_bits (bits_of (octets_of (to_bits t) @ []))" by (simp only:)
  then show "s = t" by (simp only: read_back)
qed simp

end

interpretation ul1: packed_struct 6 ul1_bits ul1_of
  by (unfold_locales, simp add: ul1_bits_def, simp add: ul1_bits_def ul1_of_def field_simps_struct)

interpretation ul2: packed_struct 5 ul2_bits ul2_of
  by (unfold_locales, simp add: ul2_bits_def, simp add: ul2_bits_def ul2_of_def field_simps_struct)

interpretation ul3: packed_struct 4 ul3_bits ul3_of
  by (unfold_locales, simp add: ul3_bits_def, simp add: ul3_bits_def ul3_of_def field_simps_struct)

section \<open>Copies: lemmas\<close>

lemma drop_bits_of: "drop (8 * n) (bits_of xs) = bits_of (drop n xs)"
  by (rule nth_equalityI) (auto simp: nth_bits_of nth_drop div_add1_eq simp flip: add_mult_distrib2)

lemma take_bits_of: "take (8 * n) (bits_of xs) = bits_of (take n xs)"
  by (rule nth_equalityI) (auto simp: nth_bits_of less_mult_imp_div_less mult.commute)

text \<open>The aligned copy reads a string of bits.\<close>

lemma clone_aligned_nth:
  assumes "ofs mod 8 \<noteq> 0" "ofs div 8 + 1 + i < length src" "k < 8"
  shows "bit (drop_bit (ofs mod 8) (src ! (ofs div 8 + i)) OR push_bit (8 - ofs mod 8) (src ! (ofs div 8 + 1 + i))) k
    = bits_of src ! (ofs + (8 * i + k))"
proof -
  define h x where "h = ofs div 8" and "x = ofs mod 8"
  have ofs: "ofs = 8 * h + x" and x8: "x < 8" by (simp_all add: h_def x_def)
  show ?thesis
  proof (cases "x + k < 8")
    case True
    have "ofs + (8 * i + k) = 8 * (h + i) + (x + k)" by (simp add: ofs)
    then have "bits_of src ! (ofs + (8 * i + k)) = bit (src ! (h + i)) (x + k)"
      using True assms(2) by (simp only:) (rule nth_bits_of', simp_all add: h_def)
    moreover have "\<not> 8 - x \<le> k" using True by simp
    ultimately show ?thesis using True assms(3) by (simp add: bit_simps flip: h_def x_def)
  next
    case False
    have "ofs + (8 * i + k) = 8 * (h + 1 + i) + (x + k - 8)" using False by (simp add: ofs)
    then have "bits_of src ! (ofs + (8 * i + k)) = bit (src ! (h + 1 + i)) (x + k - 8)"
      using False assms(2,3) mod_less_divisor [of 8 ofs] by (simp only:) (rule nth_bits_of', simp_all add: h_def x_def)
    moreover have "k - (8 - x) = x + k - 8" "8 - x \<le> k" "\<not> bit (src ! (h + i)) (x + k)"
      using False x8 by (auto dest: bit_imp_le_length)
    ultimately show ?thesis using False assms(3) by (simp add: bit_simps add.commute flip: h_def x_def)
  qed
qed

lemma clone_aligned_bits:
  assumes "clone_aligned_buffer_lsbf ofs n src = Inr dst"
  shows "bits_of dst = take (8 * n) (drop ofs (bits_of src)) \<and> length dst = n"
proof (cases "ofs mod 8 = 0")
  case True
  then have d: "dst = take n (drop (ofs div 8) src)" "ofs div 8 + n \<le> length src"
    using assms by (auto simp: clone_aligned_buffer_lsbf_def Let_def split: if_splits)
  have "ofs = 8 * (ofs div 8)" using True by presburger
  then have "drop ofs (bits_of src) = bits_of (drop (ofs div 8) src)" by (metis drop_bits_of)
  with d show ?thesis by (simp add: take_bits_of)
next
  case False
  then have d: "dst = map (\<lambda>i. drop_bit (ofs mod 8) (src ! (ofs div 8 + i)) OR push_bit (8 - ofs mod 8) (src ! (ofs div 8 + 1 + i))) [0..<n]"
    and l: "ofs div 8 + 1 + n \<le> length src"
    using assms by (auto simp: clone_aligned_buffer_lsbf_def Let_def split: if_splits)
  have ll: "ofs + 8 * n \<le> 8 * length src" using l by presburger
  have nth: "bits_of dst ! j = bits_of src ! (ofs + j)" if j: "j < 8 * n" for j
  proof -
    define i k where "i = j div 8" and "k = j mod 8"
    have jk: "j = 8 * i + k" "k < 8" "i < n" using j by (simp_all add: i_def k_def less_mult_imp_div_less mult.commute)
    have "bits_of dst ! j = bit (dst ! i) k" unfolding jk(1) by (rule nth_bits_of') (simp_all add: d jk)
    also have "\<dots> = bits_of src ! (ofs + (8 * i + k))"
      using clone_aligned_nth [OF False _ jk(2), of i src] jk(3) l by (simp add: d)
    finally show ?thesis using jk(1) by simp
  qed
  have "length dst = n" by (simp add: d)
  moreover have "bits_of dst = take (8 * n) (drop ofs (bits_of src))"
    by (rule nth_equalityI) (use ll nth in \<open>simp_all add: d\<close>)
  ultimately show ?thesis by blast
qed

text \<open>The loop of the other copy.\<close>

lemma clone_loop_fst: "fst (clone_loop x n src i prev buffer dst) = (if n = 0 then prev else src ! (i + n - 1))"
  by (induction n arbitrary: i prev buffer dst) auto

lemma clone_loop_length: "length (snd (clone_loop x n src i prev buffer dst)) = length buffer"
  by (induction n arbitrary: i prev buffer dst) auto

lemma clone_loop_outside: "p < dst \<or> dst + n \<le> p \<Longrightarrow> snd (clone_loop x n src i prev buffer dst) ! p = buffer ! p"
  by (induction n arbitrary: i prev buffer dst) auto

lemma clone_loop_nth:
  "j < n \<Longrightarrow> dst + n \<le> length buffer \<Longrightarrow> snd (clone_loop x n src i prev buffer dst) ! (dst + j)
    = drop_bit (8 - x) (if j = 0 then prev else src ! (i + j - 1)) OR push_bit x (src ! (i + j))"
proof (induction n arbitrary: i prev buffer dst j)
  case (Suc n)
  show ?case
  proof (cases j)
    case 0
    with Suc.prems show ?thesis by (simp add: clone_loop_outside)
  next
    case (Suc m)
    then show ?thesis
      using Suc.IH [of m "dst + 1" "buffer[dst := drop_bit (8 - x) prev OR push_bit x (src ! i)]" "i + 1" "src ! i"] Suc.prems
      by (cases m) simp_all
  qed
qed simp

text \<open>
  The copy to a bit position that is one past an octet boundary, as the headers of type 3 need it,
  on a target that ends in the octet in which the data start: the low bits of the first octet of the
  data go to the top bit of that octet and the low bit of the next, the others follow.
\<close>

lemma clone_unaligned_shift1:
  assumes hdr: "length hdr = 4" and d: "d \<in> {0, 1, 2, 3}" and mem: "4 \<le> length beyond" "length data + 5 \<le> length space"
  defines "rest \<equiv> data @ beyond"
  shows "\<exists>buffer. clone_unaligned_buffer_lsbf 25 (length data + 5) (d # rest) (hdr @ space) = Inr buffer \<and>
    length buffer = 4 + length space \<and>
    (\<forall>p < length data + 5. buffer ! p = (if p < 3 then hdr ! p else if p = 3 then hdr ! 3 OR push_bit 7 d
      else if p = 4 then push_bit 1 (rest ! 0) OR drop_bit 1 d
      else drop_bit 7 (rest ! (p - 5)) OR push_bit 1 (rest ! (p - 4))))"
proof -
  let ?src = "d # rest" and ?n = "length data + 5" and ?b0 = "hdr @ space"
  let ?loop = "clone_loop 1 ?n ?src 0 (push_bit 7 (?b0 ! 3)) ?b0 3"
  let ?b1 = "snd ?loop"
  have l: "length ?b0 = 4 + length space" "space \<noteq> []" using hdr mem by auto
  have d1: "drop_bit 7 d = 0" "drop_bit 1 d AND drop_bit 7 0xff = drop_bit 1 d"
    using d by auto
  define b2 where "b2 = ?b1[3 + ?n := (?b1 ! (3 + ?n) AND push_bit 1 0xff) OR drop_bit 7 (fst ?loop)]"
  define b3 where "b3 = b2[3 := ?b0 ! 3 OR push_bit 7 d]"
  define b4 where "b4 = b3[4 := b3 ! 4 OR (drop_bit 1 d AND drop_bit 7 0xff)]"
  have "clone_unaligned_buffer_lsbf 25 ?n ?src ?b0 = Inr b4"
    using hdr mem by (simp add: clone_unaligned_buffer_lsbf_def Let_def split_beta rest_def b2_def b3_def b4_def)
  moreover have "length b4 = 4 + length space" by (simp add: b2_def b3_def b4_def clone_loop_length hdr)
  moreover have "b4 ! p = (if p < 3 then hdr ! p else if p = 3 then hdr ! 3 OR push_bit 7 d
      else if p = 4 then push_bit 1 (rest ! 0) OR drop_bit 1 d
      else drop_bit 7 (rest ! (p - 5)) OR push_bit 1 (rest ! (p - 4)))" if p: "p < ?n" for p
  proof -
    have in_loop: "?b1 ! (3 + j) = drop_bit 7 (if j = 0 then push_bit 7 (?b0 ! 3) else ?src ! (j - 1)) OR push_bit 1 (?src ! j)"
      if "j < ?n" for j
      using clone_loop_nth [of j ?n 3 ?b0 1 ?src 0 "push_bit 7 (?b0 ! 3)"] that mem hdr by simp
    consider "p < 3" | "p = 3" | "p = 4" | "5 \<le> p" by linarith
    then show ?thesis
    proof cases
      case 1
      then have "?b1 ! p = ?b0 ! p" by (simp add: clone_loop_outside)
      with 1 hdr show ?thesis by (simp add: b4_def b3_def b2_def nth_append)
    next
      case 2
      with hdr mem l show ?thesis by (simp add: b4_def b3_def b2_def nth_append clone_loop_length)
    next
      case 3
      then have "?b1 ! 4 = push_bit 1 (rest ! 0)" using in_loop [of 1] p d1 by simp
      with 3 hdr mem l d1 show ?thesis by (simp add: b4_def b3_def b2_def clone_loop_length)
    next
      case 4
      then obtain q where q: "p = 5 + q" using le_Suc_ex by blast
      then have "?b1 ! (3 + (q + 2)) = drop_bit 7 (rest ! q) OR push_bit 1 (rest ! (q + 1))"
        using in_loop [of "q + 2"] p by simp
      moreover have "3 + (q + 2) = p" "p - 5 = q" "p - 4 = q + 1" using q by simp_all
      ultimately have "?b1 ! p = drop_bit 7 (rest ! (p - 5)) OR push_bit 1 (rest ! (p - 4))" by (simp only:)
      with 4 p show ?thesis by (simp add: b4_def b3_def b2_def)
    qed
  qed
  ultimately show ?thesis by blast
qed

text \<open>
  As strings of bits: 31 bits of the header, the two bits of the block header, the data, and seven
  bits of what lies in memory after the data.
\<close>

lemma clone_unaligned_bits:
  assumes hdr: "length hdr = 4" "\<not> bit (hdr ! 3) 7" and d: "d \<in> {0, 1, 2, 3}"
    and mem: "4 \<le> length beyond" "length data + 5 \<le> length space"
  shows "\<exists>buffer. clone_unaligned_buffer_lsbf 25 (length data + 5) (d # data @ beyond) (hdr @ space) = Inr buffer \<and>
    length buffer = 4 + length space \<and>
    bits_of (take (length data + 5) buffer)
      = take 31 (bits_of hdr) @ [bit d 0, bit d 1] @ bits_of data @ take 7 (bits_of beyond)"
proof -
  obtain buffer where b: "clone_unaligned_buffer_lsbf 25 (length data + 5) (d # data @ beyond) (hdr @ space) = Inr buffer"
      "length buffer = 4 + length space"
    and nth: "\<And>p. p < length data + 5 \<Longrightarrow> buffer ! p = (if p < 3 then hdr ! p else if p = 3 then hdr ! 3 OR push_bit 7 d
      else if p = 4 then push_bit 1 ((data @ beyond) ! 0) OR drop_bit 1 d
      else drop_bit 7 ((data @ beyond) ! (p - 5)) OR push_bit 1 ((data @ beyond) ! (p - 4)))"
    using clone_unaligned_shift1 [OF hdr(1) d mem] by auto
  let ?rest = "bits_of (data @ beyond)"
  let ?rhs = "take 31 (bits_of hdr) @ [bit d 0, bit d 1] @ take (8 * length data + 7) ?rest"
  have d2: "bit d k \<Longrightarrow> k < 2" for k
  proof -
    assume "bit d k"
    moreover have "take_bit 2 d = d" using d by auto
    ultimately show "k < 2" by (metis bit_take_bit_iff)
  qed
  have rhs: "?rhs ! m = (if m < 31 then bits_of hdr ! m else if m = 31 then bit d 0 else if m = 32 then bit d 1
      else ?rest ! (m - 33))" if "m < 8 * length data + 40" for m
  proof -
    consider "m < 31" | "m = 31" | "m = 32" | "33 \<le> m" by linarith
    then show ?thesis using that hdr by cases (simp_all add: nth_append nth_Cons')
  qed
  have bits: "bit (buffer ! p) k = ?rhs ! (8 * p + k)" if p: "p < length data + 5" "k < 8" for p k
  proof -
    have lr: "length data < length (data @ beyond)" "beyond \<noteq> []" using mem by auto
    have m: "8 * p + k < 8 * length data + 40" using p by simp
    consider "p < 3" | "p = 3" | "p = 4" "k = 0" | "p = 4" "k > 0" | "5 \<le> p" "k = 0" | "5 \<le> p" "k > 0" by linarith
    then show ?thesis
    proof cases
      case 1
      then have "?rhs ! (8 * p + k) = bits_of hdr ! (8 * p + k)" unfolding rhs [OF m] using p by simp
      also have "\<dots> = bit (hdr ! p) k" by (rule nth_bits_of') (use 1 hdr p in simp_all)
      finally show ?thesis using 1 p by (simp add: nth)
    next
      case 2
      have "bits_of hdr ! (8 * 3 + k) = bit (hdr ! 3) k" by (rule nth_bits_of') (use hdr p in simp_all)
      then have "?rhs ! (8 * p + k) = (if k = 7 then bit d 0 else bit (hdr ! 3) k)" unfolding rhs [OF m] using 2 p by simp
      with 2 p hdr show ?thesis by (auto simp: nth bit_simps)
    next
      case 3
      then have "?rhs ! (8 * p + k) = bit d 1" unfolding rhs [OF m] by simp
      with 3 p show ?thesis by (simp add: nth bit_simps del: push_bit_Suc bit_0)
    next
      case 4
      have "?rest ! (8 * 0 + (k - 1)) = bit ((data @ beyond) ! 0) (k - 1)" by (rule nth_bits_of') (use lr p in auto)
      then have "?rhs ! (8 * p + k) = bit ((data @ beyond) ! 0) (k - 1)" unfolding rhs [OF m] using 4 by simp
      moreover have "\<not> bit d (Suc k)" using d2 [of "Suc k"] 4 by auto
      ultimately show ?thesis using 4 p by (simp add: nth bit_simps del: push_bit_Suc)
    next
      case 5
      have "?rest ! (8 * (p - 5) + 7) = bit ((data @ beyond) ! (p - 5)) 7" by (rule nth_bits_of') (use lr(1) p 5 in linarith)+
      moreover have "8 * p + k - 33 = 8 * (p - 5) + 7" using 5 by simp
      ultimately have "?rhs ! (8 * p + k) = bit ((data @ beyond) ! (p - 5)) 7" unfolding rhs [OF m] using 5 by simp
      with 5 p show ?thesis by (simp add: nth bit_simps del: push_bit_Suc)
    next
      case 6
      have "?rest ! (8 * (p - 4) + (k - 1)) = bit ((data @ beyond) ! (p - 4)) (k - 1)" by (rule nth_bits_of') (use lr(1) p 6 in linarith)+
      moreover have "8 * p + k - 33 = 8 * (p - 4) + (k - 1)" using 6 by simp
      ultimately have "?rhs ! (8 * p + k) = bit ((data @ beyond) ! (p - 4)) (k - 1)" unfolding rhs [OF m] using 6 by simp
      moreover have "\<not> bit ((data @ beyond) ! (p - 5)) (7 + k)" using 6 by (auto dest: bit_imp_le_length)
      ultimately show ?thesis using 6 p by (simp add: nth bit_simps del: push_bit_Suc)
    qed
  qed
  have lt: "length (take (length data + 5) buffer) = length data + 5" using b mem by simp
  have "bits_of (take (length data + 5) buffer) = ?rhs"
  proof (rule nth_equalityI)
    show "length (bits_of (take (length data + 5) buffer)) = length ?rhs" using lt hdr mem by simp
  next
    fix j assume "j < length (bits_of (take (length data + 5) buffer))"
    then have j: "j < 8 * (length data + 5)" using lt by simp
    then have "j div 8 < length data + 5" by (simp add: less_mult_imp_div_less mult.commute)
    with bits [of "j div 8" "j mod 8"] j lt show "bits_of (take (length data + 5) buffer) ! j = ?rhs ! j"
      by (simp add: nth_bits_of)
  qed
  moreover have "take (8 * length data + 7) ?rest = bits_of data @ take 7 (bits_of beyond)" by (simp add: bits_of_append)
  ultimately show ?thesis using b by auto
qed

end
