(* ===== verification/RLCMAC_Types.thy ===== *)
theory RLCMAC_Types
  imports RLCMAC_Bits
begin

text \<open>
  The vocabulary of \<^verbatim>\<open>library/RLCMAC_EncDec.cc\<close>: the records and enumerations of
  \<^verbatim>\<open>RLCMAC_Types.ttcn\<close>, what the code uses of the TITAN runtime, and the tables of coding schemes,
  those of the C++ file and those it calls in \<^verbatim>\<open>RLCMAC_Templates.ttcn\<close>.
\<close>

unbundle bit_operations_syntax

section \<open>Types\<close>

datatype CodingScheme = CS_1 | CS_2 | CS_3 | CS_4 | MCS_0 | MCS_1 | MCS_2 | MCS_3 | MCS_4 | MCS_5 | MCS_6 | MCS_7 | MCS_8 | MCS_9

datatype EgprsHeaderType = RLCMAC_HDR_TYPE_1 | RLCMAC_HDR_TYPE_2 | RLCMAC_HDR_TYPE_3

datatype MacPayloadType = MAC_PT_RLC_DATA | MAC_PT_RLCMAC_NO_OPT | MAC_PT_RLCMAC_OPT | MAC_PT_RESERVED

datatype MacRrbp = RRBP_Nplus13 | RRBP_Nplus17_or_18 | RRBP_Nplus21_or_22 | RRBP_Nplus26

datatype PowerReduction = PWR_RED_0_to_3dB | PWR_RED_3_to_7dB | PWR_RED_7_to_10dB | PWR_RED_RESERVED

text \<open>The coding schemes are ordered as they are enumerated.\<close>

definition cs_enum :: "CodingScheme \<Rightarrow> nat" where
  "cs_enum c = (case c of CS_1 \<Rightarrow> 0 | CS_2 \<Rightarrow> 1 | CS_3 \<Rightarrow> 2 | CS_4 \<Rightarrow> 3 | MCS_0 \<Rightarrow> 4 | MCS_1 \<Rightarrow> 5 | MCS_2 \<Rightarrow> 6 | MCS_3 \<Rightarrow> 7
     | MCS_4 \<Rightarrow> 8 | MCS_5 \<Rightarrow> 9 | MCS_6 \<Rightarrow> 10 | MCS_7 \<Rightarrow> 11 | MCS_8 \<Rightarrow> 12 | MCS_9 \<Rightarrow> 13)"

lemma cs_enum_inject [simp]: "cs_enum a = cs_enum b \<longleftrightarrow> a = b"
  by (cases a; cases b) (simp_all add: cs_enum_def)

instantiation CodingScheme :: linorder
begin

definition less_eq_CodingScheme :: "CodingScheme \<Rightarrow> CodingScheme \<Rightarrow> bool" where
  "less_eq_CodingScheme a b \<longleftrightarrow> cs_enum a \<le> cs_enum b"

definition less_CodingScheme :: "CodingScheme \<Rightarrow> CodingScheme \<Rightarrow> bool" where
  "less_CodingScheme a b \<longleftrightarrow> cs_enum a < cs_enum b"

instance
  by standard (auto simp: less_eq_CodingScheme_def less_CodingScheme_def)

end

text \<open>An optional field of a TTCN-3 value: not initialised, \<^verbatim>\<open>omit\<close>, or a value.\<close>

datatype 'a opt = Unbound | Omit | Present 'a

record LlcBlockHdr =
  length_ind :: nat
  more_pdu :: bool
  hdr_e :: bool

record EgprsLlcBlockHdr =
  egprs_length_ind :: nat
  egprs_hdr_e :: bool

record 'h LlcBlockOf =
  hdr :: "'h opt"
  payload :: "octets option"

type_synonym LlcBlock = "LlcBlockHdr LlcBlockOf"
type_synonym EgprsLlcBlock = "EgprsLlcBlockHdr LlcBlockOf"

record DlMacHeader =
  payload_type :: MacPayloadType
  rrbp :: MacRrbp
  rrbp_valid :: bool
  usf :: nat

record DlMacHdrDataExt =
  pr :: PowerReduction
  ext_spare :: bool
  tfi :: nat
  fbi :: bool
  bsn :: nat
  ext_e :: bool

record DlMacDataHeader =
  mac_hdr :: DlMacHeader
  hdr_ext :: DlMacHdrDataExt

record RlcmacDlDataBlock =
  dl_cs :: CodingScheme
  dl_mac_hdr :: DlMacDataHeader
  dl_blocks :: "LlcBlock list option"

record EgprsDlMacDataHeader =
  edl_header_type :: EgprsHeaderType
  edl_tfi :: nat
  edl_rrbp :: MacRrbp
  edl_esp :: "bool list"
  edl_usf :: nat
  edl_bsn1 :: nat
  edl_bsn2_offset :: nat
  edl_pr :: nat
  edl_spb :: "nat opt"
  edl_cps :: nat

record RlcmacDlEgprsDataBlock =
  edl_mcs :: CodingScheme
  edl_mac_hdr :: EgprsDlMacDataHeader
  edl_fbi :: bool
  edl_e :: bool
  edl_blocks :: "EgprsLlcBlock list option"

record UlMacDataHeader =
  ul_payload_type :: MacPayloadType
  countdown :: nat
  stall_ind :: bool
  retry :: bool
  ul_spare :: bool
  pfi_ind :: bool
  ul_tfi :: nat
  tlli_ind :: bool
  ul_bsn :: nat
  ul_e :: bool

record RlcMacUlPfi =
  pfi_value :: nat
  pfi_m :: bool

record RlcmacUlDataBlock =
  ul_cs :: CodingScheme
  ul_mac_hdr :: UlMacDataHeader
  ul_tlli :: "octets opt"
  ul_pfi :: "RlcMacUlPfi opt"
  ul_blocks :: "LlcBlock list option"

record EgprsUlMacDataHeader =
  eul_header_type :: EgprsHeaderType
  eul_tfi :: nat
  eul_countdown :: nat
  eul_foi_si :: "bool list"
  eul_r_ri :: "bool list"
  eul_bsn1 :: nat
  eul_bsn2_offset :: "nat option"
  eul_cps :: nat
  eul_pfi_ind :: bool
  eul_rsb :: "bool list"
  eul_spb :: "bool list opt"

record RlcmacUlEgprsDataBlock =
  eul_mcs :: CodingScheme
  eul_mac_hdr :: EgprsUlMacDataHeader
  eul_tlli_ind :: bool
  eul_e :: bool
  eul_tlli :: "octets opt"
  eul_pfi :: "RlcMacUlPfi opt"
  eul_blocks :: "EgprsLlcBlock list option"

datatype 'c RlcmacDlBlock = DlData RlcmacDlDataBlock | DlDataEgprs RlcmacDlEgprsDataBlock | DlCtrl 'c

datatype 'c RlcmacUlBlock = UlData RlcmacUlDataBlock | UlDataEgprs RlcmacUlEgprsDataBlock | UlCtrl 'c

section \<open>The TITAN runtime\<close>

text \<open>
  The generated RAW codecs of the records of fixed size (an encoder that may refuse its value, and a
  decoder of the record's octets), those of the control blocks, and whether \<^verbatim>\<open>is_bound\<close> holds of an
  optional field that is \<^verbatim>\<open>omit\<close>.
\<close>

type_synonym 'a raw = "('a \<Rightarrow> octets result) \<times> (octets \<Rightarrow> 'a)"

record ('d, 'u) titan =
  omit_is_bound :: bool
  raw_LlcBlockHdr :: "LlcBlockHdr raw"
  raw_EgprsLlcBlockHdr :: "EgprsLlcBlockHdr raw"
  raw_DlMacDataHeader :: "DlMacDataHeader raw"
  raw_UlMacDataHeader :: "UlMacDataHeader raw"
  raw_pfi :: "RlcMacUlPfi raw"
  enc_RlcmacDlCtrlBlock :: "'d \<Rightarrow> octets result"
  dec_RlcmacDlCtrlBlock :: "octets \<Rightarrow> 'd result"
  enc_RlcmacUlCtrlBlock :: "'u \<Rightarrow> octets result"
  dec_RlcmacUlCtrlBlock :: "octets \<Rightarrow> 'u result"

text \<open>Decoding a record of \<open>n\<close> octets from the front of a buffer; too short a buffer is an error.\<close>

definition raw_decode :: "nat \<Rightarrow> 'a raw \<Rightarrow> octets \<Rightarrow> ('a \<times> octets) result" where
  "raw_decode n c buf = (if length buf < n then Inl TtcnError else Inr (snd c (take n buf), drop n buf))"

definition opt_is_bound :: "bool \<Rightarrow> 'a opt \<Rightarrow> bool" where
  "opt_is_bound omit_bound x = (case x of Unbound \<Rightarrow> False | Omit \<Rightarrow> omit_bound | Present _ \<Rightarrow> True)"

definition block_is_bound :: "bool \<Rightarrow> 'h LlcBlockOf \<Rightarrow> bool" where
  "block_is_bound omit_bound b \<longleftrightarrow> opt_is_bound omit_bound (hdr b) \<or> payload b \<noteq> None"

text \<open>The constructor from \<open>n\<close> bits of memory: the first bit of the string is the lowest.\<close>

definition BITSTRING :: "nat \<Rightarrow> u8 \<Rightarrow> bool list" where
  "BITSTRING n tmp = map (bit tmp) [0..<n]"

text \<open>The assignment of an integer to an enumerated field.\<close>

definition rrbp_of_int :: "nat \<Rightarrow> MacRrbp" where
  "rrbp_of_int n = (if n = 0 then RRBP_Nplus13 else if n = 1 then RRBP_Nplus17_or_18 else if n = 2 then RRBP_Nplus21_or_22
     else RRBP_Nplus26)"

section \<open>Tables\<close>

definition payload_len_2_coding_scheme :: "nat \<Rightarrow> CodingScheme" where
  "payload_len_2_coding_scheme payload_len =
    (if payload_len = 23 then CS_1 else if payload_len = 34 then CS_2 else if payload_len = 40 then CS_3
     else if payload_len = 54 then CS_4 else if payload_len = 27 then MCS_1 else if payload_len = 33 then MCS_2
     else if payload_len = 42 then MCS_3 else if payload_len = 49 then MCS_4
     else if payload_len = 60 \<or> payload_len = 61 then MCS_5 else if payload_len = 78 \<or> payload_len = 79 then MCS_6
     else if payload_len = 118 \<or> payload_len = 119 then MCS_7 else if payload_len = 142 \<or> payload_len = 143 then MCS_8
     else if payload_len = 154 \<or> payload_len = 155 then MCS_9 else CS_1)"

definition coding_scheme_2_data_block_len :: "CodingScheme \<Rightarrow> nat" where
  "coding_scheme_2_data_block_len mcs = (case mcs of MCS_0 \<Rightarrow> 0 | MCS_1 \<Rightarrow> 22 | MCS_2 \<Rightarrow> 28 | MCS_3 \<Rightarrow> 37 | MCS_4 \<Rightarrow> 44
     | MCS_5 \<Rightarrow> 56 | MCS_6 \<Rightarrow> 74 | MCS_7 \<Rightarrow> 56 | MCS_8 \<Rightarrow> 68 | MCS_9 \<Rightarrow> 74 | _ \<Rightarrow> 22)"

definition bs2uint8 :: "bool list \<Rightarrow> u8" where
  "bs2uint8 bs = foldl (\<lambda>res b. push_bit 1 res OR (if b then 1 else 0)) 0 bs"

text \<open>The number of calls is computed and not used; the result is the bits of a data block and the offsets of the two blocks.\<close>

definition setup_rlc_mac_priv :: "CodingScheme \<Rightarrow> EgprsHeaderType \<Rightarrow> bool \<Rightarrow> nat \<times> nat \<times> nat list" where
  "setup_rlc_mac_priv mcs hdrtype is_uplink =
    (let dbl = coding_scheme_2_data_block_len mcs;
         (nc, dbo) = (case hdrtype of
           RLCMAC_HDR_TYPE_1 \<Rightarrow>
             let dbo0 = (if is_uplink then 5 * 8 + 6 else 5 * 8 + 0) in (3, [dbo0, dbo0 + dbl * 8 + 2])
         | RLCMAC_HDR_TYPE_2 \<Rightarrow> (2, [if is_uplink then 4 * 8 + 5 else 3 * 8 + 4, 0])
         | RLCMAC_HDR_TYPE_3 \<Rightarrow> (2, [3 * 8 + 7, 0]))
     in (nc, dbl * 8 + 2, dbo))"

definition f_rlcmac_cs_mcs2block_len :: "CodingScheme \<Rightarrow> nat" where
  "f_rlcmac_cs_mcs2block_len cs_mcs = (case cs_mcs of CS_1 \<Rightarrow> 23 | CS_2 \<Rightarrow> 34 | CS_3 \<Rightarrow> 40 | CS_4 \<Rightarrow> 54 | MCS_0 \<Rightarrow> 0
     | MCS_1 \<Rightarrow> 27 | MCS_2 \<Rightarrow> 33 | MCS_3 \<Rightarrow> 42 | MCS_4 \<Rightarrow> 49 | MCS_5 \<Rightarrow> 61 | MCS_6 \<Rightarrow> 79 | MCS_7 \<Rightarrow> 119 | MCS_8 \<Rightarrow> 143 | MCS_9 \<Rightarrow> 155)"

definition f_rlcmac_cs_mcs2block_len_no_spare_bits :: "CodingScheme \<Rightarrow> nat" where
  "f_rlcmac_cs_mcs2block_len_no_spare_bits cs_mcs = (case cs_mcs of CS_1 \<Rightarrow> 23 | CS_2 \<Rightarrow> 33 | CS_3 \<Rightarrow> 39 | CS_4 \<Rightarrow> 53 | MCS_0 \<Rightarrow> 0
     | MCS_1 \<Rightarrow> 27 | MCS_2 \<Rightarrow> 33 | MCS_3 \<Rightarrow> 42 | MCS_4 \<Rightarrow> 49 | MCS_5 \<Rightarrow> 61 | MCS_6 \<Rightarrow> 79 | MCS_7 \<Rightarrow> 119 | MCS_8 \<Rightarrow> 143 | MCS_9 \<Rightarrow> 155)"

text \<open>An index past the end of a table is an error of the runtime.\<close>

definition cps_htype1_to_mcs :: "CodingScheme list" where
  "cps_htype1_to_mcs = [MCS_9, MCS_9, MCS_9, MCS_0, MCS_9, MCS_9, MCS_9, MCS_0, MCS_9, MCS_9, MCS_9, MCS_8, MCS_8, MCS_8, MCS_8, MCS_8,
     MCS_8, MCS_8, MCS_8, MCS_8, MCS_7, MCS_7, MCS_7, MCS_7, MCS_7, MCS_7, MCS_7, MCS_7, MCS_7, MCS_0, MCS_0, MCS_0]"

definition cps_htype2_to_mcs :: "CodingScheme list" where
  "cps_htype2_to_mcs = [MCS_6, MCS_6, MCS_6, MCS_6, MCS_5, MCS_5, MCS_5, MCS_5]"

definition cps_htype3_to_mcs :: "CodingScheme list" where
  "cps_htype3_to_mcs = [MCS_4, MCS_4, MCS_4, MCS_3, MCS_3, MCS_3, MCS_3, MCS_3, MCS_3, MCS_2, MCS_2, MCS_1, MCS_1, MCS_2, MCS_2, MCS_0]"

definition f_rlcmac_cps_htype_to_mcs :: "nat \<Rightarrow> EgprsHeaderType \<Rightarrow> CodingScheme result" where
  "f_rlcmac_cps_htype_to_mcs cps htype =
    (let table = (case htype of RLCMAC_HDR_TYPE_1 \<Rightarrow> cps_htype1_to_mcs | RLCMAC_HDR_TYPE_2 \<Rightarrow> cps_htype2_to_mcs
       | RLCMAC_HDR_TYPE_3 \<Rightarrow> cps_htype3_to_mcs)
     in if length table \<le> cps then Inl TtcnError else Inr (table ! cps))"

end
