(* ===== verification/RLCMAC_EncDec.thy ===== *)
theory RLCMAC_EncDec
  imports RLCMAC_Types
begin

text \<open>
  \<^verbatim>\<open>library/RLCMAC_EncDec.cc\<close>: the manual parts of the codec of GPRS and EGPRS RLC/MAC blocks, in both
  directions. The codecs that the TTCN-3 compiler generates are the record \<open>titan\<close> that the functions
  take.
\<close>

unbundle bit_operations_syntax

section \<open>Data blocks inside an RLC block\<close>

definition get_egprs_data_block :: "octets \<Rightarrow> nat \<Rightarrow> nat \<Rightarrow> octets result" where
  "get_egprs_data_block orig offset_bits length_bits =
    (let length_bytes = (6 + length_bits + 7) div 8 in
     map_result (\<lambda>aligned_buf. aligned_buf[0 := drop_bit 6 (aligned_buf ! 0)])
       (clone_aligned_buffer_lsbf (offset_bits - 6) length_bytes orig))"

text \<open>
  The length that the copy is given counts the octets of both buffers, so that it reads past the end
  of the aligned buffer and writes past the end of the target; what lies there are two more
  arguments. The header is first copied out of the target, through an array of 120 octets.
\<close>

definition put_egprs_data_block :: "octets \<Rightarrow> octets \<Rightarrow> octets \<Rightarrow> nat \<Rightarrow> nat \<Rightarrow> octets \<Rightarrow> octets result" where
  "put_egprs_data_block beyond space aligned_data_block offset_bits length_bits dst =
    (if 120 < length dst then Inl OutOfBounds
     else let length_bytes = length dst + length aligned_data_block in
       map_result (take length_bytes)
         (clone_unaligned_buffer_lsbf (offset_bits - 6) length_bytes (aligned_data_block @ beyond) (dst @ space)))"

definition encode_trailing_padding_spb :: "octets \<Rightarrow> CodingScheme \<Rightarrow> octets" where
  "encode_trailing_padding_spb ttcn_buffer cs =
    (let blk_len = f_rlcmac_cs_mcs2block_len cs;
         blk_len_no_spb = f_rlcmac_cs_mcs2block_len_no_spare_bits cs;
         data_len = length ttcn_buffer
     in if blk_len_no_spb < data_len then ttcn_buffer
        else ttcn_buffer @ replicate (blk_len_no_spb - data_len) 0x2b @ replicate (blk_len - blk_len_no_spb) 0x00)"

section \<open>Decoding\<close>

text \<open>The loop over the extension octets, until one whose E bit is set.\<close>

fun dec_ext_octets :: "'h raw \<Rightarrow> ('h \<Rightarrow> bool) \<Rightarrow> octets \<Rightarrow> ('h LlcBlockOf list \<times> octets) result" where
  "dec_ext_octets c e [] = Inl TtcnError"
| "dec_ext_octets c e (x # buf) =
     (let lb = \<lparr>hdr = Present (snd c [x]), payload = None\<rparr>
      in if e (snd c [x]) then Inr ([lb], buf)
         else map_result (\<lambda>(lbs, rest). (lb # lbs, rest)) (dec_ext_octets c e buf))"

text \<open>
  The loop over the blocks: \<open>len\<close> gives the length to read from the number of the block, its header
  and what is left in the buffer; no more than that is read.
\<close>

fun dec_payloads :: "(nat \<Rightarrow> 'h \<Rightarrow> nat \<Rightarrow> nat) \<Rightarrow> nat \<Rightarrow> 'h LlcBlockOf list \<Rightarrow> octets \<Rightarrow> 'h LlcBlockOf list result" where
  "dec_payloads len i [] buf = Inr []"
| "dec_payloads len i (b # bs) buf =
     (case hdr b of
        Present h \<Rightarrow>
          let n = min (len i h (length buf)) (length buf)
          in map_result ((#) (b\<lparr>payload := Some (take n buf)\<rparr>)) (dec_payloads len (i + 1) bs (drop n buf))
      | _ \<Rightarrow> Inl TtcnError)"

text \<open>A block without a length octet takes what is left.\<close>

definition whole_block :: "octets \<Rightarrow> 'h LlcBlockOf" where
  "whole_block buf = \<lparr>hdr = Omit, payload = Some buf\<rparr>"

definition dec_RlcmacDlDataBlock :: "('d, 'u) titan \<Rightarrow> octets \<Rightarrow> RlcmacDlDataBlock result" where
  "dec_RlcmacDlDataBlock t stream =
    bind_result (raw_decode 3 (raw_DlMacDataHeader t) stream) (\<lambda>(h, buf).
    let ret_val = \<lparr>dl_cs = payload_len_2_coding_scheme (length stream), dl_mac_hdr = h, dl_blocks = None\<rparr> in
    if ext_e (hdr_ext h) then Inr (ret_val\<lparr>dl_blocks := Some [whole_block buf]\<rparr>)
    else bind_result (dec_ext_octets (raw_LlcBlockHdr t) hdr_e buf) (\<lambda>(lbs, buf).
         map_result (\<lambda>bs. ret_val\<lparr>dl_blocks := Some bs\<rparr>)
           (dec_payloads (\<lambda>i h left. if i = 0 \<and> length_ind h = 0 then left else length_ind h) 0 lbs buf)))"

text \<open>The headers of type 1 to 3: the structure laid over the stream, which must be that long.\<close>

definition dec_EgprsDlMacDataHeader_type1 :: "octets \<Rightarrow> EgprsDlMacDataHeader result" where
  "dec_EgprsDlMacDataHeader_type1 stream = have_octets 5 stream
    (let egprs1 = dl1_of (bits_of stream) in
     Inr \<lparr>edl_header_type = RLCMAC_HDR_TYPE_1,
       edl_tfi = push_bit 1 (unat (dl1_tfi_lo egprs1)) OR unat (dl1_tfi_hi egprs1),
       edl_rrbp = rrbp_of_int (unat (dl1_rrbp egprs1)),
       edl_esp = BITSTRING 2 (ucast (dl1_es_p egprs1)),
       edl_usf = unat (dl1_usf egprs1),
       edl_bsn1 = push_bit 10 (unat (dl1_bsn1_lo egprs1)) OR push_bit 2 (unat (dl1_bsn1_mid egprs1)) OR unat (dl1_bsn1_hi egprs1),
       edl_bsn2_offset = push_bit 7 (unat (dl1_bsn2_lo egprs1)) OR unat (dl1_bsn2_hi egprs1),
       edl_pr = unat (dl1_pr egprs1), edl_spb = Omit, edl_cps = unat (dl1_cps egprs1)\<rparr>)"

definition dec_EgprsDlMacDataHeader_type2 :: "octets \<Rightarrow> EgprsDlMacDataHeader result" where
  "dec_EgprsDlMacDataHeader_type2 stream = have_octets 4 stream
    (let egprs2 = dl2_of (bits_of stream) in
     Inr \<lparr>edl_header_type = RLCMAC_HDR_TYPE_2,
       edl_tfi = push_bit 1 (unat (dl2_tfi_lo egprs2)) OR unat (dl2_tfi_hi egprs2),
       edl_rrbp = rrbp_of_int (unat (dl2_rrbp egprs2)),
       edl_esp = BITSTRING 2 (ucast (dl2_es_p egprs2)),
       edl_usf = unat (dl2_usf egprs2),
       edl_bsn1 = push_bit 10 (unat (dl2_bsn1_lo egprs2)) OR push_bit 2 (unat (dl2_bsn1_mid egprs2)) OR unat (dl2_bsn1_hi egprs2),
       edl_bsn2_offset = 0,
       edl_pr = unat (dl2_pr egprs2), edl_spb = Omit, edl_cps = unat (dl2_cps egprs2)\<rparr>)"

definition dec_EgprsDlMacDataHeader_type3 :: "octets \<Rightarrow> EgprsDlMacDataHeader result" where
  "dec_EgprsDlMacDataHeader_type3 stream = have_octets 4 stream
    (let egprs3 = dl3_of (bits_of stream) in
     Inr \<lparr>edl_header_type = RLCMAC_HDR_TYPE_3,
       edl_tfi = push_bit 1 (unat (dl3_tfi_lo egprs3)) OR unat (dl3_tfi_hi egprs3),
       edl_rrbp = rrbp_of_int (unat (dl3_rrbp egprs3)),
       edl_esp = BITSTRING 2 (ucast (dl3_es_p egprs3)),
       edl_usf = unat (dl3_usf egprs3),
       edl_bsn1 = push_bit 10 (unat (dl3_bsn1_lo egprs3)) OR push_bit 2 (unat (dl3_bsn1_mid egprs3)) OR unat (dl3_bsn1_hi egprs3),
       edl_bsn2_offset = 0,
       edl_pr = unat (dl3_pr egprs3), edl_spb = Present (unat (dl3_spb egprs3)), edl_cps = unat (dl3_cps egprs3)\<rparr>)"

text \<open>A coding scheme without a case leaves the header unset, and reading its type is an error.\<close>

definition dec_EgprsDlMacDataHeader :: "CodingScheme \<Rightarrow> octets \<Rightarrow> EgprsDlMacDataHeader result" where
  "dec_EgprsDlMacDataHeader mcs stream =
    (if mcs \<in> {MCS_0, MCS_1, MCS_2, MCS_3, MCS_4} then dec_EgprsDlMacDataHeader_type3 stream
     else if mcs \<in> {MCS_5, MCS_6} then dec_EgprsDlMacDataHeader_type2 stream
     else if mcs \<in> {MCS_7, MCS_8, MCS_9} then dec_EgprsDlMacDataHeader_type1 stream
     else Inl TtcnError)"

text \<open>The payload of an unsegmented block is taken from the stream, not from the aligned buffer.\<close>

definition dec_RlcmacDlEgprsDataBlock :: "('d, 'u) titan \<Rightarrow> octets \<Rightarrow> RlcmacDlEgprsDataBlock result" where
  "dec_RlcmacDlEgprsDataBlock t stream =
    (let mcs = payload_len_2_coding_scheme (length stream) in
     bind_result (dec_EgprsDlMacDataHeader mcs stream) (\<lambda>h.
     let (_, data_block_bits, data_block_offsets) = setup_rlc_mac_priv mcs (edl_header_type h) False in
     bind_result (get_egprs_data_block stream (data_block_offsets ! 0) data_block_bits) (\<lambda>aligned.
     let ti_e = aligned ! 0; buf = drop 1 aligned;
         ret_val = \<lparr>edl_mcs = mcs, edl_mac_hdr = h, edl_fbi = (ti_e AND 0x02 \<noteq> 0), edl_e = (ti_e AND 0x01 \<noteq> 0), edl_blocks = None\<rparr> in
     if edl_e ret_val then Inr (ret_val\<lparr>edl_blocks := Some [whole_block (take (length buf) stream)]\<rparr>)
     else bind_result (dec_ext_octets (raw_EgprsLlcBlockHdr t) egprs_hdr_e buf) (\<lambda>(lbs, buf).
          map_result (\<lambda>bs. ret_val\<lparr>edl_blocks := Some bs\<rparr>) (dec_payloads (\<lambda>i h left. egprs_length_ind h) 0 lbs buf)))))"

definition is_cs :: "CodingScheme \<Rightarrow> bool" where
  "is_cs c \<longleftrightarrow> c \<in> {CS_1, CS_2, CS_3, CS_4}"

definition dec_RlcmacDlBlock :: "('d, 'u) titan \<Rightarrow> octets \<Rightarrow> 'd RlcmacDlBlock result" where
  "dec_RlcmacDlBlock t stream =
    (let cs_mcs = payload_len_2_coding_scheme (length stream) in
     if is_cs cs_mcs then
       if stream = [] then Inl TtcnError
       else let pt = drop_bit 6 (stream ! 0) in
         if pt = 0 then map_result DlData (dec_RlcmacDlDataBlock t stream)
         else map_result DlCtrl (dec_RlcmacDlCtrlBlock t stream)
     else map_result DlDataEgprs (dec_RlcmacDlEgprsDataBlock t stream))"

text \<open>The optional TLLI and PFI of an uplink block; the four octets of the TLLI are read from memory unchecked.\<close>

definition dec_tlli :: "bool \<Rightarrow> octets \<Rightarrow> (octets opt \<times> octets) result" where
  "dec_tlli present buf = (if present then have_octets 4 buf (Inr (Present (take 4 buf), drop 4 buf)) else Inr (Omit, buf))"

definition dec_pfi :: "('d, 'u) titan \<Rightarrow> bool \<Rightarrow> octets \<Rightarrow> (RlcMacUlPfi opt \<times> octets) result" where
  "dec_pfi t present buf =
    (if present then map_result (\<lambda>(p, rest). (Present p, rest)) (raw_decode 1 (raw_pfi t) buf) else Inr (Omit, buf))"

definition dec_RlcmacUlDataBlock :: "('d, 'u) titan \<Rightarrow> octets \<Rightarrow> RlcmacUlDataBlock result" where
  "dec_RlcmacUlDataBlock t stream =
    bind_result (raw_decode 3 (raw_UlMacDataHeader t) stream) (\<lambda>(h, buf).
    bind_result (if ul_e h then Inr ([], buf) else dec_ext_octets (raw_LlcBlockHdr t) hdr_e buf) (\<lambda>(lbs, buf).
    bind_result (dec_tlli (tlli_ind h) buf) (\<lambda>(tlli, buf).
    bind_result (dec_pfi t (pfi_ind h) buf) (\<lambda>(pfi, buf).
    map_result (\<lambda>bs. \<lparr>ul_cs = payload_len_2_coding_scheme (length stream), ul_mac_hdr = h, ul_tlli = tlli, ul_pfi = pfi,
        ul_blocks = Some bs\<rparr>)
      (if ul_e h then Inr [whole_block buf] else dec_payloads (\<lambda>i h left. length_ind h) 0 lbs buf)))))"

text \<open>The uplink headers of type 1 and 2 are not implemented: the value returned is unset, and assigning it is an error.\<close>

definition dec_EgprsUlMacDataHeader_type1 :: "octets \<Rightarrow> EgprsUlMacDataHeader result" where
  "dec_EgprsUlMacDataHeader_type1 stream = Inl TtcnError"

definition dec_EgprsUlMacDataHeader_type2 :: "octets \<Rightarrow> EgprsUlMacDataHeader result" where
  "dec_EgprsUlMacDataHeader_type2 stream = Inl TtcnError"

definition dec_EgprsUlMacDataHeader_type3 :: "octets \<Rightarrow> EgprsUlMacDataHeader result" where
  "dec_EgprsUlMacDataHeader_type3 stream = have_octets 4 stream
    (let egprs3 = ul3_of (bits_of stream) in
     Inr \<lparr>eul_header_type = RLCMAC_HDR_TYPE_3,
       eul_tfi = push_bit 2 (unat (ul3_tfi_lo egprs3)) OR unat (ul3_tfi_hi egprs3),
       eul_countdown = unat (ul3_cv egprs3),
       eul_foi_si = BITSTRING 1 (ucast (ul3_si egprs3)),
       eul_r_ri = BITSTRING 1 (ucast (ul3_r egprs3)),
       eul_bsn1 = push_bit 5 (unat (ul3_bsn1_lo egprs3)) OR unat (ul3_bsn1_hi egprs3),
       eul_bsn2_offset = None,
       eul_cps = push_bit 2 (unat (ul3_cps_lo egprs3)) OR unat (ul3_cps_hi egprs3),
       eul_pfi_ind = (ul3_pi egprs3 \<noteq> 0),
       eul_rsb = BITSTRING 1 (ucast (ul3_rsb egprs3)),
       eul_spb = Present (BITSTRING 2 (ucast (ul3_spb egprs3)))\<rparr>)"

definition dec_EgprsUlMacDataHeader :: "CodingScheme \<Rightarrow> octets \<Rightarrow> EgprsUlMacDataHeader result" where
  "dec_EgprsUlMacDataHeader mcs stream =
    (if mcs \<in> {MCS_1, MCS_2, MCS_3, MCS_4} then dec_EgprsUlMacDataHeader_type3 stream
     else if mcs \<in> {MCS_5, MCS_6} then dec_EgprsUlMacDataHeader_type2 stream
     else if mcs \<in> {MCS_7, MCS_8, MCS_9} then dec_EgprsUlMacDataHeader_type1 stream
     else Inl TtcnError)"

definition dec_RlcmacUlEgprsDataBlock :: "('d, 'u) titan \<Rightarrow> octets \<Rightarrow> RlcmacUlEgprsDataBlock result" where
  "dec_RlcmacUlEgprsDataBlock t stream =
    (let mcs = payload_len_2_coding_scheme (length stream) in
     bind_result (dec_EgprsUlMacDataHeader mcs stream) (\<lambda>h.
     let (_, data_block_bits, data_block_offsets) = setup_rlc_mac_priv mcs (eul_header_type h) True in
     bind_result (get_egprs_data_block stream (data_block_offsets ! 0) data_block_bits) (\<lambda>aligned.
     let ti_e = aligned ! 0; buf = drop 1 aligned; tlli_ind = (ti_e AND 0x02 \<noteq> 0); e = (ti_e AND 0x01 \<noteq> 0) in
     bind_result (if e then Inr ([], buf) else dec_ext_octets (raw_EgprsLlcBlockHdr t) egprs_hdr_e buf) (\<lambda>(lbs, buf).
     bind_result (dec_tlli tlli_ind buf) (\<lambda>(tlli, buf).
     bind_result (dec_pfi t (eul_pfi_ind h) buf) (\<lambda>(pfi, buf).
     map_result (\<lambda>bs. \<lparr>eul_mcs = mcs, eul_mac_hdr = h, eul_tlli_ind = tlli_ind, eul_e = e, eul_tlli = tlli, eul_pfi = pfi,
         eul_blocks = Some bs\<rparr>)
       (if e then Inr [whole_block buf] else dec_payloads (\<lambda>i h left. egprs_length_ind h) 0 lbs buf)))))))"

definition dec_RlcmacUlBlock :: "('d, 'u) titan \<Rightarrow> octets \<Rightarrow> 'u RlcmacUlBlock result" where
  "dec_RlcmacUlBlock t stream =
    (let cs_mcs = payload_len_2_coding_scheme (length stream) in
     if is_cs cs_mcs then
       if stream = [] then Inl TtcnError
       else let pt = drop_bit 6 (stream ! 0) in
         if pt = 0 then map_result UlData (dec_RlcmacUlDataBlock t stream)
         else map_result UlCtrl (dec_RlcmacUlCtrlBlock t stream)
     else map_result UlDataEgprs (dec_RlcmacUlEgprsDataBlock t stream))"

section \<open>Encoding\<close>

text \<open>The payloads of the blocks that are set at all; one without a payload is an error.\<close>

fun put_payloads :: "bool \<Rightarrow> 'h LlcBlockOf list \<Rightarrow> octets result" where
  "put_payloads omit_bound [] = Inr []"
| "put_payloads omit_bound (b # bs) =
     (if \<not> block_is_bound omit_bound b then put_payloads omit_bound bs
      else case payload b of
        None \<Rightarrow> Inl TtcnError
      | Some p \<Rightarrow> map_result ((@) p) (put_payloads omit_bound bs))"

text \<open>
  The length octets of a downlink block, with the E bit put right; in a header that was not set, the
  other fields then are not, and encoding it is an error.
\<close>

fun dl_put_hdrs :: "('h \<Rightarrow> octets result) \<Rightarrow> (bool \<Rightarrow> 'h \<Rightarrow> 'h) \<Rightarrow> 'h LlcBlockOf list \<Rightarrow> octets result" where
  "dl_put_hdrs enc set_e [] = Inr []"
| "dl_put_hdrs enc set_e (b # bs) =
     (case hdr b of
        Present h \<Rightarrow> bind_result (enc (set_e (bs = []) h)) (\<lambda>octs. map_result ((@) octs) (dl_put_hdrs enc set_e bs))
      | _ \<Rightarrow> Inl TtcnError)"

definition dl_no_hdrs :: "bool \<Rightarrow> 'h LlcBlockOf list option \<Rightarrow> bool" where
  "dl_no_hdrs omit_bound blocks =
    (case blocks of None \<Rightarrow> True | Some [b] \<Rightarrow> \<not> opt_is_bound omit_bound (hdr b) | Some _ \<Rightarrow> False)"

definition enc_RlcmacDlDataBlock :: "('d, 'u) titan \<Rightarrow> RlcmacDlDataBlock \<Rightarrow> octets result" where
  "enc_RlcmacDlDataBlock t si =
    (let no_hdrs = dl_no_hdrs (omit_is_bound t) (dl_blocks si);
         h = (dl_mac_hdr si)\<lparr>hdr_ext := (hdr_ext (dl_mac_hdr si))\<lparr>ext_e := no_hdrs\<rparr>\<rparr>;
         blocks = (case dl_blocks si of None \<Rightarrow> [] | Some bs \<Rightarrow> bs)
     in bind_result (fst (raw_DlMacDataHeader t) h) (\<lambda>header.
        bind_result (if no_hdrs then Inr [] else dl_put_hdrs (fst (raw_LlcBlockHdr t)) (\<lambda>e h. h\<lparr>hdr_e := e\<rparr>) blocks) (\<lambda>hdrs.
        map_result (\<lambda>payloads. encode_trailing_padding_spb (header @ hdrs @ payloads) (dl_cs si))
          (put_payloads (omit_is_bound t) blocks))))"

text \<open>The downlink EGPRS headers are not implemented: nothing is written.\<close>

definition enc_RlcmacDlEgprsDataHeader_type1 :: "EgprsDlMacDataHeader \<Rightarrow> octets" where
  "enc_RlcmacDlEgprsDataHeader_type1 si = []"

definition enc_RlcmacDlEgprsDataHeader_type2 :: "EgprsDlMacDataHeader \<Rightarrow> octets" where
  "enc_RlcmacDlEgprsDataHeader_type2 si = []"

definition enc_RlcmacDlEgprsDataHeader_type3 :: "EgprsDlMacDataHeader \<Rightarrow> octets" where
  "enc_RlcmacDlEgprsDataHeader_type3 si = []"

definition enc_RlcmacDlEgprsDataBlock :: "('d, 'u) titan \<Rightarrow> RlcmacDlEgprsDataBlock \<Rightarrow> octets result" where
  "enc_RlcmacDlEgprsDataBlock t si =
    (let no_hdrs = dl_no_hdrs (omit_is_bound t) (edl_blocks si);
         blocks = (case edl_blocks si of None \<Rightarrow> [] | Some bs \<Rightarrow> bs);
         header = (case edl_header_type (edl_mac_hdr si) of
           RLCMAC_HDR_TYPE_1 \<Rightarrow> enc_RlcmacDlEgprsDataHeader_type1 (edl_mac_hdr si)
         | RLCMAC_HDR_TYPE_2 \<Rightarrow> enc_RlcmacDlEgprsDataHeader_type2 (edl_mac_hdr si)
         | RLCMAC_HDR_TYPE_3 \<Rightarrow> enc_RlcmacDlEgprsDataHeader_type3 (edl_mac_hdr si))
     in bind_result (if no_hdrs then Inr []
          else dl_put_hdrs (fst (raw_EgprsLlcBlockHdr t)) (\<lambda>e h. h\<lparr>egprs_hdr_e := e\<rparr>) blocks) (\<lambda>hdrs.
        map_result (\<lambda>payloads. encode_trailing_padding_spb (header @ hdrs @ payloads) (edl_mcs si))
          (put_payloads (omit_is_bound t) blocks)))"

definition enc_RlcmacDlBlock :: "('d, 'u) titan \<Rightarrow> 'd RlcmacDlBlock \<Rightarrow> octets result" where
  "enc_RlcmacDlBlock t si = (case si of
     DlDataEgprs b \<Rightarrow> enc_RlcmacDlEgprsDataBlock t b
   | DlData b \<Rightarrow> enc_RlcmacDlDataBlock t b
   | DlCtrl c \<Rightarrow> enc_RlcmacDlCtrlBlock t c)"

text \<open>
  The E bit of an uplink header; comparing a header that is not initialised with \<^verbatim>\<open>omit\<close> is an error.
\<close>

definition ul_e_of :: "'h LlcBlockOf list option \<Rightarrow> bool result" where
  "ul_e_of blocks = (case blocks of
     None \<Rightarrow> Inr False
   | Some [b] \<Rightarrow> (case hdr b of Unbound \<Rightarrow> Inl TtcnError | Omit \<Rightarrow> Inr True | Present _ \<Rightarrow> Inr False)
   | Some _ \<Rightarrow> Inr False)"

fun ul_put_hdrs :: "('h \<Rightarrow> octets result) \<Rightarrow> 'h LlcBlockOf list \<Rightarrow> octets result" where
  "ul_put_hdrs enc [] = Inr []"
| "ul_put_hdrs enc (b # bs) =
     (case hdr b of
        Unbound \<Rightarrow> Inl TtcnError
      | Omit \<Rightarrow> ul_put_hdrs enc bs
      | Present h \<Rightarrow> bind_result (enc h) (\<lambda>octs. map_result ((@) octs) (ul_put_hdrs enc bs)))"

text \<open>The octets between the header and the optional fields.\<close>

definition ul_hdr_octets :: "('h \<Rightarrow> octets result) \<Rightarrow> bool \<Rightarrow> 'h LlcBlockOf list option \<Rightarrow> octets result" where
  "ul_hdr_octets enc e blocks =
    (if e then Inr [] else case blocks of None \<Rightarrow> Inr [0x01] | Some bs \<Rightarrow> ul_put_hdrs enc bs)"

definition is_present :: "'a opt \<Rightarrow> bool" where
  "is_present x = (case x of Present _ \<Rightarrow> True | _ \<Rightarrow> False)"

definition put_pfi :: "('d, 'u) titan \<Rightarrow> RlcMacUlPfi opt \<Rightarrow> octets result" where
  "put_pfi t pfi = (case pfi of Present p \<Rightarrow> fst (raw_pfi t) p | _ \<Rightarrow> Inr [])"

definition enc_RlcmacUlDataBlock :: "('d, 'u) titan \<Rightarrow> RlcmacUlDataBlock \<Rightarrow> octets result" where
  "enc_RlcmacUlDataBlock t si =
    bind_result (ul_e_of (ul_blocks si)) (\<lambda>e.
    let h = (ul_mac_hdr si)\<lparr>ul_e := e, tlli_ind := is_present (ul_tlli si), pfi_ind := is_present (ul_pfi si)\<rparr> in
    bind_result (fst (raw_UlMacDataHeader t) h) (\<lambda>header.
    bind_result (ul_hdr_octets (fst (raw_LlcBlockHdr t)) e (ul_blocks si)) (\<lambda>hdrs.
    let tlli = (case ul_tlli si of Present octs \<Rightarrow> octs | _ \<Rightarrow> []) in
    bind_result (put_pfi t (ul_pfi si)) (\<lambda>pfi.
    map_result (\<lambda>payloads. encode_trailing_padding_spb (header @ hdrs @ tlli @ pfi @ payloads) (ul_cs si))
      (put_payloads (omit_is_bound t) (case ul_blocks si of None \<Rightarrow> [] | Some bs \<Rightarrow> bs))))))"

text \<open>The uplink EGPRS headers: each value is cut to the width of the field it is assigned to.\<close>

definition enc_RlcmacUlEgprsDataHeader_type1 :: "EgprsUlMacDataHeader \<Rightarrow> octets result" where
  "enc_RlcmacUlEgprsDataHeader_type1 si =
    (case eul_bsn2_offset si of
       None \<Rightarrow> Inl TtcnError
     | Some bsn2 \<Rightarrow> Inr (octets_of (ul1_bits
        \<lparr>ul1_r = ucast (bs2uint8 (eul_r_ri si)), ul1_si = ucast (bs2uint8 (eul_foi_si si)), ul1_cv = of_nat (eul_countdown si),
         ul1_tfi_hi = of_nat (eul_tfi si), ul1_tfi_lo = of_nat (drop_bit 2 (eul_tfi si)),
         ul1_bsn1_hi = of_nat (eul_bsn1 si), ul1_bsn1_lo = of_nat (drop_bit 5 (eul_bsn1 si)),
         ul1_bsn2_hi = of_nat bsn2, ul1_bsn2_lo = of_nat (drop_bit 2 bsn2),
         ul1_cps = of_nat (eul_cps si), ul1_rsb = ucast (bs2uint8 (eul_rsb si)), ul1_pi = (if eul_pfi_ind si then 1 else 0),
         ul1_spare_hi = 0, ul1_spare_lo = 0, ul1_dummy = 0\<rparr>)))"

definition enc_RlcmacUlEgprsDataHeader_type2 :: "EgprsUlMacDataHeader \<Rightarrow> octets result" where
  "enc_RlcmacUlEgprsDataHeader_type2 si = Inr (octets_of (ul2_bits
     \<lparr>ul2_r = ucast (bs2uint8 (eul_r_ri si)), ul2_si = ucast (bs2uint8 (eul_foi_si si)), ul2_cv = of_nat (eul_countdown si),
      ul2_tfi_hi = of_nat (eul_tfi si), ul2_tfi_lo = of_nat (drop_bit 2 (eul_tfi si)),
      ul2_bsn1_hi = of_nat (eul_bsn1 si), ul2_bsn1_lo = of_nat (drop_bit 5 (eul_bsn1 si)),
      ul2_cps_hi = of_nat (eul_cps si), ul2_cps_lo = of_nat (drop_bit 2 (eul_cps si)),
      ul2_rsb = ucast (bs2uint8 (eul_rsb si)), ul2_pi = (if eul_pfi_ind si then 1 else 0),
      ul2_spare_hi = 0, ul2_spare_lo = 0, ul2_dummy = 0\<rparr>))"

definition enc_RlcmacUlEgprsDataHeader_type3 :: "EgprsUlMacDataHeader \<Rightarrow> octets result" where
  "enc_RlcmacUlEgprsDataHeader_type3 si =
    (case eul_spb si of
       Present spb \<Rightarrow> Inr (octets_of (ul3_bits
        \<lparr>ul3_r = ucast (bs2uint8 (eul_r_ri si)), ul3_si = ucast (bs2uint8 (eul_foi_si si)), ul3_cv = of_nat (eul_countdown si),
         ul3_tfi_hi = of_nat (eul_tfi si), ul3_tfi_lo = of_nat (drop_bit 2 (eul_tfi si)),
         ul3_bsn1_hi = of_nat (eul_bsn1 si), ul3_bsn1_lo = of_nat (drop_bit 5 (eul_bsn1 si)),
         ul3_cps_hi = of_nat (eul_cps si), ul3_cps_lo = of_nat (drop_bit 2 (eul_cps si)),
         ul3_spb = ucast (bs2uint8 spb), ul3_rsb = ucast (bs2uint8 (eul_rsb si)), ul3_pi = (if eul_pfi_ind si then 1 else 0),
         ul3_spare = 0, ul3_dummy = 0\<rparr>))
     | _ \<Rightarrow> Inl TtcnError)"

definition enc_RlcmacUlEgprsDataHeader :: "EgprsUlMacDataHeader \<Rightarrow> octets result" where
  "enc_RlcmacUlEgprsDataHeader si =
    (case eul_header_type si of
       RLCMAC_HDR_TYPE_1 \<Rightarrow> enc_RlcmacUlEgprsDataHeader_type1 si
     | RLCMAC_HDR_TYPE_2 \<Rightarrow> enc_RlcmacUlEgprsDataHeader_type2 si
     | RLCMAC_HDR_TYPE_3 \<Rightarrow> enc_RlcmacUlEgprsDataHeader_type3 si)"

text \<open>The TLLI goes out with its last octet first; reading an octet that is not there is an error.\<close>

definition put_tlli_reversed :: "octets opt \<Rightarrow> octets result" where
  "put_tlli_reversed tlli = (case tlli of
     Present octs \<Rightarrow> if length octs < 4 then Inl TtcnError else Inr [octs ! 3, octs ! 2, octs ! 1, octs ! 0]
   | _ \<Rightarrow> Inr [])"

definition enc_RlcmacUlEgprsDataBlock ::
  "octets \<Rightarrow> octets \<Rightarrow> ('d, 'u) titan \<Rightarrow> RlcmacUlEgprsDataBlock \<Rightarrow> octets result" where
  "enc_RlcmacUlEgprsDataBlock beyond space t si =
    bind_result (f_rlcmac_cps_htype_to_mcs (eul_cps (eul_mac_hdr si)) (eul_header_type (eul_mac_hdr si))) (\<lambda>mcs.
    bind_result (ul_e_of (eul_blocks si)) (\<lambda>e.
    let tlli_ind = is_present (eul_tlli si);
        h = (eul_mac_hdr si)\<lparr>eul_pfi_ind := is_present (eul_pfi si)\<rparr> in
    bind_result (enc_RlcmacUlEgprsDataHeader h) (\<lambda>header.
    let ti_e = push_bit 1 (if tlli_ind then 1 else 0) OR (if e then 1 else 0) in
    bind_result (ul_hdr_octets (fst (raw_EgprsLlcBlockHdr t)) e (eul_blocks si)) (\<lambda>hdrs.
    bind_result (put_tlli_reversed (eul_tlli si)) (\<lambda>tlli.
    bind_result (put_pfi t (eul_pfi si)) (\<lambda>pfi.
    bind_result (put_payloads (omit_is_bound t) (case eul_blocks si of None \<Rightarrow> [] | Some bs \<Rightarrow> bs)) (\<lambda>payloads.
    let (_, data_block_bits, data_block_offsets) = setup_rlc_mac_priv mcs (eul_header_type h) True in
    map_result (\<lambda>buf. encode_trailing_padding_spb buf (eul_mcs si))
      (put_egprs_data_block beyond space (ti_e # hdrs @ tlli @ pfi @ payloads) (data_block_offsets ! 0) data_block_bits header))))))))"

definition enc_RlcmacUlBlock :: "octets \<Rightarrow> octets \<Rightarrow> ('d, 'u) titan \<Rightarrow> 'u RlcmacUlBlock \<Rightarrow> octets result" where
  "enc_RlcmacUlBlock beyond space t si = (case si of
     UlDataEgprs b \<Rightarrow> enc_RlcmacUlEgprsDataBlock beyond space t b
   | UlData b \<Rightarrow> enc_RlcmacUlDataBlock t b
   | UlCtrl c \<Rightarrow> enc_RlcmacUlCtrlBlock t c)"

end
