(* ===== verification/RLCMAC_Roundtrip.thy ===== *)
theory RLCMAC_Roundtrip
  imports RLCMAC_EncDec
begin

text \<open>
  What the codec of \<^verbatim>\<open>library/RLCMAC_EncDec.cc\<close> does: which blocks survive encoding and decoding, in
  which form, and which do not.
\<close>

unbundle bit_operations_syntax

section \<open>What the code relies on\<close>

text \<open>
  A generated codec of a record of \<open>n\<close> octets: every valid value has an encoding of that size, which
  decodes to it.
\<close>

definition raw_ok :: "nat \<Rightarrow> ('a \<Rightarrow> bool) \<Rightarrow> 'a raw \<Rightarrow> bool" where
  "raw_ok n valid c \<longleftrightarrow> (\<forall>a. valid a \<longrightarrow> (\<exists>octs. fst c a = Inr octs \<and> length octs = n \<and> snd c octs = a))"

definition valid_LlcBlockHdr :: "LlcBlockHdr \<Rightarrow> bool" where
  "valid_LlcBlockHdr h \<longleftrightarrow> length_ind h < 64"

definition valid_EgprsLlcBlockHdr :: "EgprsLlcBlockHdr \<Rightarrow> bool" where
  "valid_EgprsLlcBlockHdr h \<longleftrightarrow> egprs_length_ind h < 128"

definition valid_DlMacDataHeader :: "DlMacDataHeader \<Rightarrow> bool" where
  "valid_DlMacDataHeader h \<longleftrightarrow> usf (mac_hdr h) < 8 \<and> tfi (hdr_ext h) < 16 \<and> bsn (hdr_ext h) < 128"

definition valid_UlMacDataHeader :: "UlMacDataHeader \<Rightarrow> bool" where
  "valid_UlMacDataHeader h \<longleftrightarrow> countdown h < 16 \<and> ul_tfi h < 32 \<and> ul_bsn h < 128"

definition valid_pfi :: "RlcMacUlPfi \<Rightarrow> bool" where
  "valid_pfi p \<longleftrightarrow> pfi_value p < 128"

definition titan_ok :: "('d, 'u) titan \<Rightarrow> bool" where
  "titan_ok t \<longleftrightarrow> raw_ok 1 valid_LlcBlockHdr (raw_LlcBlockHdr t) \<and> raw_ok 1 valid_EgprsLlcBlockHdr (raw_EgprsLlcBlockHdr t) \<and>
     raw_ok 3 valid_DlMacDataHeader (raw_DlMacDataHeader t) \<and> raw_ok 3 valid_UlMacDataHeader (raw_UlMacDataHeader t) \<and>
     raw_ok 1 valid_pfi (raw_pfi t)"

lemma raw_decode_enc: "raw_ok n valid c \<Longrightarrow> valid a \<Longrightarrow> \<exists>octs. fst c a = Inr octs \<and> length octs = n \<and>
  (\<forall>rest. raw_decode n c (octs @ rest) = Inr (a, rest))"
  by (fastforce simp: raw_ok_def raw_decode_def)

section \<open>Segmented blocks\<close>

text \<open>
  Blocks with length octets: every block has a valid header and a payload of the length it gives, and
  the E bit is set in the last header only.
\<close>

fun segmented :: "('h \<Rightarrow> bool) \<Rightarrow> ('h \<Rightarrow> bool) \<Rightarrow> ('h \<Rightarrow> nat) \<Rightarrow> 'h LlcBlockOf list \<Rightarrow> bool" where
  "segmented valid e len [] = False"
| "segmented valid e len (b # bs) = (case (hdr b, payload b) of
     (Present h, Some p) \<Rightarrow> valid h \<and> length p = len h \<and> (if bs = [] then e h else \<not> e h \<and> segmented valid e len bs)
   | _ \<Rightarrow> False)"

definition strip :: "'h LlcBlockOf \<Rightarrow> 'h LlcBlockOf" where
  "strip b = b\<lparr>payload := None\<rparr>"

lemma strip_apply: "strip \<lparr>hdr = x, payload = p\<rparr> = \<lparr>hdr = x, payload = None\<rparr>"
  by (simp add: strip_def)

definition payloads_of :: "'h LlcBlockOf list \<Rightarrow> octets" where
  "payloads_of bs = concat (map (\<lambda>b. the (payload b)) bs)"

lemma segmented_cases:
  assumes "segmented valid e len (b # bs)"
  obtains h p where "b = \<lparr>hdr = Present h, payload = Some p\<rparr>" "valid h" "length p = len h"
    "if bs = [] then e h else \<not> e h \<and> segmented valid e len bs"
  using assms by (cases b) (auto split: opt.splits option.splits)

lemma segmented_hdrs:
  assumes "raw_ok 1 valid c" "segmented valid e len bs"
  shows "\<exists>octs. ul_put_hdrs (fst c) bs = Inr octs \<and> length octs = length bs \<and>
    (\<forall>rest. dec_ext_octets c e (octs @ rest) = Inr (map strip bs, rest))"
  using assms(2)
proof (induction bs)
  case (Cons b bs)
  obtain h p where b: "b = \<lparr>hdr = Present h, payload = Some p\<rparr>" "valid h"
    "if bs = [] then e h else \<not> e h \<and> segmented valid e len bs" using Cons.prems by (rule segmented_cases)
  obtain x where x: "fst c h = Inr [x]" "snd c [x] = h"
    using assms(1) b(2) by (auto simp: raw_ok_def length_Suc_conv)
  show ?case
  proof (cases "bs = []")
    case True
    with b x show ?thesis by (auto simp: strip_apply)
  next
    case False
    with b Cons.IH obtain octs where "ul_put_hdrs (fst c) bs = Inr octs" "length octs = length bs"
      "\<forall>rest. dec_ext_octets c e (octs @ rest) = Inr (map strip bs, rest)" by auto
    with False b x show ?thesis by (auto simp: strip_apply Let_def)
  qed
qed simp

lemma segmented_payloads:
  assumes "segmented valid e len bs" "\<And>i h left. valid h \<Longrightarrow> len' i h left = len h"
  shows "put_payloads omit_bound bs = Inr (payloads_of bs)"
    "dec_payloads len' i (map strip bs) (payloads_of bs @ rest) = Inr bs"
  using assms(1)
proof (induction bs arbitrary: i)
  case (Cons b bs)
  {
    case 1
    then obtain h p where "b = \<lparr>hdr = Present h, payload = Some p\<rparr>" "if bs = [] then e h else \<not> e h \<and> segmented valid e len bs"
      by (rule segmented_cases)
    then show ?case using Cons.IH(1) by (cases "bs = []") (auto simp: payloads_of_def block_is_bound_def)
  next
    case 2
    then obtain h p where b: "b = \<lparr>hdr = Present h, payload = Some p\<rparr>" "valid h" "length p = len h"
      "if bs = [] then e h else \<not> e h \<and> segmented valid e len bs" by (rule segmented_cases)
    have "dec_payloads len' (i + 1) (map strip bs) (payloads_of bs @ rest) = Inr bs"
      using b(4) Cons.IH(2) by (cases "bs = []") (auto simp: payloads_of_def)
    with b show ?case using assms(2) by (simp add: strip_apply payloads_of_def)
  }
qed simp_all

lemma segmented_ul_e: "segmented valid e len bs \<Longrightarrow> ul_e_of (Some bs) = Inr False"
  by (cases bs rule: remdups_adj.cases) (auto simp: ul_e_of_def split: opt.splits option.splits)

lemma segmented_not_Nil: "segmented valid e len bs \<Longrightarrow> bs \<noteq> []"
  by auto

section \<open>Padding\<close>

lemma padding_ok:
  assumes "length buf \<le> f_rlcmac_cs_mcs2block_len_no_spare_bits cs"
  shows "\<exists>pad. encode_trailing_padding_spb buf cs = buf @ pad \<and> length (buf @ pad) = f_rlcmac_cs_mcs2block_len cs"
  using assms by (cases cs) (auto simp: encode_trailing_padding_spb_def f_rlcmac_cs_mcs2block_len_def
      f_rlcmac_cs_mcs2block_len_no_spare_bits_def)

lemma coding_scheme_of_block_len: "cs \<noteq> MCS_0 \<Longrightarrow> payload_len_2_coding_scheme (f_rlcmac_cs_mcs2block_len cs) = cs"
  by (cases cs) (simp_all add: payload_len_2_coding_scheme_def f_rlcmac_cs_mcs2block_len_def)

section \<open>A runtime for the examples\<close>

text \<open>The RAW layout of the records: fields from the most significant bit of each octet.\<close>

definition enum2 :: "'a \<Rightarrow> 'a \<Rightarrow> 'a \<Rightarrow> 'a \<Rightarrow> 2 word" where
  "enum2 b c d x = (if x = b then 1 else if x = c then 2 else if x = d then 3 else 0)"

definition of_enum2 :: "'a \<Rightarrow> 'a \<Rightarrow> 'a \<Rightarrow> 'a \<Rightarrow> 2 word \<Rightarrow> 'a" where
  "of_enum2 a b c d w = (if w = 1 then b else if w = 2 then c else if w = 3 then d else a)"

definition msb_LlcBlockHdr :: "LlcBlockHdr raw" where
  "msb_LlcBlockHdr =
    (\<lambda>h. if length_ind h < 64 then Inr (octets_of ([hdr_e h, more_pdu h] @ word_bits (of_nat (length_ind h) :: 6 word))) else Inl TtcnError,
     \<lambda>octs. let bs = bits_of octs in \<lparr>length_ind = unat (field bs 2 :: 6 word), more_pdu = bs ! 1, hdr_e = bs ! 0\<rparr>)"

definition msb_EgprsLlcBlockHdr :: "EgprsLlcBlockHdr raw" where
  "msb_EgprsLlcBlockHdr =
    (\<lambda>h. if egprs_length_ind h < 128 then Inr (octets_of ([egprs_hdr_e h] @ word_bits (of_nat (egprs_length_ind h) :: 7 word)))
       else Inl TtcnError,
     \<lambda>octs. let bs = bits_of octs in \<lparr>egprs_length_ind = unat (field bs 1 :: 7 word), egprs_hdr_e = bs ! 0\<rparr>)"

definition msb_pfi :: "RlcMacUlPfi raw" where
  "msb_pfi =
    (\<lambda>p. if pfi_value p < 128 then Inr (octets_of ([pfi_m p] @ word_bits (of_nat (pfi_value p) :: 7 word))) else Inl TtcnError,
     \<lambda>octs. let bs = bits_of octs in \<lparr>pfi_value = unat (field bs 1 :: 7 word), pfi_m = bs ! 0\<rparr>)"

definition msb_DlMacDataHeader :: "DlMacDataHeader raw" where
  "msb_DlMacDataHeader =
    (\<lambda>h. let m = mac_hdr h; x = hdr_ext h in
       if valid_DlMacDataHeader h then Inr (octets_of (
         word_bits (of_nat (usf m) :: 3 word) @ [rrbp_valid m] @
           word_bits (enum2 RRBP_Nplus17_or_18 RRBP_Nplus21_or_22 RRBP_Nplus26 (rrbp m)) @
           word_bits (enum2 MAC_PT_RLCMAC_NO_OPT MAC_PT_RLCMAC_OPT MAC_PT_RESERVED (payload_type m)) @
         [fbi x] @ word_bits (of_nat (tfi x) :: 4 word) @ [ext_spare x] @
           word_bits (enum2 PWR_RED_3_to_7dB PWR_RED_7_to_10dB PWR_RED_RESERVED (pr x)) @
         [ext_e x] @ word_bits (of_nat (bsn x) :: 7 word)))
       else Inl TtcnError,
     \<lambda>octs. let bs = bits_of octs in
       \<lparr>mac_hdr = \<lparr>payload_type = of_enum2 MAC_PT_RLC_DATA MAC_PT_RLCMAC_NO_OPT MAC_PT_RLCMAC_OPT MAC_PT_RESERVED (field bs 6),
          rrbp = of_enum2 RRBP_Nplus13 RRBP_Nplus17_or_18 RRBP_Nplus21_or_22 RRBP_Nplus26 (field bs 4), rrbp_valid = bs ! 3,
          usf = unat (field bs 0 :: 3 word)\<rparr>,
        hdr_ext = \<lparr>pr = of_enum2 PWR_RED_0_to_3dB PWR_RED_3_to_7dB PWR_RED_7_to_10dB PWR_RED_RESERVED (field bs 14),
          ext_spare = bs ! 13, tfi = unat (field bs 9 :: 4 word), fbi = bs ! 8, bsn = unat (field bs 17 :: 7 word), ext_e = bs ! 16\<rparr>\<rparr>)"

definition msb_UlMacDataHeader :: "UlMacDataHeader raw" where
  "msb_UlMacDataHeader =
    (\<lambda>h. if valid_UlMacDataHeader h then Inr (octets_of (
         [retry h, stall_ind h] @ word_bits (of_nat (countdown h) :: 4 word) @
           word_bits (enum2 MAC_PT_RLCMAC_NO_OPT MAC_PT_RLCMAC_OPT MAC_PT_RESERVED (ul_payload_type h)) @
         [tlli_ind h] @ word_bits (of_nat (ul_tfi h) :: 5 word) @ [pfi_ind h, ul_spare h] @
         [ul_e h] @ word_bits (of_nat (ul_bsn h) :: 7 word)))
       else Inl TtcnError,
     \<lambda>octs. let bs = bits_of octs in
       \<lparr>ul_payload_type = of_enum2 MAC_PT_RLC_DATA MAC_PT_RLCMAC_NO_OPT MAC_PT_RLCMAC_OPT MAC_PT_RESERVED (field bs 6),
        countdown = unat (field bs 2 :: 4 word), stall_ind = bs ! 1, retry = bs ! 0, ul_spare = bs ! 15, pfi_ind = bs ! 14,
        ul_tfi = unat (field bs 9 :: 5 word), tlli_ind = bs ! 8, ul_bsn = unat (field bs 17 :: 7 word), ul_e = bs ! 16\<rparr>)"

definition msb_titan :: "(octets, octets) titan" where
  "msb_titan = \<lparr>omit_is_bound = True, raw_LlcBlockHdr = msb_LlcBlockHdr, raw_EgprsLlcBlockHdr = msb_EgprsLlcBlockHdr,
     raw_DlMacDataHeader = msb_DlMacDataHeader, raw_UlMacDataHeader = msb_UlMacDataHeader, raw_pfi = msb_pfi,
     enc_RlcmacDlCtrlBlock = Inr, dec_RlcmacDlCtrlBlock = Inr, enc_RlcmacUlCtrlBlock = Inr, dec_RlcmacUlCtrlBlock = Inr\<rparr>"

lemma field_Cons: "field (b # bs) (Suc n) = field bs n"
  by (rule bit_word_eqI) (simp add: bit_simps)

lemma field_Cons_numeral: "field (b # bs) (numeral n) = field bs (numeral n - 1)"
  by (rule bit_word_eqI) (simp add: bit_simps numeral_eq_Suc)

lemma nth_word_bits_skip: "LENGTH('a) \<le> n \<Longrightarrow> (word_bits (w :: 'a::len word) @ rest) ! n = rest ! (n - LENGTH('a))"
  by (simp add: nth_append)

lemma of_enum2_enum2:
  "of_enum2 MAC_PT_RLC_DATA MAC_PT_RLCMAC_NO_OPT MAC_PT_RLCMAC_OPT MAC_PT_RESERVED
     (enum2 MAC_PT_RLCMAC_NO_OPT MAC_PT_RLCMAC_OPT MAC_PT_RESERVED p) = p"
  "of_enum2 RRBP_Nplus13 RRBP_Nplus17_or_18 RRBP_Nplus21_or_22 RRBP_Nplus26
     (enum2 RRBP_Nplus17_or_18 RRBP_Nplus21_or_22 RRBP_Nplus26 r) = r"
  "of_enum2 PWR_RED_0_to_3dB PWR_RED_3_to_7dB PWR_RED_7_to_10dB PWR_RED_RESERVED
     (enum2 PWR_RED_3_to_7dB PWR_RED_7_to_10dB PWR_RED_RESERVED q) = q"
    apply (cases p; simp add: of_enum2_def enum2_def)
   apply (cases r; simp add: of_enum2_def enum2_def)
  apply (cases q; simp add: of_enum2_def enum2_def)
  done

lemmas msb_simps = field_simps_struct field_Cons field_Cons_numeral nth_word_bits_skip of_enum2_enum2 unat_of_nat

lemma raw_okI:
  assumes "\<And>a. valid a \<Longrightarrow> length (f a) = 8 * n \<and> fst c a = Inr (octets_of (f a)) \<and> snd c (octets_of (f a)) = a"
  shows "raw_ok n valid c"
  using assms by (fastforce simp: raw_ok_def)

lemma msb_titan_ok: "titan_ok msb_titan"
proof -
  have b: "bits_of (octets_of bs) = bs" if "length bs mod 8 = 0" for bs
    using bits_of_octets_of [of bs "length bs div 8"] that by (simp add: mult.commute mod_0_imp_dvd)
  have "raw_ok 1 valid_LlcBlockHdr msb_LlcBlockHdr"
    by (rule raw_okI [where f = "\<lambda>h. [hdr_e h, more_pdu h] @ word_bits (of_nat (length_ind h) :: 6 word)"])
      (simp add: msb_LlcBlockHdr_def valid_LlcBlockHdr_def b msb_simps)
  moreover have "raw_ok 1 valid_EgprsLlcBlockHdr msb_EgprsLlcBlockHdr"
    by (rule raw_okI [where f = "\<lambda>h. [egprs_hdr_e h] @ word_bits (of_nat (egprs_length_ind h) :: 7 word)"])
      (simp add: msb_EgprsLlcBlockHdr_def valid_EgprsLlcBlockHdr_def b msb_simps)
  moreover have "raw_ok 1 valid_pfi msb_pfi"
    by (rule raw_okI [where f = "\<lambda>p. [pfi_m p] @ word_bits (of_nat (pfi_value p) :: 7 word)"])
      (simp add: msb_pfi_def valid_pfi_def b msb_simps)
  moreover have "raw_ok 3 valid_UlMacDataHeader msb_UlMacDataHeader"
    by (rule raw_okI [where f = "\<lambda>h. [retry h, stall_ind h] @ word_bits (of_nat (countdown h) :: 4 word) @
           word_bits (enum2 MAC_PT_RLCMAC_NO_OPT MAC_PT_RLCMAC_OPT MAC_PT_RESERVED (ul_payload_type h)) @
         [tlli_ind h] @ word_bits (of_nat (ul_tfi h) :: 5 word) @ [pfi_ind h, ul_spare h] @
         [ul_e h] @ word_bits (of_nat (ul_bsn h) :: 7 word)"])
      (simp add: msb_UlMacDataHeader_def valid_UlMacDataHeader_def b msb_simps)
  moreover have "raw_ok 3 valid_DlMacDataHeader msb_DlMacDataHeader"
    by (rule raw_okI [where f = "\<lambda>h. word_bits (of_nat (usf (mac_hdr h)) :: 3 word) @ [rrbp_valid (mac_hdr h)] @
           word_bits (enum2 RRBP_Nplus17_or_18 RRBP_Nplus21_or_22 RRBP_Nplus26 (rrbp (mac_hdr h))) @
           word_bits (enum2 MAC_PT_RLCMAC_NO_OPT MAC_PT_RLCMAC_OPT MAC_PT_RESERVED (payload_type (mac_hdr h))) @
         [fbi (hdr_ext h)] @ word_bits (of_nat (tfi (hdr_ext h)) :: 4 word) @ [ext_spare (hdr_ext h)] @
           word_bits (enum2 PWR_RED_3_to_7dB PWR_RED_7_to_10dB PWR_RED_RESERVED (pr (hdr_ext h))) @
         [ext_e (hdr_ext h)] @ word_bits (of_nat (bsn (hdr_ext h)) :: 7 word)"])
      (simp add: msb_DlMacDataHeader_def valid_DlMacDataHeader_def b msb_simps Let_def)
  ultimately show ?thesis by (simp add: titan_ok_def msb_titan_def)
qed

section \<open>Uplink data blocks: lemmas\<close>

lemma titan_okD:
  assumes "titan_ok t"
  shows "raw_ok 1 valid_LlcBlockHdr (raw_LlcBlockHdr t)" "raw_ok 1 valid_EgprsLlcBlockHdr (raw_EgprsLlcBlockHdr t)"
    "raw_ok 3 valid_DlMacDataHeader (raw_DlMacDataHeader t)" "raw_ok 3 valid_UlMacDataHeader (raw_UlMacDataHeader t)"
    "raw_ok 1 valid_pfi (raw_pfi t)"
  using assms by (simp_all add: titan_ok_def)

definition valid_tlli :: "octets opt \<Rightarrow> bool" where
  "valid_tlli x = (case x of Unbound \<Rightarrow> False | Omit \<Rightarrow> True | Present octs \<Rightarrow> length octs = 4)"

definition valid_opt_pfi :: "RlcMacUlPfi opt \<Rightarrow> bool" where
  "valid_opt_pfi x = (case x of Unbound \<Rightarrow> False | Omit \<Rightarrow> True | Present p \<Rightarrow> valid_pfi p)"

lemma tlli_roundtrip: "valid_tlli x \<Longrightarrow> dec_tlli (is_present x) ((case x of Present octs \<Rightarrow> octs | _ \<Rightarrow> []) @ rest) = Inr (x, rest)"
  by (cases x) (simp_all add: valid_tlli_def dec_tlli_def is_present_def have_octets_def)

lemma pfi_roundtrip:
  assumes "titan_ok t" "valid_opt_pfi x"
  shows "\<exists>octs. put_pfi t x = Inr octs \<and> length octs = of_bool (is_present x) \<and>
    (\<forall>rest. dec_pfi t (is_present x) (octs @ rest) = Inr (x, rest))"
proof (cases x)
  case (Present p)
  with assms obtain octs where "fst (raw_pfi t) p = Inr octs" "length octs = 1"
    "\<forall>rest. raw_decode 1 (raw_pfi t) (octs @ rest) = Inr (p, rest)"
    using raw_decode_enc [of 1 valid_pfi "raw_pfi t" p] by (auto simp: titan_ok_def valid_opt_pfi_def)
  then show ?thesis by (auto simp: Present put_pfi_def dec_pfi_def is_present_def)
qed (use assms in \<open>simp_all add: put_pfi_def dec_pfi_def is_present_def valid_opt_pfi_def\<close>)

text \<open>The header after the encoder has put its presence bits right.\<close>

definition ul_fixed_hdr :: "bool \<Rightarrow> RlcmacUlDataBlock \<Rightarrow> UlMacDataHeader" where
  "ul_fixed_hdr e b = (ul_mac_hdr b)\<lparr>ul_e := e, tlli_ind := is_present (ul_tlli b), pfi_ind := is_present (ul_pfi b)\<rparr>"

definition opt_size :: "octets opt \<Rightarrow> RlcMacUlPfi opt \<Rightarrow> nat" where
  "opt_size tlli pfi = (if is_present tlli then 4 else 0) + of_bool (is_present pfi)"

text \<open>The octets of a block whose length octets are \<open>hdrs\<close>.\<close>

lemma enc_ul_shape:
  assumes "titan_ok t" "valid_UlMacDataHeader (ul_mac_hdr b)" "valid_tlli (ul_tlli b)" "valid_opt_pfi (ul_pfi b)"
    and "ul_e_of (ul_blocks b) = Inr e" "ul_hdr_octets (fst (raw_LlcBlockHdr t)) e (ul_blocks b) = Inr hdrs"
    and "put_payloads (omit_is_bound t) (case ul_blocks b of None \<Rightarrow> [] | Some bs \<Rightarrow> bs) = Inr ps"
    and "3 + length hdrs + opt_size (ul_tlli b) (ul_pfi b) + length ps \<le> f_rlcmac_cs_mcs2block_len_no_spare_bits (ul_cs b)"
  shows "\<exists>header tlli pfi pad. enc_RlcmacUlDataBlock t b = Inr (header @ hdrs @ tlli @ pfi @ ps @ pad) \<and>
    length (header @ hdrs @ tlli @ pfi @ ps @ pad) = f_rlcmac_cs_mcs2block_len (ul_cs b) \<and>
    (\<forall>rest. raw_decode 3 (raw_UlMacDataHeader t) (header @ rest) = Inr (ul_fixed_hdr e b, rest)) \<and>
    (\<forall>rest. dec_tlli (is_present (ul_tlli b)) (tlli @ rest) = Inr (ul_tlli b, rest)) \<and>
    (\<forall>rest. dec_pfi t (is_present (ul_pfi b)) (pfi @ rest) = Inr (ul_pfi b, rest))"
proof -
  have "valid_UlMacDataHeader (ul_fixed_hdr e b)" using assms(2) by (simp add: ul_fixed_hdr_def valid_UlMacDataHeader_def)
  then obtain header where h: "fst (raw_UlMacDataHeader t) (ul_fixed_hdr e b) = Inr header" "length header = 3"
      "\<forall>rest. raw_decode 3 (raw_UlMacDataHeader t) (header @ rest) = Inr (ul_fixed_hdr e b, rest)"
    using assms(1) raw_decode_enc [of 3 valid_UlMacDataHeader "raw_UlMacDataHeader t"] by (auto simp: titan_ok_def)
  obtain pfi where p: "put_pfi t (ul_pfi b) = Inr pfi" "length pfi = of_bool (is_present (ul_pfi b))"
      "\<forall>rest. dec_pfi t (is_present (ul_pfi b)) (pfi @ rest) = Inr (ul_pfi b, rest)"
    using pfi_roundtrip [OF assms(1,4)] by blast
  define tlli where "tlli = (case ul_tlli b of Present octs \<Rightarrow> octs | _ \<Rightarrow> [])"
  have lt: "length tlli = (if is_present (ul_tlli b) then 4 else 0)"
    using assms(3) by (cases "ul_tlli b") (auto simp: tlli_def valid_tlli_def is_present_def)
  have "length (header @ hdrs @ tlli @ pfi @ ps) \<le> f_rlcmac_cs_mcs2block_len_no_spare_bits (ul_cs b)"
    using assms(8) h(2) p(2) lt by (simp add: opt_size_def)
  then obtain pad where "encode_trailing_padding_spb (header @ hdrs @ tlli @ pfi @ ps) (ul_cs b) = (header @ hdrs @ tlli @ pfi @ ps) @ pad"
    "length ((header @ hdrs @ tlli @ pfi @ ps) @ pad) = f_rlcmac_cs_mcs2block_len (ul_cs b)"
    using padding_ok by blast
  moreover have "\<forall>rest. dec_tlli (is_present (ul_tlli b)) (tlli @ rest) = Inr (ul_tlli b, rest)"
    using tlli_roundtrip [OF assms(3)] by (simp add: tlli_def)
  ultimately show ?thesis
    using assms(5-7) h p unfolding enc_RlcmacUlDataBlock_def
    by (intro exI [of _ header] exI [of _ tlli] exI [of _ pfi] exI [of _ pad])
      (simp add: tlli_def flip: ul_fixed_hdr_def)
qed

lemma ul_segmented_roundtrip:
  assumes "titan_ok t" "is_cs (ul_cs b)" "valid_UlMacDataHeader (ul_mac_hdr b)" "valid_tlli (ul_tlli b)" "valid_opt_pfi (ul_pfi b)"
    and bs: "ul_blocks b = Some bs" "segmented valid_LlcBlockHdr hdr_e length_ind bs"
    and "3 + length bs + opt_size (ul_tlli b) (ul_pfi b) + length (payloads_of bs) \<le> f_rlcmac_cs_mcs2block_len_no_spare_bits (ul_cs b)"
  shows "\<exists>octs. enc_RlcmacUlDataBlock t b = Inr octs \<and> length octs = f_rlcmac_cs_mcs2block_len (ul_cs b) \<and>
    dec_RlcmacUlDataBlock t octs = Inr (b\<lparr>ul_mac_hdr := ul_fixed_hdr False b\<rparr>)"
proof -
  have e: "ul_e_of (ul_blocks b) = Inr False" using bs segmented_ul_e by simp
  obtain hdrs where h: "ul_put_hdrs (fst (raw_LlcBlockHdr t)) bs = Inr hdrs" "length hdrs = length bs"
      "\<And>rest. dec_ext_octets (raw_LlcBlockHdr t) hdr_e (hdrs @ rest) = Inr (map strip bs, rest)"
    using segmented_hdrs [OF titan_okD(1) [OF assms(1)] bs(2)] by blast
  have ps: "put_payloads (omit_is_bound t) bs = Inr (payloads_of bs)"
    "\<And>rest. dec_payloads (\<lambda>i h left. length_ind h) 0 (map strip bs) (payloads_of bs @ rest) = Inr bs"
    using segmented_payloads [OF bs(2)] by simp_all
  obtain header tlli pfi pad where o: "enc_RlcmacUlDataBlock t b = Inr (header @ hdrs @ tlli @ pfi @ payloads_of bs @ pad)"
    "length (header @ hdrs @ tlli @ pfi @ payloads_of bs @ pad) = f_rlcmac_cs_mcs2block_len (ul_cs b)"
    "\<And>rest. raw_decode 3 (raw_UlMacDataHeader t) (header @ rest) = Inr (ul_fixed_hdr False b, rest)"
    "\<And>rest. dec_tlli (is_present (ul_tlli b)) (tlli @ rest) = Inr (ul_tlli b, rest)"
    "\<And>rest. dec_pfi t (is_present (ul_pfi b)) (pfi @ rest) = Inr (ul_pfi b, rest)"
    using enc_ul_shape [OF assms(1,3-5) e, of hdrs "payloads_of bs"] h ps assms(8) bs(1) by (auto simp: ul_hdr_octets_def)
  have f: "ul_e (ul_fixed_hdr False b) = False" "tlli_ind (ul_fixed_hdr False b) = is_present (ul_tlli b)"
    "pfi_ind (ul_fixed_hdr False b) = is_present (ul_pfi b)" by (simp_all add: ul_fixed_hdr_def)
  have cs: "payload_len_2_coding_scheme (f_rlcmac_cs_mcs2block_len (ul_cs b)) = ul_cs b"
    using assms(2) by (intro coding_scheme_of_block_len) (auto simp: is_cs_def)
  have "dec_RlcmacUlDataBlock t (header @ hdrs @ tlli @ pfi @ payloads_of bs @ pad) = Inr (b\<lparr>ul_mac_hdr := ul_fixed_hdr False b\<rparr>)"
    unfolding dec_RlcmacUlDataBlock_def o(2,3)
    using bs(1) cs by (simp add: o(4,5) f h(3) ps(2) del: bind_result_eq_Inr map_result_eq_Inr)
  with o(1,2) show ?thesis by blast
qed

lemma ul_whole_roundtrip:
  assumes "titan_ok t" "is_cs (ul_cs b)" "valid_UlMacDataHeader (ul_mac_hdr b)" "valid_tlli (ul_tlli b)" "valid_opt_pfi (ul_pfi b)"
    and bs: "ul_blocks b = Some [whole_block p]"
    and "3 + opt_size (ul_tlli b) (ul_pfi b) + length p \<le> f_rlcmac_cs_mcs2block_len_no_spare_bits (ul_cs b)"
  shows "\<exists>octs pad. enc_RlcmacUlDataBlock t b = Inr octs \<and> length octs = f_rlcmac_cs_mcs2block_len (ul_cs b) \<and>
    dec_RlcmacUlDataBlock t octs = Inr (b\<lparr>ul_mac_hdr := ul_fixed_hdr True b, ul_blocks := Some [whole_block (p @ pad)]\<rparr>)"
proof -
  have e: "ul_e_of (ul_blocks b) = Inr True" using bs by (simp add: ul_e_of_def whole_block_def)
  have hs: "ul_hdr_octets (fst (raw_LlcBlockHdr t)) True (ul_blocks b) = Inr []" by (simp add: ul_hdr_octets_def)
  have ps: "put_payloads (omit_is_bound t) (case ul_blocks b of None \<Rightarrow> [] | Some bs \<Rightarrow> bs) = Inr p"
    by (simp add: bs whole_block_def block_is_bound_def)
  have size: "3 + length ([] :: octets) + opt_size (ul_tlli b) (ul_pfi b) + length p \<le> f_rlcmac_cs_mcs2block_len_no_spare_bits (ul_cs b)"
    using assms(7) by simp
  obtain header tlli pfi pad where o: "enc_RlcmacUlDataBlock t b = Inr (header @ [] @ tlli @ pfi @ p @ pad)"
    "length (header @ [] @ tlli @ pfi @ p @ pad) = f_rlcmac_cs_mcs2block_len (ul_cs b)"
    "\<And>rest. raw_decode 3 (raw_UlMacDataHeader t) (header @ rest) = Inr (ul_fixed_hdr True b, rest)"
    "\<And>rest. dec_tlli (is_present (ul_tlli b)) (tlli @ rest) = Inr (ul_tlli b, rest)"
    "\<And>rest. dec_pfi t (is_present (ul_pfi b)) (pfi @ rest) = Inr (ul_pfi b, rest)"
    using enc_ul_shape [OF assms(1,3-5) e hs ps size] by blast
  have f: "ul_e (ul_fixed_hdr True b)" "tlli_ind (ul_fixed_hdr True b) = is_present (ul_tlli b)"
    "pfi_ind (ul_fixed_hdr True b) = is_present (ul_pfi b)" by (simp_all add: ul_fixed_hdr_def)
  have cs: "payload_len_2_coding_scheme (f_rlcmac_cs_mcs2block_len (ul_cs b)) = ul_cs b"
    using assms(2) by (intro coding_scheme_of_block_len) (auto simp: is_cs_def)
  have "dec_RlcmacUlDataBlock t (header @ [] @ tlli @ pfi @ p @ pad)
      = Inr (b\<lparr>ul_mac_hdr := ul_fixed_hdr True b, ul_blocks := Some [whole_block (p @ pad)]\<rparr>)"
    unfolding dec_RlcmacUlDataBlock_def o(2,3)
    using bs(1) cs by (simp add: o(4,5) f del: bind_result_eq_Inr map_result_eq_Inr)
  with o(1,2) show ?thesis by blast
qed

section \<open>Downlink data blocks: lemmas\<close>

text \<open>The blocks with the E bits that the downlink encoder writes.\<close>

fun fix_e_bits :: "LlcBlock list \<Rightarrow> LlcBlock list" where
  "fix_e_bits [] = []"
| "fix_e_bits (b # bs) = (case hdr b of Present h \<Rightarrow> b\<lparr>hdr := Present (h\<lparr>hdr_e := (bs = [])\<rparr>)\<rparr> | _ \<Rightarrow> b) # fix_e_bits bs"

definition dl_block_ok :: "LlcBlock \<Rightarrow> bool" where
  "dl_block_ok b = (case (hdr b, payload b) of
     (Present h, Some p) \<Rightarrow> 0 < length_ind h \<and> length_ind h < 64 \<and> length p = length_ind h
   | _ \<Rightarrow> False)"

lemma fix_e_bits_segmented:
  "bs \<noteq> [] \<Longrightarrow> list_all dl_block_ok bs \<Longrightarrow> segmented (\<lambda>h. 0 < length_ind h \<and> length_ind h < 64) hdr_e length_ind (fix_e_bits bs)"
proof (induction bs)
  case (Cons b bs)
  then show ?case by (cases "bs = []"; cases b) (auto simp: dl_block_ok_def neq_Nil_conv split: opt.splits option.splits)
qed simp

lemma fix_e_bits_put:
  "list_all dl_block_ok bs \<Longrightarrow> dl_put_hdrs enc (\<lambda>e h. h\<lparr>hdr_e := e\<rparr>) bs = ul_put_hdrs enc (fix_e_bits bs) \<and>
     put_payloads ob bs = Inr (payloads_of (fix_e_bits bs))"
  by (induction bs) (auto simp: dl_block_ok_def payloads_of_def block_is_bound_def split: opt.splits option.splits)

lemma fix_e_bits_sizes: "length (fix_e_bits bs) = length bs" "payloads_of (fix_e_bits bs) = payloads_of bs"
  by (induction bs) (auto simp: payloads_of_def split: opt.splits)

lemma dl_segmented_roundtrip:
  assumes "titan_ok t" "is_cs (dl_cs b)" "valid_DlMacDataHeader (dl_mac_hdr b)"
    and bs: "dl_blocks b = Some bs" "bs \<noteq> []" "list_all dl_block_ok bs"
    and size: "3 + length bs + length (payloads_of bs) \<le> f_rlcmac_cs_mcs2block_len_no_spare_bits (dl_cs b)"
  defines "h \<equiv> (dl_mac_hdr b)\<lparr>hdr_ext := (hdr_ext (dl_mac_hdr b))\<lparr>ext_e := False\<rparr>\<rparr>"
  shows "\<exists>octs. enc_RlcmacDlDataBlock t b = Inr octs \<and> length octs = f_rlcmac_cs_mcs2block_len (dl_cs b) \<and>
    dec_RlcmacDlDataBlock t octs = Inr (b\<lparr>dl_mac_hdr := h, dl_blocks := Some (fix_e_bits bs)\<rparr>)"
proof -
  have nh: "dl_no_hdrs (omit_is_bound t) (dl_blocks b) = False"
    using bs by (cases bs rule: remdups_adj.cases) (auto simp: dl_no_hdrs_def opt_is_bound_def dl_block_ok_def split: opt.splits)
  have seg: "segmented (\<lambda>h. 0 < length_ind h \<and> length_ind h < 64) hdr_e length_ind (fix_e_bits bs)"
    by (rule fix_e_bits_segmented [OF bs(2,3)])
  have "raw_ok 1 (\<lambda>h. 0 < length_ind h \<and> length_ind h < 64) (raw_LlcBlockHdr t)"
    using titan_okD(1) [OF assms(1)] by (simp add: raw_ok_def valid_LlcBlockHdr_def)
  from segmented_hdrs [OF this seg] obtain hdrs where hs: "ul_put_hdrs (fst (raw_LlcBlockHdr t)) (fix_e_bits bs) = Inr hdrs"
      "length hdrs = length bs" "\<And>rest. dec_ext_octets (raw_LlcBlockHdr t) hdr_e (hdrs @ rest) = Inr (map strip (fix_e_bits bs), rest)"
    by (auto simp: fix_e_bits_sizes)
  have ps: "dec_payloads (\<lambda>i h left. if i = 0 \<and> length_ind h = 0 then left else length_ind h) 0 (map strip (fix_e_bits bs))
      (payloads_of (fix_e_bits bs) @ rest) = Inr (fix_e_bits bs)" for rest
    by (rule segmented_payloads(2) [OF seg]) simp
  have "valid_DlMacDataHeader h" using assms(3) by (simp add: h_def valid_DlMacDataHeader_def)
  then obtain header where hd: "fst (raw_DlMacDataHeader t) h = Inr header" "length header = 3"
      "\<And>rest. raw_decode 3 (raw_DlMacDataHeader t) (header @ rest) = Inr (h, rest)"
    using raw_decode_enc [OF titan_okD(3) [OF assms(1)]] by blast
  have "length (header @ hdrs @ payloads_of bs) \<le> f_rlcmac_cs_mcs2block_len_no_spare_bits (dl_cs b)"
    using size hs(2) hd(2) by simp
  then obtain pad where pad: "encode_trailing_padding_spb (header @ hdrs @ payloads_of bs) (dl_cs b) = (header @ hdrs @ payloads_of bs) @ pad"
    "length ((header @ hdrs @ payloads_of bs) @ pad) = f_rlcmac_cs_mcs2block_len (dl_cs b)"
    using padding_ok by blast
  have "enc_RlcmacDlDataBlock t b = Inr ((header @ hdrs @ payloads_of bs) @ pad)"
    using hd(1) hs(1) pad(1) bs nh fix_e_bits_put [OF bs(3)]
    by (simp add: enc_RlcmacDlDataBlock_def h_def fix_e_bits_sizes Let_def)
  moreover have "dec_RlcmacDlDataBlock t ((header @ hdrs @ payloads_of bs) @ pad) = Inr (b\<lparr>dl_mac_hdr := h, dl_blocks := Some (fix_e_bits bs)\<rparr>)"
  proof -
    have cs: "payload_len_2_coding_scheme (f_rlcmac_cs_mcs2block_len (dl_cs b)) = dl_cs b"
      using assms(2) by (intro coding_scheme_of_block_len) (auto simp: is_cs_def)
    have a: "(header @ hdrs @ payloads_of bs) @ pad = header @ hdrs @ payloads_of (fix_e_bits bs) @ pad"
      by (simp add: fix_e_bits_sizes)
    have e: "ext_e (hdr_ext h) = False" by (simp add: h_def)
    from bs(1) show ?thesis
      unfolding dec_RlcmacDlDataBlock_def a cs [folded pad(2), unfolded a] hd(3)
      by (simp add: e hs(3) ps Let_def del: bind_result_eq_Inr map_result_eq_Inr)
  qed
  ultimately show ?thesis using pad(2) by blast
qed

section \<open>Uplink EGPRS blocks: lemmas\<close>

lemma split_field:
  assumes "n < 2 ^ (k + LENGTH('a))" "LENGTH('b) = k"
  shows "push_bit k (unat (of_nat (drop_bit k n) :: 'a::len word)) OR unat (of_nat n :: 'b::len word) = n"
proof -
  have "drop_bit k n < 2 ^ LENGTH('a)" using assms(1) by (simp add: drop_bit_eq_div less_mult_imp_div_less power_add mult.commute)
  then have "unat (of_nat (drop_bit k n) :: 'a word) = drop_bit k n" "unat (of_nat n :: 'b word) = take_bit k n"
    by (simp_all add: unat_of_nat take_bit_eq_mod assms(2))
  then show ?thesis by (simp only:) (rule bit_eqI, auto simp: bit_simps)
qed

definition valid_eul :: "EgprsUlMacDataHeader \<Rightarrow> bool" where
  "valid_eul h \<longleftrightarrow> eul_header_type h = RLCMAC_HDR_TYPE_3 \<and> eul_tfi h < 32 \<and> eul_countdown h < 16 \<and> eul_bsn1 h < 2048 \<and>
     eul_cps h < 16 \<and> length (eul_foi_si h) = 1 \<and> length (eul_r_ri h) = 1 \<and> length (eul_rsb h) = 1 \<and>
     (case eul_spb h of Present s \<Rightarrow> length s = 2 | _ \<Rightarrow> False)"

text \<open>
  What a header becomes on the way: the number of a second block, which type 3 does not have, is
  unset, and the two bits of \<^verbatim>\<open>spb\<close> change places, for the encoder writes the first of them as the high
  bit and the decoder reads the low bit as the first.
\<close>

definition eul_received :: "EgprsUlMacDataHeader \<Rightarrow> EgprsUlMacDataHeader" where
  "eul_received h = h\<lparr>eul_bsn2_offset := None, eul_spb := (case eul_spb h of Present s \<Rightarrow> Present (rev s) | x \<Rightarrow> x)\<rparr>"

lemma bitstring_1: "length s = 1 \<Longrightarrow> BITSTRING 1 (ucast (ucast (bs2uint8 s) :: 1 word)) = s"
  by (auto simp: length_Suc_conv BITSTRING_def bs2uint8_def bit_simps split: if_splits)

lemma bitstring_2: "length s = 2 \<Longrightarrow> BITSTRING 2 (ucast (ucast (bs2uint8 s) :: 2 word)) = rev s"
  by (auto simp: length_Suc_conv BITSTRING_def bs2uint8_def bit_simps numeral_2_eq_2 split: if_splits)

lemma ul3_bits_dummy: "take 31 (ul3_bits s) @ [x] = ul3_bits (s\<lparr>ul3_dummy := of_bool x\<rparr>)"
  by (simp add: ul3_bits_def word_bits_def)

lemma ul3_roundtrip:
  assumes "valid_eul h"
  shows "\<exists>hdr. enc_RlcmacUlEgprsDataHeader h = Inr hdr \<and> length hdr = 4 \<and> \<not> bit (hdr ! 3) 7 \<and>
    (\<forall>stream x rest. bits_of stream = take 31 (bits_of hdr) @ x # rest \<longrightarrow>
       dec_EgprsUlMacDataHeader_type3 stream = Inr (eul_received h))"
proof -
  obtain spb where spb: "eul_spb h = Present spb" "length spb = 2"
    using assms by (auto simp: valid_eul_def split: opt.splits)
  define s where "s = \<lparr>ul3_r = ucast (bs2uint8 (eul_r_ri h)), ul3_si = ucast (bs2uint8 (eul_foi_si h)), ul3_cv = of_nat (eul_countdown h),
         ul3_tfi_hi = of_nat (eul_tfi h), ul3_tfi_lo = of_nat (drop_bit 2 (eul_tfi h)),
         ul3_bsn1_hi = of_nat (eul_bsn1 h), ul3_bsn1_lo = of_nat (drop_bit 5 (eul_bsn1 h)),
         ul3_cps_hi = of_nat (eul_cps h), ul3_cps_lo = of_nat (drop_bit 2 (eul_cps h)),
         ul3_spb = ucast (bs2uint8 spb), ul3_rsb = ucast (bs2uint8 (eul_rsb h)), ul3_pi = (if eul_pfi_ind h then 1 else 0),
         ul3_spare = 0, ul3_dummy = 0\<rparr>"
  let ?hdr = "octets_of (ul3_bits s)"
  have bits: "bits_of ?hdr = ul3_bits s" by (rule bits_of_octets_of [OF ul3.length_to_bits])
  have "enc_RlcmacUlEgprsDataHeader h = Inr ?hdr"
    using assms spb by (simp add: enc_RlcmacUlEgprsDataHeader_def enc_RlcmacUlEgprsDataHeader_type3_def valid_eul_def s_def)
  moreover have "length ?hdr = 4" by (rule ul3.length_octets)
  moreover have "\<not> bit (?hdr ! 3) 7"
  proof -
    have "bit (?hdr ! 3) 7 = ul3_bits s ! 31" using nth_bits_of' [of 3 ?hdr 7] ul3.length_octets [of s] by (simp add: bits)
    also have "\<dots> = False" by (simp add: ul3_bits_def s_def nth_append word_bits_def)
    finally show ?thesis by simp
  qed
  moreover have "dec_EgprsUlMacDataHeader_type3 stream = Inr (eul_received h)"
    if "bits_of stream = take 31 (bits_of ?hdr) @ x # rest" for stream x rest
  proof -
    have b: "bits_of stream = ul3_bits (s\<lparr>ul3_dummy := of_bool x\<rparr>) @ rest"
      using that by (simp add: bits flip: ul3_bits_dummy)
    have "8 * length stream = length (bits_of stream)" by simp
    also have "\<dots> \<ge> 32" by (simp only: b length_append ul3.length_to_bits)
    finally have "4 \<le> length stream" by simp
    moreover have "push_bit 2 (unat (of_nat (drop_bit 2 (eul_tfi h)) :: 3 word)) OR unat (of_nat (eul_tfi h) :: 2 word) = eul_tfi h"
      "push_bit 5 (unat (of_nat (drop_bit 5 (eul_bsn1 h)) :: 6 word)) OR unat (of_nat (eul_bsn1 h) :: 5 word) = eul_bsn1 h"
      "push_bit 2 (unat (of_nat (drop_bit 2 (eul_cps h)) :: 2 word)) OR unat (of_nat (eul_cps h) :: 2 word) = eul_cps h"
      "unat (of_nat (eul_countdown h) :: 4 word) = eul_countdown h"
      using assms split_field [where 'a = 3 and 'b = 2 and k = 2] split_field [where 'a = 6 and 'b = 5 and k = 5]
        split_field [where 'a = 2 and 'b = 2 and k = 2] by (simp_all add: valid_eul_def) (simp add: unat_of_nat)
    ultimately show ?thesis
      using assms spb by (simp add: dec_EgprsUlMacDataHeader_type3_def have_octets_def b ul3.of_to_bits eul_received_def s_def
          valid_eul_def bitstring_1 [unfolded One_nat_def] bitstring_2 Let_def)
  qed
  ultimately show ?thesis by blast
qed

lemma top_bits:
  assumes d: "d \<in> {0, 1, 2, 3}" and a: "bit a 6 = bit d 0" "bit a 7 = bit d 1"
  shows "drop_bit 6 (a :: u8) = d"
proof -
  have "\<not> bit d (Suc (Suc n))" "\<not> bit a (8 + n)" for n
    using d by (auto simp: bit_Suc dest: bit_imp_le_length)
  then have "bit (drop_bit 6 a) n = bit d n" for n
    using a by (cases n rule: nat.exhaust; cases "n - 1") (simp_all add: bit_drop_bit_eq numeral_eq_Suc del: bit_0)
  then show ?thesis by (rule bit_word_eqI)
qed

text \<open>
  The data block that the encoder has put behind a header of type 3, read back by the decoder: the two
  bits of its first octet, the data, and whatever follows.
\<close>

lemma put_get_roundtrip:
  assumes head: "length head = 4" "\<not> bit (head ! 3) 7" and d: "d \<in> {0, 1, 2, 3}"
    and mem: "4 \<le> length beyond" "length data + 5 \<le> length space"
    and dbl: "length data \<le> dbl"
  shows "\<exists>out. put_egprs_data_block beyond space (d # data) 31 bits head = Inr out \<and> length out = length data + 5 \<and>
    (\<forall>pad. length (out @ pad) = dbl + 5 \<longrightarrow>
      (\<exists>x rest. bits_of (out @ pad) = take 31 (bits_of head) @ x # rest) \<and>
      (\<exists>aligned junk. get_egprs_data_block (out @ pad) 31 (dbl * 8 + 2) = Inr aligned \<and> aligned ! 0 = d \<and> drop 1 aligned = data @ junk \<and> length aligned = dbl + 1))"
proof -
  obtain buffer where b: "clone_unaligned_buffer_lsbf 25 (length data + 5) (d # data @ beyond) (head @ space) = Inr buffer"
      "length buffer = 4 + length space"
      "bits_of (take (length data + 5) buffer) = take 31 (bits_of head) @ [bit d 0, bit d 1] @ bits_of data @ take 7 (bits_of beyond)"
    using clone_unaligned_bits [OF head d mem] by blast
  define out where "out = take (length data + 5) buffer"
  have lo: "length out = length data + 5" using b(2) mem by (simp add: out_def)
  have put: "put_egprs_data_block beyond space (d # data) 31 bits head = Inr out"
    using b(1) head by (simp add: put_egprs_data_block_def out_def add.commute)
  have get: "\<exists>aligned junk. get_egprs_data_block (out @ pad) 31 (dbl * 8 + 2) = Inr aligned \<and> aligned ! 0 = d \<and> drop 1 aligned = data @ junk \<and> length aligned = dbl + 1"
    if l: "length (out @ pad) = dbl + 5" for pad
  proof -
    have n: "(6 + (dbl * 8 + 2) + 7) div 8 = dbl + 1" by simp
    obtain al where al: "clone_aligned_buffer_lsbf 25 (dbl + 1) (out @ pad) = Inr al"
      using l by (simp add: clone_aligned_buffer_lsbf_def Let_def)
    have ab: "bits_of al = take (8 * (dbl + 1)) (drop 25 (bits_of (out @ pad)))" and la: "length al = dbl + 1"
      using clone_aligned_bits [OF al] by simp_all
    have "bits_of (out @ pad) = take 31 (bits_of head) @ [bit d 0, bit d 1] @ bits_of data @ take 7 (bits_of beyond) @ bits_of pad"
      using b(3) by (simp add: bits_of_append out_def)
    then have bb: "bits_of al = take (8 * (dbl + 1)) (drop 25 (take 31 (bits_of head)) @ [bit d 0, bit d 1] @ bits_of data @ take 7 (bits_of beyond) @ bits_of pad)"
      using ab head by simp
    obtain a rest where ar: "al = a # rest" "length rest = dbl" using la by (cases al) auto
    have "bits_of rest = drop 8 (bits_of al)" by (simp add: ar)
    also have "\<dots> = take (8 * dbl) (bits_of data @ take 7 (bits_of beyond) @ bits_of pad)"
      unfolding bb using head by (simp add: drop_take)
    finally have "take (8 * length data) (bits_of rest) = bits_of data" using dbl by simp
    then have "take (length data) rest = data" by (simp add: take_bits_of octets_eq_bits)
    then have rest: "rest = data @ drop (length data) rest" by (metis append_take_drop_id)
    have "bits_of al ! 6 = bit d 0" "bits_of al ! 7 = bit d 1" unfolding bb using head by (simp_all add: nth_append)
    then have "drop_bit 6 a = d" using top_bits [OF d] by (simp add: ar nth_append)
    then have "get_egprs_data_block (out @ pad) 31 (dbl * 8 + 2) = Inr (d # rest)"
      unfolding get_egprs_data_block_def n Let_def using al by (simp add: ar)
    with rest ar(2) show ?thesis by (metis One_nat_def Suc_eq_plus1 drop0 drop_Suc_Cons length_Cons nth_Cons_0)
  qed
  have "\<exists>x rest. bits_of (out @ pad) = take 31 (bits_of head) @ x # rest" for pad
    using b(3) by (simp add: bits_of_append out_def)
  with put lo get show ?thesis by blast
qed

definition opt_rev :: "'a list opt \<Rightarrow> 'a list opt" where
  "opt_rev x = (case x of Present s \<Rightarrow> Present (rev s) | _ \<Rightarrow> x)"

lemma tlli_reversed_roundtrip:
  assumes "valid_tlli x"
  shows "\<exists>octs. put_tlli_reversed x = Inr octs \<and> length octs = (if is_present x then 4 else 0) \<and>
    (\<forall>rest. dec_tlli (is_present x) (octs @ rest) = Inr (opt_rev x, rest))"
  using assms by (cases x) (auto simp: valid_tlli_def put_tlli_reversed_def is_present_def dec_tlli_def opt_rev_def
      have_octets_def numeral_eq_Suc length_Suc_conv)

lemma setup_type_3: "setup_rlc_mac_priv mcs RLCMAC_HDR_TYPE_3 ul = (2, coding_scheme_2_data_block_len mcs * 8 + 2, [31, 0])"
  by (simp add: setup_rlc_mac_priv_def Let_def)

text \<open>
  What the encoder makes of a block of type 3, from the E bit, the length octets and the payloads that it finds, and what the
  decoder has before it when it has cut out the data again.
\<close>

lemma ul_egprs_shape:
  assumes t: "titan_ok t" and mcs: "eul_mcs b \<in> {MCS_1, MCS_2, MCS_3, MCS_4}" and h: "valid_eul (eul_mac_hdr b)"
    and tp: "valid_tlli (eul_tlli b)" "valid_opt_pfi (eul_pfi b)"
    and e: "ul_e_of (eul_blocks b) = Inr e" and hs: "ul_hdr_octets (fst (raw_EgprsLlcBlockHdr t)) e (eul_blocks b) = Inr hdrs"
    and ps: "put_payloads (omit_is_bound t) (case eul_blocks b of None \<Rightarrow> [] | Some bs \<Rightarrow> bs) = Inr pls"
    and size: "5 + length hdrs + opt_size (eul_tlli b) (eul_pfi b) + length pls \<le> f_rlcmac_cs_mcs2block_len (eul_mcs b)"
    and mem: "4 \<le> length beyond" "f_rlcmac_cs_mcs2block_len (eul_mcs b) \<le> length space"
  shows "\<exists>octs tlli pfi junk aligned. enc_RlcmacUlEgprsDataBlock beyond space t b = Inr octs \<and>
    length octs = f_rlcmac_cs_mcs2block_len (eul_mcs b) \<and> payload_len_2_coding_scheme (length octs) = eul_mcs b \<and>
    dec_EgprsUlMacDataHeader (eul_mcs b) octs = Inr (eul_received ((eul_mac_hdr b)\<lparr>eul_pfi_ind := is_present (eul_pfi b)\<rparr>)) \<and>
    get_egprs_data_block octs 31 (coding_scheme_2_data_block_len (eul_mcs b) * 8 + 2) = Inr aligned \<and>
    (aligned ! 0 AND 2 \<noteq> 0) = is_present (eul_tlli b) \<and> (aligned ! 0 AND 1 \<noteq> 0) = e \<and>
    drop 1 aligned = hdrs @ tlli @ pfi @ pls @ junk \<and>
    length (pls @ junk) + length hdrs + opt_size (eul_tlli b) (eul_pfi b) = coding_scheme_2_data_block_len (eul_mcs b) \<and>
    (\<forall>rest. dec_tlli (is_present (eul_tlli b)) (tlli @ rest) = Inr (opt_rev (eul_tlli b), rest)) \<and>
    (\<forall>rest. dec_pfi t (is_present (eul_pfi b)) (pfi @ rest) = Inr (eul_pfi b, rest))"
proof -
  let ?h = "(eul_mac_hdr b)\<lparr>eul_pfi_ind := is_present (eul_pfi b)\<rparr>" and ?dbl = "coding_scheme_2_data_block_len (eul_mcs b)"
  define d :: u8 where "d = push_bit 1 (if is_present (eul_tlli b) then 1 else 0) OR (if e then 1 else 0)"
  have d: "d \<in> {0, 1, 2, 3}" "(d AND 2 \<noteq> 0) = is_present (eul_tlli b)" "(d AND 1 \<noteq> 0) = e" by (simp_all add: d_def)
  have vh: "valid_eul ?h" using h by (simp add: valid_eul_def)
  then obtain head where head: "enc_RlcmacUlEgprsDataHeader ?h = Inr head" using ul3_roundtrip by blast
  have hd: "length head = 4" "\<not> bit (head ! 3) 7"
    "\<And>stream x rest. bits_of stream = take 31 (bits_of head) @ x # rest \<Longrightarrow>
       dec_EgprsUlMacDataHeader_type3 stream = Inr (eul_received ?h)"
    using ul3_roundtrip [OF vh] head by auto
  obtain tlli where tl: "put_tlli_reversed (eul_tlli b) = Inr tlli" "length tlli = (if is_present (eul_tlli b) then 4 else 0)"
      "\<forall>rest. dec_tlli (is_present (eul_tlli b)) (tlli @ rest) = Inr (opt_rev (eul_tlli b), rest)"
    using tlli_reversed_roundtrip [OF tp(1)] by blast
  obtain pfi where p: "put_pfi t (eul_pfi b) = Inr pfi" "length pfi = of_bool (is_present (eul_pfi b))"
      "\<forall>rest. dec_pfi t (is_present (eul_pfi b)) (pfi @ rest) = Inr (eul_pfi b, rest)"
    using pfi_roundtrip [OF t tp(2)] by blast
  obtain cps where cps: "f_rlcmac_cps_htype_to_mcs (eul_cps (eul_mac_hdr b)) RLCMAC_HDR_TYPE_3 = Inr cps"
    using h by (simp add: f_rlcmac_cps_htype_to_mcs_def cps_htype3_to_mcs_def valid_eul_def)
  have ht: "eul_header_type (eul_mac_hdr b) = RLCMAC_HDR_TYPE_3" using h by (simp add: valid_eul_def)
  let ?data = "hdrs @ tlli @ pfi @ pls"
  have enc: "enc_RlcmacUlEgprsDataBlock beyond space t b = map_result (\<lambda>buf. encode_trailing_padding_spb buf (eul_mcs b))
      (put_egprs_data_block beyond space (d # ?data) 31 (coding_scheme_2_data_block_len cps * 8 + 2) head)"
    using head tl(1) p(1) cps e hs ps
    by (simp add: enc_RlcmacUlEgprsDataBlock_def ht setup_type_3 Let_def d_def)
  have dbl: "f_rlcmac_cs_mcs2block_len (eul_mcs b) = ?dbl + 5"
    "f_rlcmac_cs_mcs2block_len_no_spare_bits (eul_mcs b) = ?dbl + 5"
    using mcs by (auto simp: f_rlcmac_cs_mcs2block_len_def f_rlcmac_cs_mcs2block_len_no_spare_bits_def coding_scheme_2_data_block_len_def)
  have ld: "length ?data + 5 = 5 + length hdrs + opt_size (eul_tlli b) (eul_pfi b) + length pls"
    by (simp add: tl(2) p(2) opt_size_def)
  have sizes: "length ?data + 5 \<le> length space" "length ?data \<le> ?dbl" using size mem(2) unfolding dbl(1) ld [symmetric] by linarith+
  obtain out where out: "put_egprs_data_block beyond space (d # ?data) 31 (coding_scheme_2_data_block_len cps * 8 + 2) head = Inr out"
      "length out = length ?data + 5"
    and got: "\<And>pad. length (out @ pad) = ?dbl + 5 \<Longrightarrow> (\<exists>x rest. bits_of (out @ pad) = take 31 (bits_of head) @ x # rest) \<and>
      (\<exists>aligned junk. get_egprs_data_block (out @ pad) 31 (?dbl * 8 + 2) = Inr aligned \<and> aligned ! 0 = d \<and> drop 1 aligned = ?data @ junk \<and>
        length aligned = ?dbl + 1)"
    using put_get_roundtrip [OF hd(1,2) d(1) mem(1) sizes, of "coding_scheme_2_data_block_len cps * 8 + 2"] by blast
  obtain pad where pad: "encode_trailing_padding_spb out (eul_mcs b) = out @ pad" "length (out @ pad) = ?dbl + 5"
    using padding_ok [of out "eul_mcs b"] out(2) sizes(2) dbl by auto
  obtain aligned junk where al: "get_egprs_data_block (out @ pad) 31 (?dbl * 8 + 2) = Inr aligned" "aligned ! 0 = d"
      "drop 1 aligned = ?data @ junk" "length aligned = ?dbl + 1"
    using got [OF pad(2)] by blast
  have "length (drop 1 aligned) = ?dbl" using al(4) by simp
  then have "length (pls @ junk) + length hdrs + opt_size (eul_tlli b) (eul_pfi b) = ?dbl"
    unfolding al(3) using ld by simp
  moreover have "dec_EgprsUlMacDataHeader (eul_mcs b) (out @ pad) = Inr (eul_received ?h)"
    using got [OF pad(2)] hd(3) mcs by (auto simp: dec_EgprsUlMacDataHeader_def)
  moreover have "payload_len_2_coding_scheme (length (out @ pad)) = eul_mcs b"
    unfolding pad(2) dbl(1) [symmetric] using mcs by (intro coding_scheme_of_block_len) auto
  moreover have "enc_RlcmacUlEgprsDataBlock beyond space t b = Inr (out @ pad)" using enc out(1) pad(1) by simp
  ultimately show ?thesis
    using al(1,3) d(2,3) tl(3) p(3) pad(2) dbl(1)
    by (intro exI [of _ "out @ pad"] exI [of _ tlli] exI [of _ pfi] exI [of _ junk] exI [of _ aligned] conjI) (simp_all add: al(2))
qed

text \<open>What the receiver of an uplink EGPRS block gets, with the given E bit and blocks.\<close>

definition egprs_received :: "RlcmacUlEgprsDataBlock \<Rightarrow> bool \<Rightarrow> EgprsLlcBlock list \<Rightarrow> RlcmacUlEgprsDataBlock" where
  "egprs_received b e bs = b\<lparr>eul_mac_hdr := eul_received ((eul_mac_hdr b)\<lparr>eul_pfi_ind := is_present (eul_pfi b)\<rparr>),
     eul_tlli_ind := is_present (eul_tlli b), eul_e := e, eul_tlli := opt_rev (eul_tlli b), eul_blocks := Some bs\<rparr>"

lemma eul_received_fields:
  "valid_eul h \<Longrightarrow> eul_header_type (eul_received (h\<lparr>eul_pfi_ind := x\<rparr>)) = RLCMAC_HDR_TYPE_3 \<and>
    eul_pfi_ind (eul_received (h\<lparr>eul_pfi_ind := x\<rparr>)) = x"
  by (simp add: eul_received_def valid_eul_def)

lemma ul_egprs_roundtrip:
  assumes t: "titan_ok t" and mcs: "eul_mcs b \<in> {MCS_1, MCS_2, MCS_3, MCS_4}" and h: "valid_eul (eul_mac_hdr b)"
    and tp: "valid_tlli (eul_tlli b)" "valid_opt_pfi (eul_pfi b)"
    and mem: "4 \<le> length beyond" "f_rlcmac_cs_mcs2block_len (eul_mcs b) \<le> length space"
    and bs: "eul_blocks b = Some bs" "segmented valid_EgprsLlcBlockHdr egprs_hdr_e egprs_length_ind bs"
    and size: "5 + length bs + opt_size (eul_tlli b) (eul_pfi b) + length (payloads_of bs) \<le> f_rlcmac_cs_mcs2block_len (eul_mcs b)"
  shows "\<exists>octs. enc_RlcmacUlEgprsDataBlock beyond space t b = Inr octs \<and> length octs = f_rlcmac_cs_mcs2block_len (eul_mcs b) \<and>
    dec_RlcmacUlEgprsDataBlock t octs = Inr (egprs_received b False bs)"
proof -
  have e: "ul_e_of (eul_blocks b) = Inr False" using bs segmented_ul_e by simp
  obtain hdrs where hs: "ul_put_hdrs (fst (raw_EgprsLlcBlockHdr t)) bs = Inr hdrs" "length hdrs = length bs"
      "\<forall>rest. dec_ext_octets (raw_EgprsLlcBlockHdr t) egprs_hdr_e (hdrs @ rest) = Inr (map strip bs, rest)"
    using segmented_hdrs [OF titan_okD(2) [OF t] bs(2)] by blast
  have ho: "ul_hdr_octets (fst (raw_EgprsLlcBlockHdr t)) False (eul_blocks b) = Inr hdrs" using hs(1) bs(1) by (simp add: ul_hdr_octets_def)
  have po: "put_payloads (omit_is_bound t) (case eul_blocks b of None \<Rightarrow> [] | Some bs \<Rightarrow> bs) = Inr (payloads_of bs)"
    using segmented_payloads(1) [OF bs(2), of "\<lambda>_ h _. egprs_length_ind h" "omit_is_bound t"] bs(1) by simp
  have ds: "dec_payloads (\<lambda>i h left. egprs_length_ind h) 0 (map strip bs) (payloads_of bs @ rest) = Inr bs" for rest
    by (rule segmented_payloads(2) [OF bs(2)]) simp
  obtain octs tlli pfi junk aligned where o: "enc_RlcmacUlEgprsDataBlock beyond space t b = Inr octs"
    "length octs = f_rlcmac_cs_mcs2block_len (eul_mcs b)" "payload_len_2_coding_scheme (length octs) = eul_mcs b"
    "dec_EgprsUlMacDataHeader (eul_mcs b) octs = Inr (eul_received ((eul_mac_hdr b)\<lparr>eul_pfi_ind := is_present (eul_pfi b)\<rparr>))"
    "get_egprs_data_block octs 31 (coding_scheme_2_data_block_len (eul_mcs b) * 8 + 2) = Inr aligned"
    "(aligned ! 0 AND 2 \<noteq> 0) = is_present (eul_tlli b)" "(aligned ! 0 AND 1 \<noteq> 0) = False"
    "drop 1 aligned = hdrs @ tlli @ pfi @ payloads_of bs @ junk"
    "\<forall>rest. dec_tlli (is_present (eul_tlli b)) (tlli @ rest) = Inr (opt_rev (eul_tlli b), rest)"
    "\<forall>rest. dec_pfi t (is_present (eul_pfi b)) (pfi @ rest) = Inr (eul_pfi b, rest)"
    using ul_egprs_shape [OF t mcs h tp e ho po _ mem] size hs(2) by force
  note f = eul_received_fields [OF h, of "is_present (eul_pfi b)"]
  have "dec_RlcmacUlEgprsDataBlock t octs = Inr (egprs_received b False bs)"
    unfolding dec_RlcmacUlEgprsDataBlock_def o(3) Let_def
    by (simp add: f setup_type_3 o(4,5,6,7,9,10) o(8) [unfolded One_nat_def] hs(3) ds egprs_received_def
        del: bind_result_eq_Inr map_result_eq_Inr add_2_eq_Suc')
  with o(1,2) show ?thesis by blast
qed

text \<open>A block without length octets takes all that is left: its payload comes back with what fills the data block.\<close>

lemma ul_egprs_whole_roundtrip:
  assumes t: "titan_ok t" and mcs: "eul_mcs b \<in> {MCS_1, MCS_2, MCS_3, MCS_4}" and h: "valid_eul (eul_mac_hdr b)"
    and tp: "valid_tlli (eul_tlli b)" "valid_opt_pfi (eul_pfi b)"
    and mem: "4 \<le> length beyond" "f_rlcmac_cs_mcs2block_len (eul_mcs b) \<le> length space"
    and bs: "eul_blocks b = Some [whole_block p]"
    and size: "5 + opt_size (eul_tlli b) (eul_pfi b) + length p \<le> f_rlcmac_cs_mcs2block_len (eul_mcs b)"
  shows "\<exists>octs pad. enc_RlcmacUlEgprsDataBlock beyond space t b = Inr octs \<and> length octs = f_rlcmac_cs_mcs2block_len (eul_mcs b) \<and>
    length (p @ pad) + opt_size (eul_tlli b) (eul_pfi b) = coding_scheme_2_data_block_len (eul_mcs b) \<and>
    dec_RlcmacUlEgprsDataBlock t octs = Inr (egprs_received b True [whole_block (p @ pad)])"
proof -
  have e: "ul_e_of (eul_blocks b) = Inr True" using bs by (simp add: ul_e_of_def whole_block_def)
  have ho: "ul_hdr_octets (fst (raw_EgprsLlcBlockHdr t)) True (eul_blocks b) = Inr []" by (simp add: ul_hdr_octets_def)
  have po: "put_payloads (omit_is_bound t) (case eul_blocks b of None \<Rightarrow> [] | Some bs \<Rightarrow> bs) = Inr p"
    by (simp add: bs whole_block_def block_is_bound_def)
  obtain octs tlli pfi junk aligned where o: "enc_RlcmacUlEgprsDataBlock beyond space t b = Inr octs"
    "length octs = f_rlcmac_cs_mcs2block_len (eul_mcs b)" "payload_len_2_coding_scheme (length octs) = eul_mcs b"
    "dec_EgprsUlMacDataHeader (eul_mcs b) octs = Inr (eul_received ((eul_mac_hdr b)\<lparr>eul_pfi_ind := is_present (eul_pfi b)\<rparr>))"
    "get_egprs_data_block octs 31 (coding_scheme_2_data_block_len (eul_mcs b) * 8 + 2) = Inr aligned"
    "(aligned ! 0 AND 2 \<noteq> 0) = is_present (eul_tlli b)" "(aligned ! 0 AND 1 \<noteq> 0) = True"
    "drop 1 aligned = [] @ tlli @ pfi @ p @ junk"
    "\<forall>rest. dec_tlli (is_present (eul_tlli b)) (tlli @ rest) = Inr (opt_rev (eul_tlli b), rest)"
    "\<forall>rest. dec_pfi t (is_present (eul_pfi b)) (pfi @ rest) = Inr (eul_pfi b, rest)"
    "length (p @ junk) + length ([] :: octets) + opt_size (eul_tlli b) (eul_pfi b) = coding_scheme_2_data_block_len (eul_mcs b)"
    using ul_egprs_shape [OF t mcs h tp e ho po _ mem] size by force
  note f = eul_received_fields [OF h, of "is_present (eul_pfi b)"]
  have "dec_RlcmacUlEgprsDataBlock t octs = Inr (egprs_received b True [whole_block (p @ junk)])"
    unfolding dec_RlcmacUlEgprsDataBlock_def o(3) Let_def
    by (simp add: f setup_type_3 o(4,5,6,7,9,10) o(8) [unfolded One_nat_def] egprs_received_def
        del: bind_result_eq_Inr map_result_eq_Inr add_2_eq_Suc')
  with o(1,2,11) show ?thesis by (intro exI [of _ octs] exI [of _ junk]) simp
qed

section \<open>Properties\<close>

definition example_ul :: RlcmacUlDataBlock where
  "example_ul = \<lparr>ul_cs = CS_2, ul_mac_hdr = \<lparr>ul_payload_type = MAC_PT_RLC_DATA, countdown = 3, stall_ind = False, retry = True,
     ul_spare = False, pfi_ind = False, ul_tfi = 17, tlli_ind = False, ul_bsn = 99, ul_e = True\<rparr>,
     ul_tlli = Present [1, 2, 3, 4], ul_pfi = Omit,
     ul_blocks = Some [\<lparr>hdr = Present \<lparr>length_ind = 2, more_pdu = True, hdr_e = False\<rparr>, payload = Some [5, 6]\<rparr>,
       \<lparr>hdr = Present \<lparr>length_ind = 1, more_pdu = False, hdr_e = True\<rparr>, payload = Some [7]\<rparr>]\<rparr>"

text \<open>
  C33. An uplink GPRS data block survives encoding and decoding, for every coding scheme, with and
  without TLLI and PFI: a block with length octets comes back as it was, its presence bits put right;
  a block without, which takes all that is left, comes back with the padding appended to its payload.
  The encoding has the length of the coding scheme.
\<close>

theorem RlcmacUlDataBlock_roundtrip:
  assumes "titan_ok t" "is_cs (ul_cs b)" "valid_UlMacDataHeader (ul_mac_hdr b)" "valid_tlli (ul_tlli b)" "valid_opt_pfi (ul_pfi b)"
  shows
    "(\<forall>bs. ul_blocks b = Some bs \<longrightarrow> segmented valid_LlcBlockHdr hdr_e length_ind bs \<longrightarrow>
       3 + length bs + opt_size (ul_tlli b) (ul_pfi b) + length (payloads_of bs) \<le> f_rlcmac_cs_mcs2block_len_no_spare_bits (ul_cs b) \<longrightarrow>
       (\<exists>octs. enc_RlcmacUlDataBlock t b = Inr octs \<and> length octs = f_rlcmac_cs_mcs2block_len (ul_cs b) \<and>
          dec_RlcmacUlDataBlock t octs = Inr (b\<lparr>ul_mac_hdr := ul_fixed_hdr False b\<rparr>))) \<and>
     (\<forall>p. ul_blocks b = Some [whole_block p] \<longrightarrow>
       3 + opt_size (ul_tlli b) (ul_pfi b) + length p \<le> f_rlcmac_cs_mcs2block_len_no_spare_bits (ul_cs b) \<longrightarrow>
       (\<exists>octs pad. enc_RlcmacUlDataBlock t b = Inr octs \<and> length octs = f_rlcmac_cs_mcs2block_len (ul_cs b) \<and>
          dec_RlcmacUlDataBlock t octs = Inr (b\<lparr>ul_mac_hdr := ul_fixed_hdr True b, ul_blocks := Some [whole_block (p @ pad)]\<rparr>)))"
  using ul_segmented_roundtrip [OF assms] ul_whole_roundtrip [OF assms] by blast

theorem RlcmacUlDataBlock_roundtrip_witness:
  "\<exists>octs. enc_RlcmacUlDataBlock msb_titan example_ul = Inr octs \<and> length octs = 34 \<and>
     dec_RlcmacUlDataBlock msb_titan octs = Inr (example_ul\<lparr>ul_mac_hdr := ul_fixed_hdr False example_ul\<rparr>)"
proof -
  have "is_cs (ul_cs example_ul)" "valid_UlMacDataHeader (ul_mac_hdr example_ul)" "valid_tlli (ul_tlli example_ul)"
    "valid_opt_pfi (ul_pfi example_ul)"
    by (simp_all add: example_ul_def is_cs_def valid_UlMacDataHeader_def valid_tlli_def valid_opt_pfi_def)
  note * = RlcmacUlDataBlock_roundtrip [OF msb_titan_ok this, THEN conjunct1, rule_format]
  show ?thesis
    using * [of "the (ul_blocks example_ul)"]
    by (simp add: example_ul_def valid_LlcBlockHdr_def opt_size_def is_present_def payloads_of_def
        f_rlcmac_cs_mcs2block_len_def f_rlcmac_cs_mcs2block_len_no_spare_bits_def)
qed


definition example_dl :: RlcmacDlDataBlock where
  "example_dl = \<lparr>dl_cs = CS_1, dl_mac_hdr = \<lparr>mac_hdr = \<lparr>payload_type = MAC_PT_RLC_DATA, rrbp = RRBP_Nplus13, rrbp_valid = False, usf = 5\<rparr>,
     hdr_ext = \<lparr>pr = PWR_RED_0_to_3dB, ext_spare = False, tfi = 11, fbi = True, bsn = 100, ext_e = True\<rparr>\<rparr>,
     dl_blocks = Some [\<lparr>hdr = Present \<lparr>length_ind = 2, more_pdu = True, hdr_e = True\<rparr>, payload = Some [5, 6]\<rparr>,
       \<lparr>hdr = Present \<lparr>length_ind = 1, more_pdu = False, hdr_e = False\<rparr>, payload = Some [7]\<rparr>]\<rparr>"


definition example_egprs :: RlcmacUlEgprsDataBlock where
  "example_egprs = \<lparr>eul_mcs = MCS_1, eul_mac_hdr = \<lparr>eul_header_type = RLCMAC_HDR_TYPE_3, eul_tfi = 21, eul_countdown = 9,
     eul_foi_si = [True], eul_r_ri = [False], eul_bsn1 = 1234, eul_bsn2_offset = None, eul_cps = 11, eul_pfi_ind = False,
     eul_rsb = [True], eul_spb = Present [True, False]\<rparr>, eul_tlli_ind = False, eul_e = False,
     eul_tlli = Present [1, 2, 3, 4], eul_pfi = Present \<lparr>pfi_value = 77, pfi_m = True\<rparr>,
     eul_blocks = Some [\<lparr>hdr = Present \<lparr>egprs_length_ind = 3, egprs_hdr_e = True\<rparr>, payload = Some [5, 6, 7]\<rparr>]\<rparr>"

text \<open>
  C18. An uplink EGPRS data block of MCS-1 to MCS-4, with a header of type 3, laid behind its header at a position that is not
  octet-aligned, comes back from the decoder whatever the memory next to the buffers holds, with these differences: the
  TLLI comes back with its octets reversed, for only the encoder turns them round; the two bits of the split block
  indicator have changed places; the second sequence number, which a header of type 3 does not have, is not set; the presence bits
  and the E bit are put right. The blocks come back as they were when they all have length octets (a length equal to the payload's, the E bit
  in the last one only); a block without, which takes all that is left, comes back with what fills the data
  block appended to its payload. The encoding has the length of the coding scheme.
\<close>

theorem RlcmacUlEgprsDataBlock_roundtrip:
  assumes "titan_ok t" "eul_mcs b \<in> {MCS_1, MCS_2, MCS_3, MCS_4}" "valid_eul (eul_mac_hdr b)"
    and "valid_tlli (eul_tlli b)" "valid_opt_pfi (eul_pfi b)"
    and "4 \<le> length beyond" "f_rlcmac_cs_mcs2block_len (eul_mcs b) \<le> length space"
  defines "received \<equiv> (\<lambda>e bs. b\<lparr>
      eul_mac_hdr := (eul_mac_hdr b)\<lparr>eul_pfi_ind := is_present (eul_pfi b), eul_bsn2_offset := None,
        eul_spb := (case eul_spb (eul_mac_hdr b) of Present s \<Rightarrow> Present (rev s) | x \<Rightarrow> x)\<rparr>,
      eul_tlli_ind := is_present (eul_tlli b), eul_e := e,
      eul_tlli := (case eul_tlli b of Present s \<Rightarrow> Present (rev s) | x \<Rightarrow> x), eul_blocks := Some bs\<rparr>)"
  shows
    "(\<forall>bs. eul_blocks b = Some bs \<longrightarrow> segmented valid_EgprsLlcBlockHdr egprs_hdr_e egprs_length_ind bs \<longrightarrow>
       5 + length bs + opt_size (eul_tlli b) (eul_pfi b) + length (payloads_of bs) \<le> f_rlcmac_cs_mcs2block_len (eul_mcs b) \<longrightarrow>
       (\<exists>octs. enc_RlcmacUlEgprsDataBlock beyond space t b = Inr octs \<and> length octs = f_rlcmac_cs_mcs2block_len (eul_mcs b) \<and>
          dec_RlcmacUlEgprsDataBlock t octs = Inr (received False bs))) \<and>
     (\<forall>p. eul_blocks b = Some [whole_block p] \<longrightarrow>
       5 + opt_size (eul_tlli b) (eul_pfi b) + length p \<le> f_rlcmac_cs_mcs2block_len (eul_mcs b) \<longrightarrow>
       (\<exists>octs pad. enc_RlcmacUlEgprsDataBlock beyond space t b = Inr octs \<and> length octs = f_rlcmac_cs_mcs2block_len (eul_mcs b) \<and>
          length (p @ pad) + opt_size (eul_tlli b) (eul_pfi b) = coding_scheme_2_data_block_len (eul_mcs b) \<and>
          dec_RlcmacUlEgprsDataBlock t octs = Inr (received True [whole_block (p @ pad)])))"
proof -
  have r: "received e bs = egprs_received b e bs" for e bs
    by (simp add: received_def egprs_received_def eul_received_def opt_rev_def split: opt.split)
  show ?thesis unfolding r using ul_egprs_roundtrip [OF assms(1-7)] ul_egprs_whole_roundtrip [OF assms(1-7)] by blast
qed

theorem RlcmacUlEgprsDataBlock_roundtrip_witness:
  "\<exists>octs b. enc_RlcmacUlEgprsDataBlock (replicate 4 0xaa) (replicate 27 0xbb) msb_titan example_egprs = Inr octs \<and> length octs = 27 \<and>
     dec_RlcmacUlEgprsDataBlock msb_titan octs = Inr b \<and> eul_blocks b = eul_blocks example_egprs \<and>
     eul_tlli b = Present [4, 3, 2, 1] \<and> eul_spb (eul_mac_hdr b) = Present [False, True] \<and> eul_bsn1 (eul_mac_hdr b) = 1234"
proof -
  have "eul_mcs example_egprs \<in> {MCS_1, MCS_2, MCS_3, MCS_4}" "valid_eul (eul_mac_hdr example_egprs)"
    "valid_tlli (eul_tlli example_egprs)" "valid_opt_pfi (eul_pfi example_egprs)"
    by (simp_all add: example_egprs_def valid_eul_def valid_tlli_def valid_opt_pfi_def valid_pfi_def)
  note * = RlcmacUlEgprsDataBlock_roundtrip [OF msb_titan_ok this, of "replicate 4 0xaa" "replicate 27 0xbb", THEN conjunct1, rule_format]
  show ?thesis
    using * [of "the (eul_blocks example_egprs)"]
    by (simp add: example_egprs_def valid_EgprsLlcBlockHdr_def payloads_of_def opt_size_def is_present_def
        f_rlcmac_cs_mcs2block_len_def) auto
qed

text \<open>
  The copy to an aligned buffer returns the string of bits at the given position of the source,
  for every position and length within it.
\<close>

theorem clone_aligned_buffer_lsbf_bits:
  assumes "ofs div 8 + 1 + n \<le> length src"
  shows "\<exists>dst. clone_aligned_buffer_lsbf ofs n src = Inr dst \<and> length dst = n \<and>
    bits_of dst = take (8 * n) (drop ofs (bits_of src))"
proof -
  have "\<exists>dst. clone_aligned_buffer_lsbf ofs n src = Inr dst"
    using assms by (auto simp: clone_aligned_buffer_lsbf_def Let_def)
  then show ?thesis using clone_aligned_bits by blast
qed

theorem clone_aligned_buffer_lsbf_bits_witness:
  "\<exists>dst. clone_aligned_buffer_lsbf 11 2 [0x01, 0x82, 0xff, 0x0f] = Inr dst \<and>
     bits_of dst = take 16 (drop 11 (bits_of [0x01, 0x82, 0xff, 0x0f]))"
  using clone_aligned_buffer_lsbf_bits [of 11 2 "[0x01, 0x82, 0xff, 0x0f]"] by auto

text \<open>
  The header of an uplink EGPRS block of type 1 (MCS-7 to MCS-9) is lost: the data of such a block
  start at an octet boundary of the copy, where the copy moves data from behind the start of the
  source to the start of the target, over the header. Two blocks that differ in the header only are
  encoded alike.
\<close>

theorem enc_type_1_loses_header:
  assumes "eul_header_type (eul_mac_hdr b) = RLCMAC_HDR_TYPE_1" "eul_cps (eul_mac_hdr b) < 32" "eul_bsn2_offset (eul_mac_hdr b) = Some n"
    and "eul_header_type h = RLCMAC_HDR_TYPE_1" "eul_cps h < 32" "eul_bsn2_offset h = Some m"
  shows "enc_RlcmacUlEgprsDataBlock beyond space t (b\<lparr>eul_mac_hdr := h\<rparr>) = enc_RlcmacUlEgprsDataBlock beyond space t b"
proof -
  have put: "put_egprs_data_block beyond space al 46 bits head = put_egprs_data_block beyond space al 46 bits' head'"
    if "length head = 6" "length head' = 6" for al bits bits' head head'
    using that by (auto simp: put_egprs_data_block_def clone_unaligned_buffer_lsbf_def Let_def)
  have mcs: "\<exists>mcs. f_rlcmac_cps_htype_to_mcs k RLCMAC_HDR_TYPE_1 = Inr mcs" if "k < 32" for k
    using that by (simp add: f_rlcmac_cps_htype_to_mcs_def cps_htype1_to_mcs_def)
  have head: "\<exists>head. enc_RlcmacUlEgprsDataHeader (g\<lparr>eul_pfi_ind := x\<rparr>) = Inr head \<and> length head = 6"
    if "eul_header_type g = RLCMAC_HDR_TYPE_1" "eul_bsn2_offset g = Some k" for g k x
    using that ul1.length_octets by (simp add: enc_RlcmacUlEgprsDataHeader_def enc_RlcmacUlEgprsDataHeader_type1_def)
  obtain m1 m2 where m: "f_rlcmac_cps_htype_to_mcs (eul_cps (eul_mac_hdr b)) RLCMAC_HDR_TYPE_1 = Inr m1"
      "f_rlcmac_cps_htype_to_mcs (eul_cps h) RLCMAC_HDR_TYPE_1 = Inr m2"
    using mcs assms(2,5) by blast
  obtain h1 h2 where hh: "enc_RlcmacUlEgprsDataHeader ((eul_mac_hdr b)\<lparr>eul_pfi_ind := is_present (eul_pfi b)\<rparr>) = Inr h1" "length h1 = 6"
      "enc_RlcmacUlEgprsDataHeader (h\<lparr>eul_pfi_ind := is_present (eul_pfi b)\<rparr>) = Inr h2" "length h2 = 6"
    using head assms by metis
  show ?thesis
    using assms m hh put [OF hh(4,2), where bits = "coding_scheme_2_data_block_len m2 * 8 + 2"
        and bits' = "coding_scheme_2_data_block_len m1 * 8 + 2"]
    by (simp add: enc_RlcmacUlEgprsDataBlock_def setup_rlc_mac_priv_def Let_def)
qed

definition example_type_1 :: "nat \<Rightarrow> EgprsUlMacDataHeader" where
  "example_type_1 n = \<lparr>eul_header_type = RLCMAC_HDR_TYPE_1, eul_tfi = 21, eul_countdown = 9,
     eul_foi_si = [True], eul_r_ri = [False], eul_bsn1 = n, eul_bsn2_offset = Some 1, eul_cps = 11, eul_pfi_ind = False,
     eul_rsb = [True], eul_spb = Omit\<rparr>"

theorem enc_type_1_loses_header_witness:
  "enc_RlcmacUlEgprsDataBlock (replicate 11 0) (replicate 143 0) msb_titan (example_egprs\<lparr>eul_mcs := MCS_8, eul_mac_hdr := example_type_1 7\<rparr>)
   = enc_RlcmacUlEgprsDataBlock (replicate 11 0) (replicate 143 0) msb_titan (example_egprs\<lparr>eul_mcs := MCS_8, eul_mac_hdr := example_type_1 500\<rparr>)"
  using enc_type_1_loses_header [of "example_egprs\<lparr>eul_mcs := MCS_8, eul_mac_hdr := example_type_1 500\<rparr>" 1 "example_type_1 7" 1]
  by (simp add: example_type_1_def)

text \<open>
  The payload of a downlink EGPRS block without length octets is taken from the wrong buffer: it is
  the front of the block as received, which starts with the octets of the header.
\<close>

theorem dl_egprs_whole_block_is_front_of_stream:
  assumes "dec_RlcmacDlEgprsDataBlock t stream = Inr b" "edl_e b"
  shows "edl_blocks b = Some [whole_block (take (coding_scheme_2_data_block_len (payload_len_2_coding_scheme (length stream))) stream)]"
proof -
  let ?mcs = "payload_len_2_coding_scheme (length stream)"
  let ?dbl = "coding_scheme_2_data_block_len ?mcs"
  have "\<exists>ofs aligned. get_egprs_data_block stream ofs (?dbl * 8 + 2) = Inr aligned \<and>
      edl_blocks b = Some [whole_block (take (length aligned - 1) stream)]"
    using assms by (auto simp: dec_RlcmacDlEgprsDataBlock_def setup_rlc_mac_priv_def Let_def split_beta split: if_splits) blast
  then obtain ofs aligned where "get_egprs_data_block stream ofs (?dbl * 8 + 2) = Inr aligned"
    and b: "edl_blocks b = Some [whole_block (take (length aligned - 1) stream)]" by blast
  moreover have "(6 + (?dbl * 8 + 2) + 7) div 8 = ?dbl + 1" by simp
  ultimately have "length aligned = ?dbl + 1"
    using clone_aligned_bits by (fastforce simp: get_egprs_data_block_def Let_def)
  with b show ?thesis by simp
qed

definition example_dl_egprs :: octets where
  "example_dl_egprs = [0x11, 0x22, 0x33, 0x84, 0x54] @ replicate 22 0x66"

theorem dl_egprs_whole_block_is_front_of_stream_witness:
  "\<exists>b. dec_RlcmacDlEgprsDataBlock msb_titan example_dl_egprs = Inr b \<and> edl_e b \<and>
    edl_blocks b = Some [whole_block ([0x11, 0x22, 0x33, 0x84, 0x54] @ replicate 17 0x66)]"
proof -
  have "(case dec_RlcmacDlEgprsDataBlock msb_titan example_dl_egprs of Inl _ \<Rightarrow> False | Inr b \<Rightarrow> edl_e b)"
    by code_simp
  then obtain b where b: "dec_RlcmacDlEgprsDataBlock msb_titan example_dl_egprs = Inr b" "edl_e b"
    by (cases "dec_RlcmacDlEgprsDataBlock msb_titan example_dl_egprs") auto
  show ?thesis
    using b dl_egprs_whole_block_is_front_of_stream [OF b]
    by (simp add: example_dl_egprs_def payload_len_2_coding_scheme_def coding_scheme_2_data_block_len_def)
qed

text \<open>
  Uplink blocks of MCS-5 and above, whose headers are of type 1 or 2, are refused, whatever they
  contain; the encoder produces them.
\<close>

theorem ul_mcs_5_and_above_refused:
  assumes "MCS_5 \<le> payload_len_2_coding_scheme (length stream)"
  shows "dec_RlcmacUlBlock t stream = Inl TtcnError"
proof -
  have "payload_len_2_coding_scheme (length stream) \<in> {MCS_5, MCS_6, MCS_7, MCS_8, MCS_9}"
    using assms by (cases "payload_len_2_coding_scheme (length stream)") (simp_all add: less_eq_CodingScheme_def cs_enum_def)
  then show ?thesis
    by (auto simp: dec_RlcmacUlBlock_def is_cs_def dec_RlcmacUlEgprsDataBlock_def dec_EgprsUlMacDataHeader_def
        dec_EgprsUlMacDataHeader_type1_def dec_EgprsUlMacDataHeader_type2_def Let_def)
qed

theorem ul_mcs_5_and_above_refused_witness:
  "dec_RlcmacUlBlock msb_titan (replicate 61 0) = Inl TtcnError"
  by (rule ul_mcs_5_and_above_refused) (simp add: payload_len_2_coding_scheme_def less_eq_CodingScheme_def cs_enum_def)

end
