(* ===== verification/MNCC_EncDec.thy ===== *)
theory MNCC_EncDec
  imports Prelude
begin

text \<open>
  The codec of the call control socket of OsmoMSC, \<^verbatim>\<open>library/MNCC_EncDec.cc\<close> over the C structures of
  \<^verbatim>\<open>library/mncc.h\<close>: TTCN-3 values of \<^verbatim>\<open>MNCC_Types.ttcn\<close> are written to and read from the memory of
  C structures. The structures are records, their memory image on the tests' platform (32-bit int,
  little endian, natural alignment) is \<^verbatim>\<open>..._octets\<close>, and the decoder reads a received octet string
  at the offsets of the members, the way the C++ casts do. A read outside the string is
  \<^term>\<open>OutOfBounds\<close>. A charstring is the list of its character codes.

  What the code uses of the TITAN runtime is the record \<open>titan_rt\<close>: the conversion of a TTCN-3
  integer to a C int, and the checked conversion of a number to an enumerated type.
\<close>

unbundle bit_operations_syntax

section \<open>The TITAN runtime and the memory\<close>

record titan_rt =
  native_int :: "int \<Rightarrow> u32 result"
  enum_from_int :: "int list \<Rightarrow> int \<Rightarrow> int result"

text \<open>
  The documented behaviour: an integer outside the range of int is refused, every other one is
  converted, and the declared values of an enumerated type are accepted (and no other).
\<close>

definition native_ok :: "int \<Rightarrow> bool" where
  "native_ok i \<longleftrightarrow> - (2 ^ 31) \<le> i \<and> i < 2 ^ 31"

definition titan_rt_ok :: "titan_rt \<Rightarrow> bool" where
  "titan_rt_ok rt \<longleftrightarrow>
     native_int rt = (\<lambda>i. if native_ok i then Inr (word_of_int i) else Inl TtcnError) \<and>
     enum_from_int rt = (\<lambda>vs i. if i \<in> set vs then Inr i else Inl TtcnError)"

text \<open>Little-endian members of a structure, and reads of the received octets at an offset.\<close>

definition le32_octets :: "u32 \<Rightarrow> octets" where
  "le32_octets w = [octet_of 0 w, octet_of 1 w, octet_of 2 w, octet_of 3 w]"

definition rd8 :: "octets \<Rightarrow> nat \<Rightarrow> u8 result" where
  "rd8 xs ofs = (if ofs < length xs then Inr (xs ! ofs) else Inl OutOfBounds)"

definition rd_octets :: "octets \<Rightarrow> nat \<Rightarrow> nat \<Rightarrow> octets result" where
  "rd_octets xs ofs n = (if ofs + n \<le> length xs then Inr (take n (drop ofs xs)) else Inl OutOfBounds)"

definition rd32 :: "octets \<Rightarrow> nat \<Rightarrow> u32 result" where
  "rd32 xs ofs = map_result (\<lambda>b. be32 (b ! 3) (b ! 2) (b ! 1) (b ! 0)) (rd_octets xs ofs 4)"

text \<open>Every number of a structure, signed or not, becomes a TTCN-3 integer as an int.\<close>

definition rd_int :: "octets \<Rightarrow> nat \<Rightarrow> int result" where
  "rd_int xs ofs = map_result sint (rd32 xs ofs)"

definition rd_enum :: "titan_rt \<Rightarrow> int list \<Rightarrow> octets \<Rightarrow> nat \<Rightarrow> int result" where
  "rd_enum rt vs xs ofs = bind_result (rd_int xs ofs) (enum_from_int rt vs)"

text \<open>A C string, up to its terminating 0, and \<^verbatim>\<open>strncpy\<close>, which pads with 0 and does not terminate.\<close>

definition rd_cstring :: "octets \<Rightarrow> nat \<Rightarrow> octets result" where
  "rd_cstring xs ofs = (let s = takeWhile (\<lambda>c. c \<noteq> 0) (drop ofs xs) in
     if ofs + length s < length xs then Inr s else Inl OutOfBounds)"

definition strncpy :: "octets \<Rightarrow> nat \<Rightarrow> octets" where
  "strncpy cs n = (let s = take n (takeWhile (\<lambda>c. c \<noteq> 0) cs) in s @ replicate (n - length s) 0)"

definition strlen :: "octets \<Rightarrow> nat" where
  "strlen cs = length (takeWhile (\<lambda>c. c \<noteq> 0) cs)"

section \<open>The enumerated types\<close>

definition GSM48_bcap_ra :: "int list" where
  "GSM48_bcap_ra = [0, 1, 2, 3]"

definition GSM48_bcap_sig_access :: "int list" where
  "GSM48_bcap_sig_access = [0, 1, 2, 3, 4, 5, 6]"

definition GSM48_bcap_user_rate :: "int list" where
  "GSM48_bcap_user_rate = [0, 1, 2, 3, 4, 5, 6, 7]"

definition GSM48_bcap_parity :: "int list" where
  "GSM48_bcap_parity = [0, 2, 3, 4, 5]"

definition GSM48_bcap_interm_rate :: "int list" where
  "GSM48_bcap_interm_rate = [0, 2, 3]"

definition GSM48_bcap_transp :: "int list" where
  "GSM48_bcap_transp = [0, 1, 2, 3]"

definition GSM48_bcap_modem_type :: "int list" where
  "GSM48_bcap_modem_type = [0, 1, 2, 3, 4, 5, 6, 7, 8]"

definition GSM48_type_of_number :: "int list" where
  "GSM48_type_of_number = [0, 1, 2, 3, 4]"

definition GSM48_num_plan_ind :: "int list" where
  "GSM48_num_plan_ind = [0, 1, 3, 4, 8, 9, 11, 15]"

definition GSM48_present_ind :: "int list" where
  "GSM48_present_ind = [0, 1, 2, 3]"

definition GSM48_screening_ind :: "int list" where
  "GSM48_screening_ind = [0, 1, 2, 3]"

definition GSM48_cause_coding :: "int list" where
  "GSM48_cause_coding = [0, 1, 2, 3]"

definition GSM48_cause_loc :: "int list" where
  "GSM48_cause_loc = [0, 1, 2, 3, 4, 5, 7, 10]"

definition MNCC_MsgType :: "int list" where
  "MNCC_MsgType = map int ([0x0101..<0x0130] @ [0x0200..<0x0207] @ [0x0300..<0x0304]) @ [0x03ff, 0x0400]"

section \<open>The TTCN-3 values\<close>

record MNCC_bearer_cap_data =
  bd_rate_adaptation :: int
  bd_sig_access :: int
  bd_async :: int
  bd_nr_stop_bits :: int
  bd_nr_data_bits :: int
  bd_user_rate :: int
  bd_parity :: int
  bd_interm_rate :: int
  bd_transp :: int
  bd_modem_type :: int

record MNCC_bearer_cap =
  bc_transfer :: int
  bc_mode :: int
  bc_coding :: int
  bc_radio :: int
  bc_speech_ctm :: int
  bc_speech_ver :: "int list"
  bc_data :: "MNCC_bearer_cap_data option"

record MNCC_number =
  nr_type :: int
  nr_plan :: int
  nr_presence :: int
  nr_screen :: int
  nr_number :: octets

record MNCC_cause =
  ca_location :: int
  ca_coding :: int
  ca_rec :: int
  ca_rec_val :: int
  ca_val :: int
  ca_diag :: octets

record MNCC_useruser =
  uu_proto :: int
  uu_info :: octets

record MNCC_progress =
  pr_coding :: int
  pr_location :: int
  pr_descr :: int

record MNCC_cccap =
  cc_dtmf :: int
  cc_pcp :: int

record MNCC_PDU_Signal =
  sg_callref :: int
  sg_bearer_cap :: "MNCC_bearer_cap option"
  sg_called :: "MNCC_number option"
  sg_calling :: "MNCC_number option"
  sg_redirecting :: "MNCC_number option"
  sg_connected :: "MNCC_number option"
  sg_cause :: "MNCC_cause option"
  sg_progress :: "MNCC_progress option"
  sg_useruser :: "MNCC_useruser option"
  sg_facility :: "octets option"
  sg_cccap :: "MNCC_cccap option"
  sg_ssversion :: "octets option"
  sg_clir_sup :: int
  sg_clir_inv :: int
  sg_signal :: "int option"
  sg_keypad :: "octets option"
  sg_more :: int
  sg_notify :: int
  sg_emergency :: "int option"
  sg_imsi :: octets
  sg_lchan_type :: int
  sg_lchan_mode :: int
  sg_gcr :: "octets option"
  sg_sdp :: "octets option"

record MNCC_PDU_Data =
  da_callref :: int
  da_data :: octets

record MNCC_PDU_Rtp =
  rtp_callref :: int
  rtp_is_ipv6 :: bool
  rtp_ip :: octets
  rtp_port :: int
  rtp_payload_type :: int
  rtp_payload_msg_type :: int
  rtp_sdp :: "octets option"

record MNCC_PDU_Hello =
  he_version :: int
  he_mncc_size :: int
  he_data_frame_size :: int
  he_called_offset :: int
  he_signal_offset :: int
  he_emergency_offset :: int
  he_lchan_type_offset :: int

datatype MNCC_MsgUnion = Signal MNCC_PDU_Signal | Data MNCC_PDU_Data | Rtp MNCC_PDU_Rtp | Hello MNCC_PDU_Hello

record MNCC_PDU =
  pdu_msg_type :: int
  pdu_u :: MNCC_MsgUnion

section \<open>The C structures\<close>

record gsm_mncc_bcap_data =
  cbd_rate_adaption :: u32
  cbd_sig_access :: u32
  cbd_async :: u32
  cbd_nr_stop_bits :: u32
  cbd_nr_data_bits :: u32
  cbd_user_rate :: u32
  cbd_parity :: u32
  cbd_interm_rate :: u32
  cbd_transp :: u32
  cbd_modem_type :: u32

record gsm_mncc_bearer_cap =
  cb_transfer :: u32
  cb_mode :: u32
  cb_coding :: u32
  cb_radio :: u32
  cb_speech_ctm :: u32
  cb_speech_ver :: "u32 list"
  cb_data :: gsm_mncc_bcap_data

record gsm_mncc_number =
  cn_type :: u32
  cn_plan :: u32
  cn_present :: u32
  cn_screen :: u32
  cn_number :: octets

record gsm_mncc_cause =
  cca_location :: u32
  cca_coding :: u32
  cca_rec :: u32
  cca_rec_val :: u32
  cca_value :: u32
  cca_diag_len :: u32
  cca_diag :: octets

record gsm_mncc_useruser =
  cu_proto :: u32
  cu_info :: octets

record gsm_mncc_progress =
  cp_coding :: u32
  cp_location :: u32
  cp_descr :: u32

record gsm_mncc_facility =
  cf_len :: u32
  cf_info :: octets

record gsm_mncc_ssversion =
  cs_len :: u32
  cs_info :: octets

record gsm_mncc_cccap =
  ccc_dtmf :: u32
  ccc_pcp :: u32

text \<open>The union at the end of the structure is the 1040 octets of its longer member, \<^verbatim>\<open>v8\<close>.\<close>

record gsm_mncc =
  m_msg_type :: u32
  m_callref :: u32
  m_fields :: u32
  m_bearer_cap :: gsm_mncc_bearer_cap
  m_called :: gsm_mncc_number
  m_calling :: gsm_mncc_number
  m_redirecting :: gsm_mncc_number
  m_connected :: gsm_mncc_number
  m_cause :: gsm_mncc_cause
  m_progress :: gsm_mncc_progress
  m_useruser :: gsm_mncc_useruser
  m_facility :: gsm_mncc_facility
  m_cccap :: gsm_mncc_cccap
  m_ssversion :: gsm_mncc_ssversion
  m_clir_sup :: u32
  m_clir_inv :: u32
  m_signal :: u32
  m_keypad :: u32
  m_more :: u32
  m_notify :: u32
  m_emergency :: u32
  m_imsi :: octets
  m_lchan_type :: u8
  m_lchan_mode :: u8
  m_union :: octets

record gsm_mncc_hello =
  h_msg_type :: u32
  h_version :: u32
  h_mncc_size :: u32
  h_data_frame_size :: u32
  h_called_offset :: u32
  h_signal_offset :: u32
  h_emergency_offset :: u32
  h_lchan_type_offset :: u32

text \<open>The address of an RTP message: a \<^verbatim>\<open>sockaddr_storage\<close> of 128 octets.\<close>

record gsm_mncc_rtp =
  r_msg_type :: u32
  r_callref :: u32
  r_addr :: octets
  r_payload_type :: u32
  r_payload_msg_type :: u32
  r_sdp :: octets

section \<open>Memory images\<close>

definition gsm_mncc_bcap_data_octets :: "gsm_mncc_bcap_data \<Rightarrow> octets" where
  "gsm_mncc_bcap_data_octets d = concat (map le32_octets
     [cbd_rate_adaption d, cbd_sig_access d, cbd_async d, cbd_nr_stop_bits d, cbd_nr_data_bits d,
      cbd_user_rate d, cbd_parity d, cbd_interm_rate d, cbd_transp d, cbd_modem_type d])"

definition gsm_mncc_bearer_cap_octets :: "gsm_mncc_bearer_cap \<Rightarrow> octets" where
  "gsm_mncc_bearer_cap_octets b = concat (map le32_octets
     [cb_transfer b, cb_mode b, cb_coding b, cb_radio b, cb_speech_ctm b]) @
     concat (map le32_octets (cb_speech_ver b)) @ gsm_mncc_bcap_data_octets (cb_data b)"

text \<open>Three octets of padding after the 33 of the number.\<close>

definition gsm_mncc_number_octets :: "gsm_mncc_number \<Rightarrow> octets" where
  "gsm_mncc_number_octets n = concat (map le32_octets [cn_type n, cn_plan n, cn_present n, cn_screen n]) @
     cn_number n @ replicate 3 0"

definition gsm_mncc_cause_octets :: "gsm_mncc_cause \<Rightarrow> octets" where
  "gsm_mncc_cause_octets c = concat (map le32_octets
     [cca_location c, cca_coding c, cca_rec c, cca_rec_val c, cca_value c, cca_diag_len c]) @ cca_diag c"

definition gsm_mncc_progress_octets :: "gsm_mncc_progress \<Rightarrow> octets" where
  "gsm_mncc_progress_octets p = concat (map le32_octets [cp_coding p, cp_location p, cp_descr p])"

text \<open>Three octets of padding after the 129 of the info.\<close>

definition gsm_mncc_useruser_octets :: "gsm_mncc_useruser \<Rightarrow> octets" where
  "gsm_mncc_useruser_octets u = le32_octets (cu_proto u) @ cu_info u @ replicate 3 0"

definition gsm_mncc_facility_octets :: "gsm_mncc_facility \<Rightarrow> octets" where
  "gsm_mncc_facility_octets f = le32_octets (cf_len f) @ cf_info f"

definition gsm_mncc_ssversion_octets :: "gsm_mncc_ssversion \<Rightarrow> octets" where
  "gsm_mncc_ssversion_octets f = le32_octets (cs_len f) @ cs_info f"

definition gsm_mncc_cccap_octets :: "gsm_mncc_cccap \<Rightarrow> octets" where
  "gsm_mncc_cccap_octets c = le32_octets (ccc_dtmf c) @ le32_octets (ccc_pcp c)"

text \<open>The structure has two octets of padding at its end, 1876 octets in all.\<close>

definition gsm_mncc_octets :: "gsm_mncc \<Rightarrow> octets" where
  "gsm_mncc_octets m = le32_octets (m_msg_type m) @ le32_octets (m_callref m) @ le32_octets (m_fields m) @
     gsm_mncc_bearer_cap_octets (m_bearer_cap m) @ gsm_mncc_number_octets (m_called m) @
     gsm_mncc_number_octets (m_calling m) @ gsm_mncc_number_octets (m_redirecting m) @
     gsm_mncc_number_octets (m_connected m) @ gsm_mncc_cause_octets (m_cause m) @
     gsm_mncc_progress_octets (m_progress m) @ gsm_mncc_useruser_octets (m_useruser m) @
     gsm_mncc_facility_octets (m_facility m) @ gsm_mncc_cccap_octets (m_cccap m) @
     gsm_mncc_ssversion_octets (m_ssversion m) @ le32_octets (m_clir_sup m) @ le32_octets (m_clir_inv m) @
     le32_octets (m_signal m) @ le32_octets (m_keypad m) @ le32_octets (m_more m) @
     le32_octets (m_notify m) @ le32_octets (m_emergency m) @ m_imsi m @
     [m_lchan_type m, m_lchan_mode m] @ m_union m @ replicate 2 0"

definition gsm_mncc_hello_octets :: "gsm_mncc_hello \<Rightarrow> octets" where
  "gsm_mncc_hello_octets h = concat (map le32_octets
     [h_msg_type h, h_version h, h_mncc_size h, h_data_frame_size h, h_called_offset h,
      h_signal_offset h, h_emergency_offset h, h_lchan_type_offset h])"

definition gsm_mncc_rtp_octets :: "gsm_mncc_rtp \<Rightarrow> octets" where
  "gsm_mncc_rtp_octets r = le32_octets (r_msg_type r) @ le32_octets (r_callref r) @ r_addr r @
     le32_octets (r_payload_type r) @ le32_octets (r_payload_msg_type r) @ r_sdp r"

text \<open>The structures as \<^verbatim>\<open>memset\<close> leaves them.\<close>

definition zero_bcap_data :: gsm_mncc_bcap_data where
  "zero_bcap_data = \<lparr> cbd_rate_adaption = 0, cbd_sig_access = 0, cbd_async = 0, cbd_nr_stop_bits = 0,
     cbd_nr_data_bits = 0, cbd_user_rate = 0, cbd_parity = 0, cbd_interm_rate = 0, cbd_transp = 0,
     cbd_modem_type = 0 \<rparr>"

definition zero_bearer_cap :: gsm_mncc_bearer_cap where
  "zero_bearer_cap = \<lparr> cb_transfer = 0, cb_mode = 0, cb_coding = 0, cb_radio = 0, cb_speech_ctm = 0,
     cb_speech_ver = replicate 8 0, cb_data = zero_bcap_data \<rparr>"

definition zero_number :: gsm_mncc_number where
  "zero_number = \<lparr> cn_type = 0, cn_plan = 0, cn_present = 0, cn_screen = 0, cn_number = replicate 33 0 \<rparr>"

definition zero_mncc :: gsm_mncc where
  "zero_mncc = \<lparr> m_msg_type = 0, m_callref = 0, m_fields = 0, m_bearer_cap = zero_bearer_cap,
     m_called = zero_number, m_calling = zero_number, m_redirecting = zero_number, m_connected = zero_number,
     m_cause = \<lparr> cca_location = 0, cca_coding = 0, cca_rec = 0, cca_rec_val = 0, cca_value = 0,
       cca_diag_len = 0, cca_diag = replicate 32 0 \<rparr>,
     m_progress = \<lparr> cp_coding = 0, cp_location = 0, cp_descr = 0 \<rparr>,
     m_useruser = \<lparr> cu_proto = 0, cu_info = replicate 129 0 \<rparr>,
     m_facility = \<lparr> cf_len = 0, cf_info = replicate 128 0 \<rparr>,
     m_cccap = \<lparr> ccc_dtmf = 0, ccc_pcp = 0 \<rparr>, m_ssversion = \<lparr> cs_len = 0, cs_info = replicate 128 0 \<rparr>,
     m_clir_sup = 0, m_clir_inv = 0, m_signal = 0, m_keypad = 0, m_more = 0, m_notify = 0, m_emergency = 0,
     m_imsi = replicate 16 0, m_lchan_type = 0, m_lchan_mode = 0, m_union = replicate 1040 0 \<rparr>"

definition zero_hello :: gsm_mncc_hello where
  "zero_hello = \<lparr> h_msg_type = 0, h_version = 0, h_mncc_size = 0, h_data_frame_size = 0, h_called_offset = 0,
     h_signal_offset = 0, h_emergency_offset = 0, h_lchan_type_offset = 0 \<rparr>"

definition zero_rtp :: gsm_mncc_rtp where
  "zero_rtp = \<lparr> r_msg_type = 0, r_callref = 0, r_addr = replicate 128 0, r_payload_type = 0,
     r_payload_msg_type = 0, r_sdp = replicate 1024 0 \<rparr>"

section \<open>Constants\<close>

definition MNCC_F_BEARER_CAP :: u32 where
  "MNCC_F_BEARER_CAP = 0x0001"

definition MNCC_F_CALLED :: u32 where
  "MNCC_F_CALLED = 0x0002"

definition MNCC_F_CALLING :: u32 where
  "MNCC_F_CALLING = 0x0004"

definition MNCC_F_REDIRECTING :: u32 where
  "MNCC_F_REDIRECTING = 0x0008"

definition MNCC_F_CONNECTED :: u32 where
  "MNCC_F_CONNECTED = 0x0010"

definition MNCC_F_CAUSE :: u32 where
  "MNCC_F_CAUSE = 0x0020"

definition MNCC_F_USERUSER :: u32 where
  "MNCC_F_USERUSER = 0x0040"

definition MNCC_F_PROGRESS :: u32 where
  "MNCC_F_PROGRESS = 0x0080"

definition MNCC_F_EMERGENCY :: u32 where
  "MNCC_F_EMERGENCY = 0x0100"

definition MNCC_F_FACILITY :: u32 where
  "MNCC_F_FACILITY = 0x0200"

definition MNCC_F_SSVERSION :: u32 where
  "MNCC_F_SSVERSION = 0x0400"

definition MNCC_F_CCCAP :: u32 where
  "MNCC_F_CCCAP = 0x0800"

definition MNCC_F_KEYPAD :: u32 where
  "MNCC_F_KEYPAD = 0x1000"

definition MNCC_F_SIGNAL :: u32 where
  "MNCC_F_SIGNAL = 0x2000"

definition MNCC_F_GCR :: u32 where
  "MNCC_F_GCR = 0x4000"

lemmas mncc_flags = MNCC_F_BEARER_CAP_def MNCC_F_CALLED_def MNCC_F_CALLING_def MNCC_F_REDIRECTING_def MNCC_F_CONNECTED_def MNCC_F_CAUSE_def MNCC_F_USERUSER_def MNCC_F_PROGRESS_def MNCC_F_EMERGENCY_def MNCC_F_FACILITY_def MNCC_F_SSVERSION_def MNCC_F_CCCAP_def MNCC_F_KEYPAD_def MNCC_F_SIGNAL_def MNCC_F_GCR_def

definition MNCC_RTP_CREATE :: u32 where
  "MNCC_RTP_CREATE = 0x0204"

definition MNCC_RTP_CONNECT :: u32 where
  "MNCC_RTP_CONNECT = 0x0205"

definition MNCC_RTP_FREE :: u32 where
  "MNCC_RTP_FREE = 0x0206"

definition GSM_TCHF_FRAME :: u32 where
  "GSM_TCHF_FRAME = 0x0300"

definition GSM_TCHF_FRAME_EFR :: u32 where
  "GSM_TCHF_FRAME_EFR = 0x0301"

definition GSM_TCHH_FRAME :: u32 where
  "GSM_TCHH_FRAME = 0x0302"

definition GSM_TCH_FRAME_AMR :: u32 where
  "GSM_TCH_FRAME_AMR = 0x0303"

definition GSM_BAD_FRAME :: u32 where
  "GSM_BAD_FRAME = 0x03ff"

definition MNCC_SOCKET_HELLO :: u32 where
  "MNCC_SOCKET_HELLO = 0x0400"

lemmas mncc_msg_types = MNCC_RTP_CREATE_def MNCC_RTP_CONNECT_def MNCC_RTP_FREE_def GSM_TCHF_FRAME_def
  GSM_TCHF_FRAME_EFR_def GSM_TCHH_FRAME_def GSM_TCH_FRAME_AMR_def GSM_BAD_FRAME_def MNCC_SOCKET_HELLO_def

text \<open>The address families of the platform.\<close>

definition AF_UNSPEC :: u16 where
  "AF_UNSPEC = 0"

definition AF_INET :: u16 where
  "AF_INET = 2"

definition AF_INET6 :: u16 where
  "AF_INET6 = 10"

section \<open>The version of the socket's protocol\<close>

definition set_MNCC_version :: "int \<Rightarrow> int \<Rightarrow> bool \<times> int" where
  "set_MNCC_version version mncc_sock_version =
     (if version \<noteq> 7 \<and> version \<noteq> 8 then (False, mncc_sock_version) else (True, version))"

section \<open>Encoding\<close>

text \<open>A statement under \<^verbatim>\<open>if (x().is_value())\<close>.\<close>

definition on_value :: "'a option \<Rightarrow> ('a \<Rightarrow> 's \<Rightarrow> 's result) \<Rightarrow> 's \<Rightarrow> 's result" where
  "on_value v f s = (case v of None \<Rightarrow> Inr s | Some a \<Rightarrow> f a s)"

lemma on_value_simps [simp]: "on_value None f s = Inr s" "on_value (Some a) f s = f a s"
  by (simp_all add: on_value_def)

text \<open>The loop over the speech versions has no check against the eight elements of the array.\<close>

fun enc_speech_ver :: "titan_rt \<Rightarrow> int list \<Rightarrow> nat \<Rightarrow> u32 list \<Rightarrow> u32 list result" where
  "enc_speech_ver rt [] i arr = Inr arr"
| "enc_speech_ver rt (v # vs) i arr = bind_result (native_int rt v) (\<lambda>w.
     if i < length arr then enc_speech_ver rt vs (Suc i) (arr[i := w]) else Inl OutOfBounds)"

definition enc_bcap_data :: "titan_rt \<Rightarrow> MNCC_bearer_cap_data \<Rightarrow> gsm_mncc_bearer_cap \<Rightarrow> gsm_mncc_bearer_cap result" where
  "enc_bcap_data rt d out =
     bind_result (native_int rt (bd_async d)) (\<lambda>async.
     bind_result (native_int rt (bd_nr_stop_bits d)) (\<lambda>nr_stop_bits.
     bind_result (native_int rt (bd_nr_data_bits d)) (\<lambda>nr_data_bits.
     Inr (out\<lparr>cb_data := \<lparr> cbd_rate_adaption = word_of_int (bd_rate_adaptation d),
       cbd_sig_access = word_of_int (bd_sig_access d), cbd_async = async, cbd_nr_stop_bits = nr_stop_bits,
       cbd_nr_data_bits = nr_data_bits, cbd_user_rate = word_of_int (bd_user_rate d),
       cbd_parity = word_of_int (bd_parity d), cbd_interm_rate = word_of_int (bd_interm_rate d),
       cbd_transp = word_of_int (bd_transp d), cbd_modem_type = word_of_int (bd_modem_type d) \<rparr>\<rparr>))))"

definition enc_bcap :: "titan_rt \<Rightarrow> MNCC_bearer_cap \<Rightarrow> gsm_mncc_bearer_cap \<Rightarrow> gsm_mncc_bearer_cap result" where
  "enc_bcap rt b out =
     bind_result (native_int rt (bc_transfer b)) (\<lambda>transfer.
     bind_result (native_int rt (bc_mode b)) (\<lambda>mode.
     bind_result (native_int rt (bc_coding b)) (\<lambda>coding.
     bind_result (native_int rt (bc_radio b)) (\<lambda>radio.
     bind_result (native_int rt (bc_speech_ctm b)) (\<lambda>speech_ctm.
     bind_result (enc_speech_ver rt (bc_speech_ver b) 0 (cb_speech_ver out)) (\<lambda>speech_ver.
     on_value (bc_data b) (enc_bcap_data rt)
       (out\<lparr>cb_transfer := transfer, cb_mode := mode, cb_coding := coding, cb_radio := radio,
         cb_speech_ctm := speech_ctm, cb_speech_ver := speech_ver\<rparr>)))))))"

definition enc_number :: "MNCC_number \<Rightarrow> gsm_mncc_number" where
  "enc_number n = \<lparr> cn_type = word_of_int (nr_type n), cn_plan = word_of_int (nr_plan n),
     cn_present = word_of_int (nr_presence n), cn_screen = word_of_int (nr_screen n),
     cn_number = strncpy (nr_number n) 33 \<rparr>"

text \<open>Setting a flag of the presence mask.\<close>

definition set_field :: "u32 \<Rightarrow> gsm_mncc \<Rightarrow> gsm_mncc" where
  "set_field f m = m\<lparr>m_fields := m_fields m OR f\<rparr>"

text \<open>The parts of \<^verbatim>\<open>enc__MNCC__PDU\<close> for signalling, in the order of the code.\<close>

definition sig_bearer_cap :: "titan_rt \<Rightarrow> MNCC_bearer_cap \<Rightarrow> gsm_mncc \<Rightarrow> gsm_mncc result" where
  "sig_bearer_cap rt b m = map_result (\<lambda>c. set_field MNCC_F_BEARER_CAP (m\<lparr>m_bearer_cap := c\<rparr>))
     (enc_bcap rt b (m_bearer_cap m))"

definition sig_cause :: "titan_rt \<Rightarrow> MNCC_cause \<Rightarrow> gsm_mncc \<Rightarrow> gsm_mncc result" where
  "sig_cause rt c m =
     bind_result (native_int rt (ca_rec c)) (\<lambda>r.
     bind_result (native_int rt (ca_rec_val c)) (\<lambda>rec_val.
     bind_result (native_int rt (ca_val c)) (\<lambda>val.
     if length (ca_diag c) > 32 then Inl TtcnError
     else Inr (set_field MNCC_F_CAUSE (m\<lparr>m_cause := \<lparr> cca_location = word_of_int (ca_location c),
       cca_coding = word_of_int (ca_coding c), cca_rec = r, cca_rec_val = rec_val, cca_value = val,
       cca_diag_len = word_of_nat (length (ca_diag c)),
       cca_diag = ca_diag c @ drop (length (ca_diag c)) (cca_diag (m_cause m)) \<rparr>\<rparr>)))))"

definition sig_progress :: "titan_rt \<Rightarrow> MNCC_progress \<Rightarrow> gsm_mncc \<Rightarrow> gsm_mncc result" where
  "sig_progress rt p m =
     bind_result (native_int rt (pr_coding p)) (\<lambda>coding.
     bind_result (native_int rt (pr_location p)) (\<lambda>location.
     bind_result (native_int rt (pr_descr p)) (\<lambda>descr.
     Inr (set_field MNCC_F_PROGRESS (m\<lparr>m_progress :=
       \<lparr> cp_coding = coding, cp_location = location, cp_descr = descr \<rparr>\<rparr>)))))"

definition sig_useruser :: "titan_rt \<Rightarrow> MNCC_useruser \<Rightarrow> gsm_mncc \<Rightarrow> gsm_mncc result" where
  "sig_useruser rt u m = bind_result (native_int rt (uu_proto u)) (\<lambda>proto.
     Inr (set_field MNCC_F_USERUSER (m\<lparr>m_useruser := \<lparr> cu_proto = proto, cu_info = strncpy (uu_info u) 129 \<rparr>\<rparr>)))"

text \<open>
  \<^verbatim>\<open>strlen\<close> of an info field that is full up to its last octet stops at the member behind it, which
  is still 0 at this point.
\<close>

definition sig_facility :: "octets \<Rightarrow> gsm_mncc \<Rightarrow> gsm_mncc result" where
  "sig_facility fac m = (let info = strncpy fac 128 in
     Inr (set_field MNCC_F_FACILITY (m\<lparr>m_facility := \<lparr> cf_len = word_of_nat (strlen info), cf_info = info \<rparr>\<rparr>)))"

definition sig_cccap :: "titan_rt \<Rightarrow> MNCC_cccap \<Rightarrow> gsm_mncc \<Rightarrow> gsm_mncc result" where
  "sig_cccap rt c m =
     bind_result (native_int rt (cc_dtmf c)) (\<lambda>dtmf.
     bind_result (native_int rt (cc_pcp c)) (\<lambda>pcp.
     Inr (set_field MNCC_F_CCCAP (m\<lparr>m_cccap := \<lparr> ccc_dtmf = dtmf, ccc_pcp = pcp \<rparr>\<rparr>))))"

definition sig_ssversion :: "octets \<Rightarrow> gsm_mncc \<Rightarrow> gsm_mncc result" where
  "sig_ssversion ssv m = (let info = strncpy ssv 128 in
     Inr (set_field MNCC_F_SSVERSION (m\<lparr>m_ssversion := \<lparr> cs_len = word_of_nat (strlen info), cs_info = info \<rparr>\<rparr>)))"

definition sig_signal :: "titan_rt \<Rightarrow> int \<Rightarrow> gsm_mncc \<Rightarrow> gsm_mncc result" where
  "sig_signal rt sig m = bind_result (native_int rt sig) (\<lambda>w. Inr (set_field MNCC_F_SIGNAL (m\<lparr>m_signal := w\<rparr>)))"

text \<open>The keypad facility is stored in the member \<^verbatim>\<open>signal\<close>; taking the first character of an empty charstring is a TTCN error.\<close>

definition sig_keypad :: "octets \<Rightarrow> gsm_mncc \<Rightarrow> gsm_mncc result" where
  "sig_keypad kpd m = (case kpd of [] \<Rightarrow> Inl TtcnError
     | c # cs \<Rightarrow> Inr (set_field MNCC_F_KEYPAD (m\<lparr>m_signal := scast c\<rparr>)))"

definition sig_emergency :: "titan_rt \<Rightarrow> int \<Rightarrow> gsm_mncc \<Rightarrow> gsm_mncc result" where
  "sig_emergency rt emerg m = bind_result (native_int rt emerg)
     (\<lambda>w. Inr (set_field MNCC_F_EMERGENCY (m\<lparr>m_emergency := w\<rparr>)))"

text \<open>The copy of the GCR reads 16 octets, however many there are.\<close>

definition sig_gcr :: "int \<Rightarrow> octets \<Rightarrow> gsm_mncc \<Rightarrow> gsm_mncc result" where
  "sig_gcr mncc_sock_version gcr m =
     (if mncc_sock_version < 8 then Inl TtcnError
      else if length gcr < 16 then Inl OutOfBounds
      else Inr (set_field MNCC_F_GCR (m\<lparr>m_union := take 16 gcr @ drop 16 (m_union m)\<rparr>)))"

definition sig_sdp :: "int \<Rightarrow> octets \<Rightarrow> gsm_mncc \<Rightarrow> gsm_mncc result" where
  "sig_sdp mncc_sock_version sdp m =
     (if mncc_sock_version > 7 then Inr (m\<lparr>m_union := take 16 (m_union m) @ strncpy sdp 1024\<rparr>)
      else Inr (m\<lparr>m_union := strncpy sdp 1024 @ drop 1024 (m_union m)\<rparr>))"

text \<open>The members that are written whether there is a value or not.\<close>

definition sig_clir :: "titan_rt \<Rightarrow> MNCC_PDU_Signal \<Rightarrow> gsm_mncc \<Rightarrow> gsm_mncc result" where
  "sig_clir rt p m =
     bind_result (native_int rt (sg_clir_sup p)) (\<lambda>sup.
     bind_result (native_int rt (sg_clir_inv p)) (\<lambda>inv.
     Inr (m\<lparr>m_clir_sup := sup, m_clir_inv := inv\<rparr>)))"

definition sig_more_notify :: "titan_rt \<Rightarrow> MNCC_PDU_Signal \<Rightarrow> gsm_mncc \<Rightarrow> gsm_mncc result" where
  "sig_more_notify rt p m =
     bind_result (native_int rt (sg_more p)) (\<lambda>mo.
     bind_result (native_int rt (sg_notify p)) (\<lambda>notify.
     Inr (m\<lparr>m_more := mo, m_notify := notify\<rparr>)))"

definition sig_imsi_lchan :: "titan_rt \<Rightarrow> MNCC_PDU_Signal \<Rightarrow> gsm_mncc \<Rightarrow> gsm_mncc result" where
  "sig_imsi_lchan rt p m =
     bind_result (native_int rt (sg_lchan_type p)) (\<lambda>lchan_type.
     bind_result (native_int rt (sg_lchan_mode p)) (\<lambda>lchan_mode.
     Inr (m\<lparr>m_imsi := strncpy (sg_imsi p) 16, m_lchan_type := ucast lchan_type, m_lchan_mode := ucast lchan_mode\<rparr>)))"

definition sig_numbers :: "MNCC_PDU_Signal \<Rightarrow> gsm_mncc \<Rightarrow> gsm_mncc result" where
  "sig_numbers p m =
     bind_result (on_value (sg_called p) (\<lambda>n m. Inr (set_field MNCC_F_CALLED (m\<lparr>m_called := enc_number n\<rparr>))) m) (\<lambda>m.
     bind_result (on_value (sg_calling p) (\<lambda>n m. Inr (set_field MNCC_F_CALLING (m\<lparr>m_calling := enc_number n\<rparr>))) m) (\<lambda>m.
     bind_result (on_value (sg_redirecting p)
       (\<lambda>n m. Inr (set_field MNCC_F_REDIRECTING (m\<lparr>m_redirecting := enc_number n\<rparr>))) m) (\<lambda>m.
     on_value (sg_connected p) (\<lambda>n m. Inr (set_field MNCC_F_CONNECTED (m\<lparr>m_connected := enc_number n\<rparr>))) m)))"

definition enc_signal :: "titan_rt \<Rightarrow> int \<Rightarrow> MNCC_PDU_Signal \<Rightarrow> gsm_mncc \<Rightarrow> gsm_mncc result" where
  "enc_signal rt mncc_sock_version p m =
     bind_result (native_int rt (sg_callref p)) (\<lambda>callref.
     bind_result (on_value (sg_bearer_cap p) (sig_bearer_cap rt) (m\<lparr>m_callref := callref\<rparr>)) (\<lambda>m.
     bind_result (sig_numbers p m) (\<lambda>m.
     bind_result (on_value (sg_cause p) (sig_cause rt) m) (\<lambda>m.
     bind_result (on_value (sg_progress p) (sig_progress rt) m) (\<lambda>m.
     bind_result (on_value (sg_useruser p) (sig_useruser rt) m) (\<lambda>m.
     bind_result (on_value (sg_facility p) sig_facility m) (\<lambda>m.
     bind_result (on_value (sg_cccap p) (sig_cccap rt) m) (\<lambda>m.
     bind_result (on_value (sg_ssversion p) sig_ssversion m) (\<lambda>m.
     bind_result (sig_clir rt p m) (\<lambda>m.
     bind_result (on_value (sg_signal p) (sig_signal rt) m) (\<lambda>m.
     bind_result (on_value (sg_keypad p) sig_keypad m) (\<lambda>m.
     bind_result (sig_more_notify rt p m) (\<lambda>m.
     bind_result (on_value (sg_emergency p) (sig_emergency rt) m) (\<lambda>m.
     bind_result (sig_imsi_lchan rt p m) (\<lambda>m.
     bind_result (on_value (sg_gcr p) (sig_gcr mncc_sock_version) m) (\<lambda>m.
     on_value (sg_sdp p) (sig_sdp mncc_sock_version) m))))))))))))))))"

text \<open>
  The socket address of an RTP message: family, port in network order, for IPv6 the flow information,
  the address. \<^verbatim>\<open>memcpy\<close> reads as many octets as the family has.
\<close>

definition sockaddr_octets :: "u16 \<Rightarrow> u16 \<Rightarrow> octets \<Rightarrow> octets" where
  "sockaddr_octets fam port a = (let front = [octet_of 0 fam, octet_of 1 fam] @ be16_octets port @
     (if fam = AF_INET6 then replicate 4 0 else []) @ a in front @ replicate (128 - length front) 0)"

definition enc_rtp :: "titan_rt \<Rightarrow> MNCC_PDU_Rtp \<Rightarrow> gsm_mncc_rtp \<Rightarrow> gsm_mncc_rtp result" where
  "enc_rtp rt p r =
     bind_result (native_int rt (rtp_callref p)) (\<lambda>callref.
     let n = (if rtp_is_ipv6 p then 16 else 4) in
     if length (rtp_ip p) < n then Inl OutOfBounds
     else bind_result (native_int rt (rtp_port p)) (\<lambda>port.
     bind_result (native_int rt (rtp_payload_type p)) (\<lambda>payload_type.
     bind_result (native_int rt (rtp_payload_msg_type p)) (\<lambda>payload_msg_type.
     Inr (r\<lparr>r_callref := callref,
       r_addr := sockaddr_octets (if rtp_is_ipv6 p then AF_INET6 else AF_INET) (ucast port) (take n (rtp_ip p)),
       r_payload_type := payload_type, r_payload_msg_type := payload_msg_type,
       r_sdp := (case rtp_sdp p of None \<Rightarrow> r_sdp r | Some sdp \<Rightarrow> strncpy sdp 1024)\<rparr>)))))"

definition enc_hello :: "titan_rt \<Rightarrow> MNCC_PDU_Hello \<Rightarrow> gsm_mncc_hello \<Rightarrow> gsm_mncc_hello result" where
  "enc_hello rt p h =
     bind_result (native_int rt (he_version p)) (\<lambda>version.
     bind_result (native_int rt (he_mncc_size p)) (\<lambda>mncc_size.
     bind_result (native_int rt (he_data_frame_size p)) (\<lambda>data_frame_size.
     bind_result (native_int rt (he_called_offset p)) (\<lambda>called_offset.
     bind_result (native_int rt (he_signal_offset p)) (\<lambda>signal_offset.
     bind_result (native_int rt (he_emergency_offset p)) (\<lambda>emergency_offset.
     bind_result (native_int rt (he_lchan_type_offset p)) (\<lambda>lchan_type_offset.
     Inr (h\<lparr>h_version := version, h_mncc_size := mncc_size, h_data_frame_size := data_frame_size,
       h_called_offset := called_offset, h_signal_offset := signal_offset,
       h_emergency_offset := emergency_offset, h_lchan_type_offset := lchan_type_offset\<rparr>))))))))"

text \<open>A data frame is written with the call reference 0, whatever the value has.\<close>

definition enc_MNCC_PDU :: "titan_rt \<Rightarrow> int \<Rightarrow> MNCC_PDU \<Rightarrow> octets result" where
  "enc_MNCC_PDU rt mncc_sock_version p = (let msg_type = word_of_int (pdu_msg_type p) in
     case pdu_u p of
       Signal s \<Rightarrow> map_result gsm_mncc_octets (enc_signal rt mncc_sock_version s (zero_mncc\<lparr>m_msg_type := msg_type\<rparr>))
     | Data d \<Rightarrow> Inr (le32_octets msg_type @ le32_octets 0 @ da_data d)
     | Rtp r \<Rightarrow> map_result gsm_mncc_rtp_octets (enc_rtp rt r (zero_rtp\<lparr>r_msg_type := msg_type\<rparr>))
     | Hello h \<Rightarrow> map_result gsm_mncc_hello_octets (enc_hello rt h (zero_hello\<lparr>h_msg_type := msg_type\<rparr>)))"

section \<open>Decoding\<close>

fun dec_speech_ver :: "octets \<Rightarrow> nat \<Rightarrow> nat \<Rightarrow> int list result" where
  "dec_speech_ver xs ofs 0 = Inr []"
| "dec_speech_ver xs ofs (Suc n) = bind_result (rd_int xs ofs) (\<lambda>v.
     if v = - 1 then Inr [v] else map_result (Cons v) (dec_speech_ver xs (ofs + 4) n))"

definition dec_bcap_data :: "titan_rt \<Rightarrow> octets \<Rightarrow> nat \<Rightarrow> MNCC_bearer_cap_data result" where
  "dec_bcap_data rt xs ofs =
     bind_result (rd_enum rt GSM48_bcap_ra xs ofs) (\<lambda>ra.
     bind_result (rd_enum rt GSM48_bcap_sig_access xs (ofs + 4)) (\<lambda>sa.
     bind_result (rd_int xs (ofs + 8)) (\<lambda>async.
     bind_result (rd_int xs (ofs + 12)) (\<lambda>nr_stop_bits.
     bind_result (rd_int xs (ofs + 16)) (\<lambda>nr_data_bits.
     bind_result (rd_enum rt GSM48_bcap_user_rate xs (ofs + 20)) (\<lambda>ur.
     bind_result (rd_enum rt GSM48_bcap_parity xs (ofs + 24)) (\<lambda>par.
     bind_result (rd_enum rt GSM48_bcap_interm_rate xs (ofs + 28)) (\<lambda>ir.
     bind_result (rd_enum rt GSM48_bcap_transp xs (ofs + 32)) (\<lambda>tr.
     bind_result (rd_enum rt GSM48_bcap_modem_type xs (ofs + 36)) (\<lambda>mt.
     Inr \<lparr> bd_rate_adaptation = ra, bd_sig_access = sa, bd_async = async, bd_nr_stop_bits = nr_stop_bits,
       bd_nr_data_bits = nr_data_bits, bd_user_rate = ur, bd_parity = par, bd_interm_rate = ir,
       bd_transp = tr, bd_modem_type = mt \<rparr>))))))))))"

definition dec_bcap :: "titan_rt \<Rightarrow> octets \<Rightarrow> nat \<Rightarrow> MNCC_bearer_cap result" where
  "dec_bcap rt xs ofs =
     bind_result (dec_bcap_data rt xs (ofs + 52)) (\<lambda>d.
     bind_result (dec_speech_ver xs (ofs + 20) 8) (\<lambda>vers.
     bind_result (rd_int xs ofs) (\<lambda>transfer.
     bind_result (rd_int xs (ofs + 4)) (\<lambda>mode.
     bind_result (rd_int xs (ofs + 8)) (\<lambda>coding.
     bind_result (rd_int xs (ofs + 12)) (\<lambda>radio.
     bind_result (rd_int xs (ofs + 16)) (\<lambda>speech_ctm.
     Inr \<lparr> bc_transfer = transfer, bc_mode = mode, bc_coding = coding, bc_radio = radio,
       bc_speech_ctm = speech_ctm, bc_speech_ver = vers, bc_data = Some d \<rparr>)))))))"

definition dec_number :: "titan_rt \<Rightarrow> octets \<Rightarrow> nat \<Rightarrow> MNCC_number result" where
  "dec_number rt xs ofs =
     bind_result (rd_enum rt GSM48_type_of_number xs ofs) (\<lambda>ton.
     bind_result (rd_enum rt GSM48_num_plan_ind xs (ofs + 4)) (\<lambda>plan.
     bind_result (rd_enum rt GSM48_present_ind xs (ofs + 8)) (\<lambda>pres.
     bind_result (rd_enum rt GSM48_screening_ind xs (ofs + 12)) (\<lambda>screen.
     bind_result (rd_cstring xs (ofs + 16)) (\<lambda>number.
     Inr \<lparr> nr_type = ton, nr_plan = plan, nr_presence = pres, nr_screen = screen, nr_number = number \<rparr>)))))"

text \<open>The length of the diagnostics is taken as received; a negative one is refused by the octetstring.\<close>

definition dec_cause :: "titan_rt \<Rightarrow> octets \<Rightarrow> nat \<Rightarrow> MNCC_cause result" where
  "dec_cause rt xs ofs =
     bind_result (rd_enum rt GSM48_cause_loc xs ofs) (\<lambda>location.
     bind_result (rd_enum rt GSM48_cause_coding xs (ofs + 4)) (\<lambda>coding.
     bind_result (rd_int xs (ofs + 8)) (\<lambda>r.
     bind_result (rd_int xs (ofs + 12)) (\<lambda>rec_val.
     bind_result (rd_int xs (ofs + 16)) (\<lambda>val.
     bind_result (rd_int xs (ofs + 20)) (\<lambda>diag_len.
     if diag_len < 0 then Inl TtcnError
     else bind_result (rd_octets xs (ofs + 24) (nat diag_len)) (\<lambda>diag.
     Inr \<lparr> ca_location = location, ca_coding = coding, ca_rec = r, ca_rec_val = rec_val, ca_val = val,
       ca_diag = diag \<rparr>)))))))"

definition dec_useruser :: "octets \<Rightarrow> nat \<Rightarrow> MNCC_useruser result" where
  "dec_useruser xs ofs =
     bind_result (rd_int xs ofs) (\<lambda>proto.
     bind_result (rd_cstring xs (ofs + 4)) (\<lambda>info.
     Inr \<lparr> uu_proto = proto, uu_info = info \<rparr>))"

definition dec_progress :: "octets \<Rightarrow> nat \<Rightarrow> MNCC_progress result" where
  "dec_progress xs ofs =
     bind_result (rd_int xs ofs) (\<lambda>coding.
     bind_result (rd_int xs (ofs + 4)) (\<lambda>location.
     bind_result (rd_int xs (ofs + 8)) (\<lambda>descr.
     Inr \<lparr> pr_coding = coding, pr_location = location, pr_descr = descr \<rparr>)))"

definition dec_cccap :: "octets \<Rightarrow> nat \<Rightarrow> MNCC_cccap result" where
  "dec_cccap xs ofs =
     bind_result (rd_int xs ofs) (\<lambda>dtmf.
     bind_result (rd_int xs (ofs + 4)) (\<lambda>pcp.
     Inr \<lparr> cc_dtmf = dtmf, cc_pcp = pcp \<rparr>))"

text \<open>The keypad facility is read from the member \<^verbatim>\<open>keypad\<close>, its low octet as a C string of one character.\<close>

definition dec_keypad :: "octets \<Rightarrow> octets result" where
  "dec_keypad xs = map_result (\<lambda>w. let c = (ucast w :: u8) in if c = 0 then [] else [c]) (rd32 xs 800)"

text \<open>A statement under \<^verbatim>\<open>if (in_mncc->fields & ...)\<close>; otherwise the value stays omitted.\<close>

definition if_field :: "u32 \<Rightarrow> u32 \<Rightarrow> 'a result \<Rightarrow> 'a option result" where
  "if_field flags f r = (if flags AND f \<noteq> 0 then map_result Some r else Inr None)"

definition dec_signal :: "titan_rt \<Rightarrow> int \<Rightarrow> octets \<Rightarrow> MNCC_PDU_Signal result" where
  "dec_signal rt mncc_sock_version xs =
     bind_result (rd_int xs 4) (\<lambda>callref.
     bind_result (rd32 xs 8) (\<lambda>flags.
     bind_result (if_field flags MNCC_F_BEARER_CAP (dec_bcap rt xs 12)) (\<lambda>bearer_cap.
     bind_result (if_field flags MNCC_F_CALLED (dec_number rt xs 104)) (\<lambda>called.
     bind_result (if_field flags MNCC_F_CALLING (dec_number rt xs 156)) (\<lambda>calling.
     bind_result (if_field flags MNCC_F_REDIRECTING (dec_number rt xs 208)) (\<lambda>redirecting.
     bind_result (if_field flags MNCC_F_CONNECTED (dec_number rt xs 260)) (\<lambda>connected.
     bind_result (if_field flags MNCC_F_CAUSE (dec_cause rt xs 312)) (\<lambda>cause.
     bind_result (if_field flags MNCC_F_USERUSER (dec_useruser xs 380)) (\<lambda>useruser.
     bind_result (if_field flags MNCC_F_PROGRESS (dec_progress xs 368)) (\<lambda>progress.
     bind_result (if_field flags MNCC_F_EMERGENCY (rd_int xs 812)) (\<lambda>emergency.
     bind_result (if_field flags MNCC_F_FACILITY (rd_cstring xs 520)) (\<lambda>facility.
     bind_result (if_field flags MNCC_F_SSVERSION (rd_cstring xs 660)) (\<lambda>ssversion.
     bind_result (if_field flags MNCC_F_CCCAP (dec_cccap xs 648)) (\<lambda>cccap.
     bind_result (if_field flags MNCC_F_KEYPAD (dec_keypad xs)) (\<lambda>keypad.
     bind_result (if_field flags MNCC_F_SIGNAL (rd_int xs 796)) (\<lambda>signal.
     bind_result (rd_int xs 788) (\<lambda>clir_sup.
     bind_result (rd_int xs 792) (\<lambda>clir_inv.
     bind_result (rd_int xs 804) (\<lambda>mo.
     bind_result (rd_int xs 808) (\<lambda>notify.
     bind_result (rd_cstring xs 816) (\<lambda>imsi.
     bind_result (rd8 xs 832) (\<lambda>lchan_type.
     bind_result (rd8 xs 833) (\<lambda>lchan_mode.
     bind_result (if mncc_sock_version > 7 then if_field flags MNCC_F_GCR (rd_octets xs 834 16) else Inr None) (\<lambda>gcr.
     bind_result (if mncc_sock_version > 7 then rd_cstring xs 850 else rd_cstring xs 834) (\<lambda>sdp.
     Inr \<lparr> sg_callref = callref, sg_bearer_cap = bearer_cap, sg_called = called, sg_calling = calling,
       sg_redirecting = redirecting, sg_connected = connected, sg_cause = cause, sg_progress = progress,
       sg_useruser = useruser, sg_facility = facility, sg_cccap = cccap, sg_ssversion = ssversion,
       sg_clir_sup = clir_sup, sg_clir_inv = clir_inv, sg_signal = signal, sg_keypad = keypad, sg_more = mo,
       sg_notify = notify, sg_emergency = emergency, sg_imsi = imsi, sg_lchan_type = uint lchan_type,
       sg_lchan_mode = uint lchan_mode, sg_gcr = gcr, sg_sdp = Some sdp \<rparr>)))))))))))))))))))))))))"

text \<open>
  The address of an RTP message at octet 8. With another family the address stays unbound, and
  handing it over is an error of the runtime.
\<close>

definition dec_sockaddr :: "octets \<Rightarrow> (bool \<times> u16 \<times> octets) result" where
  "dec_sockaddr xs =
     bind_result (rd_octets xs 8 2) (\<lambda>f.
     let fam = (push_bit 8 (ucast (f ! 1)) OR ucast (f ! 0) :: u16) in
     if fam = AF_INET6 \<or> fam = AF_UNSPEC \<or> fam = AF_INET then
       bind_result (rd_octets xs 10 2) (\<lambda>p.
       bind_result (if fam = AF_INET6 then rd_octets xs 16 16 else rd_octets xs 12 4) (\<lambda>ip.
       Inr (fam = AF_INET6, push_bit 8 (ucast (p ! 0)) OR ucast (p ! 1), ip)))
     else Inl TtcnError)"

definition dec_rtp :: "octets \<Rightarrow> MNCC_PDU_Rtp result" where
  "dec_rtp xs =
     bind_result (dec_sockaddr xs) (\<lambda>(is_ipv6, port, ip).
     bind_result (rd_int xs 4) (\<lambda>callref.
     bind_result (rd_int xs 136) (\<lambda>payload_type.
     bind_result (rd_int xs 140) (\<lambda>payload_msg_type.
     bind_result (rd_cstring xs 144) (\<lambda>sdp.
     Inr \<lparr> rtp_callref = callref, rtp_is_ipv6 = is_ipv6, rtp_ip = ip, rtp_port = uint port,
       rtp_payload_type = payload_type, rtp_payload_msg_type = payload_msg_type, rtp_sdp = Some sdp \<rparr>)))))"

definition dec_hello :: "octets \<Rightarrow> MNCC_PDU_Hello result" where
  "dec_hello xs =
     bind_result (rd_int xs 4) (\<lambda>version.
     bind_result (rd_int xs 8) (\<lambda>mncc_size.
     bind_result (rd_int xs 12) (\<lambda>data_frame_size.
     bind_result (rd_int xs 16) (\<lambda>called_offset.
     bind_result (rd_int xs 20) (\<lambda>signal_offset.
     bind_result (rd_int xs 24) (\<lambda>emergency_offset.
     bind_result (rd_int xs 28) (\<lambda>lchan_type_offset.
     Inr \<lparr> he_version = version, he_mncc_size = mncc_size, he_data_frame_size = data_frame_size,
       he_called_offset = called_offset, he_signal_offset = signal_offset,
       he_emergency_offset = emergency_offset, he_lchan_type_offset = lchan_type_offset \<rparr>)))))))"

definition dec_data :: "octets \<Rightarrow> MNCC_PDU_Data result" where
  "dec_data xs = map_result (\<lambda>callref. \<lparr> da_callref = callref, da_data = drop 8 xs \<rparr>) (rd_int xs 4)"

definition dec_MNCC_PDU :: "titan_rt \<Rightarrow> int \<Rightarrow> octets \<Rightarrow> MNCC_PDU result" where
  "dec_MNCC_PDU rt mncc_sock_version xs =
     bind_result (rd32 xs 0) (\<lambda>t.
     bind_result
       (if t = MNCC_SOCKET_HELLO then map_result Hello (dec_hello xs)
        else if t \<in> {GSM_TCHF_FRAME, GSM_TCHF_FRAME_EFR, GSM_TCHH_FRAME, GSM_TCH_FRAME_AMR, GSM_BAD_FRAME}
          then map_result Data (dec_data xs)
        else if t \<in> {MNCC_RTP_CREATE, MNCC_RTP_CONNECT, MNCC_RTP_FREE} then map_result Rtp (dec_rtp xs)
        else map_result Signal (dec_signal rt mncc_sock_version xs)) (\<lambda>u.
     map_result (\<lambda>msg_type. \<lparr> pdu_msg_type = msg_type, pdu_u = u \<rparr>) (enum_from_int rt MNCC_MsgType (sint t))))"

end
