(* ===== verification/MNCC_Roundtrip.thy ===== *)
theory MNCC_Roundtrip
  imports MNCC_EncDec
begin

text \<open>
  What is proved of \<^verbatim>\<open>MNCC_EncDec.cc\<close>: the encoder's steps fill the C structure as a closed form
  (\<open>signal_struct\<close>), the members of the structure stand at their offsets in its memory image
  (\<open>placed\<close>), and the decoder reads them back, for each of the four kinds of message. Every step
  keeps the sizes of the structure's arrays, whatever the value.
\<close>

unbundle bit_operations_syntax

section \<open>Where octets stand in a memory image\<close>

definition placed :: "octets \<Rightarrow> nat \<Rightarrow> octets \<Rightarrow> bool" where
  "placed xs ofs ys \<longleftrightarrow> (\<exists>us vs. xs = us @ ys @ vs \<and> length us = ofs)"

lemma placed_refl: "placed xs 0 xs"
  unfolding placed_def by (rule exI [of _ "[]"], rule exI [of _ "[]"]) simp

lemma placed_append [simp]: "placed xs ofs (ys @ zs) \<longleftrightarrow> placed xs ofs ys \<and> placed xs (ofs + length ys) zs"
proof
  assume "placed xs ofs (ys @ zs)"
  then obtain us vs where xs: "xs = us @ ys @ zs @ vs" and us: "length us = ofs"
    by (auto simp: placed_def)
  have "xs = (us @ ys) @ zs @ vs" by (simp add: xs)
  with xs us show "placed xs ofs ys \<and> placed xs (ofs + length ys) zs"
    unfolding placed_def by (metis append_assoc length_append)
next
  assume "placed xs ofs ys \<and> placed xs (ofs + length ys) zs"
  then have ys: "placed xs ofs ys" and zs: "placed xs (ofs + length ys) zs" by blast+
  from ys obtain us vs where 1: "xs = us @ ys @ vs" "length us = ofs" unfolding placed_def by blast
  from zs obtain us' vs' where 2: "xs = us' @ zs @ vs'" "length us' = ofs + length ys" unfolding placed_def by blast
  from 1 2 have "us' @ (zs @ vs') = (us @ ys) @ vs" by simp
  then have "vs = zs @ vs'" using 1(2) 2(2) by (metis append_eq_append_conv length_append)
  with 1 show "placed xs ofs (ys @ zs)" unfolding placed_def by auto
qed

lemma placed_two: "placed xs ofs (x # y # ys) \<longleftrightarrow> placed xs ofs [x] \<and> placed xs (ofs + 1) [y] \<and> placed xs (ofs + 2) ys"
  using placed_append [of xs ofs "[x]" "[y] @ ys"] placed_append [of xs "ofs + 1" "[y]" ys] by simp

lemma placed_take_drop: "placed xs ofs ys \<Longrightarrow> ofs + length ys \<le> length xs \<and> take (length ys) (drop ofs xs) = ys"
  by (auto simp: placed_def)

lemma rd_octets_placed: "placed xs ofs ys \<Longrightarrow> n = length ys \<Longrightarrow> rd_octets xs ofs n = Inr ys"
  using placed_take_drop [of xs ofs ys] by (simp add: rd_octets_def)

lemma length_le32_octets [simp]: "length (le32_octets w) = 4"
  by (simp add: le32_octets_def)

lemma rd32_placed: "placed xs ofs (le32_octets w) \<Longrightarrow> rd32 xs ofs = Inr w"
  using rd_octets_placed [of xs ofs "le32_octets w" 4] be32_of_octets [of w]
  by (simp add: rd32_def le32_octets_def)

lemma rd_int_placed: "placed xs ofs (le32_octets w) \<Longrightarrow> rd_int xs ofs = Inr (sint w)"
  by (simp add: rd_int_def rd32_placed)

lemma rd8_placed: "placed xs ofs [c] \<Longrightarrow> rd8 xs ofs = Inr c"
  by (auto simp: placed_def rd8_def)

lemma rd_cstring_placed:
  assumes "placed xs ofs (s @ 0 # zs)" and "0 \<notin> set s"
  shows "rd_cstring xs ofs = Inr s"
proof -
  from assms(1) obtain us vs where xs: "xs = us @ s @ 0 # zs @ vs" and us: "length us = ofs"
    by (auto simp: placed_def)
  have "takeWhile (\<lambda>c. c \<noteq> 0) (s @ 0 # zs @ vs) = s"
    using assms(2) by (subst takeWhile_append2) auto
  then show ?thesis by (simp add: rd_cstring_def xs us [symmetric])
qed

section \<open>Numbers and strings\<close>

lemma sint_of_int_native: "native_ok i \<Longrightarrow> sint (word_of_int i :: u32) = i"
  by (simp add: native_ok_def sint_sbintrunc' signed_take_bit_int_eq_self)

lemma native_int_ok: "titan_rt_ok rt \<Longrightarrow> native_ok i \<Longrightarrow> native_int rt i = Inr (word_of_int i)"
  by (simp add: titan_rt_ok_def)

lemma enum_from_int_ok: "titan_rt_ok rt \<Longrightarrow> i \<in> set vs \<Longrightarrow> enum_from_int rt vs i = Inr i"
  by (simp add: titan_rt_ok_def)

lemma rd_int_of_int: "placed xs ofs (le32_octets (word_of_int i)) \<Longrightarrow> native_ok i \<Longrightarrow> rd_int xs ofs = Inr i"
  by (simp add: rd_int_placed sint_of_int_native)

definition enum_small :: "int list \<Rightarrow> bool" where
  "enum_small vs \<longleftrightarrow> (\<forall>v \<in> set vs. native_ok v)"

lemma rd_enum_of_int:
  "placed xs ofs (le32_octets (word_of_int i)) \<Longrightarrow> titan_rt_ok rt \<Longrightarrow> i \<in> set vs \<Longrightarrow> enum_small vs \<Longrightarrow>
   rd_enum rt vs xs ofs = Inr i"
  by (simp add: rd_enum_def rd_int_of_int enum_small_def enum_from_int_ok)

lemma enum_small [simp]:
  "enum_small GSM48_bcap_ra" "enum_small GSM48_bcap_sig_access" "enum_small GSM48_bcap_user_rate"
  "enum_small GSM48_bcap_parity" "enum_small GSM48_bcap_interm_rate" "enum_small GSM48_bcap_transp"
  "enum_small GSM48_bcap_modem_type" "enum_small GSM48_type_of_number" "enum_small GSM48_num_plan_ind"
  "enum_small GSM48_present_ind" "enum_small GSM48_screening_ind" "enum_small GSM48_cause_coding"
  "enum_small GSM48_cause_loc"
  by (simp_all add: enum_small_def native_ok_def GSM48_bcap_ra_def GSM48_bcap_sig_access_def
      GSM48_bcap_user_rate_def GSM48_bcap_parity_def GSM48_bcap_interm_rate_def GSM48_bcap_transp_def
      GSM48_bcap_modem_type_def GSM48_type_of_number_def GSM48_num_plan_ind_def GSM48_present_ind_def
      GSM48_screening_ind_def GSM48_cause_coding_def GSM48_cause_loc_def)

lemma enum_small_MsgType [simp]: "enum_small MNCC_MsgType"
  by (auto simp: enum_small_def native_ok_def MNCC_MsgType_def)

lemma length_strncpy [simp]: "length (strncpy cs n) = n"
  by (simp add: strncpy_def Let_def)

definition c_string :: "nat \<Rightarrow> octets \<Rightarrow> bool" where
  "c_string n cs \<longleftrightarrow> 0 \<notin> set cs \<and> length cs < n"

lemma strncpy_c_string: "c_string n cs \<Longrightarrow> strncpy cs n = cs @ 0 # replicate (n - length cs - 1) 0"
proof -
  assume c: "c_string n cs"
  then have tw: "takeWhile (\<lambda>c. c \<noteq> 0) cs = cs" by (auto simp: c_string_def takeWhile_eq_all_conv)
  from c have "n - length cs = Suc (n - length cs - 1)" by (auto simp: c_string_def)
  then have "replicate (n - length cs) 0 = 0 # replicate (n - length cs - 1) (0 :: u8)" by (metis replicate_Suc)
  moreover have "length cs < n" using c by (simp add: c_string_def)
  ultimately show ?thesis unfolding strncpy_def Let_def tw by simp
qed

lemma strlen_strncpy: "c_string n cs \<Longrightarrow> strlen (strncpy cs n) = length cs"
  by (simp add: strncpy_c_string strlen_def takeWhile_append2 c_string_def) (subst takeWhile_append2; force)

lemma rd_strncpy: "placed xs ofs (strncpy cs n) \<Longrightarrow> c_string n cs \<Longrightarrow> rd_cstring xs ofs = Inr cs"
  by (simp add: strncpy_c_string rd_cstring_placed c_string_def del: placed_append)

section \<open>Values that the structures can hold\<close>

definition bcap_data_ok :: "MNCC_bearer_cap_data \<Rightarrow> bool" where
  "bcap_data_ok d \<longleftrightarrow> bd_rate_adaptation d \<in> set GSM48_bcap_ra \<and> bd_sig_access d \<in> set GSM48_bcap_sig_access \<and>
     native_ok (bd_async d) \<and> native_ok (bd_nr_stop_bits d) \<and> native_ok (bd_nr_data_bits d) \<and>
     bd_user_rate d \<in> set GSM48_bcap_user_rate \<and> bd_parity d \<in> set GSM48_bcap_parity \<and>
     bd_interm_rate d \<in> set GSM48_bcap_interm_rate \<and> bd_transp d \<in> set GSM48_bcap_transp \<and>
     bd_modem_type d \<in> set GSM48_bcap_modem_type"

definition bcap_ok :: "MNCC_bearer_cap \<Rightarrow> bool" where
  "bcap_ok b \<longleftrightarrow> native_ok (bc_transfer b) \<and> native_ok (bc_mode b) \<and> native_ok (bc_coding b) \<and>
     native_ok (bc_radio b) \<and> native_ok (bc_speech_ctm b) \<and> length (bc_speech_ver b) \<le> 8 \<and>
     list_all native_ok (bc_speech_ver b) \<and> pred_option bcap_data_ok (bc_data b)"

definition number_ok :: "MNCC_number \<Rightarrow> bool" where
  "number_ok n \<longleftrightarrow> nr_type n \<in> set GSM48_type_of_number \<and> nr_plan n \<in> set GSM48_num_plan_ind \<and>
     nr_presence n \<in> set GSM48_present_ind \<and> nr_screen n \<in> set GSM48_screening_ind \<and> c_string 33 (nr_number n)"

definition cause_ok :: "MNCC_cause \<Rightarrow> bool" where
  "cause_ok c \<longleftrightarrow> ca_location c \<in> set GSM48_cause_loc \<and> ca_coding c \<in> set GSM48_cause_coding \<and>
     native_ok (ca_rec c) \<and> native_ok (ca_rec_val c) \<and> native_ok (ca_val c) \<and> length (ca_diag c) \<le> 32"

definition useruser_ok :: "MNCC_useruser \<Rightarrow> bool" where
  "useruser_ok u \<longleftrightarrow> native_ok (uu_proto u) \<and> c_string 129 (uu_info u)"

definition progress_ok :: "MNCC_progress \<Rightarrow> bool" where
  "progress_ok p \<longleftrightarrow> native_ok (pr_coding p) \<and> native_ok (pr_location p) \<and> native_ok (pr_descr p)"

definition cccap_ok :: "MNCC_cccap \<Rightarrow> bool" where
  "cccap_ok c \<longleftrightarrow> native_ok (cc_dtmf c) \<and> native_ok (cc_pcp c)"

definition signal_ok :: "int \<Rightarrow> MNCC_PDU_Signal \<Rightarrow> bool" where
  "signal_ok ver p \<longleftrightarrow> native_ok (sg_callref p) \<and> pred_option bcap_ok (sg_bearer_cap p) \<and>
     pred_option number_ok (sg_called p) \<and> pred_option number_ok (sg_calling p) \<and>
     pred_option number_ok (sg_redirecting p) \<and> pred_option number_ok (sg_connected p) \<and>
     pred_option cause_ok (sg_cause p) \<and> pred_option progress_ok (sg_progress p) \<and>
     pred_option useruser_ok (sg_useruser p) \<and> pred_option (c_string 128) (sg_facility p) \<and>
     pred_option cccap_ok (sg_cccap p) \<and> pred_option (c_string 128) (sg_ssversion p) \<and>
     native_ok (sg_clir_sup p) \<and> native_ok (sg_clir_inv p) \<and> pred_option native_ok (sg_signal p) \<and>
     pred_option (\<lambda>k. k \<noteq> []) (sg_keypad p) \<and>
     native_ok (sg_more p) \<and> native_ok (sg_notify p) \<and> pred_option native_ok (sg_emergency p) \<and>
     c_string 16 (sg_imsi p) \<and> 0 \<le> sg_lchan_type p \<and> sg_lchan_type p < 256 \<and> 0 \<le> sg_lchan_mode p \<and> sg_lchan_mode p < 256 \<and>
     pred_option (\<lambda>g. ver = 8 \<and> length g = 16) (sg_gcr p) \<and> pred_option (c_string 1024) (sg_sdp p) \<and>
     (ver = 7 \<or> ver = 8)"

section \<open>The structure a signalling value is written to\<close>

text \<open>
  What the structure holds after the encoder's steps, stated at once: each member from its own part
  of the value, 0 where that is omitted.
\<close>

definition speech_words :: "int list \<Rightarrow> u32 list" where
  "speech_words vs = map word_of_int vs @ replicate (8 - length vs) 0"

definition bcap_data_struct :: "MNCC_bearer_cap_data \<Rightarrow> gsm_mncc_bcap_data" where
  "bcap_data_struct d = \<lparr> cbd_rate_adaption = word_of_int (bd_rate_adaptation d),
     cbd_sig_access = word_of_int (bd_sig_access d), cbd_async = word_of_int (bd_async d),
     cbd_nr_stop_bits = word_of_int (bd_nr_stop_bits d), cbd_nr_data_bits = word_of_int (bd_nr_data_bits d),
     cbd_user_rate = word_of_int (bd_user_rate d), cbd_parity = word_of_int (bd_parity d),
     cbd_interm_rate = word_of_int (bd_interm_rate d), cbd_transp = word_of_int (bd_transp d),
     cbd_modem_type = word_of_int (bd_modem_type d) \<rparr>"

definition bcap_struct :: "MNCC_bearer_cap \<Rightarrow> gsm_mncc_bearer_cap" where
  "bcap_struct b = \<lparr> cb_transfer = word_of_int (bc_transfer b), cb_mode = word_of_int (bc_mode b),
     cb_coding = word_of_int (bc_coding b), cb_radio = word_of_int (bc_radio b),
     cb_speech_ctm = word_of_int (bc_speech_ctm b), cb_speech_ver = speech_words (bc_speech_ver b),
     cb_data = (case bc_data b of None \<Rightarrow> zero_bcap_data | Some d \<Rightarrow> bcap_data_struct d) \<rparr>"

lemma enc_speech_ver_at:
  assumes "titan_rt_ok rt"
  shows "list_all native_ok vs \<Longrightarrow> i + length vs \<le> length arr \<Longrightarrow>
    enc_speech_ver rt vs i arr = Inr (take i arr @ map word_of_int vs @ drop (i + length vs) arr)"
proof (induction vs arbitrary: i arr)
  case (Cons v vs)
  have "take (Suc i) (arr[i := word_of_int v]) = take i arr @ [word_of_int v :: u32]"
    using Cons.prems by (simp add: take_Suc_conv_app_nth)
  with Cons show ?case by (simp add: native_int_ok [OF assms] Cons.IH)
qed simp

lemma enc_bcap_struct:
  assumes rt: "titan_rt_ok rt" and b: "bcap_ok b"
  shows "enc_bcap rt b zero_bearer_cap = Inr (bcap_struct b)"
proof -
  have "enc_speech_ver rt (bc_speech_ver b) 0 (replicate 8 0) = Inr (speech_words (bc_speech_ver b))"
    using b by (simp add: enc_speech_ver_at [OF rt] bcap_ok_def speech_words_def)
  then show ?thesis using b
    by (cases "bc_data b") (simp_all add: enc_bcap_def bcap_ok_def native_int_ok [OF rt] zero_bearer_cap_def
        bcap_struct_def bcap_data_struct_def enc_bcap_data_def bcap_data_ok_def)
qed

definition flag_if :: "bool \<Rightarrow> u32 \<Rightarrow> u32" where
  "flag_if b f = (if b then f else 0)"

definition signal_fields :: "MNCC_PDU_Signal \<Rightarrow> u32" where
  "signal_fields p =
     flag_if (sg_bearer_cap p \<noteq> None) MNCC_F_BEARER_CAP OR flag_if (sg_called p \<noteq> None) MNCC_F_CALLED OR
     flag_if (sg_calling p \<noteq> None) MNCC_F_CALLING OR flag_if (sg_redirecting p \<noteq> None) MNCC_F_REDIRECTING OR
     flag_if (sg_connected p \<noteq> None) MNCC_F_CONNECTED OR flag_if (sg_cause p \<noteq> None) MNCC_F_CAUSE OR
     flag_if (sg_progress p \<noteq> None) MNCC_F_PROGRESS OR flag_if (sg_useruser p \<noteq> None) MNCC_F_USERUSER OR
     flag_if (sg_facility p \<noteq> None) MNCC_F_FACILITY OR flag_if (sg_cccap p \<noteq> None) MNCC_F_CCCAP OR
     flag_if (sg_ssversion p \<noteq> None) MNCC_F_SSVERSION OR flag_if (sg_signal p \<noteq> None) MNCC_F_SIGNAL OR
     flag_if (sg_keypad p \<noteq> None) MNCC_F_KEYPAD OR flag_if (sg_emergency p \<noteq> None) MNCC_F_EMERGENCY OR
     flag_if (sg_gcr p \<noteq> None) MNCC_F_GCR"

definition number_struct :: "MNCC_number option \<Rightarrow> gsm_mncc_number" where
  "number_struct n = (case n of None \<Rightarrow> zero_number | Some n \<Rightarrow> enc_number n)"

definition cause_struct :: "MNCC_cause \<Rightarrow> gsm_mncc_cause" where
  "cause_struct c = \<lparr> cca_location = word_of_int (ca_location c), cca_coding = word_of_int (ca_coding c),
     cca_rec = word_of_int (ca_rec c), cca_rec_val = word_of_int (ca_rec_val c), cca_value = word_of_int (ca_val c),
     cca_diag_len = word_of_nat (length (ca_diag c)),
     cca_diag = ca_diag c @ replicate (32 - length (ca_diag c)) 0 \<rparr>"

definition union_octets :: "int \<Rightarrow> octets option \<Rightarrow> octets option \<Rightarrow> octets" where
  "union_octets ver gcr sdp =
     (let s = (case sdp of None \<Rightarrow> replicate 1024 0 | Some s \<Rightarrow> strncpy s 1024) in
      if ver = 8 then (case gcr of None \<Rightarrow> replicate 16 0 | Some g \<Rightarrow> take 16 g) @ s else s @ replicate 16 0)"

definition signal_struct :: "int \<Rightarrow> u32 \<Rightarrow> MNCC_PDU_Signal \<Rightarrow> gsm_mncc" where
  "signal_struct ver msg_type p = \<lparr> m_msg_type = msg_type, m_callref = word_of_int (sg_callref p),
     m_fields = signal_fields p,
     m_bearer_cap = (case sg_bearer_cap p of None \<Rightarrow> zero_bearer_cap | Some b \<Rightarrow> bcap_struct b),
     m_called = number_struct (sg_called p), m_calling = number_struct (sg_calling p),
     m_redirecting = number_struct (sg_redirecting p), m_connected = number_struct (sg_connected p),
     m_cause = (case sg_cause p of None \<Rightarrow> m_cause zero_mncc | Some c \<Rightarrow> cause_struct c),
     m_progress = (case sg_progress p of None \<Rightarrow> m_progress zero_mncc
       | Some q \<Rightarrow> \<lparr> cp_coding = word_of_int (pr_coding q), cp_location = word_of_int (pr_location q),
           cp_descr = word_of_int (pr_descr q) \<rparr>),
     m_useruser = (case sg_useruser p of None \<Rightarrow> m_useruser zero_mncc
       | Some u \<Rightarrow> \<lparr> cu_proto = word_of_int (uu_proto u), cu_info = strncpy (uu_info u) 129 \<rparr>),
     m_facility = (case sg_facility p of None \<Rightarrow> m_facility zero_mncc
       | Some f \<Rightarrow> \<lparr> cf_len = word_of_nat (length f), cf_info = strncpy f 128 \<rparr>),
     m_cccap = (case sg_cccap p of None \<Rightarrow> m_cccap zero_mncc
       | Some c \<Rightarrow> \<lparr> ccc_dtmf = word_of_int (cc_dtmf c), ccc_pcp = word_of_int (cc_pcp c) \<rparr>),
     m_ssversion = (case sg_ssversion p of None \<Rightarrow> m_ssversion zero_mncc
       | Some f \<Rightarrow> \<lparr> cs_len = word_of_nat (length f), cs_info = strncpy f 128 \<rparr>),
     m_clir_sup = word_of_int (sg_clir_sup p), m_clir_inv = word_of_int (sg_clir_inv p),
     m_signal = (case sg_keypad p of Some (c # cs) \<Rightarrow> scast c
       | _ \<Rightarrow> (case sg_signal p of None \<Rightarrow> 0 | Some s \<Rightarrow> word_of_int s)),
     m_keypad = 0, m_more = word_of_int (sg_more p), m_notify = word_of_int (sg_notify p),
     m_emergency = (case sg_emergency p of None \<Rightarrow> 0 | Some s \<Rightarrow> word_of_int s),
     m_imsi = strncpy (sg_imsi p) 16, m_lchan_type = word_of_int (sg_lchan_type p),
     m_lchan_mode = word_of_int (sg_lchan_mode p), m_union = union_octets ver (sg_gcr p) (sg_sdp p) \<rparr>"

lemma flag_if_simps [simp]: "flag_if True f = f" "flag_if False f = 0"
  by (simp_all add: flag_if_def)

lemma on_value_eq:
  "(\<And>a. v = Some a \<Longrightarrow> f a s = Inr (g a)) \<Longrightarrow> on_value v f s = Inr (case v of None \<Rightarrow> s | Some a \<Rightarrow> g a)"
  by (cases v) simp_all

text \<open>What one step of the encoder does to the structure.\<close>

lemma step_bearer_cap:
  assumes rt: "titan_rt_ok rt" and p: "signal_ok ver p"
  shows "m_bearer_cap m = zero_bearer_cap \<Longrightarrow>
    on_value (sg_bearer_cap p) (sig_bearer_cap rt) m = Inr (m\<lparr>m_bearer_cap :=
      (case sg_bearer_cap p of None \<Rightarrow> zero_bearer_cap | Some b \<Rightarrow> bcap_struct b),
      m_fields := m_fields m OR flag_if (sg_bearer_cap p \<noteq> None) MNCC_F_BEARER_CAP\<rparr>)"
  using p enc_bcap_struct [OF rt]
  by (cases "sg_bearer_cap p") (auto simp: signal_ok_def sig_bearer_cap_def set_field_def)

lemma step_numbers:
  assumes rt: "titan_rt_ok rt" and p: "signal_ok ver p"
  shows "m_called m = zero_number \<Longrightarrow> m_calling m = zero_number \<Longrightarrow>
    m_redirecting m = zero_number \<Longrightarrow> m_connected m = zero_number \<Longrightarrow>
    sig_numbers p m = Inr (m\<lparr>m_called := number_struct (sg_called p), m_calling := number_struct (sg_calling p),
      m_redirecting := number_struct (sg_redirecting p), m_connected := number_struct (sg_connected p),
      m_fields := m_fields m OR flag_if (sg_called p \<noteq> None) MNCC_F_CALLED OR
        flag_if (sg_calling p \<noteq> None) MNCC_F_CALLING OR
        flag_if (sg_redirecting p \<noteq> None) MNCC_F_REDIRECTING OR
        flag_if (sg_connected p \<noteq> None) MNCC_F_CONNECTED\<rparr>)"
  by (cases "sg_called p"; cases "sg_calling p"; cases "sg_redirecting p"; cases "sg_connected p")
    (simp_all add: sig_numbers_def number_struct_def set_field_def or.assoc)

lemma step_cause:
  assumes rt: "titan_rt_ok rt" and p: "signal_ok ver p"
  shows "m_cause m = m_cause zero_mncc \<Longrightarrow>
    on_value (sg_cause p) (sig_cause rt) m = Inr (m\<lparr>m_cause :=
      (case sg_cause p of None \<Rightarrow> m_cause zero_mncc | Some c \<Rightarrow> cause_struct c),
      m_fields := m_fields m OR flag_if (sg_cause p \<noteq> None) MNCC_F_CAUSE\<rparr>)"
  using p by (cases "sg_cause p")
    (auto simp: signal_ok_def cause_ok_def sig_cause_def set_field_def cause_struct_def zero_mncc_def native_int_ok [OF rt])

lemma step_progress:
  assumes rt: "titan_rt_ok rt" and p: "signal_ok ver p"
  shows "m_progress m = m_progress zero_mncc \<Longrightarrow>
    on_value (sg_progress p) (sig_progress rt) m = Inr (m\<lparr>m_progress :=
      (case sg_progress p of None \<Rightarrow> m_progress zero_mncc
       | Some q \<Rightarrow> \<lparr> cp_coding = word_of_int (pr_coding q), cp_location = word_of_int (pr_location q),
           cp_descr = word_of_int (pr_descr q) \<rparr>),
      m_fields := m_fields m OR flag_if (sg_progress p \<noteq> None) MNCC_F_PROGRESS\<rparr>)"
  using p by (cases "sg_progress p")
    (auto simp: signal_ok_def progress_ok_def sig_progress_def set_field_def native_int_ok [OF rt])

lemma step_useruser:
  assumes rt: "titan_rt_ok rt" and p: "signal_ok ver p"
  shows "m_useruser m = m_useruser zero_mncc \<Longrightarrow>
    on_value (sg_useruser p) (sig_useruser rt) m = Inr (m\<lparr>m_useruser :=
      (case sg_useruser p of None \<Rightarrow> m_useruser zero_mncc
       | Some u \<Rightarrow> \<lparr> cu_proto = word_of_int (uu_proto u), cu_info = strncpy (uu_info u) 129 \<rparr>),
      m_fields := m_fields m OR flag_if (sg_useruser p \<noteq> None) MNCC_F_USERUSER\<rparr>)"
  using p by (cases "sg_useruser p")
    (auto simp: signal_ok_def useruser_ok_def sig_useruser_def set_field_def native_int_ok [OF rt])

lemma step_facility:
  assumes rt: "titan_rt_ok rt" and p: "signal_ok ver p"
  shows "m_facility m = m_facility zero_mncc \<Longrightarrow>
    on_value (sg_facility p) sig_facility m = Inr (m\<lparr>m_facility :=
      (case sg_facility p of None \<Rightarrow> m_facility zero_mncc
       | Some f \<Rightarrow> \<lparr> cf_len = word_of_nat (length f), cf_info = strncpy f 128 \<rparr>),
      m_fields := m_fields m OR flag_if (sg_facility p \<noteq> None) MNCC_F_FACILITY\<rparr>)"
  using p by (cases "sg_facility p") (auto simp: signal_ok_def sig_facility_def set_field_def strlen_strncpy)

lemma step_cccap:
  assumes rt: "titan_rt_ok rt" and p: "signal_ok ver p"
  shows "m_cccap m = m_cccap zero_mncc \<Longrightarrow>
    on_value (sg_cccap p) (sig_cccap rt) m = Inr (m\<lparr>m_cccap :=
      (case sg_cccap p of None \<Rightarrow> m_cccap zero_mncc
       | Some c \<Rightarrow> \<lparr> ccc_dtmf = word_of_int (cc_dtmf c), ccc_pcp = word_of_int (cc_pcp c) \<rparr>),
      m_fields := m_fields m OR flag_if (sg_cccap p \<noteq> None) MNCC_F_CCCAP\<rparr>)"
  using p by (cases "sg_cccap p")
    (auto simp: signal_ok_def cccap_ok_def sig_cccap_def set_field_def native_int_ok [OF rt])

lemma step_ssversion:
  assumes rt: "titan_rt_ok rt" and p: "signal_ok ver p"
  shows "m_ssversion m = m_ssversion zero_mncc \<Longrightarrow>
    on_value (sg_ssversion p) sig_ssversion m = Inr (m\<lparr>m_ssversion :=
      (case sg_ssversion p of None \<Rightarrow> m_ssversion zero_mncc
       | Some f \<Rightarrow> \<lparr> cs_len = word_of_nat (length f), cs_info = strncpy f 128 \<rparr>),
      m_fields := m_fields m OR flag_if (sg_ssversion p \<noteq> None) MNCC_F_SSVERSION\<rparr>)"
  using p by (cases "sg_ssversion p") (auto simp: signal_ok_def sig_ssversion_def set_field_def strlen_strncpy)

lemma step_clir:
  assumes rt: "titan_rt_ok rt" and p: "signal_ok ver p"
  shows "sig_clir rt p m = Inr (m\<lparr>m_clir_sup := word_of_int (sg_clir_sup p), m_clir_inv := word_of_int (sg_clir_inv p)\<rparr>)"
  using p by (simp add: signal_ok_def sig_clir_def native_int_ok [OF rt])

lemma step_signal:
  assumes rt: "titan_rt_ok rt" and p: "signal_ok ver p"
  shows "m_signal m = 0 \<Longrightarrow>
    on_value (sg_signal p) (sig_signal rt) m = Inr (m\<lparr>m_signal :=
      (case sg_signal p of None \<Rightarrow> 0 | Some s \<Rightarrow> word_of_int s),
      m_fields := m_fields m OR flag_if (sg_signal p \<noteq> None) MNCC_F_SIGNAL\<rparr>)"
  using p by (cases "sg_signal p") (auto simp: signal_ok_def sig_signal_def set_field_def native_int_ok [OF rt])

lemma step_keypad:
  assumes rt: "titan_rt_ok rt" and p: "signal_ok ver p"
  shows "on_value (sg_keypad p) sig_keypad m = Inr (m\<lparr>m_signal :=
      (case sg_keypad p of Some (c # cs) \<Rightarrow> scast c | _ \<Rightarrow> m_signal m),
      m_fields := m_fields m OR flag_if (sg_keypad p \<noteq> None) MNCC_F_KEYPAD\<rparr>)"
  using p by (cases "sg_keypad p")
    (auto simp: signal_ok_def sig_keypad_def set_field_def split: list.splits)

lemma step_more_notify:
  assumes rt: "titan_rt_ok rt" and p: "signal_ok ver p"
  shows "sig_more_notify rt p m = Inr (m\<lparr>m_more := word_of_int (sg_more p), m_notify := word_of_int (sg_notify p)\<rparr>)"
  using p by (simp add: signal_ok_def sig_more_notify_def native_int_ok [OF rt])

lemma step_emergency:
  assumes rt: "titan_rt_ok rt" and p: "signal_ok ver p"
  shows "m_emergency m = 0 \<Longrightarrow>
    on_value (sg_emergency p) (sig_emergency rt) m = Inr (m\<lparr>m_emergency :=
      (case sg_emergency p of None \<Rightarrow> 0 | Some s \<Rightarrow> word_of_int s),
      m_fields := m_fields m OR flag_if (sg_emergency p \<noteq> None) MNCC_F_EMERGENCY\<rparr>)"
  using p by (cases "sg_emergency p") (auto simp: signal_ok_def sig_emergency_def set_field_def native_int_ok [OF rt])

lemma step_imsi_lchan:
  assumes rt: "titan_rt_ok rt" and p: "signal_ok ver p"
  shows "sig_imsi_lchan rt p m = Inr (m\<lparr>m_imsi := strncpy (sg_imsi p) 16,
       m_lchan_type := word_of_int (sg_lchan_type p), m_lchan_mode := word_of_int (sg_lchan_mode p)\<rparr>)"
proof -
  have "native_ok (sg_lchan_type p)" "native_ok (sg_lchan_mode p)"
    using p by (simp_all add: signal_ok_def native_ok_def)
  moreover have "ucast (word_of_int i :: u32) = (word_of_int i :: u8)" for i
    by (rule bit_word_eqI) (simp add: bit_simps)
  ultimately show ?thesis by (simp add: sig_imsi_lchan_def native_int_ok [OF rt])
qed

lemma step_union:
  assumes rt: "titan_rt_ok rt" and p: "signal_ok ver p"
  shows "m_union m = replicate 1040 0 \<Longrightarrow>
    bind_result (on_value (sg_gcr p) (sig_gcr ver) m) (on_value (sg_sdp p) (sig_sdp ver)) =
      Inr (m\<lparr>m_union := union_octets ver (sg_gcr p) (sg_sdp p),
        m_fields := m_fields m OR flag_if (sg_gcr p \<noteq> None) MNCC_F_GCR\<rparr>)"
  using p by (cases "sg_gcr p"; cases "sg_sdp p")
    (auto simp: signal_ok_def sig_gcr_def sig_sdp_def set_field_def union_octets_def Let_def simp flip: replicate_add)

lemmas step_simps = step_bearer_cap step_numbers step_cause step_progress step_useruser step_facility step_cccap step_ssversion step_clir step_signal step_keypad step_more_notify step_emergency step_imsi_lchan step_union

lemma enc_signal_struct:
  assumes rt: "titan_rt_ok rt" and p: "signal_ok ver p"
  shows "enc_signal rt ver p (zero_mncc\<lparr>m_msg_type := t\<rparr>) = Inr (signal_struct ver t p)"
proof -
  have "native_ok (sg_callref p)" using p by (simp add: signal_ok_def)
  note callref = native_int_ok [OF rt this]
  have zero: "m_fields zero_mncc = 0" "m_bearer_cap zero_mncc = zero_bearer_cap" "m_called zero_mncc = zero_number"
    "m_calling zero_mncc = zero_number" "m_redirecting zero_mncc = zero_number" "m_connected zero_mncc = zero_number"
    "m_signal zero_mncc = 0" "m_keypad zero_mncc = 0" "m_emergency zero_mncc = 0" "m_union zero_mncc = replicate 1040 0"
    by (simp_all add: zero_mncc_def)
  have "enc_signal rt ver p (zero_mncc\<lparr>m_msg_type := t\<rparr>) = Inr m \<Longrightarrow> m = signal_struct ver t p" for m
    by (rule gsm_mncc.equality)
      (auto simp add: enc_signal_def callref step_simps [OF rt p] zero signal_struct_def signal_fields_def or.assoc cong: option.case_cong list.case_cong simp del: bind_result_eq_Inr)
  moreover have "\<exists>m. enc_signal rt ver p (zero_mncc\<lparr>m_msg_type := t\<rparr>) = Inr m"
    by (simp add: enc_signal_def callref step_simps [OF rt p] zero del: bind_result_eq_Inr)
  ultimately show ?thesis by blast
qed

section \<open>The structure has the size of its declaration\<close>

definition sized :: "gsm_mncc \<Rightarrow> bool" where
  "sized m \<longleftrightarrow> length (cb_speech_ver (m_bearer_cap m)) = 8 \<and> length (cn_number (m_called m)) = 33 \<and>
     length (cn_number (m_calling m)) = 33 \<and> length (cn_number (m_redirecting m)) = 33 \<and>
     length (cn_number (m_connected m)) = 33 \<and> length (cca_diag (m_cause m)) = 32 \<and>
     length (cu_info (m_useruser m)) = 129 \<and> length (cf_info (m_facility m)) = 128 \<and>
     length (cs_info (m_ssversion m)) = 128 \<and> length (m_imsi m) = 16 \<and> length (m_union m) = 1040"

lemma length_concat_le32 [simp]: "length (concat (map le32_octets ws)) = 4 * length ws"
  by (induction ws) simp_all

lemma length_number_octets: "length (cn_number n) = 33 \<Longrightarrow> length (gsm_mncc_number_octets n) = 52"
  by (simp add: gsm_mncc_number_octets_def)

lemma length_bearer_cap_octets: "length (cb_speech_ver b) = 8 \<Longrightarrow> length (gsm_mncc_bearer_cap_octets b) = 92"
  by (simp add: gsm_mncc_bearer_cap_octets_def gsm_mncc_bcap_data_octets_def)

lemma length_cause_octets: "length (cca_diag c) = 32 \<Longrightarrow> length (gsm_mncc_cause_octets c) = 56"
  by (simp add: gsm_mncc_cause_octets_def)

lemma length_progress_octets: "length (gsm_mncc_progress_octets p) = 12"
  by (simp add: gsm_mncc_progress_octets_def)

lemma length_useruser_octets: "length (cu_info u) = 129 \<Longrightarrow> length (gsm_mncc_useruser_octets u) = 136"
  by (simp add: gsm_mncc_useruser_octets_def)

lemma length_facility_octets: "length (cf_info u) = 128 \<Longrightarrow> length (gsm_mncc_facility_octets u) = 132"
  by (simp add: gsm_mncc_facility_octets_def)

lemma length_ssversion_octets: "length (cs_info u) = 128 \<Longrightarrow> length (gsm_mncc_ssversion_octets u) = 132"
  by (simp add: gsm_mncc_ssversion_octets_def)

lemma length_cccap_octets: "length (gsm_mncc_cccap_octets c) = 8"
  by (simp add: gsm_mncc_cccap_octets_def)

lemmas part_lengths = length_number_octets length_bearer_cap_octets length_cause_octets length_progress_octets
  length_useruser_octets length_facility_octets length_ssversion_octets length_cccap_octets

lemma length_gsm_mncc_octets: "sized m \<Longrightarrow> length (gsm_mncc_octets m) = 1876"
  by (simp add: gsm_mncc_octets_def sized_def part_lengths)

lemma signal_struct_sized: "signal_ok ver p \<Longrightarrow> sized (signal_struct ver t p)"
  unfolding sized_def signal_struct_def
  by (intro conjI) (auto simp: signal_ok_def number_struct_def zero_number_def zero_bearer_cap_def bcap_struct_def
      bcap_ok_def speech_words_def enc_number_def cause_struct_def cause_ok_def zero_mncc_def union_octets_def Let_def
      split: option.splits)

lemma placed_gsm_mncc:
  assumes "sized m" and "placed xs 0 (gsm_mncc_octets m)"
  shows "placed xs 0 (le32_octets (m_msg_type m)) \<and>
    placed xs 4 (le32_octets (m_callref m)) \<and>
    placed xs 8 (le32_octets (m_fields m)) \<and>
    placed xs 12 (gsm_mncc_bearer_cap_octets (m_bearer_cap m)) \<and>
    placed xs 104 (gsm_mncc_number_octets (m_called m)) \<and>
    placed xs 156 (gsm_mncc_number_octets (m_calling m)) \<and>
    placed xs 208 (gsm_mncc_number_octets (m_redirecting m)) \<and>
    placed xs 260 (gsm_mncc_number_octets (m_connected m)) \<and>
    placed xs 312 (gsm_mncc_cause_octets (m_cause m)) \<and>
    placed xs 368 (gsm_mncc_progress_octets (m_progress m)) \<and>
    placed xs 380 (gsm_mncc_useruser_octets (m_useruser m)) \<and>
    placed xs 516 (gsm_mncc_facility_octets (m_facility m)) \<and>
    placed xs 648 (gsm_mncc_cccap_octets (m_cccap m)) \<and>
    placed xs 656 (gsm_mncc_ssversion_octets (m_ssversion m)) \<and>
    placed xs 788 (le32_octets (m_clir_sup m)) \<and>
    placed xs 792 (le32_octets (m_clir_inv m)) \<and>
    placed xs 796 (le32_octets (m_signal m)) \<and>
    placed xs 800 (le32_octets (m_keypad m)) \<and>
    placed xs 804 (le32_octets (m_more m)) \<and>
    placed xs 808 (le32_octets (m_notify m)) \<and>
    placed xs 812 (le32_octets (m_emergency m)) \<and>
    placed xs 816 (m_imsi m) \<and>
    placed xs 832 [m_lchan_type m] \<and>
    placed xs 833 [m_lchan_mode m] \<and>
    placed xs 834 (m_union m)"
  using assms by (simp add: gsm_mncc_octets_def sized_def part_lengths placed_two)

section \<open>Decoding the parts\<close>

lemma dec_number_enc:
  assumes rt: "titan_rt_ok rt" and "number_ok n" and "placed xs ofs (gsm_mncc_number_octets (enc_number n))"
  shows "dec_number rt xs ofs = Inr n"
  using assms(2,3)
  by (auto simp add: dec_number_def number_ok_def gsm_mncc_number_octets_def enc_number_def rd_enum_of_int [OF _ rt] rd_strncpy
      add.commute simp del: bind_result_eq_Inr)

lemma dec_speech_ver_words: "placed xs ofs (concat (map le32_octets ws)) \<Longrightarrow>
    dec_speech_ver xs ofs (length ws) = Inr (let vs = map sint ws; a = takeWhile (\<lambda>v. v \<noteq> - 1) vs in
      if length a < length vs then a @ [- 1] else a)"
  by (induction ws arbitrary: ofs) (auto simp: rd_int_placed Let_def simp del: bind_result_eq_Inr)

text \<open>What the decoder makes of the speech versions: it stops behind the first -1, or after eight.\<close>

definition norm_speech :: "int list \<Rightarrow> int list" where
  "norm_speech vs = (let ws = vs @ replicate (8 - length vs) 0; a = takeWhile (\<lambda>v. v \<noteq> - 1) ws in
     if length a < length ws then a @ [- 1] else a)"

definition norm_bcap_data :: MNCC_bearer_cap_data where
  "norm_bcap_data = \<lparr> bd_rate_adaptation = 0, bd_sig_access = 0, bd_async = 0, bd_nr_stop_bits = 0,
     bd_nr_data_bits = 0, bd_user_rate = 0, bd_parity = 0, bd_interm_rate = 0, bd_transp = 0, bd_modem_type = 0 \<rparr>"

definition norm_bcap :: "MNCC_bearer_cap \<Rightarrow> MNCC_bearer_cap" where
  "norm_bcap b = b\<lparr>bc_speech_ver := norm_speech (bc_speech_ver b),
     bc_data := Some (case bc_data b of None \<Rightarrow> norm_bcap_data | Some d \<Rightarrow> d)\<rparr>"

lemma dec_speech_ver_struct:
  assumes "placed xs ofs (concat (map le32_octets (speech_words vs)))" "list_all native_ok vs" "length vs \<le> 8"
  shows "dec_speech_ver xs ofs 8 = Inr (norm_speech vs)"
proof -
  have "map sint (speech_words vs) = vs @ replicate (8 - length vs) 0"
    using assms(2) by (auto simp: speech_words_def sint_of_int_native list_all_iff intro!: map_idI)
  moreover have "length (speech_words vs) = 8" using assms(3) by (simp add: speech_words_def)
  ultimately show ?thesis using dec_speech_ver_words [OF assms(1)] assms(3) by (simp add: norm_speech_def Let_def)
qed

lemma bcap_data_ok_norm: "bcap_data_ok norm_bcap_data"
  by (simp add: bcap_data_ok_def norm_bcap_data_def native_ok_def GSM48_bcap_ra_def GSM48_bcap_sig_access_def
      GSM48_bcap_user_rate_def GSM48_bcap_parity_def GSM48_bcap_interm_rate_def GSM48_bcap_transp_def
      GSM48_bcap_modem_type_def)

lemma bcap_data_struct_norm: "bcap_data_struct norm_bcap_data = zero_bcap_data"
  by (simp add: bcap_data_struct_def norm_bcap_data_def zero_bcap_data_def)

lemma dec_bcap_data_struct:
  assumes rt: "titan_rt_ok rt" and "bcap_data_ok d" and "placed xs ofs (gsm_mncc_bcap_data_octets (bcap_data_struct d))"
  shows "dec_bcap_data rt xs ofs = Inr d"
  using assms(2,3)
  by (auto simp add: dec_bcap_data_def bcap_data_ok_def gsm_mncc_bcap_data_octets_def bcap_data_struct_def
      rd_enum_of_int [OF _ rt] rd_int_of_int add.commute simp del: bind_result_eq_Inr)

lemma dec_bcap_struct:
  assumes rt: "titan_rt_ok rt" and b: "bcap_ok b" and at: "placed xs ofs (gsm_mncc_bearer_cap_octets (bcap_struct b))"
  shows "dec_bcap rt xs ofs = Inr (norm_bcap b)"
proof -
  have len: "length (speech_words (bc_speech_ver b)) = 8" using b by (simp add: bcap_ok_def speech_words_def)
  obtain d where d: "cb_data (bcap_struct b) = bcap_data_struct d" "bcap_data_ok d"
    "(case bc_data b of None \<Rightarrow> norm_bcap_data | Some d \<Rightarrow> d) = d"
  proof (cases "bc_data b")
    case None
    then show thesis using that [of norm_bcap_data] bcap_data_ok_norm
      by (simp add: bcap_struct_def bcap_data_struct_norm)
  next
    case (Some d)
    then show thesis using that [of d] b by (simp add: bcap_struct_def bcap_ok_def)
  qed
  from at have "placed xs (ofs + 52) (gsm_mncc_bcap_data_octets (bcap_data_struct d))"
    by (simp add: gsm_mncc_bearer_cap_octets_def bcap_struct_def len add.commute flip: d(1))
  then have 1: "dec_bcap_data rt xs (ofs + 52) = Inr d" by (rule dec_bcap_data_struct [OF rt d(2)])
  from at have "placed xs (ofs + 20) (concat (map le32_octets (speech_words (bc_speech_ver b))))"
    by (simp add: gsm_mncc_bearer_cap_octets_def bcap_struct_def add.commute)
  then have 2: "dec_speech_ver xs (ofs + 20) 8 = Inr (norm_speech (bc_speech_ver b))"
    by (rule dec_speech_ver_struct) (use b in \<open>simp_all add: bcap_ok_def\<close>)
  from at b have "rd_int xs ofs = Inr (bc_transfer b)" "rd_int xs (ofs + 4) = Inr (bc_mode b)"
    "rd_int xs (ofs + 8) = Inr (bc_coding b)" "rd_int xs (ofs + 12) = Inr (bc_radio b)"
    "rd_int xs (ofs + 16) = Inr (bc_speech_ctm b)"
    by (auto simp: gsm_mncc_bearer_cap_octets_def bcap_struct_def bcap_ok_def rd_int_of_int add.commute)
  then show ?thesis by (simp add: dec_bcap_def 1 2 norm_bcap_def d(3))
qed

lemma dec_cause_struct:
  assumes rt: "titan_rt_ok rt" and c: "cause_ok c" and at: "placed xs ofs (gsm_mncc_cause_octets (cause_struct c))"
  shows "dec_cause rt xs ofs = Inr c"
proof -
  have "native_ok (int (length (ca_diag c)))" using c by (simp add: cause_ok_def native_ok_def)
  then have len: "sint (word_of_nat (length (ca_diag c)) :: u32) = int (length (ca_diag c))"
    using sint_of_int_native [of "int (length (ca_diag c))"] by simp
  from at have d: "placed xs (ofs + 20) (le32_octets (word_of_nat (length (ca_diag c))))" "placed xs (ofs + 24) (ca_diag c)"
    by (auto simp: gsm_mncc_cause_octets_def cause_struct_def add.commute)
  have 1: "rd_int xs (ofs + 20) = Inr (int (length (ca_diag c)))"
    by (simp add: rd_int_placed [OF d(1)] len)
  have 2: "rd_octets xs (ofs + 24) (length (ca_diag c)) = Inr (ca_diag c)"
    by (rule rd_octets_placed [OF d(2)]) simp
  from at c have "rd_enum rt GSM48_cause_loc xs ofs = Inr (ca_location c)"
    "rd_enum rt GSM48_cause_coding xs (ofs + 4) = Inr (ca_coding c)" "rd_int xs (ofs + 8) = Inr (ca_rec c)"
    "rd_int xs (ofs + 12) = Inr (ca_rec_val c)" "rd_int xs (ofs + 16) = Inr (ca_val c)"
    by (auto simp: gsm_mncc_cause_octets_def cause_struct_def cause_ok_def rd_int_of_int rd_enum_of_int [OF _ rt] add.commute)
  then show ?thesis by (simp add: dec_cause_def 1 2)
qed

text \<open>The flags of the fields are single bits, so that each test sees its own part of the value only.\<close>

lemma and_exp_nonzero: "w AND 2 ^ n \<noteq> 0 \<longleftrightarrow> bit w n" for w :: u32
  by (auto simp: and_exp_eq_0_iff_not_bit)

lemma bit_flag_if: "bit (flag_if b (2 ^ k)) n \<longleftrightarrow> b \<and> n = k \<and> n < 32"
  by (auto simp: flag_if_def bit_exp_iff)

lemma mncc_flag_exp:
  "MNCC_F_BEARER_CAP = 2 ^ 0" "MNCC_F_CALLED = 2 ^ 1" "MNCC_F_CALLING = 2 ^ 2"
  "MNCC_F_REDIRECTING = 2 ^ 3" "MNCC_F_CONNECTED = 2 ^ 4" "MNCC_F_CAUSE = 2 ^ 5" "MNCC_F_USERUSER = 2 ^ 6"
  "MNCC_F_PROGRESS = 2 ^ 7" "MNCC_F_EMERGENCY = 2 ^ 8" "MNCC_F_FACILITY = 2 ^ 9" "MNCC_F_SSVERSION = 2 ^ 10"
  "MNCC_F_CCCAP = 2 ^ 11" "MNCC_F_KEYPAD = 2 ^ 12" "MNCC_F_SIGNAL = 2 ^ 13" "MNCC_F_GCR = 2 ^ 14"
  by (simp_all add: mncc_flags)

lemma signal_fields_test:
  "signal_fields p AND MNCC_F_BEARER_CAP \<noteq> 0 \<longleftrightarrow> sg_bearer_cap p \<noteq> None"
  "signal_fields p AND MNCC_F_CALLED \<noteq> 0 \<longleftrightarrow> sg_called p \<noteq> None"
  "signal_fields p AND MNCC_F_CALLING \<noteq> 0 \<longleftrightarrow> sg_calling p \<noteq> None"
  "signal_fields p AND MNCC_F_REDIRECTING \<noteq> 0 \<longleftrightarrow> sg_redirecting p \<noteq> None"
  "signal_fields p AND MNCC_F_CONNECTED \<noteq> 0 \<longleftrightarrow> sg_connected p \<noteq> None"
  "signal_fields p AND MNCC_F_CAUSE \<noteq> 0 \<longleftrightarrow> sg_cause p \<noteq> None"
  "signal_fields p AND MNCC_F_USERUSER \<noteq> 0 \<longleftrightarrow> sg_useruser p \<noteq> None"
  "signal_fields p AND MNCC_F_PROGRESS \<noteq> 0 \<longleftrightarrow> sg_progress p \<noteq> None"
  "signal_fields p AND MNCC_F_EMERGENCY \<noteq> 0 \<longleftrightarrow> sg_emergency p \<noteq> None"
  "signal_fields p AND MNCC_F_FACILITY \<noteq> 0 \<longleftrightarrow> sg_facility p \<noteq> None"
  "signal_fields p AND MNCC_F_SSVERSION \<noteq> 0 \<longleftrightarrow> sg_ssversion p \<noteq> None"
  "signal_fields p AND MNCC_F_CCCAP \<noteq> 0 \<longleftrightarrow> sg_cccap p \<noteq> None"
  "signal_fields p AND MNCC_F_KEYPAD \<noteq> 0 \<longleftrightarrow> sg_keypad p \<noteq> None"
  "signal_fields p AND MNCC_F_SIGNAL \<noteq> 0 \<longleftrightarrow> sg_signal p \<noteq> None"
  "signal_fields p AND MNCC_F_GCR \<noteq> 0 \<longleftrightarrow> sg_gcr p \<noteq> None"
  unfolding signal_fields_def mncc_flag_exp and_exp_nonzero
  by (simp_all only: bit_or_iff bit_flag_if) simp_all

lemma if_field_None: "(flags AND f \<noteq> 0 \<longleftrightarrow> v \<noteq> None) \<Longrightarrow> v = None \<Longrightarrow> if_field flags f r = Inr None"
  by (simp add: if_field_def)

lemma if_field_value:
  assumes "flags AND f \<noteq> 0 \<longleftrightarrow> v \<noteq> None" and "\<And>a. v = Some a \<Longrightarrow> r = Inr (g a)"
  shows "if_field flags f r = Inr (map_option g v)"
  using assms by (cases v) (simp_all add: if_field_def)

section \<open>Signalling values\<close>

text \<open>
  What the decoder makes of an encoded value: the bearer capabilities always have data, the session
  description is always present, the keypad facility comes out empty, and where there is a keypad
  facility its first character has taken the place of the signal.
\<close>

definition signal_out :: "int option \<Rightarrow> octets option \<Rightarrow> int option" where
  "signal_out sig kpd = (case sig of None \<Rightarrow> None
     | Some s \<Rightarrow> Some (case kpd of Some (c # cs) \<Rightarrow> sint (scast c :: u32) | _ \<Rightarrow> s))"

definition norm_signal :: "MNCC_PDU_Signal \<Rightarrow> MNCC_PDU_Signal" where
  "norm_signal p = p\<lparr>sg_bearer_cap := map_option norm_bcap (sg_bearer_cap p),
     sg_sdp := Some (case sg_sdp p of None \<Rightarrow> [] | Some s \<Rightarrow> s),
     sg_keypad := map_option (\<lambda>k. []) (sg_keypad p),
     sg_signal := signal_out (sg_signal p) (sg_keypad p)\<rparr>"

lemma number_field:
  assumes rt: "titan_rt_ok rt" and "pred_option number_ok n" and "placed xs ofs (gsm_mncc_number_octets (number_struct n))"
    and "flags AND f \<noteq> 0 \<longleftrightarrow> n \<noteq> None"
  shows "if_field flags f (dec_number rt xs ofs) = Inr n"
  using assms(2-) dec_number_enc [OF rt] by (cases n) (simp_all add: if_field_def number_struct_def)

lemma union_placed:
  assumes "placed xs 834 (union_octets ver gcr sdp)" "pred_option (\<lambda>g. ver = 8 \<and> length g = 16) gcr"
    "pred_option (c_string 1024) sdp" "ver = 7 \<or> ver = 8"
  shows "(if ver > 7 then rd_cstring xs 850 else rd_cstring xs 834) = Inr (case sdp of None \<Rightarrow> [] | Some s \<Rightarrow> s)"
    "gcr = Some g \<Longrightarrow> rd_octets xs 834 16 = Inr g"
proof -
  have zero: "strncpy [] 1024 = replicate 1024 0" by (simp add: strncpy_def)
  have s: "(case sdp of None \<Rightarrow> replicate 1024 0 | Some s \<Rightarrow> strncpy s 1024) = strncpy (case sdp of None \<Rightarrow> [] | Some s \<Rightarrow> s) 1024"
    "c_string 1024 (case sdp of None \<Rightarrow> [] | Some s \<Rightarrow> s)"
    using assms(3) by (cases sdp; simp add: zero c_string_def)+
  show "(if ver > 7 then rd_cstring xs 850 else rd_cstring xs 834) = Inr (case sdp of None \<Rightarrow> [] | Some s \<Rightarrow> s)"
    using assms(1,2,4) rd_strncpy [OF _ s(2)] by (cases gcr) (auto simp: union_octets_def s(1))
  show "gcr = Some g \<Longrightarrow> rd_octets xs 834 16 = Inr g"
    using assms(1,2) by (auto simp: union_octets_def intro!: rd_octets_placed)
qed

lemma dec_keypad_0: "placed xs 800 (le32_octets 0) \<Longrightarrow> dec_keypad xs = Inr []"
  by (simp add: dec_keypad_def rd32_placed)

lemma sint_octet: "uint (word_of_int i :: u8) = i" if "0 \<le> i" "i < 256"
  using that by (simp add: unsigned_of_int take_bit_int_eq_self)

text \<open>The parts of a signalling value in the image of its structure.\<close>

definition signal_image :: "titan_rt \<Rightarrow> int \<Rightarrow> MNCC_PDU_Signal \<Rightarrow> octets \<Rightarrow> bool" where
  "signal_image rt ver p xs \<longleftrightarrow> titan_rt_ok rt \<and> signal_ok ver p \<and> (\<exists>t. placed xs 0 (gsm_mncc_octets (signal_struct ver t p)))"

lemma signal_image_placed:
  assumes "signal_image rt ver p xs"
  shows "titan_rt_ok rt \<and> signal_ok ver p \<and>
    (\<exists>t. sized (signal_struct ver t p) \<and> placed xs 0 (gsm_mncc_octets (signal_struct ver t p)))"
  using assms signal_struct_sized unfolding signal_image_def by blast

lemma dec_signal_numbers:
  assumes "signal_image rt ver p xs"
  shows "if_field (signal_fields p) MNCC_F_CALLED (dec_number rt xs 104) = Inr (sg_called p)"
    "if_field (signal_fields p) MNCC_F_CALLING (dec_number rt xs 156) = Inr (sg_calling p)"
    "if_field (signal_fields p) MNCC_F_REDIRECTING (dec_number rt xs 208) = Inr (sg_redirecting p)"
    "if_field (signal_fields p) MNCC_F_CONNECTED (dec_number rt xs 260) = Inr (sg_connected p)"
proof -
  from signal_image_placed [OF assms] obtain t where rt: "titan_rt_ok rt" and p: "signal_ok ver p"
    and "sized (signal_struct ver t p)" "placed xs 0 (gsm_mncc_octets (signal_struct ver t p))" by blast
  note at = placed_gsm_mncc [OF this(3,4)] and test = signal_fields_test [of p]
  show "if_field (signal_fields p) MNCC_F_CALLED (dec_number rt xs 104) = Inr (sg_called p)"
    "if_field (signal_fields p) MNCC_F_CALLING (dec_number rt xs 156) = Inr (sg_calling p)"
    "if_field (signal_fields p) MNCC_F_REDIRECTING (dec_number rt xs 208) = Inr (sg_redirecting p)"
    "if_field (signal_fields p) MNCC_F_CONNECTED (dec_number rt xs 260) = Inr (sg_connected p)"
    by (rule number_field [OF rt _ _]; use at p test in \<open>simp add: signal_struct_def signal_ok_def\<close>)+
qed

lemma dec_signal_parts:
  assumes "signal_image rt ver p xs"
  shows "if_field (signal_fields p) MNCC_F_BEARER_CAP (dec_bcap rt xs 12) = Inr (map_option norm_bcap (sg_bearer_cap p))"
    "if_field (signal_fields p) MNCC_F_CAUSE (dec_cause rt xs 312) = Inr (map_option (\<lambda>c. c) (sg_cause p))"
    "if_field (signal_fields p) MNCC_F_USERUSER (dec_useruser xs 380) = Inr (map_option (\<lambda>c. c) (sg_useruser p))"
    "if_field (signal_fields p) MNCC_F_PROGRESS (dec_progress xs 368) = Inr (map_option (\<lambda>c. c) (sg_progress p))"
    "if_field (signal_fields p) MNCC_F_CCCAP (dec_cccap xs 648) = Inr (map_option (\<lambda>c. c) (sg_cccap p))"
    "if_field (signal_fields p) MNCC_F_EMERGENCY (rd_int xs 812) = Inr (map_option (\<lambda>c. c) (sg_emergency p))"
    "if_field (signal_fields p) MNCC_F_FACILITY (rd_cstring xs 520) = Inr (map_option (\<lambda>c. c) (sg_facility p))"
    "if_field (signal_fields p) MNCC_F_SSVERSION (rd_cstring xs 660) = Inr (map_option (\<lambda>c. c) (sg_ssversion p))"
proof -
  from signal_image_placed [OF assms] obtain t where rt: "titan_rt_ok rt" and p: "signal_ok ver p"
    and "sized (signal_struct ver t p)" "placed xs 0 (gsm_mncc_octets (signal_struct ver t p))" by blast
  note at = placed_gsm_mncc [OF this(3,4)] and test = signal_fields_test [of p]
  note parts = gsm_mncc_useruser_octets_def gsm_mncc_progress_octets_def gsm_mncc_cccap_octets_def
    gsm_mncc_facility_octets_def gsm_mncc_ssversion_octets_def useruser_ok_def progress_ok_def cccap_ok_def
    dec_useruser_def dec_progress_def dec_cccap_def
  show "if_field (signal_fields p) MNCC_F_BEARER_CAP (dec_bcap rt xs 12) = Inr (map_option norm_bcap (sg_bearer_cap p))"
    by (rule if_field_value, rule test, rule dec_bcap_struct [OF rt])
      (use at p in \<open>auto simp: signal_struct_def signal_ok_def\<close>)
  show "if_field (signal_fields p) MNCC_F_CAUSE (dec_cause rt xs 312) = Inr (map_option (\<lambda>c. c) (sg_cause p))"
    by (rule if_field_value, rule test, rule dec_cause_struct [OF rt])
      (use at p in \<open>auto simp: signal_struct_def signal_ok_def\<close>)
  show "if_field (signal_fields p) MNCC_F_USERUSER (dec_useruser xs 380) = Inr (map_option (\<lambda>c. c) (sg_useruser p))"
    "if_field (signal_fields p) MNCC_F_PROGRESS (dec_progress xs 368) = Inr (map_option (\<lambda>c. c) (sg_progress p))"
    "if_field (signal_fields p) MNCC_F_CCCAP (dec_cccap xs 648) = Inr (map_option (\<lambda>c. c) (sg_cccap p))"
    "if_field (signal_fields p) MNCC_F_EMERGENCY (rd_int xs 812) = Inr (map_option (\<lambda>c. c) (sg_emergency p))"
    "if_field (signal_fields p) MNCC_F_FACILITY (rd_cstring xs 520) = Inr (map_option (\<lambda>c. c) (sg_facility p))"
    "if_field (signal_fields p) MNCC_F_SSVERSION (rd_cstring xs 660) = Inr (map_option (\<lambda>c. c) (sg_ssversion p))"
    by (rule if_field_value, rule test, use at p in
      \<open>auto simp: signal_struct_def signal_ok_def parts rd_int_of_int rd_strncpy simp del: bind_result_eq_Inr\<close>)+
qed

lemma dec_signal_keypad:
  assumes "signal_image rt ver p xs"
  shows "if_field (signal_fields p) MNCC_F_KEYPAD (dec_keypad xs) = Inr (map_option (\<lambda>k. []) (sg_keypad p))"
    "if_field (signal_fields p) MNCC_F_SIGNAL (rd_int xs 796) = Inr (signal_out (sg_signal p) (sg_keypad p))"
proof -
  from signal_image_placed [OF assms] obtain t where p: "signal_ok ver p"
    and "sized (signal_struct ver t p)" "placed xs 0 (gsm_mncc_octets (signal_struct ver t p))" by blast
  note at = placed_gsm_mncc [OF this(2,3)]
  then have "placed xs 800 (le32_octets 0)" by (simp add: signal_struct_def)
  then show "if_field (signal_fields p) MNCC_F_KEYPAD (dec_keypad xs) = Inr (map_option (\<lambda>k. []) (sg_keypad p))"
    by (intro if_field_value signal_fields_test) (rule dec_keypad_0)
  have s: "placed xs 796 (le32_octets (m_signal (signal_struct ver t p)))" using at by blast
  have "rd_int xs 796 = Inr (case sg_keypad p of Some (c # cs) \<Rightarrow> sint (scast c :: u32) | _ \<Rightarrow> s)" if "sg_signal p = Some s" for s
  proof -
    have "native_ok s" using p that by (simp add: signal_ok_def)
    with s that show ?thesis
      by (auto simp: signal_struct_def sint_of_int_native rd_int_placed split: option.splits list.splits)
  qed
  then show "if_field (signal_fields p) MNCC_F_SIGNAL (rd_int xs 796) = Inr (signal_out (sg_signal p) (sg_keypad p))"
    using signal_fields_test by (cases "sg_signal p") (simp_all add: if_field_def signal_out_def)
qed

lemma dec_signal_always:
  assumes "signal_image rt ver p xs"
  shows "rd_int xs 4 = Inr (sg_callref p)" "rd32 xs 8 = Inr (signal_fields p)" "rd_int xs 788 = Inr (sg_clir_sup p)"
    "rd_int xs 792 = Inr (sg_clir_inv p)" "rd_int xs 804 = Inr (sg_more p)" "rd_int xs 808 = Inr (sg_notify p)"
    "rd_cstring xs 816 = Inr (sg_imsi p)" "rd8 xs 832 = Inr (word_of_int (sg_lchan_type p))"
    "rd8 xs 833 = Inr (word_of_int (sg_lchan_mode p))"
    "(if ver > 7 then if_field (signal_fields p) MNCC_F_GCR (rd_octets xs 834 16) else Inr None) = Inr (sg_gcr p)"
    "(if ver > 7 then rd_cstring xs 850 else rd_cstring xs 834) = Inr (case sg_sdp p of None \<Rightarrow> [] | Some s \<Rightarrow> s)"
proof -
  from signal_image_placed [OF assms] obtain t where p: "signal_ok ver p"
    and "sized (signal_struct ver t p)" "placed xs 0 (gsm_mncc_octets (signal_struct ver t p))" by blast
  note at = placed_gsm_mncc [OF this(2,3)]
  then have u: "placed xs 834 (union_octets ver (sg_gcr p) (sg_sdp p))" by (simp add: signal_struct_def)
  have "rd_octets xs 834 16 = Inr g" if "sg_gcr p = Some g" for g
    by (rule union_placed [OF u]) (use p that in \<open>simp_all add: signal_ok_def\<close>)
  then show "(if ver > 7 then if_field (signal_fields p) MNCC_F_GCR (rd_octets xs 834 16) else Inr None) = Inr (sg_gcr p)"
    using signal_fields_test p by (cases "sg_gcr p") (auto simp: if_field_def signal_ok_def)
  show "(if ver > 7 then rd_cstring xs 850 else rd_cstring xs 834) = Inr (case sg_sdp p of None \<Rightarrow> [] | Some s \<Rightarrow> s)"
    by (rule union_placed [OF u]) (use p in \<open>simp_all add: signal_ok_def\<close>)
qed (use signal_image_placed [OF assms] in \<open>auto dest!: placed_gsm_mncc simp: signal_struct_def signal_ok_def
    rd_int_of_int rd32_placed rd_strncpy rd8_placed\<close>)

lemma dec_signal_struct: "signal_image rt ver p xs \<Longrightarrow> dec_signal rt ver xs = Inr (norm_signal p)"
  using signal_image_placed [of rt ver p xs]
  by (simp add: dec_signal_def dec_signal_always dec_signal_numbers dec_signal_parts dec_signal_keypad option.map_ident
      norm_signal_def sint_octet signal_ok_def del: bind_result_eq_Inr)

text \<open>The types of the messages that carry a signalling value.\<close>

definition signal_type :: "int \<Rightarrow> bool" where
  "signal_type t \<longleftrightarrow> t \<in> set MNCC_MsgType \<and> t \<notin> {0x0204, 0x0205, 0x0206, 0x0300, 0x0301, 0x0302, 0x0303, 0x03ff, 0x0400}"

lemma word_of_msg_type:
  "(word_of_int t :: u32) = word_of_int u \<longleftrightarrow> t = u" if "native_ok u" "t \<in> set MNCC_MsgType"
  using that enum_small_MsgType unfolding enum_small_def by (metis sint_of_int_native)

lemma roundtrip_signal:
  assumes rt: "titan_rt_ok rt" and p: "signal_ok ver p" and t: "signal_type t"
  shows "bind_result (enc_MNCC_PDU rt ver \<lparr> pdu_msg_type = t, pdu_u = Signal p \<rparr>) (dec_MNCC_PDU rt ver) =
    Inr \<lparr> pdu_msg_type = t, pdu_u = Signal (norm_signal p) \<rparr>"
proof -
  let ?xs = "gsm_mncc_octets (signal_struct ver (word_of_int t) p)"
  have image: "signal_image rt ver p ?xs"
    using rt p placed_refl unfolding signal_image_def by blast
  have tt: "t \<in> set MNCC_MsgType" using t by (simp add: signal_type_def)
  then have n: "sint (word_of_int t :: u32) = t" using enum_small_MsgType by (simp add: enum_small_def sint_of_int_native)
  have ty: "rd32 ?xs 0 = Inr (word_of_int t)"
    using placed_gsm_mncc [OF signal_struct_sized [OF p] placed_refl] by (auto simp: signal_struct_def rd32_placed)
  have other: "(word_of_int t :: u32) \<noteq> word_of_int u" if "u \<in> {0x0204, 0x0205, 0x0206, 0x0300, 0x0301, 0x0302, 0x0303, 0x03ff, 0x0400}" for u
    using that t word_of_msg_type [of u t] by (auto simp: signal_type_def native_ok_def)
  show ?thesis
    using other [of "0x0204"] other [of "0x0205"] other [of "0x0206"] other [of "0x0300"] other [of "0x0301"] other [of "0x0302"]
      other [of "0x0303"] other [of "0x03ff"] other [of "0x0400"]
    by (simp add: enc_MNCC_PDU_def Let_def enc_signal_struct [OF rt p] dec_MNCC_PDU_def ty mncc_msg_types
        dec_signal_struct [OF image] n enum_from_int_ok [OF rt tt] del: bind_result_eq_Inr)
qed

section \<open>RTP, greeting and data\<close>

definition rtp_ok :: "MNCC_PDU_Rtp \<Rightarrow> bool" where
  "rtp_ok r \<longleftrightarrow> native_ok (rtp_callref r) \<and> native_ok (rtp_payload_type r) \<and> native_ok (rtp_payload_msg_type r) \<and>
     0 \<le> rtp_port r \<and> rtp_port r < 65536 \<and> length (rtp_ip r) = (if rtp_is_ipv6 r then 16 else 4) \<and>
     pred_option (c_string 1024) (rtp_sdp r)"

definition hello_ok :: "MNCC_PDU_Hello \<Rightarrow> bool" where
  "hello_ok h \<longleftrightarrow> native_ok (he_version h) \<and> native_ok (he_mncc_size h) \<and> native_ok (he_data_frame_size h) \<and>
     native_ok (he_called_offset h) \<and> native_ok (he_signal_offset h) \<and> native_ok (he_emergency_offset h) \<and>
     native_ok (he_lchan_type_offset h)"

definition norm_rtp :: "MNCC_PDU_Rtp \<Rightarrow> MNCC_PDU_Rtp" where
  "norm_rtp r = r\<lparr>rtp_sdp := Some (case rtp_sdp r of None \<Rightarrow> [] | Some s \<Rightarrow> s)\<rparr>"

definition rtp_struct :: "u32 \<Rightarrow> MNCC_PDU_Rtp \<Rightarrow> gsm_mncc_rtp" where
  "rtp_struct t p = \<lparr> r_msg_type = t, r_callref = word_of_int (rtp_callref p),
     r_addr = sockaddr_octets (if rtp_is_ipv6 p then AF_INET6 else AF_INET) (word_of_int (rtp_port p)) (rtp_ip p),
     r_payload_type = word_of_int (rtp_payload_type p), r_payload_msg_type = word_of_int (rtp_payload_msg_type p),
     r_sdp = strncpy (case rtp_sdp p of None \<Rightarrow> [] | Some s \<Rightarrow> s) 1024 \<rparr>"

lemma ucast_of_int_port: "ucast (word_of_int i :: u32) = (word_of_int i :: u16)"
  by (rule bit_word_eqI) (simp add: bit_simps)

lemma enc_rtp_struct:
  assumes rt: "titan_rt_ok rt" and p: "rtp_ok p"
  shows "enc_rtp rt p (zero_rtp\<lparr>r_msg_type := t\<rparr>) = Inr (rtp_struct t p)"
proof -
  have "native_ok (rtp_port p)" using p by (simp add: rtp_ok_def native_ok_def)
  then show ?thesis using p
    by (cases "rtp_sdp p") (auto simp: enc_rtp_def rtp_ok_def native_int_ok [OF rt] zero_rtp_def rtp_struct_def
        ucast_of_int_port strncpy_def Let_def simp del: bind_result_eq_Inr)
qed

lemma length_sockaddr_octets: "length a \<le> 120 \<Longrightarrow> length (sockaddr_octets fam port a) = 128"
  by (simp add: sockaddr_octets_def Let_def)

lemma placed_rtp:
  assumes "length (r_addr r) = 128" and "placed xs 0 (gsm_mncc_rtp_octets r)"
  shows "placed xs 0 (le32_octets (r_msg_type r)) \<and> placed xs 4 (le32_octets (r_callref r)) \<and> placed xs 8 (r_addr r) \<and>
    placed xs 136 (le32_octets (r_payload_type r)) \<and> placed xs 140 (le32_octets (r_payload_msg_type r)) \<and> placed xs 144 (r_sdp r)"
  using assms by (simp add: gsm_mncc_rtp_octets_def)

lemma dec_sockaddr_octets:
  assumes at: "placed xs 8 (sockaddr_octets fam port a)"
    and fam: "fam = AF_INET6 \<and> length a = 16 \<or> fam = AF_INET \<and> length a = 4"
  shows "dec_sockaddr xs = Inr (fam = AF_INET6, port, a)"
proof -
  obtain pad where eq: "sockaddr_octets fam port a = [octet_of 0 fam, octet_of 1 fam] @ be16_octets port @
      (if fam = AF_INET6 then replicate 4 0 else []) @ a @ pad"
    by (simp add: sockaddr_octets_def Let_def)
  have "placed xs 8 [octet_of 0 fam, octet_of 1 fam]"
    using at unfolding eq placed_append by blast
  moreover have "placed xs 10 (be16_octets port)"
    using at unfolding eq placed_append by simp
  moreover have "placed xs (if fam = AF_INET6 then 16 else 12) a"
    using at unfolding eq placed_append by (cases "fam = AF_INET6") simp_all
  ultimately have "rd_octets xs 8 2 = Inr [octet_of 0 fam, octet_of 1 fam]" "rd_octets xs 10 2 = Inr (be16_octets port)"
    "(if fam = AF_INET6 then rd_octets xs 16 16 else rd_octets xs 12 4) = Inr a"
    using fam by (auto intro!: rd_octets_placed simp: AF_INET_def AF_INET6_def)
  then show ?thesis using fam
    by (auto simp: dec_sockaddr_def Let_def or_octets_16 be16_octets_def or_octets_16 [unfolded One_nat_def])
qed

lemma dec_rtp_struct:
  assumes p: "rtp_ok p" and at: "placed xs 0 (gsm_mncc_rtp_octets (rtp_struct t p))"
  shows "dec_rtp xs = Inr (norm_rtp p)"
proof -
  have n: "native_ok (rtp_callref p)" "native_ok (rtp_payload_type p)" "native_ok (rtp_payload_msg_type p)"
    and port: "uint (word_of_int (rtp_port p) :: u16) = rtp_port p" and ip: "length (rtp_ip p) = (if rtp_is_ipv6 p then 16 else 4)"
    and sdp: "c_string 1024 (case rtp_sdp p of None \<Rightarrow> [] | Some s \<Rightarrow> s)"
    using p by (auto simp: rtp_ok_def c_string_def unsigned_of_int take_bit_int_eq_self split: option.split)
  have "length (r_addr (rtp_struct t p)) = 128" by (simp add: rtp_struct_def length_sockaddr_octets ip)
  note at = placed_rtp [OF this at]
  let ?fam = "if rtp_is_ipv6 p then AF_INET6 else AF_INET"
  have "dec_sockaddr xs = Inr (?fam = AF_INET6, word_of_int (rtp_port p), rtp_ip p)"
    by (rule dec_sockaddr_octets) (use at ip in \<open>auto simp: rtp_struct_def\<close>)
  moreover have "(?fam = AF_INET6) = rtp_is_ipv6 p" by (simp add: AF_INET_def AF_INET6_def)
  moreover have "rd_int xs 4 = Inr (rtp_callref p)" "rd_int xs 136 = Inr (rtp_payload_type p)"
    "rd_int xs 140 = Inr (rtp_payload_msg_type p)" "rd_cstring xs 144 = Inr (case rtp_sdp p of None \<Rightarrow> [] | Some s \<Rightarrow> s)"
    using at n rd_strncpy [OF _ sdp] by (auto simp: rtp_struct_def rd_int_of_int)
  ultimately show ?thesis by (simp add: dec_rtp_def norm_rtp_def port del: bind_result_eq_Inr)
qed

lemma sint_msg_type: "t \<in> set MNCC_MsgType \<Longrightarrow> sint (word_of_int t :: u32) = t"
  using enum_small_MsgType by (simp add: enum_small_def sint_of_int_native)

lemma in_MNCC_MsgType: "{0x0204, 0x0205, 0x0206, 0x0300, 0x0301, 0x0302, 0x0303, 0x03ff, 0x0400} \<subseteq> set MNCC_MsgType"
  by (simp add: MNCC_MsgType_def)

lemma roundtrip_rtp:
  assumes rt: "titan_rt_ok rt" and p: "rtp_ok p" and t: "t \<in> {0x0204, 0x0205, 0x0206}"
  shows "bind_result (enc_MNCC_PDU rt ver \<lparr> pdu_msg_type = t, pdu_u = Rtp p \<rparr>) (dec_MNCC_PDU rt ver) =
    Inr \<lparr> pdu_msg_type = t, pdu_u = Rtp (norm_rtp p) \<rparr>"
proof -
  let ?s = "rtp_struct (word_of_int t) p"
  have tt: "t \<in> set MNCC_MsgType" using t in_MNCC_MsgType by auto
  have "length (r_addr ?s) = 128" using p by (simp add: rtp_struct_def length_sockaddr_octets rtp_ok_def)
  note placed_rtp [OF this placed_refl]
  then have ty: "rd32 (gsm_mncc_rtp_octets ?s) 0 = Inr (word_of_int t)" by (simp add: rtp_struct_def rd32_placed)
  show ?thesis using t
    by (auto simp: enc_MNCC_PDU_def Let_def enc_rtp_struct [OF rt p] dec_MNCC_PDU_def ty mncc_msg_types
        dec_rtp_struct [OF p placed_refl] sint_msg_type [OF tt, simplified] enum_from_int_ok [OF rt] MNCC_MsgType_def
        simp del: bind_result_eq_Inr)
qed

lemma roundtrip_hello:
  assumes rt: "titan_rt_ok rt" and h: "hello_ok h"
  shows "bind_result (enc_MNCC_PDU rt ver \<lparr> pdu_msg_type = 0x0400, pdu_u = Hello h \<rparr>) (dec_MNCC_PDU rt ver) =
    Inr \<lparr> pdu_msg_type = 0x0400, pdu_u = Hello h \<rparr>"
proof -
  define s where "s = \<lparr> h_msg_type = 0x0400, h_version = word_of_int (he_version h),
    h_mncc_size = word_of_int (he_mncc_size h), h_data_frame_size = word_of_int (he_data_frame_size h),
    h_called_offset = word_of_int (he_called_offset h), h_signal_offset = word_of_int (he_signal_offset h),
    h_emergency_offset = word_of_int (he_emergency_offset h), h_lchan_type_offset = word_of_int (he_lchan_type_offset h) \<rparr>"
  have enc: "enc_hello rt h (zero_hello\<lparr>h_msg_type := 0x0400\<rparr>) = Inr s"
    using h by (simp add: enc_hello_def hello_ok_def native_int_ok [OF rt] zero_hello_def s_def)
  have "placed (gsm_mncc_hello_octets s) 0 (gsm_mncc_hello_octets s)" by (rule placed_refl)
  then have "\<And>xs. xs = gsm_mncc_hello_octets s \<Longrightarrow> placed xs 0 (gsm_mncc_hello_octets s)" by simp
  then have at: "\<And>xs. xs = gsm_mncc_hello_octets s \<Longrightarrow> rd32 xs 0 = Inr 0x0400 \<and> dec_hello xs = Inr h"
    using h unfolding gsm_mncc_hello_octets_def
    by (auto simp: s_def hello_ok_def dec_hello_def rd_int_of_int rd32_placed simp del: bind_result_eq_Inr)
  have "sint (0x0400 :: u32) = 0x0400" by simp
  with at show ?thesis
    by (simp add: enc_MNCC_PDU_def Let_def enc dec_MNCC_PDU_def mncc_msg_types enum_from_int_ok [OF rt] MNCC_MsgType_def
        del: bind_result_eq_Inr)
qed

lemma roundtrip_data:
  assumes rt: "titan_rt_ok rt" and t: "t \<in> {0x0300, 0x0301, 0x0302, 0x0303, 0x03ff}"
  shows "bind_result (enc_MNCC_PDU rt ver \<lparr> pdu_msg_type = t, pdu_u = Data d \<rparr>) (dec_MNCC_PDU rt ver) =
    Inr \<lparr> pdu_msg_type = t, pdu_u = Data (d\<lparr>da_callref := 0\<rparr>) \<rparr>"
proof -
  define xs where "xs = le32_octets (word_of_int t) @ le32_octets 0 @ da_data d"
  have tt: "t \<in> set MNCC_MsgType" using t in_MNCC_MsgType by auto
  have "placed xs 0 xs" by (rule placed_refl)
  then have "placed xs 0 (le32_octets (word_of_int t) @ le32_octets 0 @ da_data d)" by (simp only: xs_def)
  then have "rd32 xs 0 = Inr (word_of_int t)" "rd_int xs 4 = Inr 0"
    using rd_int_placed [of xs 4 0] by (simp_all add: rd32_placed)
  moreover have "drop 8 xs = da_data d" by (simp add: xs_def)
  ultimately show ?thesis using t
    by (auto simp: enc_MNCC_PDU_def Let_def dec_data_def dec_MNCC_PDU_def mncc_msg_types xs_def [symmetric]
        enum_from_int_ok [OF rt] MNCC_MsgType_def simp del: bind_result_eq_Inr)
qed

section \<open>Every step of the encoder keeps the sizes\<close>

definition keeps_size :: "(gsm_mncc \<Rightarrow> gsm_mncc result) \<Rightarrow> bool" where
  "keeps_size f \<longleftrightarrow> (\<forall>m m'. sized m \<longrightarrow> f m = Inr m' \<longrightarrow> sized m')"

lemma keeps_sizeI: "(\<And>m m'. sized m \<Longrightarrow> f m = Inr m' \<Longrightarrow> sized m') \<Longrightarrow> keeps_size f"
  by (simp add: keeps_size_def)

lemma keeps_size_bind: "keeps_size f \<Longrightarrow> keeps_size g \<Longrightarrow> keeps_size (\<lambda>m. bind_result (f m) g)"
  unfolding keeps_size_def bind_result_eq_Inr by blast

lemma keeps_size_const: "(\<And>w. keeps_size (g w)) \<Longrightarrow> keeps_size (\<lambda>m. bind_result r (\<lambda>w. g w m))"
  unfolding keeps_size_def bind_result_eq_Inr by blast

lemma sized_callref [simp]: "sized (m\<lparr>m_callref := w\<rparr>) = sized m"
  by (simp add: sized_def)

lemma keeps_size_callref: "keeps_size f \<Longrightarrow> keeps_size (\<lambda>m. f (m\<lparr>m_callref := w\<rparr>))"
  unfolding keeps_size_def by (metis sized_callref)

lemma keeps_size_on_value: "(\<And>a. keeps_size (f a)) \<Longrightarrow> keeps_size (on_value v f)"
  by (cases v) (auto simp: keeps_size_def)

lemma sized_set_field [simp]: "sized (set_field f m) = sized m"
  by (simp add: sized_def set_field_def)

lemma enc_speech_ver_length: "enc_speech_ver rt vs i arr = Inr arr' \<Longrightarrow> length arr' = length arr"
  by (induction rt vs i arr rule: enc_speech_ver.induct) (auto split: if_splits)

lemma enc_bcap_data_speech: "enc_bcap_data rt d out = Inr c \<Longrightarrow> cb_speech_ver c = cb_speech_ver out"
  by (auto simp: enc_bcap_data_def)

lemma enc_bcap_length: "enc_bcap rt b out = Inr c \<Longrightarrow> length (cb_speech_ver c) = length (cb_speech_ver out)"
  by (cases "bc_data b") (auto simp: enc_bcap_def dest!: enc_speech_ver_length enc_bcap_data_speech)

lemma keeps_size_steps:
  "keeps_size (sig_bearer_cap rt b)" "keeps_size (sig_numbers p)" "keeps_size (sig_cause rt c)"
  "keeps_size (sig_progress rt pr)" "keeps_size (sig_useruser rt u)" "keeps_size (sig_facility fac)"
  "keeps_size (sig_cccap rt cc)" "keeps_size (sig_ssversion fac)" "keeps_size (sig_clir rt p)"
  "keeps_size (sig_signal rt i)" "keeps_size (sig_keypad kpd)" "keeps_size (sig_more_notify rt p)"
  "keeps_size (sig_emergency rt i)" "keeps_size (sig_imsi_lchan rt p)" "keeps_size (sig_gcr ver g)" "keeps_size (sig_sdp ver sdp)"
proof -
  show "keeps_size (sig_numbers p)"
    unfolding sig_numbers_def
    by (intro keeps_size_bind keeps_size_on_value) (auto simp: keeps_size_def sized_def enc_number_def set_field_def)
  show "keeps_size (sig_cause rt c)"
    by (rule keeps_sizeI) (auto simp: sized_def sig_cause_def set_field_def split: if_splits)
  show "keeps_size (sig_keypad kpd)"
    by (rule keeps_sizeI) (auto simp: sized_def sig_keypad_def set_field_def split: list.splits)
qed (rule keeps_sizeI, auto simp: sized_def set_field_def sig_bearer_cap_def sig_progress_def sig_useruser_def sig_facility_def
    sig_cccap_def sig_ssversion_def sig_clir_def sig_signal_def sig_more_notify_def sig_emergency_def
    sig_imsi_lchan_def sig_gcr_def sig_sdp_def Let_def dest!: enc_bcap_length split: if_splits)+

lemma keeps_size_enc_signal: "keeps_size (enc_signal rt ver p)"
  unfolding enc_signal_def [abs_def]
  by (rule keeps_size_const, rule keeps_size_bind, rule keeps_size_callref)
    (intro keeps_size_bind keeps_size_on_value keeps_size_steps)+

lemma zero_mncc_sized: "sized (zero_mncc\<lparr>m_msg_type := t\<rparr>)"
  by (simp add: sized_def zero_mncc_def zero_bearer_cap_def zero_number_def)

text \<open>The reads of the decoder, and what a successful one says of the length.\<close>

lemma rd_octets_Inr: "rd_octets xs ofs n = Inr ys \<Longrightarrow> ofs + n \<le> length xs"
  by (simp add: rd_octets_def split: if_splits)

lemma rd_int_Inr: "rd_int xs ofs = Inr i \<Longrightarrow> ofs + 4 \<le> length xs"
  by (auto simp: rd_int_def rd32_def dest: rd_octets_Inr)

lemma rd_cstring_Inr: "rd_cstring xs ofs = Inr s \<Longrightarrow> ofs + length s < length xs"
  by (auto simp: rd_cstring_def Let_def split: if_splits)

lemma rd8_Inr: "rd8 xs ofs = Inr c \<Longrightarrow> ofs < length xs"
  by (simp add: rd8_def split: if_splits)

lemma dec_signal_length:
  "dec_signal rt ver xs = Inr p \<Longrightarrow> (if ver > 7 then 850 else 834) < length xs"
  unfolding dec_signal_def by (auto dest!: rd_cstring_Inr split: if_splits)

lemma dec_rtp_length: "dec_rtp xs = Inr p \<Longrightarrow> 144 < length xs"
  by (auto simp: dec_rtp_def dest!: rd_cstring_Inr)

lemma dec_hello_length: "dec_hello xs = Inr p \<Longrightarrow> 32 \<le> length xs"
  by (auto simp: dec_hello_def dest!: rd_int_Inr)

lemma dec_data_length: "dec_data xs = Inr p \<Longrightarrow> 8 \<le> length xs \<and> length (da_data p) = length xs - 8"
  by (auto simp: dec_data_def dest!: rd_int_Inr)

section \<open>A runtime\<close>

definition example_rt :: titan_rt where
  "example_rt = \<lparr> native_int = (\<lambda>i. if native_ok i then Inr (word_of_int i) else Inl TtcnError),
     enum_from_int = (\<lambda>vs i. if i \<in> set vs then Inr i else Inl TtcnError) \<rparr>"

lemma example_rt_ok: "titan_rt_ok example_rt"
  by (simp add: titan_rt_ok_def example_rt_def)

text \<open>A call set-up with both numbers and a cause, and one with a keypad facility and a signal.\<close>

definition example_signal :: MNCC_PDU_Signal where
  "example_signal = \<lparr> sg_callref = 5,
     sg_bearer_cap = Some \<lparr> bc_transfer = 0, bc_mode = 0, bc_coding = 0, bc_radio = 3, bc_speech_ctm = 0,
       bc_speech_ver = [0, 2, 4, 1, 5, - 1], bc_data = None \<rparr>,
     sg_called = Some \<lparr> nr_type = 1, nr_plan = 1, nr_presence = 0, nr_screen = 0, nr_number = [0x31, 0x32, 0x33] \<rparr>,
     sg_calling = None, sg_redirecting = None, sg_connected = None,
     sg_cause = Some \<lparr> ca_location = 2, ca_coding = 3, ca_rec = 0, ca_rec_val = 0, ca_val = 16, ca_diag = [1, 2] \<rparr>,
     sg_progress = None, sg_useruser = None, sg_facility = Some [0x41], sg_cccap = None, sg_ssversion = None,
     sg_clir_sup = 0, sg_clir_inv = 0, sg_signal = Some 2, sg_keypad = None, sg_more = 0, sg_notify = 0,
     sg_emergency = None, sg_imsi = [0x30, 0x30, 0x31], sg_lchan_type = 1, sg_lchan_mode = 2,
     sg_gcr = Some (replicate 16 7), sg_sdp = None \<rparr>"

lemmas signal_oks = signal_ok_def bcap_ok_def number_ok_def cause_ok_def c_string_def native_ok_def
  GSM48_type_of_number_def GSM48_num_plan_ind_def GSM48_present_ind_def GSM48_screening_ind_def
  GSM48_cause_loc_def GSM48_cause_coding_def

lemma example_signal_ok: "signal_ok 8 example_signal" "signal_ok 8 (example_signal\<lparr>sg_keypad := Some [0x35]\<rparr>)"
  by (simp_all add: example_signal_def signal_oks)

lemma signal_type_SETUP_IND: "signal_type 0x0102"
  by (simp add: signal_type_def MNCC_MsgType_def)

section \<open>Properties\<close>

text \<open>
  C25. A signalling message without keypad facility survives encoding and decoding at either version of
  the protocol: every optional part, number, cause, capability and string comes back, except that
  omitted data of the bearer capabilities come back as zeros, an omitted session description as the
  empty one, and that the speech versions are filled up with zeros or cut behind the first -1.
\<close>

theorem MNCC_signal_roundtrip:
  assumes "titan_rt_ok rt" and "signal_ok ver p" and "signal_type t" and "sg_keypad p = None"
  shows "bind_result (enc_MNCC_PDU rt ver \<lparr> pdu_msg_type = t, pdu_u = Signal p \<rparr>) (dec_MNCC_PDU rt ver) =
    Inr \<lparr> pdu_msg_type = t, pdu_u = Signal (p\<lparr>sg_bearer_cap := map_option norm_bcap (sg_bearer_cap p),
      sg_sdp := Some (case sg_sdp p of None \<Rightarrow> [] | Some s \<Rightarrow> s)\<rparr>) \<rparr>"
proof -
  have "norm_signal p = p\<lparr>sg_bearer_cap := map_option norm_bcap (sg_bearer_cap p),
      sg_sdp := Some (case sg_sdp p of None \<Rightarrow> [] | Some s \<Rightarrow> s)\<rparr>"
    by (rule MNCC_PDU_Signal.equality) (cases "sg_signal p"; simp add: norm_signal_def signal_out_def assms(4))+
  with roundtrip_signal [OF assms(1-3)] show ?thesis by simp
qed

theorem MNCC_signal_roundtrip_witness:
  "bind_result (enc_MNCC_PDU example_rt 8 \<lparr> pdu_msg_type = 0x0102, pdu_u = Signal example_signal \<rparr>) (dec_MNCC_PDU example_rt 8) =
    Inr \<lparr> pdu_msg_type = 0x0102, pdu_u = Signal (example_signal\<lparr>sg_bearer_cap := map_option norm_bcap (sg_bearer_cap example_signal),
      sg_sdp := Some []\<rparr>) \<rparr>"
  using MNCC_signal_roundtrip [OF example_rt_ok example_signal_ok(1) signal_type_SETUP_IND]
  by (simp add: example_signal_def)

text \<open>
  A keypad facility does not survive: the encoder stores its character in the member for the
  signal while the decoder reads the member for the keypad, so that the facility comes back empty
  and, where the message has a signal too, the signal comes back as the character.
\<close>

theorem MNCC_keypad_lost:
  assumes "titan_rt_ok rt" and "signal_ok ver p" and "signal_type t" and "sg_keypad p = Some (c # cs)"
    and "sg_signal p = Some s"
  shows "\<exists>q. bind_result (enc_MNCC_PDU rt ver \<lparr> pdu_msg_type = t, pdu_u = Signal p \<rparr>) (dec_MNCC_PDU rt ver) =
    Inr \<lparr> pdu_msg_type = t, pdu_u = Signal q \<rparr> \<and> sg_keypad q = Some [] \<and> sg_signal q = Some (sint (scast c :: u32))"
  by (rule exI [of _ "norm_signal p"])
    (simp add: roundtrip_signal [OF assms(1-3)] norm_signal_def signal_out_def assms(4,5))

theorem MNCC_keypad_lost_witness:
  "\<exists>q. bind_result (enc_MNCC_PDU example_rt 8 \<lparr> pdu_msg_type = 0x0102, pdu_u = Signal (example_signal\<lparr>sg_keypad := Some [0x35]\<rparr>) \<rparr>)
      (dec_MNCC_PDU example_rt 8) =
    Inr \<lparr> pdu_msg_type = 0x0102, pdu_u = Signal q \<rparr> \<and> sg_keypad q = Some [] \<and> sg_signal q = Some 0x35"
  using MNCC_keypad_lost [OF example_rt_ok example_signal_ok(2) signal_type_SETUP_IND, where c = "0x35" and cs = "[]" and s = 2]
  by (simp add: example_signal_def)

text \<open>
  An RTP message survives encoding and decoding: address family, address, port in network order,
  payload types and call reference; an omitted session description comes back as the empty one.
\<close>

theorem MNCC_rtp_roundtrip:
  assumes "titan_rt_ok rt" and "rtp_ok p" and "t \<in> {0x0204, 0x0205, 0x0206}"
  shows "bind_result (enc_MNCC_PDU rt ver \<lparr> pdu_msg_type = t, pdu_u = Rtp p \<rparr>) (dec_MNCC_PDU rt ver) =
    Inr \<lparr> pdu_msg_type = t, pdu_u = Rtp (p\<lparr>rtp_sdp := Some (case rtp_sdp p of None \<Rightarrow> [] | Some s \<Rightarrow> s)\<rparr>) \<rparr>"
  using roundtrip_rtp [OF assms] by (simp add: norm_rtp_def)

theorem MNCC_rtp_roundtrip_witness:
  "let p = \<lparr> rtp_callref = 7, rtp_is_ipv6 = False, rtp_ip = [127, 0, 0, 1], rtp_port = 4000, rtp_payload_type = 3,
      rtp_payload_msg_type = 0x0300, rtp_sdp = Some [0x76, 0x3d, 0x30] \<rparr>
   in bind_result (enc_MNCC_PDU example_rt 7 \<lparr> pdu_msg_type = 0x0204, pdu_u = Rtp p \<rparr>) (dec_MNCC_PDU example_rt 7) =
      Inr \<lparr> pdu_msg_type = 0x0204, pdu_u = Rtp p \<rparr>"
  using MNCC_rtp_roundtrip [OF example_rt_ok, of "\<lparr> rtp_callref = 7, rtp_is_ipv6 = False, rtp_ip = [127, 0, 0, 1],
      rtp_port = 4000, rtp_payload_type = 3, rtp_payload_msg_type = 0x0300, rtp_sdp = Some [0x76, 0x3d, 0x30] \<rparr>" "0x0204" 7]
  by (simp add: rtp_ok_def native_ok_def c_string_def Let_def)

text \<open>
  A data frame comes back with its data but with the call reference 0, whatever its own was: the
  encoder does not write it.
\<close>

theorem MNCC_data_frame_without_callref:
  assumes "titan_rt_ok rt" and "t \<in> {0x0300, 0x0301, 0x0302, 0x0303, 0x03ff}"
  shows "bind_result (enc_MNCC_PDU rt ver \<lparr> pdu_msg_type = t, pdu_u = Data \<lparr> da_callref = c, da_data = d \<rparr> \<rparr>) (dec_MNCC_PDU rt ver) =
    Inr \<lparr> pdu_msg_type = t, pdu_u = Data \<lparr> da_callref = 0, da_data = d \<rparr> \<rparr>"
  using roundtrip_data [OF assms, of ver "\<lparr> da_callref = c, da_data = d \<rparr>"] by simp

theorem MNCC_data_frame_without_callref_witness:
  "bind_result (enc_MNCC_PDU example_rt 7 \<lparr> pdu_msg_type = 0x0300, pdu_u = Data \<lparr> da_callref = 5, da_data = [1, 2] \<rparr> \<rparr>)
      (dec_MNCC_PDU example_rt 7) =
    Inr \<lparr> pdu_msg_type = 0x0300, pdu_u = Data \<lparr> da_callref = 0, da_data = [1, 2] \<rparr> \<rparr>"
  by (rule MNCC_data_frame_without_callref [OF example_rt_ok]) simp

text \<open>
  Whatever the value and the runtime, an encoded message has the size of its C structure: 1876
  octets for signalling, 1168 for RTP, 32 for the greeting, and 8 before the data of a frame.
\<close>

theorem enc_MNCC_PDU_size:
  assumes "enc_MNCC_PDU rt ver p = Inr xs"
  shows "length xs = (case pdu_u p of Signal s \<Rightarrow> 1876 | Data d \<Rightarrow> 8 + length (da_data d) | Rtp r \<Rightarrow> 1168 | Hello h \<Rightarrow> 32)"
proof (cases "pdu_u p")
  case (Signal s)
  with assms obtain m where m: "enc_signal rt ver s (zero_mncc\<lparr>m_msg_type := word_of_int (pdu_msg_type p)\<rparr>) = Inr m"
    and xs: "xs = gsm_mncc_octets m" by (auto simp: enc_MNCC_PDU_def Let_def)
  from keeps_size_enc_signal zero_mncc_sized m have "sized m" unfolding keeps_size_def by blast
  then show ?thesis using Signal by (simp add: xs length_gsm_mncc_octets)
next
  case (Rtp r)
  with assms show ?thesis
    by (auto simp: enc_MNCC_PDU_def Let_def enc_rtp_def gsm_mncc_rtp_octets_def length_sockaddr_octets zero_rtp_def
        split: if_splits option.splits)
qed (use assms in \<open>auto simp: enc_MNCC_PDU_def Let_def gsm_mncc_hello_octets_def\<close>)

theorem enc_MNCC_PDU_size_witness:
  "length (le32_octets 0x0300 @ le32_octets 0 @ [1, 2, 3]) = 11"
  using enc_MNCC_PDU_size [of example_rt 7 "\<lparr> pdu_msg_type = 0x0300, pdu_u = Data \<lparr> da_callref = 5, da_data = [1, 2, 3] \<rparr> \<rparr>"]
  by (simp add: enc_MNCC_PDU_def)

text \<open>
  The decoder has no check of the length, so a message is decoded only if every member it reads
  lies in it: signalling needs more than 834 octets (850 at version 8), RTP more than 144, the
  greeting 32, a data frame 8. Everything shorter is read beyond its end.
\<close>

theorem dec_MNCC_PDU_in_bounds:
  assumes "dec_MNCC_PDU rt ver xs = Inr p"
  shows "case pdu_u p of Signal s \<Rightarrow> (if ver > 7 then 850 else 834) < length xs
    | Data d \<Rightarrow> length xs = 8 + length (da_data d) | Rtp r \<Rightarrow> 144 < length xs | Hello h \<Rightarrow> 32 \<le> length xs"
  using assms unfolding dec_MNCC_PDU_def
  by (auto dest!: dec_signal_length dec_rtp_length dec_hello_length dec_data_length split: if_splits)

theorem dec_MNCC_PDU_in_bounds_witness:
  "dec_MNCC_PDU example_rt 7 ([0, 3, 0, 0, 0, 0, 0, 0, 9]) =
     Inr \<lparr> pdu_msg_type = 0x0300, pdu_u = Data \<lparr> da_callref = 0, da_data = [9] \<rparr> \<rparr> \<and> length [0 :: u8, 3, 0, 0, 0, 0, 0, 0, 9] = 9"
proof -
  have "dec_MNCC_PDU example_rt 7 ([0, 3, 0, 0, 0, 0, 0, 0, 9]) =
     Inr \<lparr> pdu_msg_type = 0x0300, pdu_u = Data \<lparr> da_callref = 0, da_data = [9] \<rparr> \<rparr>"
    by code_simp
  with dec_MNCC_PDU_in_bounds [OF this] show ?thesis by simp
qed

end
