(* ===== verification/MNCC_Robustness.thy ===== *)
theory MNCC_Robustness
  imports MNCC_Roundtrip
begin

text \<open>
  The MNCC decoder on arbitrary octets: how long a message and how short its diagnostics must be for the decoder to
  stay inside it, whatever its octets are.
\<close>

unbundle bit_operations_syntax

section \<open>Reads inside the message\<close>

definition inside :: "'a result \<Rightarrow> bool" where
  "inside r \<longleftrightarrow> r \<noteq> Inl OutOfBounds"

named_theorems inside_intros \<open>reads that stay inside the message\<close>

lemma inside_Inr [inside_intros]: "inside (Inr a)"
  by (simp add: inside_def)

lemma inside_TtcnError [inside_intros]: "inside (Inl TtcnError)"
  by (simp add: inside_def)

lemma inside_bind [inside_intros]: "inside r \<Longrightarrow> (\<And>a. inside (f a)) \<Longrightarrow> inside (bind_result r f)"
  by (cases r) (auto simp: inside_def)

lemma inside_map [inside_intros]: "inside r \<Longrightarrow> inside (map_result f r)"
  by (cases r) (auto simp: inside_def)

lemma inside_if [inside_intros]: "(b \<Longrightarrow> inside x) \<Longrightarrow> (\<not> b \<Longrightarrow> inside y) \<Longrightarrow> inside (if b then x else y)"
  by simp

lemma inside_if_field [inside_intros]: "inside r \<Longrightarrow> inside (if_field flags f r)"
  unfolding if_field_def by (intro inside_intros)

lemma inside_rd8 [inside_intros]: "ofs < length xs \<Longrightarrow> inside (rd8 xs ofs)"
  by (simp add: rd8_def inside_def)

lemma inside_rd_octets [inside_intros]: "ofs + n \<le> length xs \<Longrightarrow> inside (rd_octets xs ofs n)"
  by (simp add: rd_octets_def inside_def)

lemma inside_rd32 [inside_intros]: "ofs + 4 \<le> length xs \<Longrightarrow> inside (rd32 xs ofs)"
  unfolding rd32_def by (intro inside_intros)

lemma inside_rd_int [inside_intros]: "ofs + 4 \<le> length xs \<Longrightarrow> inside (rd_int xs ofs)"
  unfolding rd_int_def by (intro inside_intros)

lemma inside_enum: "titan_rt_ok rt \<Longrightarrow> inside (enum_from_int rt vs i)"
  by (simp add: titan_rt_ok_def inside_def)

lemma inside_rd_enum [inside_intros]: "titan_rt_ok rt \<Longrightarrow> ofs + 4 \<le> length xs \<Longrightarrow> inside (rd_enum rt vs xs ofs)"
  unfolding rd_enum_def by (intro inside_intros inside_enum)

text \<open>A string ends at the last octet of a message that ends with 0, at the latest.\<close>

lemma inside_rd_cstring [inside_intros]:
  assumes "ofs < length xs" "last xs = 0"
  shows "inside (rd_cstring xs ofs)"
proof -
  have "last (drop ofs xs) = 0" "drop ofs xs \<noteq> []" using assms by (simp_all add: last_drop)
  then have "\<not> (\<forall>c\<in>set (drop ofs xs). c \<noteq> 0)" using last_in_set by metis
  then have "takeWhile (\<lambda>c. c \<noteq> 0) (drop ofs xs) \<noteq> drop ofs xs" by (simp add: takeWhile_eq_all_conv)
  moreover have "length (takeWhile (\<lambda>c. c \<noteq> 0) (drop ofs xs)) \<le> length (drop ofs xs)" by (rule length_takeWhile_le)
  ultimately have "length (takeWhile (\<lambda>c. c \<noteq> 0) (drop ofs xs)) < length (drop ofs xs)"
    by (metis append_eq_conv_conj le_neq_implies_less takeWhile_dropWhile_id take_all_iff)
  then show ?thesis using assms(1) by (simp add: rd_cstring_def inside_def Let_def)
qed

section \<open>The parts of a message\<close>

lemma inside_speech_ver [inside_intros]: "ofs + 4 * n \<le> length xs \<Longrightarrow> inside (dec_speech_ver xs ofs n)"
  by (induction n arbitrary: ofs) (auto intro!: inside_intros)

lemma inside_bcap_data [inside_intros]: "titan_rt_ok rt \<Longrightarrow> ofs + 40 \<le> length xs \<Longrightarrow> inside (dec_bcap_data rt xs ofs)"
  unfolding dec_bcap_data_def by (intro inside_intros) simp_all

lemma inside_bcap [inside_intros]: "titan_rt_ok rt \<Longrightarrow> ofs + 92 \<le> length xs \<Longrightarrow> inside (dec_bcap rt xs ofs)"
  unfolding dec_bcap_def by (intro inside_intros) simp_all

lemma inside_number [inside_intros]:
  "titan_rt_ok rt \<Longrightarrow> ofs + 16 < length xs \<Longrightarrow> last xs = 0 \<Longrightarrow> inside (dec_number rt xs ofs)"
  unfolding dec_number_def by (intro inside_intros) simp_all

lemma inside_useruser [inside_intros]: "ofs + 4 < length xs \<Longrightarrow> last xs = 0 \<Longrightarrow> inside (dec_useruser xs ofs)"
  unfolding dec_useruser_def by (intro inside_intros) simp_all

lemma inside_progress [inside_intros]: "ofs + 12 \<le> length xs \<Longrightarrow> inside (dec_progress xs ofs)"
  unfolding dec_progress_def by (intro inside_intros) simp_all

lemma inside_cccap [inside_intros]: "ofs + 8 \<le> length xs \<Longrightarrow> inside (dec_cccap xs ofs)"
  unfolding dec_cccap_def by (intro inside_intros) simp_all

lemma inside_keypad [inside_intros]: "804 \<le> length xs \<Longrightarrow> inside (dec_keypad xs)"
  unfolding dec_keypad_def by (intro inside_intros) simp_all

text \<open>The diagnostics have the length that the message says.\<close>

lemma inside_cause:
  assumes "titan_rt_ok rt" "ofs + 24 \<le> length xs" "\<And>n. rd_int xs (ofs + 20) = Inr n \<Longrightarrow> int ofs + 24 + n \<le> int (length xs)"
  shows "inside (dec_cause rt xs ofs)"
proof -
  obtain n where n: "rd_int xs (ofs + 20) = Inr n"
    using assms(2) by (auto simp: rd_int_def rd32_def rd_octets_def)
  have "inside (if n < 0 then Inl TtcnError else bind_result (rd_octets xs (ofs + 24) (nat n)) (\<lambda>d. Inr (f d)))" for f :: "octets \<Rightarrow> MNCC_cause"
    using assms(3) [OF n] by (intro inside_intros) linarith
  then show ?thesis unfolding dec_cause_def n bind_result_Inr using assms(1,2)
    by (intro inside_bind inside_rd_enum inside_rd_int) simp_all
qed

lemma inside_signal:
  assumes "titan_rt_ok rt" "1876 \<le> length xs" "last xs = 0" "\<And>n. rd_int xs 332 = Inr n \<Longrightarrow> 336 + n \<le> int (length xs)"
  shows "inside (dec_signal rt ver xs)"
proof -
  have "inside (dec_cause rt xs 312)" using assms(1,2,4) by (intro inside_cause) simp_all
  then show ?thesis unfolding dec_signal_def using assms(1-3) by (intro inside_intros) simp_all
qed

lemma inside_rtp:
  assumes "1168 \<le> length xs" "last xs = 0"
  shows "inside (dec_rtp xs)"
proof -
  have "inside (dec_sockaddr xs)" unfolding dec_sockaddr_def Let_def using assms by (intro inside_intros) simp_all
  then show ?thesis unfolding dec_rtp_def using assms
    by (intro inside_bind) (auto intro!: inside_intros split: prod.split)
qed

section \<open>Whole messages\<close>

text \<open>
  C19. A message as long as the largest structure, 1876 octets, that ends with a 0 and whose length of the
  diagnostics stays inside it, is decoded without a read outside it, whatever the other octets are: the type of the message,
  the mask of fields, the enumerated values, and strings that no 0 ends.
\<close>

theorem dec_MNCC_PDU_stays_inside:
  assumes "titan_rt_ok rt" and "1876 \<le> length xs" and "last xs = 0"
    and "rd_int xs 332 = Inr diag_len" and "336 + diag_len \<le> int (length xs)"
  shows "dec_MNCC_PDU rt ver xs \<noteq> Inl OutOfBounds"
proof -
  have "inside (dec_signal rt ver xs)" using assms by (intro inside_signal) simp_all
  moreover have "inside (dec_rtp xs)" using assms(2,3) by (intro inside_rtp) simp_all
  moreover have "inside (dec_hello xs)" unfolding dec_hello_def using assms(2) by (intro inside_intros) simp_all
  moreover have "inside (dec_data xs)" unfolding dec_data_def using assms(2) by (intro inside_intros) simp_all
  ultimately have "inside (dec_MNCC_PDU rt ver xs)"
    unfolding dec_MNCC_PDU_def using assms(1,2) by (intro inside_intros inside_enum) simp_all
  then show ?thesis by (simp add: inside_def)
qed

theorem dec_MNCC_PDU_stays_inside_witness:
  "dec_MNCC_PDU example_rt 8 (le32_octets 0x0102 @ replicate 1872 0) \<noteq> Inl OutOfBounds"
proof (rule dec_MNCC_PDU_stays_inside [OF example_rt_ok])
  show "1876 \<le> length (le32_octets 0x0102 @ replicate 1872 0)" by (simp add: le32_octets_def)
  show "last (le32_octets 0x0102 @ replicate 1872 0) = 0" by simp
  show "rd_int (le32_octets 0x0102 @ replicate 1872 0) 332 = Inr 0"
    by (simp add: rd_int_def rd32_def rd_octets_def le32_octets_def be32_def)
  show "336 + (0 :: int) \<le> int (length (le32_octets 0x0102 @ replicate 1872 0))" by (simp add: le32_octets_def)
qed

end
