(* ===== verification/SMDPP_Threads.thy ===== *)
theory SMDPP_Threads
  imports SMDPP_Props
begin

text \<open>
  The registry of \<^verbatim>\<open>smdpp/smdpp_Tests_Functions.cc\<close> between threads. Its mutex covers creating, finding and destroying
  clients, not the method that a call runs on the pointer it found. Here clients are objects in memory, a method is a tree of
  accesses to its object, and a call is many steps: finding the client, one step for each access, and the return, with steps of
  other threads between them. While no client is destroyed during a call on it, and calls on one client overlap only if they just
  read it, the calls have the results and effects of the atomic calls of \<^theory_text>\<open>SMDPP_Functions\<close>. Otherwise a
  call works on a freed object, or on that of another handle, or two calls mix their effects.
\<close>

section \<open>Methods as accesses\<close>

text \<open>
  A method in the middle of its run: it is done, or it accesses the object next, which may change it, and goes on with what
  it has seen. Run alone, it is a function on the object.
\<close>

datatype ('o, 'a) body = Done 'a | Access "'o \<Rightarrow> 'o \<times> ('o, 'a) body"

primrec run :: "('o, 'a) body \<Rightarrow> 'o \<Rightarrow> 'a \<times> 'o" where
  "run (Done a) = (\<lambda>x. (a, x))"
| "run (Access g) = (\<lambda>x. let (x', r) = (map_prod id run \<circ> g) x in r x')"

lemma run_Access [simp]: "run (Access g) x = run (snd (g x)) (fst (g x))"
  by (simp add: case_prod_beta)

declare run.simps(2) [simp del]

text \<open>A method that changes nothing, whatever it finds.\<close>

inductive read_only :: "('o, 'a) body \<Rightarrow> bool" where
  returns: "read_only (Done a)"
| accesses: "(\<And>x. fst (g x) = x) \<Longrightarrow> (\<And>x. read_only (snd (g x))) \<Longrightarrow> read_only (Access g)"

inductive_simps read_only_Access [simp]: "read_only (Access g)"
inductive_simps read_only_Done [simp]: "read_only (Done a)"

text \<open>
  The accesses of one method of the client, \<^verbatim>\<open>setConfirmationCode\<close>: the code is written, both members are read, and
  the hash is written; the hash is computed in between.
\<close>

definition setConfirmationCode_accesses :: "('c, 'p, 'k) openssl \<Rightarrow> string \<Rightarrow> (('c, 'k) rsp_client, int result) body" where
  "setConfirmationCode_accesses ssl confirmationCode =
     Access (\<lambda>cl. (cl\<lparr>m_confirmationCode := confirmationCode\<rparr>,
     Access (\<lambda>cl. (cl,
       if m_transactionId cl \<noteq> [] then
         (case computeConfirmationCodeHash ssl (m_confirmationCode cl) (m_transactionId cl) of
            Inl e \<Rightarrow> Done (Inl e)
          | Inr h \<Rightarrow> Access (\<lambda>cl. (cl\<lparr>m_confirmationCodeHash := h\<rparr>, Done (Inr 0))))
       else Done (Inr 0)))))"

lemma run_setConfirmationCode: "run (setConfirmationCode_accesses ssl code) = then_0 (setConfirmationCode ssl code)"
  by (rule ext) (simp add: setConfirmationCode_accesses_def setConfirmationCode_def then_0_def Let_def split: sum.split)

section \<open>Shared state\<close>

text \<open>
  A call in progress: its handle, the object it found, its error value, what is left of its method; for the proofs, the
  method and the object as they were when the call began.
\<close>

record ('c, 'k, 'a) call =
  call_handle :: int
  call_addr :: nat
  call_error :: 'a
  call_rest :: "(('c, 'k) rsp_client, 'a result) body"
  call_method :: "(('c, 'k) rsp_client, 'a result) body"
  call_entry :: "('c, 'k) rsp_client option"

text \<open>What has happened, for the threads to see: who was created and destroyed, and what calls have returned.\<close>

datatype ('c, 'k, 'a) event =
    Created string string string "int result"
  | Destroyed int "int result"
  | DestroyedAll
  | Called int 'a "(('c, 'k) rsp_client, 'a result) body" "'a result"

text \<open>Where the client of a handle is, the objects in memory, the calls of the threads, and the events in their order.\<close>

record ('c, 'k, 'a) shared =
  handle_map :: "int \<rightharpoonup> nat"
  next_handle :: int
  objects :: "nat \<rightharpoonup> ('c, 'k) rsp_client"
  in_call :: "nat \<rightharpoonup> ('c, 'k, 'a) call"
  events :: "('c, 'k, 'a) event list"

definition threads_start :: "('c, 'k, 'a) shared" where
  "threads_start = \<lparr>handle_map = (\<lambda>h. None), next_handle = 1, objects = (\<lambda>a. None), in_call = (\<lambda>t. None), events = []\<rparr>"

definition getClient :: "int \<Rightarrow> ('c, 'k, 'a) shared \<Rightarrow> nat option" where
  "getClient h s = handle_map s h"

text \<open>The steps under the mutex; \<open>a\<close> is the address of the new object.\<close>

definition shared_create :: "('c, 'p, 'k) openssl \<Rightarrow> ('c, 'p, 'k) environment \<Rightarrow> string \<Rightarrow> string \<Rightarrow> string \<Rightarrow> nat \<Rightarrow>
    ('c, 'k, 'a) shared \<Rightarrow> int result \<times> ('c, 'k, 'a) shared" where
  "shared_create ssl env serverUrl certPath nameFilter a s =
     (case makeClient ssl env serverUrl certPath nameFilter of
        Inl e \<Rightarrow> (if e = Thrown then Inr (- 1) else Inl e, s)
      | Inr cl \<Rightarrow>
          (if next_handle s = INT_MAX then (Inl Undefined, s)
           else (Inr (next_handle s),
             s\<lparr>handle_map := (handle_map s)(next_handle s \<mapsto> a), next_handle := next_handle s + 1, objects := (objects s)(a \<mapsto> cl)\<rparr>)))"

definition shared_destroy :: "int \<Rightarrow> ('c, 'k, 'a) shared \<Rightarrow> int result \<times> ('c, 'k, 'a) shared" where
  "shared_destroy h s =
     (case handle_map s h of
        None \<Rightarrow> (Inr (- 1), s)
      | Some a \<Rightarrow> (Inr 0, s\<lparr>handle_map := (handle_map s)(h := None), objects := (objects s)(a := None)\<rparr>))"

definition shared_destroyAll :: "('c, 'k, 'a) shared \<Rightarrow> ('c, 'k, 'a) shared" where
  "shared_destroyAll s = s\<lparr>handle_map := (\<lambda>h. None), objects := (\<lambda>a. if a \<in> ran (handle_map s) then None else objects s a)\<rparr>"

definition log_event :: "('c, 'k, 'a) event \<Rightarrow> ('c, 'k, 'a) shared \<Rightarrow> ('c, 'k, 'a) shared" where
  "log_event e s = s\<lparr>events := events s @ [e]\<rparr>"

text \<open>
  A call: finding the client, under the mutex; a null pointer is an exception and the call has returned. Then the accesses of
  the method, without the mutex, each to the object as it is then; an object that was freed must not be accessed. Then the return.
\<close>

definition begin_call :: "nat \<Rightarrow> int \<Rightarrow> 'a \<Rightarrow> (('c, 'k) rsp_client, 'a result) body \<Rightarrow> ('c, 'k, 'a) shared \<Rightarrow> ('c, 'k, 'a) shared" where
  "begin_call t h error_value f s =
     (case getClient h s of
        None \<Rightarrow> log_event (Called h error_value f (catch_std error_value (Inl Thrown))) s
      | Some a \<Rightarrow> s\<lparr>in_call := (in_call s)(t \<mapsto> \<lparr>call_handle = h, call_addr = a, call_error = error_value, call_rest = f,
          call_method = f, call_entry = objects s a\<rparr>)\<rparr>)"

definition access_step :: "nat \<Rightarrow> ('c, 'k, 'a) shared \<Rightarrow> unit result \<times> ('c, 'k, 'a) shared" where
  "access_step t s =
     (case in_call s t of
        None \<Rightarrow> (Inr (), s)
      | Some c \<Rightarrow>
          (case call_rest c of
             Done r \<Rightarrow> (Inr (), s)
           | Access g \<Rightarrow>
               (case objects s (call_addr c) of
                  None \<Rightarrow> (Inl OutOfBounds, s\<lparr>in_call := (in_call s)(t := None)\<rparr>)
                | Some cl \<Rightarrow> (Inr (), s\<lparr>objects := (objects s)(call_addr c \<mapsto> fst (g cl)),
                    in_call := (in_call s)(t \<mapsto> c\<lparr>call_rest := snd (g cl)\<rparr>)\<rparr>))))"

definition end_call :: "nat \<Rightarrow> ('c, 'k, 'a) shared \<Rightarrow> ('c, 'k, 'a) shared" where
  "end_call t s =
     (case in_call s t of
        None \<Rightarrow> s
      | Some c \<Rightarrow>
          (case call_rest c of
             Done r \<Rightarrow> log_event (Called (call_handle c) (call_error c) (call_method c) (catch_std (call_error c) r))
                         (s\<lparr>in_call := (in_call s)(t := None)\<rparr>)
           | Access g \<Rightarrow> s))"

text \<open>
  The steps of all threads. With \<open>quiet\<close>, no client is destroyed during a call on it, and a call on a client on which another one
  is running begins only if both just read.
\<close>

definition may_begin :: "int \<Rightarrow> (('c, 'k) rsp_client, 'a result) body \<Rightarrow> ('c, 'k, 'a) shared \<Rightarrow> bool" where
  "may_begin h f s \<longleftrightarrow> (\<forall>t c. in_call s t = Some c \<longrightarrow> call_handle c = h \<longrightarrow> read_only f \<and> read_only (call_method c))"

inductive thread_step :: "bool \<Rightarrow> ('c, 'p, 'k) openssl \<Rightarrow> ('c, 'p, 'k) environment \<Rightarrow>
    ('c, 'k, 'a) shared \<Rightarrow> ('c, 'k, 'a) shared \<Rightarrow> bool"
  for quiet ssl env where
  create: "objects s a = None \<Longrightarrow> shared_create ssl env url path nameFilter a s = (r, s') \<Longrightarrow> r \<noteq> Inl Undefined \<Longrightarrow>
    thread_step quiet ssl env s (log_event (Created url path nameFilter (catch_std (- 1) r)) s')"
| begin_call: "in_call s t = None \<Longrightarrow> quiet \<longrightarrow> may_begin h f s \<Longrightarrow> thread_step quiet ssl env s (begin_call t h v f s)"
| access: "access_step t s = (r, s') \<Longrightarrow> thread_step quiet ssl env s s'"
| end_call: "thread_step quiet ssl env s (end_call t s)"
| destroy: "quiet \<longrightarrow> (\<forall>t c. in_call s t = Some c \<longrightarrow> call_handle c \<noteq> h) \<Longrightarrow> shared_destroy h s = (r, s') \<Longrightarrow>
    thread_step quiet ssl env s (log_event (Destroyed h r) s')"
| destroyAll: "quiet \<longrightarrow> in_call s = (\<lambda>t. None) \<Longrightarrow> thread_step quiet ssl env s (log_event DestroyedAll (shared_destroyAll s))"

inductive_cases thread_stepE: "thread_step quiet ssl env s s'"

section \<open>Invariants\<close>

text \<open>Every object belongs to exactly one handle that was given out.\<close>

definition table_ok :: "(int \<rightharpoonup> nat) \<Rightarrow> int \<Rightarrow> nat set \<Rightarrow> bool" where
  "table_ok m n D \<longleftrightarrow> ran m = D \<and> (\<forall>h a. m h = Some a \<longrightarrow> h < n) \<and>
     (\<forall>h h' a. m h = Some a \<longrightarrow> m h' = Some a \<longrightarrow> h' = h)"

definition shared_ok :: "('c, 'k, 'a) shared \<Rightarrow> bool" where
  "shared_ok s \<longleftrightarrow> table_ok (handle_map s) (next_handle s) (dom (objects s))"

lemma log_event_fields [simp]: "handle_map (log_event e s) = handle_map s" "next_handle (log_event e s) = next_handle s"
  "objects (log_event e s) = objects s" "in_call (log_event e s) = in_call s" "events (log_event e s) = events s @ [e]"
  by (simp_all add: log_event_def)

lemma shared_ok_log [simp]: "shared_ok (log_event e s) = shared_ok s"
  by (simp add: shared_ok_def)

lemma table_ok_create: "table_ok m n D \<Longrightarrow> a \<notin> D \<Longrightarrow> table_ok (m(n \<mapsto> a)) (n + 1) (insert a D)"
proof -
  assume ok: "table_ok m n D" and a: "a \<notin> D"
  have "m n = None" using ok by (cases "m n") (auto simp: table_ok_def)
  moreover have "m h \<noteq> Some a" for h using ok a by (auto simp: table_ok_def ran_def)
  moreover have "m h = Some b \<Longrightarrow> h < n + 1" for h b using ok by (force simp: table_ok_def)
  ultimately show ?thesis using ok unfolding table_ok_def by (auto simp: ran_map_upd)
qed

lemma table_ok_destroy: "table_ok m n D \<Longrightarrow> m h = Some a \<Longrightarrow> table_ok (m(h := None)) n (D - {a})"
proof -
  assume ok: "table_ok m n D" and h: "m h = Some a"
  then have "ran (m(h := None)) = D - {a}"
    unfolding table_ok_def ran_def by (auto split: if_splits) (metis option.inject)
  with ok show ?thesis by (simp add: table_ok_def)
qed

lemma table_ok_empty: "table_ok (\<lambda>h. None) n {}"
  by (simp add: table_ok_def)

lemma shared_okD:
  assumes "shared_ok s"
  shows "handle_map s h = Some a \<Longrightarrow> objects s a \<noteq> None" "handle_map s h = Some a \<Longrightarrow> h < next_handle s"
    "objects s a \<noteq> None \<Longrightarrow> \<exists>h. handle_map s h = Some a"
    "handle_map s h = Some a \<Longrightarrow> handle_map s h' = Some a \<Longrightarrow> h' = h"
  using assms unfolding shared_ok_def table_ok_def ran_def by blast+

lemma next_handle_unused: "shared_ok s \<Longrightarrow> handle_map s (next_handle s) = None"
  using shared_okD(2) [of s "next_handle s"] by (cases "handle_map s (next_handle s)") auto

lemma shared_ok_create:
  "shared_ok s \<Longrightarrow> objects s a = None \<Longrightarrow> shared_create ssl env url path nameFilter a s = (r, s') \<Longrightarrow> shared_ok s'"
  using table_ok_create [of "handle_map s" "next_handle s" "dom (objects s)" a]
  by (auto simp: shared_create_def shared_ok_def domIff split: sum.splits if_splits)

lemma shared_ok_destroy: "shared_ok s \<Longrightarrow> shared_destroy h s = (r, s') \<Longrightarrow> shared_ok s'"
  using table_ok_destroy [of "handle_map s" "next_handle s" "dom (objects s)" h]
  by (auto simp: shared_destroy_def shared_ok_def split: option.splits)

lemma shared_ok_destroyAll: "shared_ok s \<Longrightarrow> shared_ok (shared_destroyAll s)"
proof -
  assume "shared_ok s"
  then have "dom (objects (shared_destroyAll s)) = {}"
    by (auto simp: shared_ok_def table_ok_def shared_destroyAll_def split: if_splits)
  then show ?thesis using table_ok_empty by (simp add: shared_ok_def shared_destroyAll_def)
qed

text \<open>A call does not change where objects are, nor which ones there are.\<close>

lemma call_steps_keep:
  "handle_map (begin_call t h v f s) = handle_map s \<and> next_handle (begin_call t h v f s) = next_handle s \<and> objects (begin_call t h v f s) = objects s"
  "handle_map (end_call t s) = handle_map s \<and> next_handle (end_call t s) = next_handle s \<and> objects (end_call t s) = objects s"
  "access_step t s = (r, s') \<Longrightarrow>
     handle_map s' = handle_map s \<and> next_handle s' = next_handle s \<and> dom (objects s') = dom (objects s) \<and> events s' = events s"
  by (auto simp: begin_call_def end_call_def access_step_def split: option.splits body.splits if_splits)

lemma shared_ok_calls:
  "shared_ok s \<Longrightarrow> shared_ok (begin_call t h v f s)" "shared_ok s \<Longrightarrow> shared_ok (end_call t s)"
  "shared_ok s \<Longrightarrow> access_step t s = (r, s') \<Longrightarrow> shared_ok s'"
  using call_steps_keep(1) [of t h v f s] call_steps_keep(2) [of t s] call_steps_keep(3) [of t s r s'] by (simp_all add: shared_ok_def)

lemma thread_step_ok: "thread_step quiet ssl env s s' \<Longrightarrow> shared_ok s \<Longrightarrow> shared_ok s'"
  by (erule thread_stepE) (auto intro: shared_ok_create shared_ok_destroy shared_ok_destroyAll shared_ok_calls)

lemma threads_ok: "(thread_step quiet ssl env)\<^sup>*\<^sup>* threads_start s \<Longrightarrow> shared_ok s"
proof (induction rule: rtranclp_induct)
  case base
  show ?case using table_ok_empty by (simp add: shared_ok_def threads_start_def)
qed (rule thread_step_ok)


section \<open>Calls without interference\<close>

text \<open>
  What a thread in a call has found is still the client of its handle, and what is left of its method leads from the object as it
  is now to where the method leads from the object at the beginning; a method that just reads still sees that object.
\<close>

definition call_ok :: "('c, 'k, 'a) shared \<Rightarrow> ('c, 'k, 'a) call \<Rightarrow> bool" where
  "call_ok s c \<longleftrightarrow> handle_map s (call_handle c) = Some (call_addr c) \<and>
     (\<exists>cl e. objects s (call_addr c) = Some cl \<and> call_entry c = Some e \<and> run (call_rest c) cl = run (call_method c) e \<and>
        (read_only (call_method c) \<longrightarrow> cl = e \<and> read_only (call_rest c)))"

definition calls_ok :: "('c, 'k, 'a) shared \<Rightarrow> bool" where
  "calls_ok s \<longleftrightarrow> (\<forall>t c. in_call s t = Some c \<longrightarrow> call_ok s c) \<and>
     (\<forall>t c t' c'. in_call s t = Some c \<longrightarrow> in_call s t' = Some c' \<longrightarrow> t \<noteq> t' \<longrightarrow> call_addr c = call_addr c' \<longrightarrow>
        read_only (call_method c) \<and> read_only (call_method c'))"

lemma calls_okD:
  assumes "calls_ok s" "in_call s t = Some c"
  shows "call_ok s c" "in_call s t' = Some c' \<Longrightarrow> t \<noteq> t' \<Longrightarrow> call_addr c = call_addr c' \<Longrightarrow>
    read_only (call_method c) \<and> read_only (call_method c')"
  using assms unfolding calls_ok_def by blast+

lemma call_ok_kept:
  "call_ok s c \<Longrightarrow> handle_map s' (call_handle c) = handle_map s (call_handle c) \<Longrightarrow>
    objects s' (call_addr c) = objects s (call_addr c) \<Longrightarrow> call_ok s' c"
  by (simp add: call_ok_def)

lemma calls_ok_kept:
  assumes "calls_ok s" and "\<And>t c. in_call s' t = Some c \<Longrightarrow> in_call s t = Some c"
    and "\<And>t c. in_call s' t = Some c \<Longrightarrow> handle_map s' (call_handle c) = handle_map s (call_handle c) \<and>
      objects s' (call_addr c) = objects s (call_addr c)"
  shows "calls_ok s'"
  unfolding calls_ok_def
proof (intro conjI allI impI)
  fix t c assume "in_call s' t = Some c"
  then show "call_ok s' c" using call_ok_kept calls_okD(1) [OF assms(1)] assms(2,3) by blast
next
  fix t c t' c' assume "in_call s' t = Some c" "in_call s' t' = Some c'" "t \<noteq> t'" "call_addr c = call_addr c'"
  then show "read_only (call_method c)" "read_only (call_method c')"
    using calls_okD(2) [OF assms(1)] assms(2) by blast+
qed

lemma call_ok_object: "call_ok s c \<Longrightarrow> objects s (call_addr c) \<noteq> None"
  by (auto simp: call_ok_def)

text \<open>Two calls on one object are calls on one handle.\<close>

lemma same_object:
  assumes "shared_ok s" "call_ok s c" "handle_map s h = Some (call_addr c)"
  shows "h = call_handle c"
  using assms shared_okD(4) [OF assms(1)] by (auto simp: call_ok_def)

lemma calls_ok_begin:
  assumes ok: "shared_ok s" and calls: "calls_ok s" and "in_call s t = None" and may: "may_begin h f s"
  shows "calls_ok (begin_call t h v f s)"
proof (cases "handle_map s h")
  case None
  then show ?thesis using calls_ok_kept [OF calls, of "begin_call t h v f s"] by (simp add: begin_call_def getClient_def)
next
  case (Some a)
  define c where "c = \<lparr>call_handle = h, call_addr = a, call_error = v, call_rest = f, call_method = f, call_entry = objects s a\<rparr>"
  have s': "begin_call t h v f s = s\<lparr>in_call := (in_call s)(t \<mapsto> c)\<rparr>" by (simp add: begin_call_def getClient_def Some c_def)
  have new: "call_ok (s\<lparr>in_call := X\<rparr>) c" for X
    using Some shared_okD(1) [OF ok Some] by (auto simp: call_ok_def c_def)
  have readers: "read_only (call_method c) \<and> read_only (call_method c')" if "in_call s t' = Some c'" "call_addr c' = a" for t' c'
  proof -
    have "call_handle c' = h" using same_object [OF ok calls_okD(1) [OF calls that(1)], of h] Some that(2) by simp
    then show ?thesis using may that(1) by (auto simp: may_begin_def c_def)
  qed
  show ?thesis
    unfolding calls_ok_def s'
  proof (intro conjI allI impI)
    fix t1 c1 assume "in_call (s\<lparr>in_call := (in_call s)(t \<mapsto> c)\<rparr>) t1 = Some c1"
    then show "call_ok (s\<lparr>in_call := (in_call s)(t \<mapsto> c)\<rparr>) c1"
      using new call_ok_kept [OF calls_okD(1) [OF calls], of t1 c1] by (auto split: if_splits)
  next
    fix t1 c1 t2 c2
    assume "in_call (s\<lparr>in_call := (in_call s)(t \<mapsto> c)\<rparr>) t1 = Some c1" "in_call (s\<lparr>in_call := (in_call s)(t \<mapsto> c)\<rparr>) t2 = Some c2"
      "t1 \<noteq> t2" "call_addr c1 = call_addr c2"
    moreover have "call_addr c = a" by (simp add: c_def)
    ultimately show "read_only (call_method c1)" "read_only (call_method c2)"
      using readers calls_okD(2) [OF calls] by (auto split: if_splits)
  qed
qed

lemma calls_ok_access:
  assumes calls: "calls_ok s" and step: "access_step t s = (r, s')"
  shows "calls_ok s'"
proof (cases "\<exists>c g. in_call s t = Some c \<and> call_rest c = Access g")
  case False
  then have "s' = s" using step by (auto simp: access_step_def split: option.splits body.splits)
  with calls show ?thesis by simp
next
  case True
  then obtain c g where c: "in_call s t = Some c" "call_rest c = Access g" by blast
  obtain cl e where cl: "handle_map s (call_handle c) = Some (call_addr c)" "objects s (call_addr c) = Some cl" "call_entry c = Some e"
      "run (Access g) cl = run (call_method c) e" "read_only (call_method c) \<longrightarrow> cl = e \<and> read_only (Access g)"
    using calls_okD(1) [OF calls c(1)] c(2) by (auto simp: call_ok_def)
  define c1 where "c1 = c\<lparr>call_rest := snd (g cl)\<rparr>"
  have s': "s' = s\<lparr>objects := (objects s)(call_addr c \<mapsto> fst (g cl)), in_call := (in_call s)(t \<mapsto> c1)\<rparr>"
    using step c cl(2) by (simp add: access_step_def c1_def)
  have this_ok: "call_ok s' c1" using cl by (auto simp: s' call_ok_def c1_def)
  have other_ok: "call_ok s' c'" if "in_call s t' = Some c'" "t' \<noteq> t" for t' c'
  proof (cases "call_addr c' = call_addr c")
    case True
    then have "read_only (call_method c)" using calls_okD(2) [OF calls that(1) c(1)] that(2) by blast
    then have "fst (g cl) = cl" using cl(5) by simp
    then show ?thesis using calls_okD(1) [OF calls that(1)] True cl(2) by (simp add: s' call_ok_def)
  next
    case False
    then show ?thesis using call_ok_kept [OF calls_okD(1) [OF calls that(1)], of s'] by (simp add: s')
  qed
  show ?thesis
    unfolding calls_ok_def
  proof (intro conjI allI impI)
    fix t1 c2 assume "in_call s' t1 = Some c2"
    then show "call_ok s' c2" using this_ok other_ok by (auto simp: s' split: if_splits)
  next
    fix t1 x t2 y assume "in_call s' t1 = Some x" "in_call s' t2 = Some y" "t1 \<noteq> t2" "call_addr x = call_addr y"
    moreover have "call_addr c1 = call_addr c" "call_method c1 = call_method c" by (simp_all add: c1_def)
    ultimately show "read_only (call_method x)" "read_only (call_method y)"
      using calls_okD(2) [OF calls] c(1) by (auto simp: s' split: if_splits)
  qed
qed

lemma calls_ok_step:
  assumes "thread_step True ssl env s s'" "shared_ok s" "calls_ok s"
  shows "calls_ok s'"
  using assms(1)
proof (cases rule: thread_step.cases)
  case (create a url path nameFilter r s1)
  have "calls_ok s1"
  proof (rule calls_ok_kept [OF assms(3)])
    show "in_call s1 t = Some c \<Longrightarrow> in_call s t = Some c" for t c
      using create(3) by (auto simp: shared_create_def split: sum.splits if_splits)
    fix t c assume "in_call s1 t = Some c"
    then have "call_ok s c" using calls_okD(1) [OF assms(3)] create(3) by (auto simp: shared_create_def split: sum.splits if_splits)
    then have "handle_map s (call_handle c) \<noteq> None" "call_addr c \<noteq> a" using create(2) by (auto simp: call_ok_def)
    then show "handle_map s1 (call_handle c) = handle_map s (call_handle c) \<and> objects s1 (call_addr c) = objects s (call_addr c)"
      using create(3) next_handle_unused [OF assms(2)] by (auto simp: shared_create_def split: sum.splits if_splits)
  qed
  then show ?thesis using calls_ok_kept [of s1 s'] by (simp add: create(1))
next
  case (begin_call t h f v)
  then show ?thesis using calls_ok_begin [OF assms(2,3)] by simp
next
  case (access t r)
  then show ?thesis using calls_ok_access [OF assms(3)] by simp
next
  case (end_call t)
  show ?thesis
    by (rule calls_ok_kept [OF assms(3)]) (auto simp: end_call end_call_def split: option.splits body.splits if_splits)
next
  case (destroy h r s1)
  have kept: "in_call s1 = in_call s" "\<And>x. x \<noteq> h \<Longrightarrow> handle_map s1 x = handle_map s x"
    "\<And>x. handle_map s h \<noteq> Some x \<Longrightarrow> objects s1 x = objects s x"
    using destroy(3) by (auto simp: shared_destroy_def split: option.splits)
  have "calls_ok s1"
  proof (rule calls_ok_kept [OF assms(3)])
    fix t c assume "in_call s1 t = Some c"
    then have c: "call_ok s c" "call_handle c \<noteq> h" using calls_okD(1) [OF assms(3)] destroy(2) kept(1) by auto
    then have "handle_map s h \<noteq> Some (call_addr c)" using same_object [OF assms(2) c(1)] by blast
    then show "handle_map s1 (call_handle c) = handle_map s (call_handle c) \<and> objects s1 (call_addr c) = objects s (call_addr c)"
      using kept c(2) by simp
  qed (simp add: kept)
  then show ?thesis using calls_ok_kept [of s1 s'] by (simp add: destroy(1))
next
  case destroyAll
  then show ?thesis by (simp add: shared_destroyAll_def calls_ok_def)
qed

lemma quiet_calls_ok: "(thread_step True ssl env)\<^sup>*\<^sup>* threads_start s \<Longrightarrow> calls_ok s"
proof (induction rule: rtranclp_induct)
  case base
  show ?case by (simp add: calls_ok_def threads_start_def)
next
  case (step s s')
  then show ?case using calls_ok_step threads_ok by blast
qed


section \<open>The atomic registry\<close>

text \<open>The runs of the registry in which every call is one step, with what they have to show for it.\<close>

inductive atomic_run :: "('c, 'p, 'k) openssl \<Rightarrow> ('c, 'p, 'k) environment \<Rightarrow> ('c, 'k) registry \<Rightarrow> ('c, 'k, 'a) event list \<Rightarrow> bool"
  for ssl env where
  start: "atomic_run ssl env registry_start []"
| create: "atomic_run ssl env reg es \<Longrightarrow> ext_create ssl env url path nameFilter reg = (r, reg') \<Longrightarrow> r \<noteq> Inl Undefined \<Longrightarrow>
    atomic_run ssl env reg' (es @ [Created url path nameFilter r])"
| destroy: "atomic_run ssl env reg es \<Longrightarrow> ext_destroy h reg = (r, reg') \<Longrightarrow> atomic_run ssl env reg' (es @ [Destroyed h r])"
| destroyAll: "atomic_run ssl env reg es \<Longrightarrow> ext_destroyAll reg = (r, reg') \<Longrightarrow> atomic_run ssl env reg' (es @ [DestroyedAll])"
| call: "atomic_run ssl env reg es \<Longrightarrow> with_client h v (run f) reg = (r, reg') \<Longrightarrow> atomic_run ssl env reg' (es @ [Called h v f r])"

text \<open>
  The registry that the shared state stands for: a client on which no call is running is its object, the others are as they were
  when their calls began.
\<close>

definition represents :: "('c, 'k, 'a) shared \<Rightarrow> ('c, 'k) registry \<Rightarrow> bool" where
  "represents s reg \<longleftrightarrow> m_nextHandle reg = next_handle s \<and> (\<forall>h. handle_map s h = None \<longrightarrow> m_clients reg h = None) \<and>
     (\<forall>t c. in_call s t = Some c \<longrightarrow> m_clients reg (call_handle c) = call_entry c) \<and>
     (\<forall>h a. handle_map s h = Some a \<longrightarrow> (\<forall>t c. in_call s t = Some c \<longrightarrow> call_handle c \<noteq> h) \<longrightarrow> m_clients reg h = objects s a)"

lemma representsD:
  assumes "represents s reg"
  shows "m_nextHandle reg = next_handle s" "handle_map s h = None \<Longrightarrow> m_clients reg h = None"
    "in_call s t = Some c \<Longrightarrow> m_clients reg (call_handle c) = call_entry c"
    "handle_map s h = Some a \<Longrightarrow> (\<And>t c. in_call s t = Some c \<Longrightarrow> call_handle c \<noteq> h) \<Longrightarrow> m_clients reg h = objects s a"
  using assms unfolding represents_def by blast+

lemma represents_log [simp]: "represents (log_event e s) reg = represents s reg"
  by (simp add: represents_def)

lemma represents_live: "represents s reg \<Longrightarrow> shared_ok s \<Longrightarrow> calls_ok s \<Longrightarrow> handle_map s h = Some a \<Longrightarrow> m_clients reg h \<noteq> None"
proof (cases "\<exists>t c. in_call s t = Some c \<and> call_handle c = h")
  case True
  assume r: "represents s reg" "calls_ok s"
  obtain t c where "in_call s t = Some c" "call_handle c = h" using True by blast
  then show ?thesis using representsD(3) [OF r(1)] calls_okD(1) [OF r(2)] by (fastforce simp: call_ok_def)
next
  case False
  assume "represents s reg" "shared_ok s" "handle_map s h = Some a"
  then show ?thesis using False representsD(4) [of s reg h a] shared_okD(1) [of s h a] by auto
qed

lemma simulate_create:
  assumes rep: "represents s reg" and ok: "shared_ok s" and calls: "calls_ok s" and "objects s a = None"
    and step: "shared_create ssl env url path nameFilter a s = (r, s')" and "r \<noteq> Inl Undefined"
  shows "\<exists>reg'. ext_create ssl env url path nameFilter reg = (catch_std (- 1) r, reg') \<and> represents s' reg'"
proof (cases "makeClient ssl env url path nameFilter")
  case (Inl e)
  then show ?thesis using step rep by (auto simp: shared_create_def ext_create_def createClient_def catch_std_def)
next
  case (Inr cl)
  let ?reg = "reg\<lparr>m_clients := (m_clients reg)(next_handle s \<mapsto> cl), m_nextHandle := next_handle s + 1\<rparr>"
  have n: "m_nextHandle reg = next_handle s" by (rule representsD(1) [OF rep])
  have r: "next_handle s \<noteq> INT_MAX" "r = Inr (next_handle s)" and s': "s' = s\<lparr>handle_map := (handle_map s)(next_handle s \<mapsto> a),
      next_handle := next_handle s + 1, objects := (objects s)(a \<mapsto> cl)\<rparr>"
    using step assms(6) by (auto simp: shared_create_def Inr split: if_splits)
  have "call_handle c \<noteq> next_handle s" if "in_call s t = Some c" for t c
    using calls_okD(1) [OF calls that] next_handle_unused [OF ok] by (auto simp: call_ok_def)
  moreover have "handle_map s h \<noteq> Some a" for h using shared_okD(1) [OF ok] assms(4) by blast
  ultimately have "represents s' ?reg"
    using rep unfolding represents_def s' by auto
  moreover have "ext_create ssl env url path nameFilter reg = (Inr (next_handle s), ?reg)"
    using r(1) by (simp add: ext_create_def createClient_def Inr n catch_std_def)
  ultimately show ?thesis by (simp add: r(2) catch_std_def)
qed

lemma simulate_destroy:
  assumes rep: "represents s reg" and ok: "shared_ok s" and calls: "calls_ok s"
    and quiet: "\<forall>t c. in_call s t = Some c \<longrightarrow> call_handle c \<noteq> h" and step: "shared_destroy h s = (r, s')"
  shows "\<exists>reg'. ext_destroy h reg = (r, reg') \<and> represents s' reg'"
proof (cases "handle_map s h")
  case None
  then show ?thesis using step rep representsD(2) [OF rep None] by (auto simp: shared_destroy_def ext_destroy_def destroyClient_def)
next
  case (Some a)
  let ?reg = "reg\<lparr>m_clients := (m_clients reg)(h := None)\<rparr>"
  have s': "r = Inr 0" "s' = s\<lparr>handle_map := (handle_map s)(h := None), objects := (objects s)(a := None)\<rparr>"
    using step by (auto simp: shared_destroy_def Some)
  have other: "b \<noteq> a" if "x \<noteq> h" "handle_map s x = Some b" for x b
    using shared_okD(4) [OF ok Some, of x] that by auto
  have "represents s' ?reg"
    using rep quiet other unfolding represents_def s'(2) by auto
  moreover have "ext_destroy h reg = (Inr 0, ?reg)"
    using represents_live [OF rep ok calls Some] by (simp add: ext_destroy_def destroyClient_def)
  ultimately show ?thesis by (simp add: s'(1))
qed

lemma simulate_begin:
  assumes rep: "represents s reg" and ok: "shared_ok s" and calls: "calls_ok s" and "in_call s t = None" and may: "may_begin h f s"
    and h: "handle_map s h = Some a"
  shows "represents (begin_call t h v f s) reg"
proof -
  have "m_clients reg h = objects s a"
  proof (cases "\<exists>t c. in_call s t = Some c \<and> call_handle c = h")
    case True
    then obtain t c where c: "in_call s t = Some c" "call_handle c = h" by blast
    then have "read_only (call_method c)" using may by (auto simp: may_begin_def)
    then have "call_entry c = objects s (call_addr c)" "call_addr c = a"
      using calls_okD(1) [OF calls c(1)] h c(2) by (auto simp: call_ok_def)
    then show ?thesis using representsD(3) [OF rep c(1)] c(2) by simp
  next
    case False
    then show ?thesis using representsD(4) [OF rep h] by blast
  qed
  moreover have "m_clients reg x = objects s b"
    if x: "handle_map s x = Some b" and free: "\<forall>t' c'. in_call (begin_call t h v f s) t' = Some c' \<longrightarrow> call_handle c' \<noteq> x" for x b
  proof (rule representsD(4) [OF rep x])
    fix t1 c1 assume "in_call s t1 = Some c1"
    then show "call_handle c1 \<noteq> x" using free [rule_format, of t1 c1] assms(4) h
      by (cases "t1 = t") (auto simp: begin_call_def getClient_def)
  qed
  ultimately show ?thesis using rep h unfolding represents_def by (auto simp: begin_call_def getClient_def)
qed

lemma simulate_access:
  assumes rep: "represents s reg" and ok: "shared_ok s" and calls: "calls_ok s" and step: "access_step t s = (r, s')"
  shows "represents s' reg"
proof (cases "\<exists>c g. in_call s t = Some c \<and> call_rest c = Access g")
  case False
  then have "s' = s" using step by (auto simp: access_step_def split: option.splits body.splits)
  with rep show ?thesis by simp
next
  case True
  then obtain c g where c: "in_call s t = Some c" "call_rest c = Access g" by blast
  obtain cl where cl: "handle_map s (call_handle c) = Some (call_addr c)" "objects s (call_addr c) = Some cl"
    using calls_okD(1) [OF calls c(1)] by (auto simp: call_ok_def)
  have s': "s' = s\<lparr>objects := (objects s)(call_addr c \<mapsto> fst (g cl)), in_call := (in_call s)(t \<mapsto> c\<lparr>call_rest := snd (g cl)\<rparr>)\<rparr>"
    using step c cl(2) by (simp add: access_step_def)
  have other: "b \<noteq> call_addr c" if "x \<noteq> call_handle c" "handle_map s x = Some b" for x b
    using same_object [OF ok calls_okD(1) [OF calls c(1)], of x] that by auto
  have "m_clients reg h = objects s' b"
    if h: "handle_map s h = Some b" and free: "\<forall>t' c'. in_call s' t' = Some c' \<longrightarrow> call_handle c' \<noteq> h" for h b
  proof -
    have "h \<noteq> call_handle c" using free [rule_format, of t] by (auto simp: s')
    moreover have "m_clients reg h = objects s b"
    proof (rule representsD(4) [OF rep h])
      fix t1 c1 assume "in_call s t1 = Some c1"
      then show "call_handle c1 \<noteq> h" using free [rule_format, of t1 c1] \<open>h \<noteq> call_handle c\<close> c(1) by (cases "t1 = t") (auto simp: s')
    qed
    ultimately show ?thesis using other h by (simp add: s')
  qed
  then show ?thesis using rep c(1) unfolding represents_def by (auto simp: s')
qed

lemma simulate_end:
  assumes rep: "represents s reg" and ok: "shared_ok s" and calls: "calls_ok s"
    and c: "in_call s t = Some c" "call_rest c = Done x"
  shows "\<exists>reg'. with_client (call_handle c) (call_error c) (run (call_method c)) reg = (catch_std (call_error c) x, reg') \<and>
    represents (s\<lparr>in_call := (in_call s)(t := None)\<rparr>) reg'"
proof -
  obtain cl e where cl: "handle_map s (call_handle c) = Some (call_addr c)" "objects s (call_addr c) = Some cl" "call_entry c = Some e"
      "run (call_method c) e = (x, cl)" "read_only (call_method c) \<longrightarrow> cl = e"
    using calls_okD(1) [OF calls c(1)] c(2) by (auto simp: call_ok_def)
  let ?reg = "reg\<lparr>m_clients := (m_clients reg)(call_handle c \<mapsto> cl)\<rparr>"
  have "m_clients reg (call_handle c) = Some e" using representsD(3) [OF rep c(1)] cl(3) by simp
  then have "with_client (call_handle c) (call_error c) (run (call_method c)) reg = (catch_std (call_error c) x, ?reg)"
    by (simp add: with_client_def cl(4))
  moreover have "represents (s\<lparr>in_call := (in_call s)(t := None)\<rparr>) ?reg"
    unfolding represents_def
  proof (intro conjI allI impI)
    show "m_nextHandle ?reg = next_handle (s\<lparr>in_call := (in_call s)(t := None)\<rparr>)" using representsD(1) [OF rep] by simp
    fix h assume "handle_map (s\<lparr>in_call := (in_call s)(t := None)\<rparr>) h = None"
    then show "m_clients ?reg h = None" using representsD(2) [OF rep, of h] cl(1) by auto
  next
    fix t' c' assume "in_call (s\<lparr>in_call := (in_call s)(t := None)\<rparr>) t' = Some c'"
    then have c': "t' \<noteq> t" "in_call s t' = Some c'" by (auto split: if_splits)
    show "m_clients ?reg (call_handle c') = call_entry c'"
    proof (cases "call_handle c' = call_handle c")
      case True
      then have "call_addr c = call_addr c'" using calls_okD(1) [OF calls c'(2)] cl(1) by (auto simp: call_ok_def)
      then have "read_only (call_method c)" using calls_okD(2) [OF calls c(1) c'(2)] c'(1) by auto
      then show ?thesis using representsD(3) [OF rep c'(2)] representsD(3) [OF rep c(1)] cl(3,5) True by simp
    next
      case False
      then show ?thesis using representsD(3) [OF rep c'(2)] by simp
    qed
  next
    fix h a assume h: "handle_map (s\<lparr>in_call := (in_call s)(t := None)\<rparr>) h = Some a"
      and free: "\<forall>t' c'. in_call (s\<lparr>in_call := (in_call s)(t := None)\<rparr>) t' = Some c' \<longrightarrow> call_handle c' \<noteq> h"
    show "m_clients ?reg h = objects (s\<lparr>in_call := (in_call s)(t := None)\<rparr>) a"
    proof (cases "h = call_handle c")
      case True
      then show ?thesis using h cl(1,2) by simp
    next
      case False
      have "m_clients reg h = objects s a"
      proof (rule representsD(4) [OF rep])
        fix t1 c1 assume "in_call s t1 = Some c1"
        then show "call_handle c1 \<noteq> h" using free [rule_format, of t1 c1] False c(1) by (cases "t1 = t") auto
      qed (use h in simp)
      then show ?thesis using False by simp
    qed
  qed
  ultimately show ?thesis by blast
qed

lemma quiet_step_simulated:
  assumes step: "thread_step True ssl env s s'" and ok: "shared_ok s" and calls: "calls_ok s"
    and rep: "represents s reg" and atomic: "atomic_run ssl env reg (events s)"
  shows "\<exists>reg'. represents s' reg' \<and> atomic_run ssl env reg' (events s')"
  using step
proof (cases rule: thread_step.cases)
  case (create a url path nameFilter r s1)
  then obtain reg' where reg': "ext_create ssl env url path nameFilter reg = (catch_std (- 1) r, reg')" "represents s1 reg'"
    using simulate_create [OF rep ok calls] by blast
  have "events s1 = events s" using create(3) by (auto simp: shared_create_def split: sum.splits if_splits)
  moreover have "catch_std (- 1) r \<noteq> Inl Undefined" using create(4) by (simp add: catch_std_def)
  ultimately show ?thesis using reg' atomic_run.create [OF atomic reg'(1)] create(1) by auto
next
  case (begin_call t h f v)
  show ?thesis
  proof (cases "handle_map s h")
    case None
    then have "with_client h v (run f) reg = (catch_std v (Inl Thrown), reg)"
      using representsD(2) [OF rep] by (simp add: with_client_def)
    from atomic_run.call [OF atomic this] show ?thesis
      using None rep by (auto simp: begin_call begin_call_def getClient_def)
  next
    case (Some a)
    then show ?thesis using simulate_begin [OF rep ok calls begin_call(2) _ Some, of f v] begin_call(1,3) atomic
      by (auto simp: begin_call_def getClient_def)
  qed
next
  case (access t r)
  then show ?thesis using simulate_access [OF rep ok calls access] call_steps_keep(3) [OF access] atomic by auto
next
  case (end_call t)
  show ?thesis
  proof (cases "\<exists>c x. in_call s t = Some c \<and> call_rest c = Done x")
    case True
    then obtain c x where c: "in_call s t = Some c" "call_rest c = Done x" by blast
    obtain reg' where reg': "with_client (call_handle c) (call_error c) (run (call_method c)) reg = (catch_std (call_error c) x, reg')"
        "represents (s\<lparr>in_call := (in_call s)(t := None)\<rparr>) reg'"
      using simulate_end [OF rep ok calls c] by blast
    from atomic_run.call [OF atomic reg'(1)] show ?thesis
      using reg'(2) c by (auto simp: end_call end_call_def)
  next
    case False
    then have "s' = s" by (auto simp: end_call end_call_def split: option.splits body.splits)
    with rep atomic show ?thesis by blast
  qed
next
  case (destroy h r s1)
  then obtain reg' where reg': "ext_destroy h reg = (r, reg')" "represents s1 reg'"
    using simulate_destroy [OF rep ok calls] by blast
  have "events s1 = events s" using destroy(3) by (auto simp: shared_destroy_def split: option.splits)
  with reg' atomic_run.destroy [OF atomic reg'(1)] destroy(1) show ?thesis by auto
next
  case destroyAll
  have "ext_destroyAll reg = (Inr 0, destroyAllClients reg)" by (simp add: ext_destroyAll_def)
  from atomic_run.destroyAll [OF atomic this] destroyAll
  show ?thesis using representsD(1) [OF rep]
    by (intro exI [of _ "destroyAllClients reg"]) (simp add: represents_def destroyAllClients_def shared_destroyAll_def)
qed

section \<open>Properties\<close>

text \<open>
  C9. However the steps of threads interleave, the accesses of a method with those of other methods included: as long as no
  client is destroyed during a call on it, and two calls on one client overlap only if both just read it, there is a run of the
  registry with atomic calls in which everything that happened happened in the same order, every call with the result
  that it returned and at the moment of its return, and which leaves the clients that the shared state holds.
\<close>

theorem calls_linearize:
  assumes "(thread_step True ssl env)\<^sup>*\<^sup>* threads_start s"
  shows "\<exists>reg. atomic_run ssl env reg (events s) \<and> represents s reg"
  using assms
proof (induction rule: rtranclp_induct)
  case base
  have "represents threads_start registry_start" by (simp add: represents_def threads_start_def registry_start_def)
  moreover have "atomic_run ssl env registry_start (events threads_start)" by (simp add: threads_start_def atomic_run.start)
  ultimately show ?case by blast
next
  case (step s s')
  then show ?case using quiet_step_simulated [OF step(2) threads_ok [OF step(1)] quiet_calls_ok [OF step(1)]] by blast
qed

lemma unquiet_handles:
  assumes "(thread_step quiet ssl env)\<^sup>*\<^sup>* s s'" "shared_ok s" "h < next_handle s" "handle_map s h = None"
  shows "handle_map s' h = None \<and> h < next_handle s'"
  using assms
proof (induction rule: rtranclp_induct)
  case (step s1 s2)
  then have "handle_map s1 h = None" "h < next_handle s1" by simp_all
  with step(2) show ?case
    by (cases rule: thread_step.cases)
      (auto simp: shared_create_def shared_destroy_def shared_destroyAll_def call_steps_keep
        dest: call_steps_keep(3) split: sum.splits option.splits if_splits)
qed simp

text \<open>
  C29. When another thread destroys the client during a call on it, which the mutex does not prevent, the next access of the method
  is to a freed object, whatever happens in between; or, when a client created since then got the memory, to the client of
  another handle, which it changes.
\<close>

theorem destroyed_during_call:
  assumes "(thread_step False ssl env)\<^sup>*\<^sup>* threads_start s" and "shared_destroy h s = (Inr 0, s1)"
    and "(thread_step False ssl env)\<^sup>*\<^sup>* (log_event (Destroyed h (Inr 0)) s1) s2"
    and "in_call s2 t = Some c" and "call_handle c = h" and "call_rest c = Access g"
  shows "fst (access_step t s2) = Inl OutOfBounds \<or>
    (\<exists>h' cl. h' \<noteq> h \<and> handle_map s2 h' = Some (call_addr c) \<and> objects s2 (call_addr c) = Some cl \<and>
       objects (snd (access_step t s2)) (call_addr c) = Some (fst (g cl)))"
proof -
  have ok: "shared_ok s" using threads_ok [OF assms(1)] .
  have step: "thread_step False ssl env s (log_event (Destroyed h (Inr 0)) s1)"
    by (rule thread_step.destroy) (simp_all add: assms(2))
  have "shared_ok (log_event (Destroyed h (Inr 0)) s1)" using thread_step_ok [OF step ok] .
  moreover have "h < next_handle s1" "handle_map s1 h = None"
    using assms(2) shared_okD(2) [OF ok] by (auto simp: shared_destroy_def split: option.splits)
  ultimately have dead: "handle_map s2 h = None" using unquiet_handles [OF assms(3)] by simp
  have "shared_ok s2" using threads_ok rtranclp_trans [OF rtranclp.rtrancl_into_rtrancl [OF assms(1) step] assms(3)] by blast
  show ?thesis
  proof (cases "objects s2 (call_addr c)")
    case None
    then show ?thesis using assms(4,6) by (simp add: access_step_def)
  next
    case (Some cl)
    then obtain h' where "handle_map s2 h' = Some (call_addr c)" using shared_okD(3) [OF \<open>shared_ok s2\<close>, of "call_addr c"] by auto
    moreover from this have "h' \<noteq> h" using dead by auto
    ultimately show ?thesis using Some assms(4,6) by (auto simp: access_step_def)
  qed
qed


text \<open>
  Two calls of \<^verbatim>\<open>setConfirmationCode\<close> on one client: the first has computed its hash when the second runs as a whole, then the
  first writes its hash.
\<close>

definition mixed_run :: "('c, 'p, 'k) openssl \<Rightarrow> int \<Rightarrow> nat \<Rightarrow> string \<Rightarrow> nat \<Rightarrow> string \<Rightarrow> ('c, 'k, int) shared \<Rightarrow> ('c, 'k, int) shared" where
  "mixed_run ssl h t code t' code' s =
     (let s = begin_call t h (- 1) (setConfirmationCode_accesses ssl code) s;
          s = snd (access_step t s);
          s = snd (access_step t s);
          s = begin_call t' h (- 1) (setConfirmationCode_accesses ssl code') s;
          s = snd (access_step t' s);
          s = snd (access_step t' s);
          s = snd (access_step t' s);
          s = end_call t' s;
          s = snd (access_step t s)
      in end_call t s)"

text \<open>A state in which two threads run on one object.\<close>

definition two_calls :: "('c, 'k, 'a) shared \<Rightarrow> nat \<Rightarrow> nat \<Rightarrow> nat \<Rightarrow> ('c, 'k) rsp_client \<Rightarrow> ('c, 'k, 'a) call option \<Rightarrow>
    ('c, 'k, 'a) call option \<Rightarrow> ('c, 'k, 'a) event list \<Rightarrow> ('c, 'k, 'a) shared" where
  "two_calls s a t t' cl c c' es =
     s\<lparr>objects := (objects s)(a \<mapsto> cl), in_call := (in_call s)(t := c, t' := c'), events := events s @ es\<rparr>"

lemma two_calls_access:
  assumes "t' \<noteq> t"
  shows "call_addr c = a \<Longrightarrow> call_rest c = Access g \<Longrightarrow>
      snd (access_step t (two_calls s a t t' cl (Some c) c' es)) =
        two_calls s a t t' (fst (g cl)) (Some (c\<lparr>call_rest := snd (g cl)\<rparr>)) c' es"
    "call_addr d = a \<Longrightarrow> call_rest d = Access g \<Longrightarrow>
      snd (access_step t' (two_calls s a t t' cl e (Some d) es)) =
        two_calls s a t t' (fst (g cl)) e (Some (d\<lparr>call_rest := snd (g cl)\<rparr>)) es"
  using assms by (auto simp: two_calls_def access_step_def fun_upd_twist)

lemma two_calls_end:
  assumes "t' \<noteq> t"
  shows "call_rest c = Done r \<Longrightarrow> end_call t (two_calls s a t t' cl (Some c) c' es) =
      two_calls s a t t' cl None c' (es @ [Called (call_handle c) (call_error c) (call_method c) (catch_std (call_error c) r)])"
    "call_rest d = Done r \<Longrightarrow> end_call t' (two_calls s a t t' cl e (Some d) es) =
      two_calls s a t t' cl e None (es @ [Called (call_handle d) (call_error d) (call_method d) (catch_std (call_error d) r)])"
  using assms by (auto simp: two_calls_def end_call_def log_event_def fun_upd_twist)

lemma two_calls_begin:
  assumes "t' \<noteq> t" "handle_map s h = Some a"
  shows "begin_call t h v f (two_calls s a t t' cl None c' es) =
      two_calls s a t t' cl (Some \<lparr>call_handle = h, call_addr = a, call_error = v, call_rest = f, call_method = f, call_entry = Some cl\<rparr>) c' es"
    "begin_call t' h v f (two_calls s a t t' cl e None es) =
      two_calls s a t t' cl e (Some \<lparr>call_handle = h, call_addr = a, call_error = v, call_rest = f, call_method = f, call_entry = Some cl\<rparr>) es"
  using assms by (auto simp: two_calls_def begin_call_def getClient_def fun_upd_twist)

lemma two_calls_none:
  "objects s a = Some cl \<Longrightarrow> in_call s t = None \<Longrightarrow> in_call s t' = None \<Longrightarrow> two_calls s a t t' cl None None [] = s"
  by (simp add: two_calls_def fun_upd_idem)

lemma mixed_run_effect:
  assumes "in_call s t = None" "in_call s t' = None" "t' \<noteq> t" "handle_map s h = Some a" "objects s a = Some cl" "m_transactionId cl \<noteq> []"
    and "computeConfirmationCodeHash ssl code (m_transactionId cl) = Inr x"
    and "computeConfirmationCodeHash ssl code' (m_transactionId cl) = Inr y"
  shows "mixed_run ssl h t code t' code' s =
    two_calls s a t t' (cl\<lparr>m_confirmationCode := code', m_confirmationCodeHash := x\<rparr>) None None
      [Called h (- 1) (setConfirmationCode_accesses ssl code') (Inr 0), Called h (- 1) (setConfirmationCode_accesses ssl code) (Inr 0)]"
proof -
  let ?f = "setConfirmationCode_accesses ssl code" and ?f' = "setConfirmationCode_accesses ssl code'"
  have "mixed_run ssl h t code t' code' (two_calls s a t t' cl None None []) =
    two_calls s a t t' (cl\<lparr>m_confirmationCode := code', m_confirmationCodeHash := x\<rparr>) None None
      [Called h (- 1) ?f' (Inr 0), Called h (- 1) ?f (Inr 0)]"
    using assms(3-) unfolding mixed_run_def Let_def
    by (simp add: two_calls_begin)
      (simp add: two_calls_access two_calls_end two_calls_begin catch_std_def setConfirmationCode_accesses_def)
  then show ?thesis using assms(1,2,5) by (simp add: two_calls_none)
qed

lemma calls_reach:
  assumes "(thread_step False ssl env)\<^sup>*\<^sup>* s0 s"
  shows "(thread_step False ssl env)\<^sup>*\<^sup>* s0 (snd (access_step t s))" "(thread_step False ssl env)\<^sup>*\<^sup>* s0 (end_call t s)"
    "in_call s t = None \<Longrightarrow> (thread_step False ssl env)\<^sup>*\<^sup>* s0 (begin_call t h v f s)"
proof -
  have "thread_step False ssl env s (snd (access_step t s))" by (rule thread_step.access [of t s "fst (access_step t s)"]) simp
  then show "(thread_step False ssl env)\<^sup>*\<^sup>* s0 (snd (access_step t s))" using assms by simp
  show "(thread_step False ssl env)\<^sup>*\<^sup>* s0 (end_call t s)" using assms thread_step.end_call by (rule rtranclp.rtrancl_into_rtrancl)
  assume "in_call s t = None"
  then have "thread_step False ssl env s (begin_call t h v f s)" by (rule thread_step.begin_call) simp
  then show "(thread_step False ssl env)\<^sup>*\<^sup>* s0 (begin_call t h v f s)" using assms by simp
qed

lemma in_call_other: "t' \<noteq> t \<Longrightarrow> in_call (snd (access_step t s)) t' = in_call s t'"
  "t' \<noteq> t \<Longrightarrow> in_call (begin_call t h v f s) t' = in_call s t'"
  by (auto simp: access_step_def begin_call_def split: option.split body.split)

lemma mixed_run_reach:
  assumes "(thread_step False ssl' env)\<^sup>*\<^sup>* s0 s" "in_call s t = None" "in_call s t' = None" "t' \<noteq> t"
  shows "(thread_step False ssl' env)\<^sup>*\<^sup>* s0 (mixed_run ssl h t code t' code' s)"
  using assms(2-) unfolding mixed_run_def Let_def
  by (intro calls_reach assms(1)) (simp_all add: in_call_other)

lemma run_setConfirmationCode_effect:
  assumes "m_transactionId cl \<noteq> []" "computeConfirmationCodeHash ssl code (m_transactionId cl) = Inr x"
  shows "snd (run (setConfirmationCode_accesses ssl code) cl) = cl\<lparr>m_confirmationCode := code, m_confirmationCodeHash := x\<rparr>"
  using assms by (simp add: run_setConfirmationCode setConfirmationCode_def then_0_def Let_def)

text \<open>
  C30. The mutex does not keep two calls apart: two threads that set confirmation codes on one client can both be told that all
  is well and leave the code of one with the hash of the other, a client that neither order of the two calls leaves.
\<close>

theorem overlapping_calls_mix:
  assumes "(thread_step False ssl env)\<^sup>*\<^sup>* threads_start s" and "in_call s t = None" "in_call s t' = None" "t' \<noteq> t"
    and "handle_map s h = Some a" "objects s a = Some cl" "m_transactionId cl \<noteq> []"
    and "computeConfirmationCodeHash ssl code (m_transactionId cl) = Inr x"
    and "computeConfirmationCodeHash ssl code' (m_transactionId cl) = Inr y" and "x \<noteq> y"
  shows "\<exists>s' mixed. (thread_step False ssl env)\<^sup>*\<^sup>* threads_start s' \<and>
    events s' = events s @ [Called h (- 1) (setConfirmationCode_accesses ssl code') (Inr 0),
      Called h (- 1) (setConfirmationCode_accesses ssl code) (Inr 0)] \<and>
    objects s' a = Some mixed \<and> m_confirmationCode mixed = code' \<and> m_confirmationCodeHash mixed = x \<and>
    mixed \<noteq> snd (then_0 (setConfirmationCode ssl code') (snd (then_0 (setConfirmationCode ssl code) cl))) \<and>
    mixed \<noteq> snd (then_0 (setConfirmationCode ssl code) (snd (then_0 (setConfirmationCode ssl code') cl)))"
proof -
  let ?mixed = "cl\<lparr>m_confirmationCode := code', m_confirmationCodeHash := x\<rparr>"
  have reach: "(thread_step False ssl env)\<^sup>*\<^sup>* threads_start (mixed_run ssl h t code t' code' s)"
    by (rule mixed_run_reach [OF assms(1-4)])
  have codes: "code' \<noteq> code" using assms(8-10) by auto
  have "m_confirmationCodeHash (snd (run (setConfirmationCode_accesses ssl code') (snd (run (setConfirmationCode_accesses ssl code) cl)))) = y"
    "m_confirmationCode (snd (run (setConfirmationCode_accesses ssl code) (snd (run (setConfirmationCode_accesses ssl code') cl)))) = code"
    using assms(7-9) by (simp_all add: run_setConfirmationCode_effect)
  then have "?mixed \<noteq> snd (run (setConfirmationCode_accesses ssl code') (snd (run (setConfirmationCode_accesses ssl code) cl)))"
    "?mixed \<noteq> snd (run (setConfirmationCode_accesses ssl code) (snd (run (setConfirmationCode_accesses ssl code') cl)))"
    using assms(10) codes by (metis rsp_client.select_convs rsp_client.surjective rsp_client.update_convs)+
  then show ?thesis
    using reach unfolding mixed_run_effect [OF assms(2-9)] run_setConfirmationCode
    by (intro exI [of _ "two_calls s a t t' ?mixed None None _"] exI [of _ ?mixed] conjI) (assumption | simp add: two_calls_def)+
qed


section \<open>Examples\<close>

text \<open>A thread creates a client and sets its transaction; \<open>example_shared\<close> is the state in the middle of the call.\<close>

definition example_created :: "(string list option \<times> octets option \<times> octets, octets, int) shared" where
  "example_created = \<lparr>handle_map = [1 \<mapsto> 0], next_handle = 2, objects = [0 \<mapsto> example_client], in_call = (\<lambda>t. None),
     events = [Created ''smdp'' ''certs'' ''NIST'' (Inr 1)]\<rparr>"

definition example_method :: "((string list option \<times> octets option \<times> octets, octets) rsp_client, int result) body" where
  "example_method = Access (\<lambda>cl. (cl\<lparr>m_transactionId := [1]\<rparr>, Done (Inr 0)))"

definition example_call :: "(string list option \<times> octets option \<times> octets, octets, int) call" where
  "example_call = \<lparr>call_handle = 1, call_addr = 0, call_error = - 1, call_rest = example_method, call_method = example_method,
     call_entry = Some example_client\<rparr>"

definition example_shared :: "(string list option \<times> octets option \<times> octets, octets, int) shared" where
  "example_shared = example_created\<lparr>in_call := [7 \<mapsto> example_call]\<rparr>"

definition example_returned :: "(string list option \<times> octets option \<times> octets, octets, int) shared" where
  "example_returned = example_created\<lparr>objects := [0 \<mapsto> example_client\<lparr>m_transactionId := [1]\<rparr>],
     events := [Created ''smdp'' ''certs'' ''NIST'' (Inr 1), Called 1 (- 1) example_method (Inr 0)]\<rparr>"

lemma example_shared_reachable: "(thread_step quiet example_ssl example_env)\<^sup>*\<^sup>* threads_start example_shared"
proof -
  have "thread_step quiet example_ssl example_env threads_start
    (log_event (Created ''smdp'' ''certs'' ''NIST'' (catch_std (- 1) (Inr 1))) (example_created\<lparr>events := []\<rparr>))"
    by (rule thread_step.create [where a = 0])
      (simp_all add: threads_start_def shared_create_def example_makeClient INT_MAX_def example_created_def)
  then have "(thread_step quiet example_ssl example_env)\<^sup>*\<^sup>* threads_start example_created"
    by (simp add: log_event_def catch_std_def example_created_def)
  moreover have "thread_step quiet example_ssl example_env example_created (begin_call 7 1 (- 1) example_method example_created)"
    by (rule thread_step.begin_call) (simp_all add: example_created_def may_begin_def)
  moreover have "begin_call 7 1 (- 1) example_method example_created = example_shared"
    by (simp add: begin_call_def getClient_def example_created_def example_shared_def example_call_def)
  ultimately show ?thesis by simp
qed

lemma example_returned_reachable: "(thread_step quiet example_ssl example_env)\<^sup>*\<^sup>* threads_start example_returned"
proof -
  define s1 where "s1 = snd (access_step 7 example_shared)"
  have s1: "s1 = example_created\<lparr>objects := [0 \<mapsto> example_client\<lparr>m_transactionId := [1]\<rparr>],
      in_call := [7 \<mapsto> example_call\<lparr>call_rest := Done (Inr 0)\<rparr>]\<rparr>"
    by (simp add: s1_def access_step_def example_shared_def example_call_def example_method_def example_created_def)
  have "thread_step quiet example_ssl example_env example_shared s1"
    unfolding s1_def by (rule thread_step.access [where r = "fst (access_step 7 example_shared)"]) simp
  moreover have "thread_step quiet example_ssl example_env s1 (end_call 7 s1)" by (rule thread_step.end_call)
  moreover have "end_call 7 s1 = example_returned"
    by (simp add: s1 end_call_def example_call_def example_returned_def example_created_def log_event_def catch_std_def)
  ultimately show ?thesis using example_shared_reachable [of quiet] by simp
qed

theorem calls_linearize_witness:
  "\<exists>reg. atomic_run example_ssl example_env reg
      [Created ''smdp'' ''certs'' ''NIST'' (Inr 1), Called 1 (- 1) example_method (Inr 0)] \<and>
    represents example_returned reg"
  using calls_linearize [OF example_returned_reachable] by (simp add: example_returned_def)

theorem destroyed_during_call_witness:
  "\<exists>s1. shared_destroy 1 example_shared = (Inr 0, s1) \<and>
    fst (access_step 7 (log_event (Destroyed 1 (Inr 0)) s1)) = Inl OutOfBounds"
proof -
  define s1 where "s1 = snd (shared_destroy 1 example_shared)"
  have d: "shared_destroy 1 example_shared = (Inr 0, s1)"
    by (simp add: s1_def shared_destroy_def example_shared_def example_created_def)
  have c: "in_call s1 7 = Some example_call" "handle_map s1 h = None" for h
    by (simp_all add: s1_def shared_destroy_def example_shared_def example_created_def)
  have "fst (access_step 7 (log_event (Destroyed 1 (Inr 0)) s1)) = Inl OutOfBounds"
    using destroyed_during_call [OF example_shared_reachable d rtranclp.rtrancl_refl, of 7 example_call
      "\<lambda>cl. (cl\<lparr>m_transactionId := [1]\<rparr>, Done (Inr 0))"] c
    by (simp add: example_call_def example_method_def)
  with d show ?thesis by blast
qed

lemma example_codes:
  "computeConfirmationCodeHash example_ssl ''11'' (m_transactionId (example_client\<lparr>m_transactionId := [1]\<rparr>)) = Inr [0x11, 1]"
  "computeConfirmationCodeHash example_ssl ''22'' (m_transactionId (example_client\<lparr>m_transactionId := [1]\<rparr>)) = Inr [0x22, 1]"
proof -
  have "code_bytes ''11'' = Inr [0x11]" "code_bytes ''22'' = Inr [0x22]" by code_simp+
  then show "computeConfirmationCodeHash example_ssl ''11'' (m_transactionId (example_client\<lparr>m_transactionId := [1]\<rparr>)) = Inr [0x11, 1]"
    "computeConfirmationCodeHash example_ssl ''22'' (m_transactionId (example_client\<lparr>m_transactionId := [1]\<rparr>)) = Inr [0x22, 1]"
    by (simp_all add: computeConfirmationCodeHash_def example_ssl_def)
qed

theorem overlapping_calls_mix_witness:
  "\<exists>(s' :: (string list option \<times> octets option \<times> octets, octets, int) shared) mixed.
    (thread_step False example_ssl example_env)\<^sup>*\<^sup>* threads_start s' \<and>
    objects s' 0 = Some mixed \<and>
    m_confirmationCode mixed = ''22'' \<and> m_confirmationCodeHash mixed = [0x11, 1]"
proof -
  have s: "in_call example_returned t = None" "handle_map example_returned 1 = Some 0"
    "objects example_returned 0 = Some (example_client\<lparr>m_transactionId := [1]\<rparr>)" for t
    by (simp_all add: example_returned_def example_created_def)
  have "m_transactionId (example_client\<lparr>m_transactionId := [1]\<rparr>) \<noteq> []" "(2::nat) \<noteq> 1" "[0x11, 1] \<noteq> [0x22, 1::8 word]" by simp_all
  from overlapping_calls_mix [OF example_returned_reachable s(1) s(1) this(2) s(2,3) this(1) example_codes this(3)]
  show ?thesis by blast
qed

end
