(* ===== verification/Logger.thy ===== *)
theory Logger
  imports C_Library
begin

text \<open>
  The log of the eSIM provisioning functions and OpenSSL's error queue, \<^verbatim>\<open>smdpp/logger.h\<close>: the lines on the
  console, and the texts that the error handler and the exception class make of the queue, which they drain. The
  console and the queue are passed on explicitly, the local time is an argument. The queue is OpenSSL's: its state is
  an unknown type, and taking an error from it and the names of errors are the record \<open>error_api\<close>, an argument. Nothing says here
  that the loops over the queue end, so their value is an option. The texts are those of OpenSSL 3, where an error names no function.
\<close>

section \<open>The log\<close>

datatype level = DEBUG | INFO | WARNING | ERROR

definition level_str :: "level \<Rightarrow> string" where
  "level_str lv = (case lv of DEBUG \<Rightarrow> ''DEBUG'' | INFO \<Rightarrow> ''INFO'' | WARNING \<Rightarrow> ''WARNING'' | ERROR \<Rightarrow> ''ERROR'')"

text \<open>What follows the last occurrence of a character: \<^verbatim>\<open>strrchr(s, c) + 1\<close>.\<close>

fun after_last :: "char \<Rightarrow> string \<Rightarrow> string option" where
  "after_last c [] = None"
| "after_last c (d # ds) =
     (case after_last c ds of Some r \<Rightarrow> Some r | None \<Rightarrow> if d = c then Some ds else None)"

definition base_filename :: "string \<Rightarrow> string" where
  "base_filename f =
     (case after_last (CHR ''/'') f of Some b \<Rightarrow> b
      | None \<Rightarrow> (case after_last (CHR 0x5C) f of Some b \<Rightarrow> b | None \<Rightarrow> f))"

text \<open>\<^verbatim>\<open>std::setw(n) << std::left\<close>, and a number as a stream writes it.\<close>

definition setw_left :: "nat \<Rightarrow> string \<Rightarrow> string" where
  "setw_left n s = s @ replicate (n - length s) (CHR '' '')"

definition decimal :: "int \<Rightarrow> string" where
  "decimal i = (if i < 0 then CHR ''-'' # digits 10 (nat (- i)) else digits 10 (nat i))"

definition newline :: string where
  "newline = [CHR 0x0A]"

text \<open>A null \<^verbatim>\<open>filename\<close> is \<^term>\<open>None\<close>; \<open>now\<close> is what \<^verbatim>\<open>std::put_time\<close> writes.\<close>

definition log :: "string \<Rightarrow> level \<Rightarrow> string \<Rightarrow> string option \<Rightarrow> int \<Rightarrow> string \<Rightarrow> string" where
  "log now lv message file line cout =
     cout @ ''['' @ now @ ''] '' @ setw_left 7 (level_str lv) @
     (case file of None \<Rightarrow> [] | Some f \<Rightarrow> '' ['' @ base_filename f @ '':'' @ decimal line @ '']'') @
     '' '' @ message @ newline"

definition debug :: "string \<Rightarrow> string \<Rightarrow> string option \<Rightarrow> int \<Rightarrow> string \<Rightarrow> string" where
  "debug now message file line = log now DEBUG message file line"

definition info :: "string \<Rightarrow> string \<Rightarrow> string option \<Rightarrow> int \<Rightarrow> string \<Rightarrow> string" where
  "info now message file line = log now INFO message file line"

definition warning :: "string \<Rightarrow> string \<Rightarrow> string option \<Rightarrow> int \<Rightarrow> string \<Rightarrow> string" where
  "warning now message file line = log now WARNING message file line"

definition error :: "string \<Rightarrow> string \<Rightarrow> string option \<Rightarrow> int \<Rightarrow> string \<Rightarrow> string" where
  "error now message file line = log now ERROR message file line"

section \<open>The error queue\<close>

text \<open>
  What is used of OpenSSL: taking an error from the queue, 0 when there is none, and the texts of an error.
\<close>

record 'q error_api =
  ERR_get_error :: "'q \<Rightarrow> u64 \<times> 'q"
  error_string :: "u64 \<Rightarrow> string"
  lib_error_string :: "u64 \<Rightarrow> string option"
  reason_error_string :: "u64 \<Rightarrow> string option"

text \<open>
  The loops \<^verbatim>\<open>while ((err = ERR_get_error()) != 0) { ... }\<close>, with what the body writes for an error; \<^term>\<open>None\<close> for
  a loop that does not end.
\<close>

partial_function (option) drain_errors :: "'q error_api \<Rightarrow> (u64 \<Rightarrow> string) \<Rightarrow> string \<Rightarrow> 'q \<Rightarrow> (string \<times> 'q) option" where
  "drain_errors es f out q =
     (if fst (ERR_get_error es q) \<noteq> 0 then drain_errors es f (out @ f (fst (ERR_get_error es q))) (snd (ERR_get_error es q))
      else Some (out, snd (ERR_get_error es q)))"

text \<open>The exception class: its text is the message and the queued errors.\<close>

definition getOpenSSLErrors :: "'q error_api \<Rightarrow> 'q \<Rightarrow> (string \<times> 'q) option" where
  "getOpenSSLErrors es q = drain_errors es (\<lambda>e. error_string es e @ ''; '') '' - OpenSSL Errors: '' q"

definition OpenSSLError :: "'q error_api \<Rightarrow> string \<Rightarrow> 'q \<Rightarrow> (string \<times> 'q) option" where
  "OpenSSLError es message q = map_option (map_prod (\<lambda>s. message @ s) id) (getOpenSSLErrors es q)"

text \<open>The error handler: \<^verbatim>\<open>ERR_error_string_n\<close> writes at most 255 characters of the text.\<close>

definition or_unknown :: "string option \<Rightarrow> string" where
  "or_unknown s = (case s of None \<Rightarrow> ''unknown'' | Some t \<Rightarrow> t)"

definition error_details :: "'q error_api \<Rightarrow> u64 \<Rightarrow> string" where
  "error_details es e =
     ''OpenSSL Error:'' @ newline @
     ''  Code: 0x'' @ digits 16 (unat e) @ newline @
     ''  Library: '' @ or_unknown (lib_error_string es e) @ newline @
     ''  Reason: '' @ or_unknown (reason_error_string es e) @ newline @
     ''  Full: '' @ take 255 (error_string es e) @ newline @ newline"

definition getLastError :: "'q error_api \<Rightarrow> 'q \<Rightarrow> (string \<times> 'q) option" where
  "getLastError es q = drain_errors es (error_details es) [] q"

definition getSSLErrorType :: "int \<Rightarrow> string" where
  "getSSLErrorType sslError =
     (if sslError = 0 then ''SSL_ERROR_NONE - No error''
      else if sslError = 1 then ''SSL_ERROR_SSL - SSL library error''
      else if sslError = 2 then ''SSL_ERROR_WANT_READ - Need more data to read''
      else if sslError = 3 then ''SSL_ERROR_WANT_WRITE - Need to write data''
      else if sslError = 4 then ''SSL_ERROR_WANT_X509_LOOKUP - X509 lookup required''
      else if sslError = 5 then ''SSL_ERROR_SYSCALL - System call error''
      else if sslError = 6 then ''SSL_ERROR_ZERO_RETURN - Connection closed''
      else if sslError = 7 then ''SSL_ERROR_WANT_CONNECT - Want connect''
      else if sslError = 8 then ''SSL_ERROR_WANT_ACCEPT - Want accept''
      else ''Unknown SSL error type'')"

text \<open>\<open>sslError\<close> is what \<^verbatim>\<open>SSL_get_error\<close> yields for the connection and the result.\<close>

definition getSSLError :: "'q error_api \<Rightarrow> int \<Rightarrow> int \<Rightarrow> 'q \<Rightarrow> (string \<times> 'q) option" where
  "getSSLError es sslError ret q = map_option (map_prod (\<lambda>queueErrors.
       ''SSL Error Details:'' @ newline @
       ''  Return code: '' @ decimal ret @ newline @
       ''  SSL error code: '' @ decimal sslError @ newline @
       ''  SSL error type: '' @ getSSLErrorType sslError @ newline @
       (if queueErrors \<noteq> [] then newline @ ''Error Queue:'' @ newline @ queueErrors else [])) id) (getLastError es q)"

text \<open>\<open>describe\<close> is \<^verbatim>\<open>X509_verify_cert_error_string\<close>; \<^verbatim>\<open>X509_V_OK\<close> is 0.\<close>

definition getCertificateError :: "(int \<Rightarrow> string option) \<Rightarrow> int \<Rightarrow> string" where
  "getCertificateError describe verifyResult =
     (if verifyResult \<noteq> 0 then
        ''Certificate Verification Error:'' @ newline @
        ''  Code: '' @ decimal verifyResult @ newline @
        ''  Description: '' @ or_unknown (describe verifyResult) @ newline
      else [])"

definition printSSLErrors :: "'q error_api \<Rightarrow> string \<Rightarrow> string \<times> 'q \<Rightarrow> (string \<times> 'q) option" where
  "printSSLErrors es ctx = (\<lambda>(cerr, q).
     (let cerr = (if ctx \<noteq> [] then cerr @ ''=== '' @ ctx @ '' ==='' @ newline else cerr) in
      map_option (map_prod (\<lambda>errors. if errors \<noteq> [] then cerr @ errors @ newline
                                     else cerr @ ''No OpenSSL errors in queue.'' @ newline) id) (getLastError es q)))"

section \<open>Draining\<close>

text \<open>
  What OpenSSL documents: a queue holds error codes other than 0, and taking one yields the earliest and removes it, and 0 when
  there is none.
\<close>

definition error_queue_ok :: "'q error_api \<Rightarrow> ('q \<Rightarrow> u64 list) \<Rightarrow> bool" where
  "error_queue_ok es pending \<longleftrightarrow> (\<forall>q. 0 \<notin> set (pending q) \<and>
     (case pending q of [] \<Rightarrow> fst (ERR_get_error es q) = 0 \<and> pending (snd (ERR_get_error es q)) = []
      | e # r \<Rightarrow> fst (ERR_get_error es q) = e \<and> pending (snd (ERR_get_error es q)) = r))"

lemma error_queue_okD:
  assumes "error_queue_ok es pending"
  shows "pending q = [] \<Longrightarrow> fst (ERR_get_error es q) = 0 \<and> pending (snd (ERR_get_error es q)) = []"
    "pending q = e # r \<Longrightarrow> e \<noteq> 0 \<and> fst (ERR_get_error es q) = e \<and> pending (snd (ERR_get_error es q)) = r"
  using assms [unfolded error_queue_ok_def, rule_format, of q] by auto

text \<open>With such a queue every loop ends, with every error once, the earliest first, and the queue empty.\<close>

lemma drain_errors_all:
  assumes "error_queue_ok es pending"
  shows "\<exists>q'. drain_errors es f out q = Some (out @ concat (map f (pending q)), q') \<and> pending q' = []"
proof (induction "pending q" arbitrary: q out)
  case Nil
  then have "fst (ERR_get_error es q) = 0 \<and> pending (snd (ERR_get_error es q)) = []"
    using error_queue_okD(1) [OF assms, of q] by simp
  then show ?case using Nil(1) [symmetric] by (subst drain_errors.simps) simp
next
  case (Cons e r)
  then have e: "fst (ERR_get_error es q) = e" "pending (snd (ERR_get_error es q)) = r" "e \<noteq> 0"
    using error_queue_okD(2) [OF assms, of q e r] by simp_all
  obtain q' where "drain_errors es f (out @ f e) (snd (ERR_get_error es q)) = Some ((out @ f e) @ concat (map f r), q')" "pending q' = []"
    using Cons(1) [of "snd (ERR_get_error es q)" "out @ f e"] e(2) by auto
  then show ?case unfolding Cons(2) [symmetric] using e(1,3) by (subst drain_errors.simps) simp
qed

theorem error_queue_drained:
  assumes "error_queue_ok es pending"
  shows "\<exists>q'. OpenSSLError es message q = Some (message @ '' - OpenSSL Errors: '' @
      concat (map (\<lambda>e. error_string es e @ ''; '') (pending q)), q') \<and> pending q' = []"
  using drain_errors_all [OF assms, of "\<lambda>e. error_string es e @ ''; ''" "'' - OpenSSL Errors: ''" q]
  by (auto simp: OpenSSLError_def getOpenSSLErrors_def)

theorem printSSLErrors_empty:
  assumes "error_queue_ok es pending" "pending q = []"
  shows "\<exists>q'. printSSLErrors es ctx (cerr, q) = Some (cerr @ (if ctx = [] then [] else ''=== '' @ ctx @ '' ==='' @ newline) @
      ''No OpenSSL errors in queue.'' @ newline, q')"
  using drain_errors_all [OF assms(1), of "error_details es" "[]" q] assms(2)
  by (auto simp: printSSLErrors_def getLastError_def)

lemma after_last_suffix:
  "after_last c s = Some r \<Longrightarrow> c \<notin> set r \<and> (\<exists>p. s = p @ c # r)"
proof (induction s arbitrary: r)
  case (Cons d ds)
  have none: "after_last c ds = None \<Longrightarrow> c \<notin> set ds" for ds
    by (induction ds) (auto split: option.splits if_splits)
  show ?case
  proof (cases "after_last c ds")
    case None
    with Cons.prems have "d = c" "r = ds" by (auto split: if_splits)
    with none [OF None] show ?thesis by auto
  next
    case (Some r')
    with Cons.prems have "r = r'" by simp
    with Cons.IH [OF Some] show ?thesis by (metis append_Cons)
  qed
qed simp

text \<open>The name in the log line has no directory, whatever the path.\<close>

lemma base_filename_no_directory: "CHR ''/'' \<notin> set (base_filename f)"
proof (cases "after_last (CHR ''/'') f")
  case (Some b)
  then show ?thesis using after_last_suffix by (simp add: base_filename_def)
next
  case None
  have "CHR ''/'' \<notin> set f" using None
    by (induction f) (auto split: option.splits if_splits)
  moreover have "set (base_filename f) \<subseteq> set f"
    using None after_last_suffix by (fastforce simp: base_filename_def split: option.splits)
  ultimately show ?thesis by blast
qed

end
