(* ===== verification/SMDPP_Helpers.thy ===== *)
theory SMDPP_Helpers
  imports RSP_Client
begin

text \<open>
  The helpers of the eSIM provisioning functions, \<^verbatim>\<open>smdpp/helpers.h\<close>: writing vectors of strings, octets as
  hexadecimal text and back, and Base64. The Base64 filter of OpenSSL is an argument. The
  deleters, which hand an object to the function of OpenSSL that frees it, are left out.
\<close>

unbundle bit_operations_syntax

section \<open>Vectors of strings\<close>

definition put_strings :: "string \<Rightarrow> string list \<Rightarrow> string" where
  "put_strings os v = os @ concat (map (\<lambda>s. s @ [CHR 0x0A]) v)"

definition strings_to_string :: "string list \<Rightarrow> string" where
  "strings_to_string vec = put_strings [] vec"

definition string_plus_strings :: "string \<Rightarrow> string list \<Rightarrow> string" where
  "string_plus_strings str vec = str @ strings_to_string vec"

definition strings_plus_string :: "string list \<Rightarrow> string \<Rightarrow> string" where
  "strings_plus_string vec str = strings_to_string vec @ str"

section \<open>Hexadecimal text\<close>

text \<open>
  \<^verbatim>\<open>sscanf(s, "%2hhx", &b)\<close>: white space is skipped, then a sign and digits, two characters in all; what is
  read is stored in eight bits, and without a digit nothing is stored. The prefix \<^verbatim>\<open>0x\<close> takes
  both characters, and the octet is 0.
\<close>

definition sscanf_2hhx :: "string \<Rightarrow> u8 \<Rightarrow> u8" where
  "sscanf_2hhx s b =
     (let (neg, t) = strip_sign (take 2 (dropWhile is_space s)); ds = takeWhile (digit_below 16) t;
          v = int (digits_value 16 ds) in
      if ds = [] then b else word_of_int (if neg then - v else v))"

definition hexToBytes :: "string \<Rightarrow> octets result" where
  "hexToBytes hex =
     (if length hex mod 2 \<noteq> 0 then Inl Thrown
      else Inr (map (\<lambda>i. sscanf_2hhx (c_string (drop (i * 2) hex)) 0) [0..<length hex div 2]))"

text \<open>\<^verbatim>\<open>std::setw(2) << std::setfill('0') << std::hex << std::uppercase\<close>\<close>

definition hex_field :: "u8 \<Rightarrow> string" where
  "hex_field b = (let s = map toupper (digits 16 (unat b)) in replicate (2 - length s) (CHR ''0'') @ s)"

definition bytesToHex :: "octets \<Rightarrow> string" where
  "bytesToHex bytes = concat (map hex_field bytes)"

section \<open>Base64\<close>

text \<open>Reading a text through the filter, which yields octets unless it fails or there is none, and writing octets.\<close>

record base64_filter =
  bio_read :: "string \<Rightarrow> octets option"
  bio_write :: "octets \<Rightarrow> string"

text \<open>
  The second character from the end of a text of one character is outside of it. The length of the buffer is
  a \<^verbatim>\<open>size_t\<close>, too large for a vector when the padding exceeds it. The read may ask for more
  octets than the buffer has.
\<close>

definition base64_padding :: "string \<Rightarrow> nat result" where
  "base64_padding s =
     (if s ! (length s - 1) = CHR ''='' then
        (if length s < 2 then Inl OutOfBounds else if s ! (length s - 2) = CHR ''='' then Inr 2 else Inr 1)
      else Inr 0)"

definition base64_decode :: "base64_filter \<Rightarrow> string \<Rightarrow> octets result" where
  "base64_decode bio s =
     (if s = [] then Inr []
      else bind_result (base64_padding s) (\<lambda>padding.
        if length s * 3 div 4 < padding then Inl Thrown
        else case bio_read bio (c_string s) of None \<Rightarrow> Inl Thrown
          | Some bs \<Rightarrow> if length bs > length s * 3 div 4 - padding then Inl OutOfBounds else Inr bs))"

definition base64_encode :: "base64_filter \<Rightarrow> octets \<Rightarrow> string" where
  "base64_encode bio bs = (if bs = [] then [] else bio_write bio bs)"

section \<open>Hexadecimal round trip\<close>

definition hex_char :: "nat \<Rightarrow> char" where
  "hex_char n = toupper (hexd n)"

definition hex_char_ok :: "nat \<Rightarrow> bool" where
  "hex_char_ok n \<longleftrightarrow> \<not> is_space (hex_char n) \<and> of_char (hex_char n) \<noteq> (0 :: nat) \<and>
     hex_char n \<noteq> CHR ''-'' \<and> hex_char n \<noteq> CHR ''+'' \<and> hex_digit (hex_char n) = Some n"

lemma hex_char_ok: "n < 16 \<Longrightarrow> hex_char_ok n"
proof -
  have "list_all hex_char_ok [0..<16]" by code_simp
  then show "n < 16 \<Longrightarrow> hex_char_ok n" by (auto simp: list_all_iff)
qed

lemma hex_field_eq: "hex_field b = [hex_char (unat b div 16), hex_char (unat b mod 16)]"
proof -
  have lt: "unat b < 256" by (rule unat_u8)
  have z: "hex_char 0 = CHR ''0''" by code_simp
  show ?thesis
  proof (cases "unat b < 16")
    case True
    then show ?thesis using z by (simp add: hex_field_def hex_char_def digits.simps [of 16 "unat b"])
  next
    case False
    with lt have "unat b div 16 < 16" "\<not> unat b < 16" by auto
    then show ?thesis
      by (simp add: hex_field_def hex_char_def digits.simps [of 16 "unat b"] digits.simps [of 16 "unat b div 16"])
  qed
qed

lemma hex_fieldE:
  obtains h l where "hex_field b = [h, l]" "\<not> is_space h" "of_char h \<noteq> (0 :: nat)" "of_char l \<noteq> (0 :: nat)"
    "h \<noteq> CHR ''-''" "h \<noteq> CHR ''+''" "digit_below 16 h" "digit_below 16 l" "digits_value 16 [h, l] = unat b"
proof -
  have lt: "unat b < 256" by (rule unat_u8)
  have ok: "hex_char_ok (unat b div 16)" "hex_char_ok (unat b mod 16)" using lt by (simp_all add: hex_char_ok)
  then show ?thesis using that [OF hex_field_eq] lt
    by (simp add: hex_char_ok_def digit_below_def digits_value_def)
qed

lemma sscanf_hex_field: "sscanf_2hhx (c_string (hex_field b @ s)) c = b"
  by (rule hex_fieldE [of b])
    (simp add: sscanf_2hhx_def c_string_def strip_sign_def Let_def)

lemma length_bytesToHex [simp]: "length (bytesToHex bs) = 2 * length bs"
proof (induction bs)
  case (Cons b bs)
  then show ?case by (auto simp: bytesToHex_def intro: hex_fieldE [of b])
qed (simp add: bytesToHex_def)

lemma drop_bytesToHex: "drop (2 * i) (bytesToHex bs) = bytesToHex (drop i bs)"
proof (induction bs arbitrary: i)
  case (Cons b bs)
  obtain h l where "hex_field b = [h, l]" by (rule hex_fieldE)
  with Cons show ?case by (cases i) (auto simp: bytesToHex_def)
qed (simp add: bytesToHex_def)

text \<open>
  The hexadecimal text of octets has two characters for each and reads back to them, leading zeros, upper case digits
  and the empty vector included, although the reader skips white space, takes a sign and ignores what it cannot read.
\<close>

theorem hexToBytes_bytesToHex: "length (bytesToHex bs) = 2 * length bs \<and> hexToBytes (bytesToHex bs) = Inr bs"
proof -
  have "sscanf_2hhx (c_string (drop (i * 2) (bytesToHex bs))) 0 = bs ! i" if "i < length bs" for i
  proof -
    have "bytesToHex (drop i bs) = hex_field (bs ! i) @ bytesToHex (drop (Suc i) bs)"
      using that by (simp add: Cons_nth_drop_Suc [symmetric] bytesToHex_def)
    then show ?thesis using drop_bytesToHex [of i bs] by (simp add: mult.commute sscanf_hex_field)
  qed
  then have "map (\<lambda>i. sscanf_2hhx (c_string (drop (i * 2) (bytesToHex bs))) 0) [0..<length bs] = map ((!) bs) [0..<length bs]"
    by simp
  then show ?thesis by (simp add: hexToBytes_def map_nth)
qed

section \<open>Base64 round trip\<close>

text \<open>
  The documented behaviour of the filter: four characters for three octets, padded, none of them the null
  character, and reading what was written. Then the buffer that \<^verbatim>\<open>decode\<close> reserves fits exactly.
\<close>

definition base64_law :: "base64_filter \<Rightarrow> octets \<Rightarrow> bool" where
  "base64_law bio bs \<longleftrightarrow>
     (let t = bio_write bio bs in
      length t = 4 * ((length bs + 2) div 3) \<and> c_string t = t \<and> bio_read bio t = Some bs \<and>
      (t ! (length t - 1) = CHR ''='' \<longleftrightarrow> length bs mod 3 \<noteq> 0) \<and>
      (t ! (length t - 2) = CHR ''='' \<longleftrightarrow> length bs mod 3 = 1))"

lemma base64_decode_encode:
  assumes "bs \<noteq> [] \<Longrightarrow> base64_law bio bs"
  shows "base64_decode bio (base64_encode bio bs) = Inr bs"
proof (cases "bs = []")
  case False
  let ?t = "bio_write bio bs"
  define q where "q = (length bs + 2) div 3"
  have law: "length ?t = 4 * q" "c_string ?t = ?t" "bio_read bio ?t = Some bs"
    "(?t ! (length ?t - 1) = CHR ''='') = (length bs mod 3 \<noteq> 0)"
    "(?t ! (length ?t - 2) = CHR ''='') = (length bs mod 3 = 1)"
    using assms [OF False] unfolding base64_law_def Let_def q_def by blast+
  have q: "0 < q" and bound: "length bs \<le> 3 * q"
    "length bs mod 3 = 1 \<Longrightarrow> length bs = 3 * q - 2" "length bs mod 3 = 2 \<Longrightarrow> length bs = 3 * q - 1"
    using False by (cases bs; simp add: q_def; presburger)+
  have mod: "length bs mod 3 = 0 \<or> length bs mod 3 = 1 \<or> length bs mod 3 = 2" by presburger
  have ne: "?t \<noteq> []" using law(1) q by auto
  have pad: "base64_padding ?t = Inr (if length bs mod 3 = 1 then 2 else if length bs mod 3 = 2 then 1 else 0)"
    using law(1,4,5) q mod by (auto simp: base64_padding_def)
  have len: "length ?t * 3 div 4 = 3 * q" using law(1) by simp
  show ?thesis
    using False ne q bound mod law(2,3) unfolding base64_decode_def base64_encode_def
    by (auto simp: pad len)
qed (simp add: base64_decode_def base64_encode_def)

end
