(* ===== verification/SMDPP_Console.thy ===== *)
theory SMDPP_Console
  imports Logger SMDPP_Helpers SMDPP_Functions
begin

text \<open>
  What the external functions that only log, and \<^verbatim>\<open>BspCrypto::print_hex\<close>, write to the console, which
  is passed on explicitly.
\<close>

section \<open>The external functions that log\<close>

definition charstring_to_string :: "string \<Rightarrow> string" where
  "charstring_to_string s = c_string s"

definition log_wrapper :: "(string \<Rightarrow> string option \<Rightarrow> int \<Rightarrow> string \<Rightarrow> string) \<Rightarrow> string \<Rightarrow> string \<Rightarrow> string" where
  "log_wrapper LogFunc message = LogFunc (charstring_to_string message) (Some ''smdpp_Tests_Functions.cc'') 241"

definition ext_logInfo :: "string \<Rightarrow> string \<Rightarrow> string \<Rightarrow> string" where
  "ext_logInfo now message = log_wrapper (info now) message"

definition ext_logError :: "string \<Rightarrow> string \<Rightarrow> string \<Rightarrow> string" where
  "ext_logError now message = log_wrapper (error now) message"

definition ext_logDebug :: "string \<Rightarrow> string \<Rightarrow> string \<Rightarrow> string" where
  "ext_logDebug now message = log_wrapper (debug now) message"

text \<open>The line of a message: time, level in seven columns, place and message, which a null character ends.\<close>

lemma ext_logInfo_line:
  "ext_logInfo now message out =
   out @ ''['' @ now @ ''] INFO    [smdpp_Tests_Functions.cc:241] '' @ c_string message @ [CHR 0x0A]"
proof -
  have "base_filename ''smdpp_Tests_Functions.cc'' = ''smdpp_Tests_Functions.cc''" "decimal 241 = ''241''"
    "setw_left 7 ''INFO'' = ''INFO   ''" by code_simp+
  then show ?thesis
    by (simp add: ext_logInfo_def log_wrapper_def info_def log_def level_str_def charstring_to_string_def newline_def)
qed

section \<open>Dumps of keys\<close>

text \<open>\<^verbatim>\<open>std::hex << std::setw(2) << std::setfill('0')\<close>, and the overload for an array: \<open>len\<close> octets of it.\<close>

definition hex_lower :: "u8 \<Rightarrow> string" where
  "hex_lower b = (let s = digits 16 (unat b) in replicate (2 - length s) (CHR ''0'') @ s)"

definition print_hex :: "string \<Rightarrow> octets \<Rightarrow> string \<Rightarrow> string" where
  "print_hex label data out = out @ label @ '': '' @ concat (map hex_lower data) @ newline"

definition print_hex_array :: "string \<Rightarrow> octets \<Rightarrow> nat \<Rightarrow> string \<Rightarrow> string result" where
  "print_hex_array label data len out =
     (if len \<le> length data then Inr (print_hex (c_string label) (take len data) out) else Inl OutOfBounds)"

text \<open>The dump and the hexadecimal text of the log differ in letter case only.\<close>

lemma print_hex_upper: "map toupper (concat (map hex_lower data)) = bytesToHex data"
proof -
  have "toupper (CHR ''0'') = CHR ''0''" by code_simp
  then have "map toupper (hex_lower b) = hex_field b" for b by (simp add: hex_lower_def hex_field_def Let_def)
  then show ?thesis by (simp add: map_concat bytesToHex_def comp_def)
qed

end
