(* ===== verification/Native_Functions.thy ===== *)
theory Native_Functions
  imports C_Library
begin

text \<open>
  The external functions of \<^verbatim>\<open>library/Native_FunctionDefs.cc\<close>: internet addresses of both versions to and from
  text, and upper and lower case. The functions of the C library they call are modelled as glibc has
  them, for a little-endian machine. A charstring is read as a C string, up to its first character 0.
\<close>

unbundle bit_operations_syntax

section \<open>Addresses of version 4\<close>

definition inet_ntoa :: "octets \<Rightarrow> string" where
  "inet_ntoa bs = digits 10 (unat (bs ! 0)) @ ''.'' @ digits 10 (unat (bs ! 1)) @ ''.'' @ digits 10 (unat (bs ! 2)) @
     ''.'' @ digits 10 (unat (bs ! 3))"

text \<open>The last number fills the octets that are left, the highest first.\<close>

fun fill_octets :: "nat \<Rightarrow> nat \<Rightarrow> octets" where
  "fill_octets 0 v = []"
| "fill_octets (Suc k) v = fill_octets k (v div 256) @ [word_of_nat v]"

text \<open>One to four numbers with dots between, of which \<open>k\<close> more may follow; white space ends the address.\<close>

fun aton_loop :: "nat \<Rightarrow> octets \<Rightarrow> string \<Rightarrow> octets option" where
  "aton_loop k bs s =
     (if s = [] \<or> \<not> is_digit (hd s) then None
      else let (val, rest) = strtoul_0 s in
        if 0xffffffff < val then None
        else if rest \<noteq> [] \<and> hd rest = CHR ''.'' then
          (case k of 0 \<Rightarrow> None | Suc k' \<Rightarrow> if 0xff < val then None else aton_loop k' (bs @ [word_of_nat val]) (tl rest))
        else if rest \<noteq> [] \<and> \<not> is_space (hd rest) then None
        else if 256 ^ (k + 1) \<le> val then None
        else Some (bs @ fill_octets (k + 1) val))"

declare aton_loop.simps [simp del]

text \<open>All bits set is the failure.\<close>

definition inet_addr :: "string \<Rightarrow> octets" where
  "inet_addr s = (case aton_loop 3 [] s of None \<Rightarrow> [0xff, 0xff, 0xff, 0xff] | Some bs \<Rightarrow> bs)"

definition f_inet_addr :: "string \<Rightarrow> octets" where
  "f_inet_addr inp = inet_addr (c_string inp)"

text \<open>\<^verbatim>\<open>ntohl\<close> and \<^verbatim>\<open>htonl\<close> reverse the octets.\<close>

definition f_inet_haddr :: "string \<Rightarrow> octets" where
  "f_inet_haddr inp = rev (inet_addr (c_string inp))"

definition f_inet_ntoa :: "octets \<Rightarrow> string result" where
  "f_inet_ntoa inp = (if length inp < 4 then Inl OutOfBounds else Inr (inet_ntoa (take 4 inp)))"

definition f_inet_hntoa :: "octets \<Rightarrow> string result" where
  "f_inet_hntoa inp = (if length inp < 4 then Inl OutOfBounds else Inr (inet_ntoa (rev (take 4 inp))))"

section \<open>Addresses of version 6\<close>

text \<open>The strict form with four decimal numbers: the octets so far, the number that is read and whether a digit of it was.\<close>

fun pton4_loop :: "string \<Rightarrow> octets \<Rightarrow> nat \<Rightarrow> bool \<Rightarrow> octets option" where
  "pton4_loop [] bs v saw_digit = (if saw_digit \<and> length bs = 3 then Some (bs @ [word_of_nat v]) else None)"
| "pton4_loop (c # s) bs v saw_digit =
     (if is_digit c then
        (if saw_digit \<and> v = 0 then None
         else if 255 < 10 * v + the (hex_digit c) then None
         else pton4_loop s bs (10 * v + the (hex_digit c)) True)
      else if c = CHR ''.'' \<and> saw_digit then
        (if length bs = 3 then None else pton4_loop s (bs @ [word_of_nat v]) 0 False)
      else None)"

definition inet_pton4 :: "string \<Rightarrow> octets option" where
  "inet_pton4 s = pton4_loop s [] 0 False"

definition group_octets :: "nat \<Rightarrow> octets" where
  "group_octets v = [word_of_nat (v div 256), word_of_nat v]"

text \<open>The end of the text: the group that is still open, and the zeros in place of the two colons.\<close>

definition pton6_end :: "octets \<Rightarrow> nat option \<Rightarrow> nat \<Rightarrow> nat \<Rightarrow> octets option" where
  "pton6_end out colonp saw val =
     (if 0 < saw \<and> 16 < length out + 2 then None
      else let out = (if 0 < saw then out @ group_octets val else out) in
        case colonp of
          None \<Rightarrow> if length out = 16 then Some out else None
        | Some c \<Rightarrow> if length out = 16 then None else Some (take c out @ replicate (16 - length out) 0 @ drop c out))"

text \<open>
  The loop over the characters: the octets so far, the place of the two colons, the text from the
  begin of the open group, the number of its digits and its value.
\<close>

fun pton6_loop :: "string \<Rightarrow> octets \<Rightarrow> nat option \<Rightarrow> string \<Rightarrow> nat \<Rightarrow> nat \<Rightarrow> octets option" where
  "pton6_loop [] out colonp tok saw val = pton6_end out colonp saw val"
| "pton6_loop (ch # s) out colonp tok saw val =
     (case hex_digit ch of
        Some d \<Rightarrow> if saw = 4 then None else pton6_loop s out colonp tok (saw + 1) (16 * val + d)
      | None \<Rightarrow>
          if ch = CHR '':'' then
            (if saw = 0 then (if colonp \<noteq> None then None else pton6_loop s out (Some (length out)) s 0 val)
             else if s = [] then None
             else if 16 < length out + 2 then None
             else pton6_loop s (out @ group_octets val) colonp s 0 0)
          else if ch = CHR ''.'' \<and> length out + 4 \<le> 16 then
            (case inet_pton4 tok of None \<Rightarrow> None | Some bs \<Rightarrow> pton6_end (out @ bs) colonp 0 val)
          else None)"

definition inet_pton6 :: "string \<Rightarrow> octets option" where
  "inet_pton6 s =
     (if s \<noteq> [] \<and> hd s = CHR '':'' then
        (if tl s = [] \<or> hd (tl s) \<noteq> CHR '':'' then None else pton6_loop (tl s) [] None (tl s) 0 0)
      else pton6_loop s [] None s 0 0)"

text \<open>The buffer has no initial value; a text that is no address leaves it as it is, \<open>old\<close>.\<close>

definition f_inet6_addr :: "octets \<Rightarrow> string \<Rightarrow> octets" where
  "f_inet6_addr old inp = (case inet_pton6 (c_string inp) of Some bs \<Rightarrow> bs | None \<Rightarrow> take 16 old)"

text \<open>The words of an address, and the longest run of zeros among them, the first of equals, base and length.\<close>

definition word_at :: "octets \<Rightarrow> nat \<Rightarrow> nat" where
  "word_at src i = 256 * unat (src ! (2 * i)) + unat (src ! (2 * i + 1))"

definition longer_run :: "(nat \<times> nat) option \<Rightarrow> (nat \<times> nat) option \<Rightarrow> (nat \<times> nat) option" where
  "longer_run cur best =
     (case cur of None \<Rightarrow> best
      | Some (cb, cl) \<Rightarrow> (case best of None \<Rightarrow> cur | Some (bb, bl) \<Rightarrow> if bl < cl then cur else best))"

fun run_loop :: "octets \<Rightarrow> nat list \<Rightarrow> (nat \<times> nat) option \<Rightarrow> (nat \<times> nat) option \<Rightarrow> (nat \<times> nat) option" where
  "run_loop src [] cur best = longer_run cur best"
| "run_loop src (i # is) cur best =
     (if word_at src i = 0 then
        run_loop src is (case cur of None \<Rightarrow> Some (i, 1) | Some (cb, cl) \<Rightarrow> Some (cb, cl + 1)) best
      else run_loop src is None (longer_run cur best))"

definition best_run :: "octets \<Rightarrow> (nat \<times> nat) option" where
  "best_run src = (case run_loop src [0..<8] None None of
     None \<Rightarrow> None | Some (b, l) \<Rightarrow> if l < 2 then None else Some (b, l))"

definition last_colon :: "(nat \<times> nat) option \<Rightarrow> string" where
  "last_colon best = (case best of None \<Rightarrow> [] | Some (b, l) \<Rightarrow> if b + l = 8 then '':'' else [])"

text \<open>An address of version 4 in one of version 6.\<close>

definition embeds_v4 :: "octets \<Rightarrow> (nat \<times> nat) option \<Rightarrow> bool" where
  "embeds_v4 src best = (case best of None \<Rightarrow> False
     | Some (b, l) \<Rightarrow> b = 0 \<and> (l = 6 \<or> l = 5 \<and> word_at src 5 = 0xffff))"

fun ntop6_loop :: "octets \<Rightarrow> (nat \<times> nat) option \<Rightarrow> nat list \<Rightarrow> string" where
  "ntop6_loop src best [] = last_colon best"
| "ntop6_loop src best (i # is) =
     (case best of
        Some (b, l) \<Rightarrow>
          if b \<le> i \<and> i < b + l then (if i = b then '':'' else []) @ ntop6_loop src best is
          else (if i \<noteq> 0 then '':'' else []) @
            (if i = 6 \<and> embeds_v4 src best then inet_ntoa (drop 12 src) @ last_colon best
             else digits 16 (word_at src i) @ ntop6_loop src best is)
      | None \<Rightarrow> (if i \<noteq> 0 then '':'' else []) @ digits 16 (word_at src i) @ ntop6_loop src best is)"

definition inet_ntop6 :: "octets \<Rightarrow> string" where
  "inet_ntop6 src = ntop6_loop src (best_run src) [0..<8]"

definition f_inet6_ntoa :: "octets \<Rightarrow> string result" where
  "f_inet6_ntoa inp = (if length inp < 16 then Inl OutOfBounds else Inr (inet_ntop6 (take 16 inp)))"

section \<open>Upper and lower case\<close>

definition f_str_tolower :: "string \<Rightarrow> string" where
  "f_str_tolower inp = map tolower (c_string inp)"

definition f_str_toupper :: "string \<Rightarrow> string" where
  "f_str_toupper inp = map toupper (c_string inp)"

end
