(* ===== verification/Native_Roundtrip.thy ===== *)
theory Native_Roundtrip
  imports Native_Functions
begin

text \<open>
  What is proved of the address functions: the texts of both versions read back as the address they were
  written for, host order is the reverse of network order, and the case functions are idempotent.
\<close>

unbundle bit_operations_syntax

section \<open>Digits\<close>

lemma digits_small: "n < base \<Longrightarrow> digits base n = [hexd n]"
  by (subst digits.simps) simp

lemma digits_big: "2 \<le> base \<Longrightarrow> base \<le> n \<Longrightarrow> digits base n = digits base (n div base) @ [hexd (n mod base)]"
  by (subst digits.simps) simp

lemma digits_induct [consumes 1, case_names small big]:
  assumes base: "2 \<le> base" and small: "\<And>n. n < base \<Longrightarrow> P n" and big: "\<And>n. base \<le> n \<Longrightarrow> P (n div base) \<Longrightarrow> P n"
  shows "P (n :: nat)"
proof (induction n rule: less_induct)
  case (less n)
  then show ?case using base small big [of n] div_less_dividend [of base n] by (cases "n < base") simp_all
qed

lemma digits_set: "2 \<le> base \<Longrightarrow> c \<in> set (digits base n) \<Longrightarrow> \<exists>d < base. c = hexd d"
proof -
  assume base: "2 \<le> base"
  have m: "n mod base < base" for n using base by simp
  from base show "c \<in> set (digits base n) \<Longrightarrow> \<exists>d < base. c = hexd d"
    by (induction n rule: digits_induct) (use base m in \<open>fastforce simp: digits_small digits_big\<close>)+
qed

lemma digits_nonempty: "digits base n \<noteq> []"
  by (subst digits.simps) simp

lemma digits_value_digits:
  assumes base: "2 \<le> base" and "base \<le> 16"
  shows "digits_value base (digits base n) = n"
  using base
proof (induction n rule: digits_induct)
  case (small n)
  then show ?case using assms by (simp add: digits_small digits_value_def hex_digit_hexd)
next
  case (big n)
  have "n mod base < 16" using assms mod_less_divisor [of base n] by linarith
  with big show ?case using base by (simp add: digits_big digits_value_def hex_digit_hexd)
qed

lemma length_digits: "2 \<le> base \<Longrightarrow> n < base ^ Suc k \<Longrightarrow> length (digits base n) \<le> Suc k"
proof (induction k arbitrary: n)
  case 0
  then show ?case by (simp add: digits_small)
next
  case (Suc k)
  show ?case
  proof (cases "n < base")
    case False
    have "n div base < base ^ Suc k" using Suc.prems by (simp add: less_mult_imp_div_less mult.commute)
    with Suc False show ?thesis by (simp add: digits_big)
  qed (simp add: digits_small)
qed

lemma is_digit_hexd: "d < 10 \<Longrightarrow> is_digit (hexd d)"
  by (simp add: is_digit_def of_char_hexd)

lemma hexd_not_punct: "d < 16 \<Longrightarrow> hexd d \<noteq> CHR ''.'' \<and> hexd d \<noteq> CHR '':'' \<and> hexd d \<noteq> CHR ''x'' \<and> hexd d \<noteq> CHR ''X''"
proof -
  have "list_all (\<lambda>d. hexd d \<noteq> CHR ''.'' \<and> hexd d \<noteq> CHR '':'' \<and> hexd d \<noteq> CHR ''x'' \<and> hexd d \<noteq> CHR ''X'') [0..<16]" by code_simp
  then show "d < 16 \<Longrightarrow> hexd d \<noteq> CHR ''.'' \<and> hexd d \<noteq> CHR '':'' \<and> hexd d \<noteq> CHR ''x'' \<and> hexd d \<noteq> CHR ''X''"
    by (simp add: list_all_iff)
qed

lemma hexd_eq_0: "d < 16 \<Longrightarrow> hexd d = CHR ''0'' \<longleftrightarrow> d = 0"
proof -
  have "list_all (\<lambda>d. (hexd d = CHR ''0'') = (d = 0)) [0..<16]" by code_simp
  then show "d < 16 \<Longrightarrow> hexd d = CHR ''0'' \<longleftrightarrow> d = 0" by (simp add: list_all_iff)
qed

lemma punct_simps [simp]: "hex_digit (CHR ''.'') = None" "hex_digit (CHR '':'') = None" "is_digit (CHR ''.'') = False"
  "digit_below base (CHR ''.'') = False" "is_space (CHR ''.'') = False"
proof -
  show "hex_digit (CHR ''.'') = None" "hex_digit (CHR '':'') = None" "is_digit (CHR ''.'') = False" "is_space (CHR ''.'') = False"
    by code_simp+
  then show "digit_below base (CHR ''.'') = False" by (simp add: digit_below_def)
qed

lemma digits_first_0:
  assumes base: "2 \<le> base" and "base \<le> 16"
  shows "hd (digits base n) = CHR ''0'' \<Longrightarrow> n = 0"
  using base
proof (induction n rule: digits_induct)
  case (small n)
  then show ?case using hexd_eq_0 [of n] assms by (simp add: digits_small)
next
  case (big n)
  then have "n div base = 0" using base by (simp add: digits_big digits_nonempty)
  with big base show ?case by (simp add: div_eq_0_iff)
qed

lemma number_digits:
  assumes "2 \<le> base" "base \<le> 16" "rest = [] \<or> \<not> digit_below base (hd rest)"
  shows "number base (digits base n @ rest) = (n, rest)"
proof -
  have all: "c \<in> set (digits base n) \<Longrightarrow> digit_below base c" for c
    using digits_set [OF assms(1), of c n] assms(2) by (auto simp: digit_below_def hex_digit_hexd)
  have "takeWhile (digit_below base) rest = []" "dropWhile (digit_below base) rest = rest"
    using assms(3) by (cases rest; simp)+
  then show ?thesis using all digits_value_digits [OF assms(1,2), of n] by (simp add: number_def takeWhile_append2 dropWhile_append2)
qed

lemma strtoul_0_dec:
  assumes "rest = [] \<or> hd rest = CHR ''.''"
  shows "strtoul_0 (digits 10 n @ rest) = (n, rest)"
proof -
  have x: "c \<in> set (digits 10 n @ take 1 rest) \<Longrightarrow> c \<noteq> CHR ''x'' \<and> c \<noteq> CHR ''X''" for c
    using digits_set [of 10 c n] assms hexd_not_punct by (cases rest) fastforce+
  have "strip_0x (digits 10 n @ rest) = digits 10 n @ rest"
  proof (cases "digits 10 n")
    case (Cons a ds)
    have "b \<noteq> CHR ''x'' \<and> b \<noteq> CHR ''X''" if "ds @ rest = b # bs" for b bs
      using x [of b] Cons that by (cases ds; cases rest) auto
    then show ?thesis using Cons by (auto simp: strip_0x_def split: list.splits)
  qed (simp add: digits_nonempty)
  moreover have "rest = [] \<or> \<not> digit_below base (hd rest)" for base using assms by auto
  moreover have "digits 10 n = digits 8 n" if "hd (digits 10 n) = CHR ''0''"
    using digits_first_0 [of 10 n] that by (simp add: digits_small)
  ultimately show ?thesis
    using number_digits [of 8 rest n] number_digits [of 10 rest n] digits_nonempty [of 10 n]
    by (cases "hd (digits 10 n) = CHR ''0''") (simp_all add: strtoul_0_def)
qed

section \<open>Version 4\<close>

lemma hd_dec: "is_digit (hd (digits 10 n @ rest))"
  using digits_set [of 10 "hd (digits 10 n)" n] digits_nonempty [of 10 n] is_digit_hexd by auto

lemma aton_number: "n < 256 \<Longrightarrow> aton_loop (Suc k) bs (digits 10 n @ CHR ''.'' # rest) = aton_loop k (bs @ [word_of_nat n]) rest"
  using hd_dec [of n "CHR ''.'' # rest"] strtoul_0_dec [of "CHR ''.'' # rest" n]
  by (subst aton_loop.simps) (simp add: digits_nonempty)

lemma aton_last: "n < 256 \<Longrightarrow> aton_loop 0 bs (digits 10 n) = Some (bs @ [word_of_nat n])"
  using hd_dec [of n "[]"] strtoul_0_dec [of "[]" n]
  by (subst aton_loop.simps) (simp add: digits_nonempty)

lemma octets_4: "length bs = 4 \<Longrightarrow> bs = [bs ! 0, bs ! 1, bs ! 2, bs ! 3]"
  by (rule nth_equalityI) (auto simp: less_Suc_eq numeral_eq_Suc nth_Cons split: nat.splits)

lemma aton_ntoa: "length bs = 4 \<Longrightarrow> aton_loop 3 [] (inet_ntoa bs) = Some bs"
  using octets_4 [of bs] aton_number [of _ 2] aton_number [of _ 1] aton_number [of _ 0] unat_u8
  by (simp add: inet_ntoa_def aton_last flip: numeral_3_eq_3 numeral_2_eq_2)


section \<open>Version 6\<close>

lemma pton4_number: "0 < n \<Longrightarrow> n < 256 \<Longrightarrow> pton4_loop (digits 10 n @ rest) bs 0 False = pton4_loop rest bs n True"
proof (induction n arbitrary: rest rule: less_induct)
  case (less n)
  have d: "is_digit (hexd (n mod 10))" "hex_digit (hexd (n mod 10)) = Some (n mod 10)"
    by (simp_all add: is_digit_hexd hex_digit_hexd)
  show ?case
  proof (cases "n < 10")
    case True
    then show ?thesis using d less.prems by (simp add: digits_small)
  next
    case False
    then have "pton4_loop (digits 10 (n div 10) @ hexd (n mod 10) # rest) bs 0 False = pton4_loop (hexd (n mod 10) # rest) bs (n div 10) True"
      using less by simp
    moreover have "n div 10 \<noteq> 0" using False by (simp add: div_eq_0_iff)
    ultimately show ?thesis using False d less.prems by (simp add: digits_big)
  qed
qed

lemma pton4_octet: "pton4_loop (digits 10 (unat (b :: u8)) @ rest) bs 0 False = pton4_loop rest bs (unat b) True"
proof (cases "unat b = 0")
  case True
  have "is_digit (hexd 0)" "hex_digit (hexd 0) = Some 0" by (simp_all add: is_digit_hexd hex_digit_hexd)
  with True show ?thesis by (simp add: digits_small)
qed (use pton4_number unat_u8 in simp)

lemma pton4_ntoa: "length bs = 4 \<Longrightarrow> inet_pton4 (inet_ntoa bs) = Some bs"
  using octets_4 [of bs] pton4_octet [of "bs ! 3" "[]"] by (simp add: inet_ntoa_def inet_pton4_def pton4_octet)

lemma pton6_hex:
  assumes "n < 16 ^ k" "k \<le> 4"
  shows "pton6_loop (digits 16 n @ rest) out c tok 0 0 = pton6_loop rest out c tok (length (digits 16 n)) n"
  using assms
proof (induction n arbitrary: rest k rule: less_induct)
  case (less n)
  have d: "hex_digit (hexd (n mod 16)) = Some (n mod 16)" by (simp add: hex_digit_hexd)
  show ?case
  proof (cases "n < 16")
    case True
    then show ?thesis using d by (simp add: digits_small)
  next
    case False
    with less.prems obtain j where k: "k = Suc (Suc j)" by (cases k; cases "k - 1") auto
    have lt: "n div 16 < 16 ^ Suc j" using less.prems(1) k by (simp add: less_mult_imp_div_less mult.commute)
    have "length (digits 16 (n div 16)) \<le> Suc j" using length_digits [of 16 "n div 16" j] lt by simp
    moreover have "pton6_loop (digits 16 (n div 16) @ hexd (n mod 16) # rest) out c tok 0 0 =
        pton6_loop (hexd (n mod 16) # rest) out c tok (length (digits 16 (n div 16))) (n div 16)"
      using less.IH [of "n div 16" "Suc j"] False lt k less.prems(2) by simp
    ultimately show ?thesis using False d k less.prems(2) by (simp add: digits_big)
  qed
qed

text \<open>Groups, each with a colon in front.\<close>

definition colons :: "nat list \<Rightarrow> string" where
  "colons vs = concat (map (\<lambda>v. CHR '':'' # digits 16 v) vs)"

lemma colons_simps [simp]: "colons [] = []" "colons (v # vs) = CHR '':'' # digits 16 v @ colons vs" "colons (us @ vs) = colons us @ colons vs"
  by (simp_all add: colons_def)

definition octets_of_words :: "nat list \<Rightarrow> octets" where
  "octets_of_words vs = concat (map group_octets vs)"

lemma octets_of_words_simps [simp]: "octets_of_words [] = []" "octets_of_words (v # vs) = group_octets v @ octets_of_words vs"
  "octets_of_words (us @ vs) = octets_of_words us @ octets_of_words vs"
  by (simp_all add: octets_of_words_def)

lemma length_octets_of_words: "length (octets_of_words vs) = 2 * length vs"
  by (induction vs) (simp_all add: group_octets_def)

lemma pton6_groups:
  assumes "0 < saw" "\<forall>w \<in> set vs. w < 65536" "length out + 2 * length vs \<le> 16"
  shows "\<exists>tok' saw'. 0 < saw' \<and> pton6_loop (colons vs @ tail) out c tok saw v =
    pton6_loop tail (out @ octets_of_words (butlast (v # vs))) c tok' saw' (last (v # vs))"
  using assms
proof (induction vs arbitrary: out tok saw v)
  case Nil
  then show ?case by auto
next
  case (Cons w vs)
  let ?rest = "digits 16 w @ colons vs @ tail"
  have "w < 16 ^ 4" using Cons.prems by simp
  then have "pton6_loop ?rest (out @ group_octets v) c ?rest 0 0 =
      pton6_loop (colons vs @ tail) (out @ group_octets v) c ?rest (length (digits 16 w)) w"
    by (rule pton6_hex) simp
  moreover obtain tok' saw' where "0 < saw'" "pton6_loop (colons vs @ tail) (out @ group_octets v) c ?rest (length (digits 16 w)) w =
      pton6_loop tail ((out @ group_octets v) @ octets_of_words (butlast (w # vs))) c tok' saw' (last (w # vs))"
    using Cons.IH [of "length (digits 16 w)" "out @ group_octets v" ?rest w] Cons.prems digits_nonempty [of 16 w]
    by (auto simp: group_octets_def)
  ultimately show ?case using Cons.prems digits_nonempty [of 16 w]
    by (intro exI [of _ tok'] exI [of _ saw']) simp
qed

lemma pton6_end_open: "0 < saw \<Longrightarrow> length out + 2 \<le> 16 \<Longrightarrow>
    pton6_end out c saw v = pton6_end (out @ group_octets v) c 0 0"
  by (simp add: pton6_end_def)

lemma pton6_groups_end:
  assumes "0 < saw" "\<forall>w \<in> set vs. w < 65536" "length out + 2 * length vs + 2 \<le> 16"
  shows "pton6_loop (colons vs) out c tok saw v = pton6_end (out @ octets_of_words (v # vs)) c 0 0"
proof -
  obtain tok' saw' where e: "0 < saw'" "pton6_loop (colons vs @ []) out c tok saw v =
      pton6_loop [] (out @ octets_of_words (butlast (v # vs))) c tok' saw' (last (v # vs))"
    using pton6_groups [OF assms(1,2), where tail = "[]" and out = out and c = c and tok = tok and v = v] assms(3) by auto
  have "octets_of_words [x] = group_octets x" for x by simp
  then have "octets_of_words (v # vs) = octets_of_words (butlast (v # vs)) @ group_octets (last (v # vs))"
    using octets_of_words_simps(3) [of "butlast (v # vs)" "[last (v # vs)]"] by (simp del: butlast.simps last.simps octets_of_words_simps(2,3))
  then show ?thesis
    using e assms(3) by (simp add: pton6_end_open length_octets_of_words del: octets_of_words_simps(2))
qed

text \<open>The two colons, and the groups behind them.\<close>

lemma pton6_double:
  assumes "\<forall>w \<in> set vs. w < 65536" "length out + 2 * length vs \<le> 16"
  shows "pton6_loop (colons vs @ (if vs = [] then '':'' else [])) out None tok 0 0 =
    pton6_end (out @ octets_of_words vs) (Some (length out)) 0 0"
proof (cases vs)
  case (Cons w ws)
  let ?rest = "digits 16 w @ colons ws"
  have "w < 16 ^ 4" using assms Cons by simp
  then have "pton6_loop ?rest out (Some (length out)) ?rest 0 0 = pton6_loop (colons ws) out (Some (length out)) ?rest (length (digits 16 w)) w"
    by (rule pton6_hex) simp
  also have "\<dots> = pton6_end (out @ octets_of_words (w # ws)) (Some (length out)) 0 0"
    using assms Cons digits_nonempty [of 16 w] by (intro pton6_groups_end) auto
  finally show ?thesis using Cons by simp
qed simp

section \<open>Words of an address\<close>

lemma word_at_less: "word_at src i < 65536"
  using unat_u8 [of "src ! (2 * i)"] unat_u8 [of "src ! (2 * i + 1)"] by (simp add: word_at_def)

lemma group_octets_word_at: "group_octets (word_at src i) = [src ! (2 * i), src ! (2 * i + 1)]"
proof -
  have "(256 * unat (src ! (2 * i)) + unat (src ! (2 * i + 1))) div 256 = unat (src ! (2 * i))"
    using unat_u8 [of "src ! (2 * i + 1)"] by simp
  moreover have "256 * x = 0" for x :: u8
  proof -
    have "(256 :: u8) = 0" by simp
    then show ?thesis by (simp only: mult_zero_left)
  qed
  ultimately show ?thesis by (simp add: group_octets_def word_at_def)
qed

lemma octets_of_word_at: "i \<le> j \<Longrightarrow> 2 * j \<le> length src \<Longrightarrow>
    octets_of_words (map (word_at src) [i..<j]) = take (2 * (j - i)) (drop (2 * i) src)"
proof (induction j)
  case (Suc j)
  show ?case
  proof (cases "i = Suc j")
    case False
    with Suc have "octets_of_words (map (word_at src) [i..<Suc j]) = take (2 * (j - i)) (drop (2 * i) src) @ [src ! (2 * j), src ! (2 * j + 1)]"
      by (simp add: group_octets_word_at)
    moreover have "2 * (Suc j - i) = Suc (Suc (2 * (j - i)))" using False Suc.prems by simp
    moreover have "2 * i + 2 * (j - i) = 2 * j" "2 * i + Suc (2 * (j - i)) = 2 * j + 1" using False Suc.prems by simp_all
    ultimately show ?thesis using Suc.prems by (simp add: take_Suc_conv_app_nth)
  qed simp
qed simp

lemma be16_0: "group_octets 0 = [0, 0]"
  by (simp add: group_octets_def)

lemma zero_words: "\<forall>i. b \<le> i \<and> i < b + l \<longrightarrow> word_at src i = 0 \<Longrightarrow> 2 * (b + l) \<le> length src \<Longrightarrow>
    take (2 * l) (drop (2 * b) src) = replicate (2 * l) 0"
proof (induction l)
  case (Suc l)
  have "octets_of_words (map (word_at src) [b..<Suc (b + l)]) = octets_of_words (map (word_at src) [b..<b + l]) @ [0, 0]"
    using Suc.prems be16_0 by simp
  note Suc this octets_of_word_at [of b "Suc (b + l)" src] octets_of_word_at [of b "b + l" src]
  moreover have "replicate (Suc (Suc n)) x = replicate n x @ [x, x]" for n and x :: u8 by (induction n) simp_all
  ultimately show ?case by (simp del: replicate_Suc)
qed simp

section \<open>The longest run\<close>

definition zero_run :: "octets \<Rightarrow> nat \<Rightarrow> (nat \<times> nat) option \<Rightarrow> bool" where
  "zero_run src i r \<longleftrightarrow> (case r of None \<Rightarrow> True
     | Some (b, l) \<Rightarrow> b + l \<le> i \<and> (\<forall>j. b \<le> j \<and> j < b + l \<longrightarrow> word_at src j = 0))"

definition current_run :: "nat \<Rightarrow> (nat \<times> nat) option \<Rightarrow> bool" where
  "current_run i r \<longleftrightarrow> (case r of None \<Rightarrow> True | Some (b, l) \<Rightarrow> b + l = i)"

lemma zero_run_mono: "zero_run src i r \<Longrightarrow> i \<le> j \<Longrightarrow> zero_run src j r"
  by (auto simp: zero_run_def split: option.splits)

lemma zero_run_longer: "zero_run src i cur \<Longrightarrow> zero_run src i best \<Longrightarrow> zero_run src i (longer_run cur best)"
  by (auto simp: longer_run_def split: option.splits)

lemma run_loop_zero:
  "zero_run src i cur \<Longrightarrow> current_run i cur \<Longrightarrow> zero_run src i best \<Longrightarrow> i \<le> n \<Longrightarrow> zero_run src n (run_loop src [i..<n] cur best)"
proof (induction "n - i" arbitrary: i cur best)
  case 0
  then show ?case by (simp add: zero_run_longer)
next
  case (Suc d)
  then have up: "[i..<n] = i # [Suc i..<n]" "d = n - Suc i" "Suc i \<le> n" by (simp_all add: upt_conv_Cons)
  let ?cur = "case cur of None \<Rightarrow> Some (i, 1) | Some (cb, cl) \<Rightarrow> Some (cb, cl + 1)"
  show ?case
  proof (cases "word_at src i = 0")
    case True
    have "zero_run src (Suc i) ?cur" "current_run (Suc i) ?cur"
      using Suc.prems True by (auto simp: zero_run_def current_run_def less_Suc_eq split: option.splits)
    then show ?thesis using Suc.hyps(1) [OF up(2), of ?cur best] up True zero_run_mono [OF Suc.prems(3), of "Suc i"] by simp
  next
    case False
    have "zero_run src (Suc i) (longer_run cur best)" using zero_run_mono [OF zero_run_longer [OF Suc.prems(1,3)], of "Suc i"] by simp
    then show ?thesis using Suc.hyps(1) [OF up(2), of None "longer_run cur best"] up False
      by (simp add: zero_run_def current_run_def)
  qed
qed

lemma best_run_zero:
  assumes "best_run src = Some (b, l)"
  shows "2 \<le> l \<and> b + l \<le> 8 \<and> (\<forall>j. b \<le> j \<and> j < b + l \<longrightarrow> word_at src j = 0)"
proof -
  have "zero_run src 8 (run_loop src [0..<8] None None)"
    by (rule run_loop_zero) (simp_all add: zero_run_def current_run_def)
  then show ?thesis using assms by (auto simp: best_run_def zero_run_def split: option.splits if_splits)
qed

section \<open>The text of an address\<close>

lemma ntop6_none: "0 \<notin> set is \<Longrightarrow> ntop6_loop src None is = colons (map (word_at src) is)"
  by (induction "is") (auto simp: last_colon_def)

lemma ntop6_outside:
  "\<forall>i \<in> set is. i \<noteq> 0 \<and> \<not> (b \<le> i \<and> i < b + l) \<Longrightarrow> \<not> embeds_v4 src (Some (b, l)) \<Longrightarrow>
    ntop6_loop src (Some (b, l)) (is @ js) = colons (map (word_at src) is) @ ntop6_loop src (Some (b, l)) js"
  by (induction "is") auto

lemma ntop6_inside:
  "\<forall>i \<in> set is. b < i \<and> i < b + l \<Longrightarrow> ntop6_loop src (Some (b, l)) (is @ js) = ntop6_loop src (Some (b, l)) js"
  by (induction "is") auto

lemma upt_run: "0 < l \<Longrightarrow> b + l \<le> 8 \<Longrightarrow> [b..<8] = b # [Suc b..<b + l] @ [b + l..<8]"
proof -
  assume "0 < l" "b + l \<le> 8"
  then have "[b..<8] = [b..<b + l] @ [b + l..<8]" "[b..<b + l] = b # [Suc b..<b + l]"
    by (metis le_add1 le_add_diff_inverse upt_add_eq_append) (simp add: upt_conv_Cons \<open>0 < l\<close>)
  then show ?thesis by simp
qed

lemma ntop6_run:
  assumes "2 \<le> l" "b + l \<le> 8" "\<not> embeds_v4 src (Some (b, l))"
  shows "ntop6_loop src (Some (b, l)) [b..<8] = CHR '':'' # colons (map (word_at src) [b + l..<8]) @ (if b + l = 8 then '':'' else [])"
proof -
  have "ntop6_loop src (Some (b, l)) [b..<8] = CHR '':'' # ntop6_loop src (Some (b, l)) ([Suc b..<b + l] @ [b + l..<8])"
    using assms upt_run [of l b] by simp
  also have "\<dots> = CHR '':'' # ntop6_loop src (Some (b, l)) ([b + l..<8] @ [])"
    using assms(1) by (subst ntop6_inside) auto
  also have "\<dots> = CHR '':'' # colons (map (word_at src) [b + l..<8]) @ ntop6_loop src (Some (b, l)) []"
    using assms by (subst ntop6_outside) auto
  finally show ?thesis by (simp add: last_colon_def)
qed

section \<open>Reading the text back\<close>

lemma map_run_Nil: "(map f [b + l..<8] = []) = (8 \<le> b + l)"
  by auto

lemma pton6_run:
  assumes "2 \<le> l" "b + l \<le> 8" "length src = 16" "\<forall>j. b \<le> j \<and> j < b + l \<longrightarrow> word_at src j = 0"
  shows "pton6_loop (colons (map (word_at src) [b + l..<8]) @ (if b + l = 8 then '':'' else [])) (take (2 * b) src) None tok 0 0 = Some src"
proof -
  let ?ws = "map (word_at src) [b + l..<8]"
  have len: "length (take (2 * b) src) = 2 * b" using assms by simp
  have tail: "octets_of_words ?ws = drop (2 * (b + l)) src" using octets_of_word_at [of "b + l" 8 src] assms by simp
  have e: "(if b + l = 8 then '':'' else []) = (if ?ws = [] then '':'' else [])" using assms by auto
  have "pton6_loop (colons ?ws @ (if ?ws = [] then '':'' else [])) (take (2 * b) src) None tok 0 0 =
      pton6_end (take (2 * b) src @ octets_of_words ?ws) (Some (length (take (2 * b) src))) 0 0"
    using assms by (intro pton6_double) (auto simp: word_at_less)
  also have "\<dots> = Some (take (2 * b) src @ replicate (2 * l) 0 @ drop (2 * (b + l)) src)"
    using assms len unfolding tail by (simp add: pton6_end_def Let_def)
  also have "replicate (2 * l) 0 @ drop (2 * (b + l)) src = drop (2 * b) src"
    using zero_words [of b l src] assms append_take_drop_id [of "2 * l" "drop (2 * b) src"] by (simp add: add.commute)
  finally show ?thesis unfolding e by simp
qed

lemma pton6_plain:
  assumes "b + l = 8 \<or> True" "0 < b" "b \<le> 8" "length src = 16" "T \<noteq> []"
  shows "pton6_loop (digits 16 (word_at src 0) @ colons (map (word_at src) [1..<b]) @ CHR '':'' # T) [] None tok 0 0 =
    pton6_loop T (take (2 * b) src) None T 0 0"
proof -
  let ?ws = "map (word_at src) [1..<b]" and ?w0 = "word_at src 0"
  have hex: "pton6_loop (digits 16 ?w0 @ colons ?ws @ CHR '':'' # T) [] None tok 0 0 =
      pton6_loop (colons ?ws @ CHR '':'' # T) [] None tok (length (digits 16 ?w0)) ?w0"
    using word_at_less [of src 0] by (intro pton6_hex [where k = 4]) simp_all
  have "\<exists>tok' saw'. 0 < saw' \<and> pton6_loop (colons ?ws @ CHR '':'' # T) [] None tok (length (digits 16 ?w0)) ?w0 =
      pton6_loop (CHR '':'' # T) ([] @ octets_of_words (butlast (?w0 # ?ws))) None tok' saw' (last (?w0 # ?ws))"
    using digits_nonempty [of 16 ?w0] assms by (intro pton6_groups) (auto simp: word_at_less)
  then obtain tok' saw' where g: "0 < saw'" "pton6_loop (colons ?ws @ CHR '':'' # T) [] None tok (length (digits 16 ?w0)) ?w0 =
      pton6_loop (CHR '':'' # T) ([] @ octets_of_words (butlast (?w0 # ?ws))) None tok' saw' (last (?w0 # ?ws))" by blast
  have ws: "?w0 # ?ws = map (word_at src) [0..<b]" using assms(2) by (simp add: upt_conv_Cons)
  have "butlast (?w0 # ?ws) @ [last (?w0 # ?ws)] = map (word_at src) [0..<b]" unfolding ws using assms(2) by (intro append_butlast_last_id) simp
  then have "octets_of_words (butlast (?w0 # ?ws)) @ group_octets (last (?w0 # ?ws)) = octets_of_words (map (word_at src) [0..<b])"
    by (metis octets_of_words_simps(1,2,3) append_Nil2)
  also have "\<dots> = take (2 * b) src" using octets_of_word_at [of 0 b src] assms by simp
  finally have all: "octets_of_words (butlast (?w0 # ?ws)) @ group_octets (last (?w0 # ?ws)) = take (2 * b) src" .
  have "length (octets_of_words (butlast (?w0 # ?ws))) + 2 \<le> 16" using assms by (simp add: length_octets_of_words del: butlast.simps)
  then show ?thesis using hex g(1) g(2) assms(5) all by (simp del: butlast.simps last.simps)
qed

lemma first_not_colon: "digits 16 n @ rest \<noteq> [] \<and> hd (digits 16 n @ rest) \<noteq> CHR '':''"
proof -
  obtain d where "d < 16" "hd (digits 16 n) = hexd d" using digits_set [of 16 "hd (digits 16 n)" n] digits_nonempty [of 16 n] by auto
  with hexd_not_punct [of d] digits_nonempty [of 16 n] show ?thesis by simp
qed

lemma pton6_ntop6_plain:
  assumes "length src = 16" "best_run src = None"
  shows "inet_pton6 (inet_ntop6 src) = Some src"
proof -
  let ?ws = "map (word_at src) [1..<8]" and ?w0 = "word_at src 0"
  have str: "inet_ntop6 src = digits 16 ?w0 @ colons ?ws"
    using ntop6_none [of "[1..<8]" src] by (simp add: inet_ntop6_def assms(2) upt_conv_Cons)
  have "inet_pton6 (inet_ntop6 src) = pton6_loop (colons ?ws) [] None (digits 16 ?w0 @ colons ?ws) (length (digits 16 ?w0)) ?w0"
    unfolding str inet_pton6_def using first_not_colon [of ?w0 "colons ?ws"] word_at_less [of src 0]
    by (simp add: pton6_hex [where k = 4])
  also have "\<dots> = pton6_end ([] @ octets_of_words (?w0 # ?ws)) None 0 0"
    using digits_nonempty [of 16 ?w0] by (intro pton6_groups_end) (auto simp: word_at_less)
  also have "?w0 # ?ws = map (word_at src) [0..<8]" by (simp add: upt_conv_Cons)
  also have "octets_of_words (map (word_at src) [0..<8]) = src" using octets_of_word_at [of 0 8 src] assms(1) by simp
  finally show ?thesis using assms(1) by (simp add: pton6_end_def)
qed

lemma pton6_ntop6_run:
  assumes "length src = 16" "best_run src = Some (b, l)" "\<not> embeds_v4 src (Some (b, l))"
  shows "inet_pton6 (inet_ntop6 src) = Some src"
proof -
  have run: "2 \<le> l" "b + l \<le> 8" "\<forall>j. b \<le> j \<and> j < b + l \<longrightarrow> word_at src j = 0" using best_run_zero [OF assms(2)] by auto
  define T where "T = colons (map (word_at src) [b + l..<8]) @ (if b + l = 8 then '':'' else [])"
  have T: "T \<noteq> []" "hd T = CHR '':''" unfolding T_def using run(2) by (cases "b + l = 8"; simp add: upt_conv_Cons)+
  have rback: "pton6_loop T (take (2 * b) src) None T 0 0 = Some src" using pton6_run [OF run(1,2) assms(1) run(3)] by (simp add: T_def)
  show ?thesis
  proof (cases "b = 0")
    case True
    have str: "inet_ntop6 src = CHR '':'' # T" using ntop6_run [OF run(1,2) assms(3)] True assms(2) by (simp add: inet_ntop6_def T_def)
    then have "inet_pton6 (inet_ntop6 src) = pton6_loop T (take (2 * b) src) None T 0 0"
      using T True by (simp add: inet_pton6_def)
    then show ?thesis using rback by simp
  next
    case False
    have split: "[0..<8] = 0 # [1..<b] @ [b..<8]" using False run upt_add_eq_append [of 1 b "8 - b"] by (simp add: upt_conv_Cons)
    have str: "inet_ntop6 src = digits 16 (word_at src 0) @ colons (map (word_at src) [1..<b]) @ CHR '':'' # T"
      unfolding inet_ntop6_def assms(2) split
      using ntop6_run [OF run(1,2) assms(3)] ntop6_outside [of "[1..<b]" b l src "[b..<8]"] False assms(3) by (simp add: T_def)
    have "inet_pton6 (inet_ntop6 src) = pton6_loop T (take (2 * b) src) None T 0 0"
      unfolding str inet_pton6_def using first_not_colon [of "word_at src 0"] pton6_plain [of b l src T] False run T assms(1) by simp
    then show ?thesis using rback by simp
  qed
qed

section \<open>Embedded addresses of version 4\<close>

lemma pton6_any_digits:
  "\<forall>c \<in> set ds. hex_digit c \<noteq> None \<Longrightarrow> saw + length ds \<le> 4 \<Longrightarrow>
    \<exists>val'. pton6_loop (ds @ rest) out c tok saw val = pton6_loop rest out c tok (saw + length ds) val'"
proof (induction ds arbitrary: saw val)
  case (Cons d ds)
  obtain x where "hex_digit d = Some x" using Cons.prems by auto
  then show ?case using Cons.IH [of "saw + 1" "16 * val + x"] Cons.prems by auto
qed auto

lemma pton6_v4:
  assumes "length bs = 4" "length out + 4 \<le> 16"
  shows "\<exists>val. pton6_loop (inet_ntoa bs) out c (inet_ntoa bs) 0 0 = pton6_end (out @ bs) c 0 val"
proof -
  let ?n = "unat (bs ! 0)"
  define rest where "rest = digits 10 (unat (bs ! 1)) @ ''.'' @ digits 10 (unat (bs ! 2)) @ ''.'' @ digits 10 (unat (bs ! 3))"
  have str: "inet_ntoa bs = digits 10 ?n @ CHR ''.'' # rest" by (simp add: inet_ntoa_def rest_def)
  have "\<forall>c \<in> set (digits 10 ?n). hex_digit c \<noteq> None" using digits_set [of 10 _ ?n] by (fastforce simp: hex_digit_hexd)
  moreover have "0 + length (digits 10 ?n) \<le> 4" using length_digits [of 10 ?n 2] unat_u8 [of "bs ! 0"] by simp
  ultimately obtain val where "pton6_loop (digits 10 ?n @ CHR ''.'' # rest) out c (inet_ntoa bs) 0 0 =
      pton6_loop (CHR ''.'' # rest) out c (inet_ntoa bs) (0 + length (digits 10 ?n)) val"
    using pton6_any_digits by blast
  then show ?thesis using str pton4_ntoa [OF assms(1)] assms(2) by auto
qed

lemma digits_ffff: "digits 16 0xffff = ''ffff''"
proof -
  have "hexd 15 = CHR ''f''" by code_simp
  then show ?thesis by (simp add: digits_big digits_small)
qed

lemma ntop6_v4:
  assumes "embeds_v4 src (Some (b, l))" "best_run src = Some (b, l)"
  shows "inet_ntop6 src = (if l = 6 then ''::'' else ''::ffff:'') @ inet_ntoa (drop 12 src)"
proof -
  have l: "b = 0" "l = 6 \<or> l = 5 \<and> word_at src 5 = 0xffff" using assms(1) by (auto simp: embeds_v4_def)
  have up: "[0..<8] = [0, 1, 2, 3, 4, 5, 6, 7]" by (simp add: upt_rec)
  from l(2) show ?thesis
  proof
    assume "l = 6"
    then show ?thesis using assms l(1) unfolding inet_ntop6_def up by (simp add: last_colon_def)
  next
    assume "l = 5 \<and> word_at src 5 = 0xffff"
    then show ?thesis using assms l(1) digits_ffff unfolding inet_ntop6_def up by (simp add: last_colon_def)
  qed
qed

lemma pton6_ntop6_v4:
  assumes "length src = 16" "best_run src = Some (b, l)" "embeds_v4 src (Some (b, l))"
  shows "inet_pton6 (inet_ntop6 src) = Some src"
proof -
  have l: "b = 0" "l = 6 \<or> l = 5 \<and> word_at src 5 = 0xffff" using assms(3) by (auto simp: embeds_v4_def)
  have zero: "take (2 * l) src = replicate (2 * l) 0" using zero_words [of 0 l src] best_run_zero [OF assms(2)] l(1) assms(1) by simp
  let ?v4 = "drop 12 src"
  have v4: "length ?v4 = 4" using assms(1) by simp
  show ?thesis
  proof (cases "l = 6")
    case True
    obtain val where "pton6_loop (inet_ntoa ?v4) [] (Some 0) (inet_ntoa ?v4) 0 0 = pton6_end ?v4 (Some 0) 0 val"
      using pton6_v4 [OF v4, of "[]" "Some 0"] by auto
    then have "inet_pton6 (inet_ntop6 src) = pton6_end ?v4 (Some 0) 0 val"
      using ntop6_v4 [OF assms(3,2)] True by (simp add: inet_pton6_def)
    also have "\<dots> = Some (replicate 12 0 @ ?v4)" using v4 by (simp add: pton6_end_def)
    also have "replicate 12 0 @ ?v4 = src" using zero True append_take_drop_id [of 12 src] by simp
    finally show ?thesis .
  next
    case False
    then have five: "l = 5" "word_at src 5 = 0xffff" using l(2) by auto
    obtain val where v: "pton6_loop (inet_ntoa ?v4) (group_octets 0xffff) (Some 0) (inet_ntoa ?v4) 0 0 =
        pton6_end (group_octets 0xffff @ ?v4) (Some 0) 0 val"
      using pton6_v4 [OF v4, of "group_octets 0xffff" "Some 0"] by (auto simp: group_octets_def)
    have ne: "inet_ntoa ?v4 \<noteq> []" by (simp add: inet_ntoa_def)
    have "pton6_loop (digits 16 0xffff @ CHR '':'' # inet_ntoa ?v4) [] (Some 0) tok 0 0 =
        pton6_loop (CHR '':'' # inet_ntoa ?v4) [] (Some 0) tok (length (digits 16 0xffff)) 0xffff" for tok
      by (rule pton6_hex [where k = 4]) simp_all
    then have "pton6_loop (''ffff'' @ CHR '':'' # inet_ntoa ?v4) [] (Some 0) tok 0 0 = pton6_end (group_octets 0xffff @ ?v4) (Some 0) 0 val" for tok
      using v ne unfolding digits_ffff by simp
    then have "inet_pton6 (inet_ntop6 src) = pton6_end (group_octets 0xffff @ ?v4) (Some 0) 0 val"
      using ntop6_v4 [OF assms(3,2)] False by (simp add: inet_pton6_def del: pton6_loop.simps(2)) (simp add: pton6_loop.simps(2) [of "CHR '':''"])
    also have "\<dots> = Some (replicate 10 0 @ group_octets 0xffff @ ?v4)" using v4 by (simp add: pton6_end_def group_octets_def)
    also have "replicate 10 0 @ group_octets 0xffff @ ?v4 = src"
      using zero five group_octets_word_at [of src 5] append_take_drop_id [of 10 src] assms(1)
      by (simp add: Cons_nth_drop_Suc [symmetric])
    finally show ?thesis .
  qed
qed

lemma pton6_ntop6: "length src = 16 \<Longrightarrow> inet_pton6 (inet_ntop6 src) = Some src"
  using pton6_ntop6_plain pton6_ntop6_run pton6_ntop6_v4 by (cases "best_run src") fastforce+

section \<open>The texts as C strings\<close>

definition no_nul :: "string \<Rightarrow> bool" where
  "no_nul s \<longleftrightarrow> (\<forall>c \<in> set s. of_char c \<noteq> (0 :: nat))"

lemma no_nul_simps [simp]: "no_nul []" "no_nul (c # s) \<longleftrightarrow> of_char c \<noteq> (0 :: nat) \<and> no_nul s" "no_nul (s @ t) \<longleftrightarrow> no_nul s \<and> no_nul t"
  by (auto simp: no_nul_def)

lemma c_string_no_nul: "no_nul s \<Longrightarrow> c_string s = s"
  by (auto simp: c_string_def no_nul_def intro: takeWhile_eq_all_conv [THEN iffD2])

lemma no_nul_c_string: "no_nul (c_string s)"
  by (auto simp: c_string_def no_nul_def dest: set_takeWhileD)

lemma no_nul_digits: "base = 10 \<or> base = 16 \<Longrightarrow> no_nul (digits base n)"
  using digits_set [of base _ n] by (fastforce simp: no_nul_def of_char_hexd)

lemma no_nul_ntoa: "no_nul (inet_ntoa bs)"
  by (simp add: inet_ntoa_def no_nul_digits)

lemma no_nul_ntop6: "no_nul (ntop6_loop src best is)"
  by (induction src best "is" rule: ntop6_loop.induct) (auto simp: last_colon_def no_nul_digits no_nul_ntoa split: option.splits)

section \<open>Properties\<close>

text \<open>
  C35. An address of 4 octets, written as text and read, is the same address, and in host order its octets
  are reversed, from either of the two writing functions; an address of 16 octets, written in the shortened
  form of version 6 (with the longest run of zeros left out and addresses of version 4 in their own form), reads
  back as the same address, and no octet of the buffer's old contents is left.
\<close>

theorem inet_roundtrip:
  assumes "length v4 = 4" and "length v6 = 16"
  shows "(\<exists>s. f_inet_ntoa v4 = Inr s \<and> f_inet_addr s = v4 \<and> f_inet_haddr s = rev v4) \<and>
    (\<exists>s. f_inet_hntoa v4 = Inr s \<and> f_inet_haddr s = v4) \<and>
    (\<exists>s. f_inet6_ntoa v6 = Inr s \<and> f_inet6_addr old s = v6)"
proof -
  have r: "length (rev v4) = 4" using assms(1) by simp
  have "no_nul (inet_ntop6 v6)" by (simp add: inet_ntop6_def no_nul_ntop6)
  then show ?thesis
    using assms aton_ntoa [OF assms(1)] aton_ntoa [OF r] pton6_ntop6 [OF assms(2)]
    by (simp add: f_inet_ntoa_def f_inet_hntoa_def f_inet6_ntoa_def f_inet_addr_def f_inet_haddr_def f_inet6_addr_def inet_addr_def
        c_string_no_nul no_nul_ntoa)
qed

theorem inet_roundtrip_witness:
  "\<exists>s t. f_inet_ntoa [192, 0, 2, 1] = Inr s \<and> f_inet_addr s = [192, 0, 2, 1] \<and>
    f_inet6_ntoa [0x20, 0x01, 0x0d, 0xb8, 0, 0, 0, 0, 0, 0, 0, 0, 0, 0, 0, 1] = Inr t \<and>
    f_inet6_addr [] t = [0x20, 0x01, 0x0d, 0xb8, 0, 0, 0, 0, 0, 0, 0, 0, 0, 0, 0, 1]"
  using inet_roundtrip [of "[192, 0, 2, 1]" "[0x20, 0x01, 0x0d, 0xb8, 0, 0, 0, 0, 0, 0, 0, 0, 0, 0, 0, 1]" "[]"] by auto

text \<open>
  The case functions keep what stands behind no character 0 of the text, its length, and are idempotent, each undoing the
  other on what it changed.
\<close>

lemma tolower_idem: "tolower (tolower c) = tolower c" and toupper_idem: "toupper (toupper c) = toupper c"
  and tolower_toupper: "tolower (toupper c) = tolower c" and toupper_tolower: "toupper (tolower c) = toupper c"
  by (auto simp: tolower_def toupper_def)

lemma char_case_nul: "(0 :: nat) < of_char (tolower c) \<longleftrightarrow> (0 :: nat) < of_char c" "(0 :: nat) < of_char (toupper c) \<longleftrightarrow> (0 :: nat) < of_char c"
  by (auto simp: tolower_def toupper_def)

lemma no_nul_case: "no_nul (map tolower s) = no_nul s" "no_nul (map toupper s) = no_nul s"
  by (simp_all add: no_nul_def char_case_nul)

theorem str_case:
  "f_str_tolower (f_str_tolower s) = f_str_tolower s \<and> f_str_toupper (f_str_toupper s) = f_str_toupper s \<and>
   f_str_tolower (f_str_toupper s) = f_str_tolower s \<and> f_str_toupper (f_str_tolower s) = f_str_toupper s \<and>
   length (f_str_tolower s) = length (c_string s)"
  by (simp add: f_str_tolower_def f_str_toupper_def c_string_no_nul no_nul_case no_nul_c_string tolower_idem toupper_idem
      tolower_toupper toupper_tolower)

end
