(* ===== verification/HTTP_Client.thy ===== *)
theory HTTP_Client
  imports Logger SMDPP_Helpers
begin

text \<open>
  The HTTP client of \<^verbatim>\<open>smdpp/http_client.h\<close> and \<^verbatim>\<open>smdpp/rsp_client.cc\<close> down to its calls of libcurl and
  the functions that libcurl calls back. libcurl is an argument: what each of its functions answers may depend on
  all calls before. The world holds the calls, OpenSSL's error queue, the console and the TLS contexts that were set up.
  A handle or a header list of libcurl is a number, a null pointer is \<^term>\<open>None\<close>.
\<close>

unbundle bit_operations_syntax

section \<open>libcurl\<close>

text \<open>The options that are set, and where the data callbacks put what they are given.\<close>

datatype sink = ToBody | ToHeaders

datatype 'c curl_option =
    OPT_URL string
  | OPT_PORT nat
  | OPT_HTTPHEADER "nat option"
  | OPT_POSTFIELDS string
  | OPT_POSTFIELDSIZE nat
  | OPT_WRITEFUNCTION
  | OPT_WRITEDATA sink
  | OPT_HEADERFUNCTION
  | OPT_HEADERDATA sink
  | OPT_SSL_VERIFYPEER int
  | OPT_SSL_VERIFYHOST int
  | OPT_TIMEOUT int
  | OPT_CONNECTTIMEOUT int
  | OPT_SSLCERT string
  | OPT_SSLCERTTYPE string
  | OPT_SSLKEY string
  | OPT_SSLKEYTYPE string
  | OPT_SSL_CTX_FUNCTION
  | OPT_SSL_CTX_DATA "'c list"
  | OPT_VERBOSE int

text \<open>A call with its answer.\<close>

datatype 'c call =
    EasyInit "nat option"
  | SlistAppend "nat option" string "nat option"
  | EasySetopt nat "'c curl_option"
  | EasyPerform nat int
  | EasyGetinfo nat int
  | SlistFreeAll "nat option"
  | EasyCleanup nat

text \<open>What libcurl calls during a transfer: data with its two sizes, and a TLS context that trusts some certificates.\<close>

datatype 'c callback =
    WriteData string u64 u64
  | HeaderData string u64 u64
  | SetupTls "'c list"

record 'c libcurl =
  lib_easy_init :: "'c call list \<Rightarrow> nat option"
  lib_slist_append :: "'c call list \<Rightarrow> nat option \<Rightarrow> string \<Rightarrow> nat option"
  lib_perform :: "'c call list \<Rightarrow> nat \<Rightarrow> 'c callback list \<times> int"
  lib_status :: "'c call list \<Rightarrow> nat \<Rightarrow> int"

section \<open>The world of a transfer\<close>

text \<open>A context: the certificates it trusted before and after the callback, and whether the peer is verified.\<close>

record 'c tls_context =
  store_before :: "'c list"
  ctx_store :: "'c list"
  verify_peer :: bool

text \<open>The errors that OpenSSL has queued, the oldest first.\<close>

type_synonym error_queue = "u64 list"

record 'c world =
  calls :: "'c call list"
  err_queue :: error_queue
  cout :: string
  contexts :: "'c tls_context list"

record response_data =
  body :: string
  statusCode :: "int option"
  headers :: string

text \<open>
  What the callback uses of OpenSSL beside the record \<open>openssl\<close>: the names of a certificate, the index of a common name,
  an entry of a name and its data, the conversion to UTF-8; the extension with the authority key
  identifier and its decoder; the error queue after a failed addition, taking an error from the queue, printing what is
  left of it, and the reason of an error.
\<close>

record ('c, 'n) x509_api =
  issuer_name :: "'c \<Rightarrow> 'n option"
  subject_name :: "'c \<Rightarrow> 'n option"
  cn_index :: "'n \<Rightarrow> int"
  name_entry :: "'n \<Rightarrow> int \<Rightarrow> string option option"
  to_UTF8 :: "string \<Rightarrow> int \<times> string option"
  aki_extension :: "'c \<Rightarrow> octets"
  d2i_akid :: "octets \<Rightarrow> octets option option"
  add_errors :: "'c list \<Rightarrow> 'c \<Rightarrow> error_queue \<Rightarrow> error_queue"
  get_error :: "error_queue \<Rightarrow> u64 \<times> error_queue"
  print_errors :: "error_queue \<Rightarrow> error_queue"
  error_reason :: "u64 \<Rightarrow> int"

definition issue :: "'c call \<Rightarrow> 'c world \<Rightarrow> 'c world" where
  "issue c w = w\<lparr>calls := calls w @ [c]\<rparr>"

section \<open>Callbacks\<close>

text \<open>The product of the sizes wraps; appending reads that many characters of the data.\<close>

definition writeCallback :: "string \<Rightarrow> u64 \<Rightarrow> u64 \<Rightarrow> string \<Rightarrow> (u64 \<times> string) result" where
  "writeCallback data sz nmemb response =
     (let realSize = sz * nmemb in
      if unat realSize \<le> length data then Inr (realSize, response @ take (unat realSize) data) else Inl OutOfBounds)"

definition headerCallback :: "string \<Rightarrow> u64 \<Rightarrow> u64 \<Rightarrow> string \<Rightarrow> (u64 \<times> string) result" where
  "headerCallback data sz nmemb heads =
     (let realSize = sz * nmemb in
      if unat realSize \<le> length data then Inr (realSize, heads @ take (unat realSize) data) else Inl OutOfBounds)"

definition get_cn_name :: "('c, 'n) x509_api \<Rightarrow> 'n option \<Rightarrow> string" where
  "get_cn_name x name =
     (case name of None \<Rightarrow> []
      | Some n \<Rightarrow> if cn_index x n < 0 then []
          else (case name_entry x n (cn_index x n) of None \<Rightarrow> []
            | Some None \<Rightarrow> []
            | Some (Some data) \<Rightarrow>
                (case to_UTF8 x data of
                   (ret, None) \<Rightarrow> []
                 | (ret, Some utf8) \<Rightarrow> if ret = 0 then [] else c_string utf8)))"

definition getAuthorityKeyIdentifier :: "('c, 'n) x509_api \<Rightarrow> 'c \<Rightarrow> octets" where
  "getAuthorityKeyIdentifier x c =
     (if aki_extension x c = [] then []
      else (case d2i_akid x (aki_extension x c) of Some (Some keyid) \<Rightarrow> keyid | _ \<Rightarrow> []))"

definition pool_message :: "('c, 'p, 'k) openssl \<Rightarrow> ('c, 'n) x509_api \<Rightarrow> 'c \<Rightarrow> string result" where
  "pool_message ssl x c =
     map_result (\<lambda>ski. ''ADDED Issuer: '' @ get_cn_name x (issuer_name x c) @ '' Subject: '' @ get_cn_name x (subject_name x c) @
         '' SKI: '' @ bytesToHex ski @ '' AKI: '' @ bytesToHex (getAuthorityKeyIdentifier x c))
       (getSubjectKeyIdentifier ssl c)"

definition X509_R_CERT_ALREADY_IN_HASH_TABLE :: int where
  "X509_R_CERT_ALREADY_IN_HASH_TABLE = 101"

text \<open>A certificate that cannot be added is a warning; after an error other than a duplicate OpenSSL prints the queue to \<^verbatim>\<open>stderr\<close>.\<close>

definition add_failed :: "('c, 'n) x509_api \<Rightarrow> 'c list \<Rightarrow> 'c \<Rightarrow> 'c world \<Rightarrow> 'c world" where
  "add_failed x store c w =
     (let (err, q) = get_error x (add_errors x store c (err_queue w)) in
      w\<lparr>cout := cout w @ ''Warning: Could not add certificate'' @ newline,
        err_queue := (if error_reason x err \<noteq> X509_R_CERT_ALREADY_IN_HASH_TABLE then print_errors x q else q)\<rparr>)"

fun add_pool :: "('c, 'p, 'k) openssl \<Rightarrow> ('c, 'n) x509_api \<Rightarrow> string \<Rightarrow> 'c list \<Rightarrow> 'c list \<times> 'c world \<Rightarrow> ('c list \<times> 'c world) result" where
  "add_pool ssl x now [] (store, w) = Inr (store, w)"
| "add_pool ssl x now (c # cs) (store, w) =
     bind_result (pool_message ssl x c) (\<lambda>message.
       let w = w\<lparr>cout := debug now message (Some ''rsp_client.cc'') 961 (cout w)\<rparr> in
       if store_add_cert ssl store c = StoreAdded then add_pool ssl x now cs (store @ [c], w)
       else add_pool ssl x now cs (store, add_failed x store c w))"

text \<open>The result is \<^verbatim>\<open>CURLE_OK\<close>, 0, in every case.\<close>

definition sslCtxFunction :: "('c, 'p, 'k) openssl \<Rightarrow> ('c, 'n) x509_api \<Rightarrow> string \<Rightarrow> 'c list \<Rightarrow> 'c list \<Rightarrow> 'c world \<Rightarrow>
    (int \<times> 'c world) result" where
  "sslCtxFunction ssl x now certPool store w =
     map_result (\<lambda>(store', w). (0, w\<lparr>contexts := contexts w @
         [\<lparr>store_before = store, ctx_store = store', verify_peer = True\<rparr>]\<rparr>))
       (add_pool ssl x now certPool (store, w))"

section \<open>Options in force\<close>

text \<open>The options of a handle, the newest first, and the newest of a kind.\<close>

definition latest :: "('o \<Rightarrow> 'a option) \<Rightarrow> 'o list \<Rightarrow> 'a option" where
  "latest f opts = (case List.map_filter f opts of [] \<Rightarrow> None | a # as \<Rightarrow> Some a)"

definition the_url :: "'c curl_option \<Rightarrow> string option" where
  "the_url opt = (case opt of OPT_URL s \<Rightarrow> Some s | _ \<Rightarrow> None)"
definition the_port :: "'c curl_option \<Rightarrow> nat option" where
  "the_port opt = (case opt of OPT_PORT n \<Rightarrow> Some n | _ \<Rightarrow> None)"
definition the_header_list :: "'c curl_option \<Rightarrow> nat option option" where
  "the_header_list opt = (case opt of OPT_HTTPHEADER l \<Rightarrow> Some l | _ \<Rightarrow> None)"
definition the_postfields :: "'c curl_option \<Rightarrow> string option" where
  "the_postfields opt = (case opt of OPT_POSTFIELDS s \<Rightarrow> Some s | _ \<Rightarrow> None)"
definition the_postfieldsize :: "'c curl_option \<Rightarrow> nat option" where
  "the_postfieldsize opt = (case opt of OPT_POSTFIELDSIZE n \<Rightarrow> Some n | _ \<Rightarrow> None)"
definition the_writedata :: "'c curl_option \<Rightarrow> sink option" where
  "the_writedata opt = (case opt of OPT_WRITEDATA s \<Rightarrow> Some s | _ \<Rightarrow> None)"
definition the_headerdata :: "'c curl_option \<Rightarrow> sink option" where
  "the_headerdata opt = (case opt of OPT_HEADERDATA s \<Rightarrow> Some s | _ \<Rightarrow> None)"
definition the_verifypeer :: "'c curl_option \<Rightarrow> int option" where
  "the_verifypeer opt = (case opt of OPT_SSL_VERIFYPEER i \<Rightarrow> Some i | _ \<Rightarrow> None)"
definition the_verifyhost :: "'c curl_option \<Rightarrow> int option" where
  "the_verifyhost opt = (case opt of OPT_SSL_VERIFYHOST i \<Rightarrow> Some i | _ \<Rightarrow> None)"
definition the_sslcert :: "'c curl_option \<Rightarrow> string option" where
  "the_sslcert opt = (case opt of OPT_SSLCERT s \<Rightarrow> Some s | _ \<Rightarrow> None)"
definition the_sslcerttype :: "'c curl_option \<Rightarrow> string option" where
  "the_sslcerttype opt = (case opt of OPT_SSLCERTTYPE s \<Rightarrow> Some s | _ \<Rightarrow> None)"
definition the_sslkey :: "'c curl_option \<Rightarrow> string option" where
  "the_sslkey opt = (case opt of OPT_SSLKEY s \<Rightarrow> Some s | _ \<Rightarrow> None)"
definition the_ctx_data :: "'c curl_option \<Rightarrow> 'c list option" where
  "the_ctx_data opt = (case opt of OPT_SSL_CTX_DATA cs \<Rightarrow> Some cs | _ \<Rightarrow> None)"

lemmas option_kind_defs = the_url_def the_port_def the_header_list_def the_postfields_def the_postfieldsize_def
  the_writedata_def the_headerdata_def the_verifypeer_def the_verifyhost_def the_sslcert_def the_sslcerttype_def
  the_sslkey_def the_ctx_data_def

section \<open>The transfer\<close>

text \<open>
  libcurl hands data to the functions and data pointers that were set for it. Without a function of the
  client it would write to the standard output; without the context function no certificates are added.
\<close>

definition into :: "sink option \<Rightarrow> (string \<Rightarrow> (u64 \<times> string) result) \<Rightarrow> response_data \<Rightarrow> response_data result" where
  "into s f r = (case s of None \<Rightarrow> Inl OutOfBounds
     | Some ToBody \<Rightarrow> map_result (\<lambda>(n, t). r\<lparr>body := t\<rparr>) (f (body r))
     | Some ToHeaders \<Rightarrow> map_result (\<lambda>(n, t). r\<lparr>headers := t\<rparr>) (f (headers r)))"

fun run_callback :: "('c, 'p, 'k) openssl \<Rightarrow> ('c, 'n) x509_api \<Rightarrow> string \<Rightarrow> 'c curl_option list \<Rightarrow> 'c callback \<Rightarrow>
    response_data \<times> 'c world \<Rightarrow> (response_data \<times> 'c world) result" where
  "run_callback ssl x now opts (WriteData data n m) (r, w) =
     (if OPT_WRITEFUNCTION \<in> set opts
      then map_result (\<lambda>r. (r, w)) (into (latest the_writedata opts) (writeCallback data n m) r)
      else Inr (r, w\<lparr>cout := cout w @ data\<rparr>))"
| "run_callback ssl x now opts (HeaderData data n m) (r, w) =
     (if OPT_HEADERFUNCTION \<in> set opts
      then map_result (\<lambda>r. (r, w)) (into (latest the_headerdata opts) (headerCallback data n m) r)
      else Inr (r, w))"
| "run_callback ssl x now opts (SetupTls store) (r, w) =
     (if OPT_SSL_CTX_FUNCTION \<in> set opts
      then (case latest the_ctx_data opts of None \<Rightarrow> Inl OutOfBounds
        | Some pool \<Rightarrow> map_result (\<lambda>(code, w). (r, w)) (sslCtxFunction ssl x now pool store w))
      else Inr (r, w))"

fun run_callbacks :: "('c, 'p, 'k) openssl \<Rightarrow> ('c, 'n) x509_api \<Rightarrow> string \<Rightarrow> 'c curl_option list \<Rightarrow> 'c callback list \<Rightarrow>
    response_data \<times> 'c world \<Rightarrow> (response_data \<times> 'c world) result" where
  "run_callbacks ssl x now opts [] s = Inr s"
| "run_callbacks ssl x now opts (c # cs) s =
     bind_result (run_callback ssl x now opts c s) (run_callbacks ssl x now opts cs)"

text \<open>Appending a header replaces the list by what libcurl answers, a null pointer included.\<close>

definition add_header :: "'c libcurl \<Rightarrow> string \<Rightarrow> nat option \<times> 'c world \<Rightarrow> nat option \<times> 'c world" where
  "add_header lib s = (\<lambda>(l, w).
     (let r = lib_slist_append lib (calls w) l (c_string s) in (r, issue (SlistAppend l (c_string s) r) w)))"

definition make_headers :: "'c libcurl \<Rightarrow> post_config \<Rightarrow> 'c world \<Rightarrow> nat option \<times> 'c world" where
  "make_headers lib config w = fold (add_header lib) (post_headers config) (None, w)"

definition mutual_tls_options :: "post_config \<Rightarrow> 'c curl_option list" where
  "mutual_tls_options config =
     (if useMutualTLS config then
        (if clientCertPath config \<noteq> [] then
           [OPT_SSLCERT (c_string (clientCertPath config)),
            OPT_SSLCERTTYPE (if contains (clientCertPath config) ''.der'' \<or> contains (clientCertPath config) ''.DER''
              then ''DER'' else ''PEM'')]
         else []) @
        (if clientKeyPath config \<noteq> [] then
           [OPT_SSLKEY (c_string (clientKeyPath config)), OPT_SSLKEYTYPE ''PEM'']
         else [])
      else [])"

definition post_options :: "string \<Rightarrow> nat \<Rightarrow> nat option \<Rightarrow> string \<Rightarrow> 'c list \<Rightarrow> bool \<Rightarrow> post_config \<Rightarrow> 'c curl_option list" where
  "post_options url port heads jsonData certPool verboseOutput config =
     [OPT_URL (c_string url), OPT_PORT port, OPT_HTTPHEADER heads, OPT_POSTFIELDS jsonData,
      OPT_POSTFIELDSIZE (length jsonData), OPT_WRITEFUNCTION, OPT_WRITEDATA ToBody, OPT_HEADERFUNCTION,
      OPT_HEADERDATA ToHeaders, OPT_SSL_VERIFYPEER 1, OPT_SSL_VERIFYHOST 2, OPT_TIMEOUT 30, OPT_CONNECTTIMEOUT 10] @
     mutual_tls_options config @
     [OPT_SSL_CTX_FUNCTION, OPT_SSL_CTX_DATA certPool, OPT_VERBOSE (if verboseOutput then 1 else 0)]"

definition set_options :: "nat \<Rightarrow> 'c curl_option list \<Rightarrow> 'c world \<Rightarrow> 'c world" where
  "set_options h opts w = fold (\<lambda>opt. issue (EasySetopt h opt)) opts w"

definition release :: "nat \<Rightarrow> nat option \<Rightarrow> 'c world \<Rightarrow> 'c world" where
  "release h heads w = issue (EasyCleanup h) (issue (SlistFreeAll heads) w)"

text \<open>The block under \<^verbatim>\<open>try\<close>, and the function.\<close>

definition try_post :: "'c libcurl \<Rightarrow> ('c, 'p, 'k) openssl \<Rightarrow> ('c, 'n) x509_api \<Rightarrow> string \<Rightarrow> nat \<Rightarrow> nat option \<Rightarrow> 'c curl_option list \<Rightarrow>
    'c world \<Rightarrow> response_data result \<times> 'c world" where
  "try_post lib ssl x now h heads opts w =
     (let w = set_options h opts w;
          (cbs, res) = lib_perform lib (calls w) h;
          w = issue (EasyPerform h res) w in
      case run_callbacks ssl x now (rev opts) cbs (\<lparr>body = [], statusCode = None, headers = []\<rparr>, w) of
        Inl e \<Rightarrow> (Inl e, w)
      | Inr (response, w) \<Rightarrow>
          if res \<noteq> 0 then (Inl Thrown, w)
          else let status = lib_status lib (calls w) h;
                   w = issue (EasyGetinfo h status) w
               in (Inr (response\<lparr>statusCode := Some status\<rparr>), release h heads w))"

definition http_postJson :: "'c libcurl \<Rightarrow> ('c, 'p, 'k) openssl \<Rightarrow> ('c, 'n) x509_api \<Rightarrow> string \<Rightarrow> string \<Rightarrow> nat \<Rightarrow> string \<Rightarrow> 'c list \<Rightarrow>
    bool \<Rightarrow> post_config \<Rightarrow> 'c world \<Rightarrow> response_data result \<times> 'c world" where
  "http_postJson lib ssl x now url port jsonData certPool verboseOutput config w =
     (let curl = lib_easy_init lib (calls w); w = issue (EasyInit curl) w in
      case curl of None \<Rightarrow> (Inl Thrown, w)
      | Some h \<Rightarrow>
          (let (heads, w) = make_headers lib config w;
               (r, w) = try_post lib ssl x now h heads (post_options url port heads jsonData certPool verboseOutput config) w
           in if r = Inl Thrown then (Inl Thrown, release h heads w) else (r, w)))"

end
