(* ===== verification/HTTP_Usage.thy ===== *)
theory HTTP_Usage
  imports HTTP_Client
begin

text \<open>
  The rules of libcurl as a checker of call sequences: a handle is used between its creation and its
  cleanup, which happens once; a header list is extended and set while it is allocated and freed once, and not before a
  transfer that uses it. The HTTP client keeps the rules whatever libcurl answers, and leaves no handle behind; and no header
  list, unless appending a header fails.
\<close>

section \<open>The checker\<close>

text \<open>The live handles with their options, the newest first, and the allocated lists.\<close>

record 'c usage =
  handles :: "nat \<rightharpoonup> 'c curl_option list"
  slists :: "nat \<rightharpoonup> string list"

definition usage_start :: "'c usage" where
  "usage_start = \<lparr>handles = (\<lambda>h. None), slists = (\<lambda>l. None)\<rparr>"

definition list_live :: "'c usage \<Rightarrow> nat option \<Rightarrow> bool" where
  "list_live u l = (case l of None \<Rightarrow> True | Some a \<Rightarrow> slists u a \<noteq> None)"

lemma list_live_simps [simp]:
  "list_live u None" "list_live u (Some a) \<longleftrightarrow> slists u a \<noteq> None" "list_live (handles_update g u) l = list_live u l"
  by (simp_all add: list_live_def split: option.split)

definition free_list :: "nat option \<Rightarrow> (nat \<rightharpoonup> string list) \<Rightarrow> (nat \<rightharpoonup> string list)" where
  "free_list l m = (case l of None \<Rightarrow> m | Some a \<Rightarrow> m(a := None))"

text \<open>Appending to a list yields the same list, appending to none a new one.\<close>

fun curl_step :: "'c usage \<Rightarrow> 'c call \<Rightarrow> 'c usage option" where
  "curl_step u (EasyInit None) = Some u"
| "curl_step u (EasyInit (Some h)) =
     (if handles u h = None then Some (u\<lparr>handles := (handles u)(h \<mapsto> [])\<rparr>) else None)"
| "curl_step u (SlistAppend l s None) = (if list_live u l then Some u else None)"
| "curl_step u (SlistAppend None s (Some r)) =
     (if slists u r = None then Some (u\<lparr>slists := (slists u)(r \<mapsto> [s])\<rparr>) else None)"
| "curl_step u (SlistAppend (Some a) s (Some r)) =
     (case slists u a of None \<Rightarrow> None
      | Some xs \<Rightarrow> if r = a then Some (u\<lparr>slists := (slists u)(a \<mapsto> xs @ [s])\<rparr>) else None)"
| "curl_step u (EasySetopt h opt) =
     (case handles u h of None \<Rightarrow> None
      | Some opts \<Rightarrow>
          if (case the_header_list opt of None \<Rightarrow> True | Some l \<Rightarrow> list_live u l)
          then Some (u\<lparr>handles := (handles u)(h \<mapsto> opt # opts)\<rparr>) else None)"
| "curl_step u (EasyPerform h code) =
     (case handles u h of None \<Rightarrow> None
      | Some opts \<Rightarrow> (case latest the_header_list opts of None \<Rightarrow> Some u
          | Some l \<Rightarrow> if list_live u l then Some u else None))"
| "curl_step u (EasyGetinfo h st) = (if handles u h \<noteq> None then Some u else None)"
| "curl_step u (SlistFreeAll l) = (if list_live u l then Some (u\<lparr>slists := free_list l (slists u)\<rparr>) else None)"
| "curl_step u (EasyCleanup h) = (if handles u h \<noteq> None then Some (u\<lparr>handles := (handles u)(h := None)\<rparr>) else None)"

fun check :: "'c usage \<Rightarrow> 'c call list \<Rightarrow> 'c usage option" where
  "check u [] = Some u"
| "check u (c # cs) = (case curl_step u c of None \<Rightarrow> None | Some u' \<Rightarrow> check u' cs)"

definition usage_of :: "'c world \<Rightarrow> 'c usage option" where
  "usage_of w = check usage_start (calls w)"

text \<open>The documented answers of libcurl: a new handle is not in use, a new list is not allocated, a list keeps its address.\<close>

definition lib_ok :: "'c libcurl \<Rightarrow> bool" where
  "lib_ok lib \<longleftrightarrow> (\<forall>cs u. check usage_start cs = Some u \<longrightarrow>
     (\<forall>h. lib_easy_init lib cs = Some h \<longrightarrow> handles u h = None) \<and>
     (\<forall>s r. lib_slist_append lib cs None s = Some r \<longrightarrow> slists u r = None) \<and>
     (\<forall>a s r. lib_slist_append lib cs (Some a) s = Some r \<longrightarrow> r = a))"

definition append_failed :: "'c call \<Rightarrow> bool" where
  "append_failed c = (case c of SlistAppend l s None \<Rightarrow> True | _ \<Rightarrow> False)"

section \<open>Checking sequences\<close>

lemma check_append: "check u (cs @ ds) = (case check u cs of None \<Rightarrow> None | Some u' \<Rightarrow> check u' ds)"
  by (induction cs arbitrary: u) (auto split: option.splits)

lemma usage_of_issue [simp]:
  "usage_of (issue c w) = (case usage_of w of None \<Rightarrow> None | Some u \<Rightarrow> curl_step u c)"
  by (auto simp: usage_of_def issue_def check_append split: option.splits)

lemma calls_issue [simp]: "calls (issue c w) = calls w @ [c]"
  by (simp add: issue_def)

lemma lib_okD:
  assumes "lib_ok lib" "usage_of w = Some u"
  shows "lib_easy_init lib (calls w) = Some h \<Longrightarrow> handles u h = None"
    "lib_slist_append lib (calls w) None s = Some r \<Longrightarrow> slists u r = None"
    "lib_slist_append lib (calls w) (Some a) s = Some r \<Longrightarrow> r = a"
  using assms by (auto simp: lib_ok_def usage_of_def)

section \<open>The header list\<close>

text \<open>
  While headers are appended: the list under construction is not one of the lists before, and those stay. If
  no append failed, it is the only new list and holds the headers.
\<close>

definition building :: "'c usage \<Rightarrow> string list \<Rightarrow> nat option \<Rightarrow> 'c usage \<Rightarrow> bool \<Rightarrow> bool" where
  "building u ss l u' clean \<longleftrightarrow>
     handles u' = handles u \<and> slists u \<subseteq>\<^sub>m slists u' \<and> list_live u' l \<and> (\<forall>a. l = Some a \<longrightarrow> slists u a = None) \<and>
     (clean \<longrightarrow> (case l of None \<Rightarrow> ss = [] \<and> slists u' = slists u
        | Some a \<Rightarrow> slists u' = (slists u)(a \<mapsto> map c_string ss)))"

lemma add_header_building:
  assumes lib: "lib_ok lib" and u: "usage_of w = Some u'" and b: "building u ss l u' clean"
    and step: "add_header lib s (l, w) = (l', w')"
  shows "\<exists>u''. usage_of w' = Some u'' \<and> building u (ss @ [s]) l' u'' (clean \<and> l' \<noteq> None)"
proof -
  have w': "w' = issue (SlistAppend l (c_string s) l') w" and l': "l' = lib_slist_append lib (calls w) l (c_string s)"
    using step by (auto simp: add_header_def Let_def)
  show ?thesis
  proof (cases l')
    case None
    then show ?thesis using b u w' by (auto simp: building_def)
  next
    case (Some r)
    note fresh = lib_okD(2) [OF lib u, of "c_string s" r] and same = lib_okD(3) [OF lib u, of _ "c_string s" r]
    show ?thesis
    proof (cases l)
      case None
      with Some l' fresh have "slists u' r = None" by simp
      moreover have "slists u r = None"
        using calculation b unfolding building_def map_le_def by (metis domIff)
      ultimately show ?thesis
        using b u w' None Some by (auto simp: building_def map_le_def)
    next
      case (Some a)
      with \<open>l' = Some r\<close> l' same have "r = a" by simp
      moreover obtain xs where "slists u' a = Some xs" using b Some by (auto simp: building_def)
      ultimately show ?thesis
        using b u w' Some \<open>l' = Some r\<close> by (auto simp: building_def map_le_def)
    qed
  qed
qed

lemma add_header_frame:
  "add_header lib s (l, w) = (l', w') \<Longrightarrow> calls w' = calls w @ [SlistAppend l (c_string s) l']"
  by (auto simp: add_header_def Let_def)

lemma headers_building:
  assumes "lib_ok lib" "usage_of w = Some u" "fold (add_header lib) ss (None, w) = (l, w')"
  shows "\<exists>new u'. calls w' = calls w @ new \<and> usage_of w' = Some u' \<and> building u ss l u' (\<not> list_ex append_failed new)"
  using assms(3)
proof (induction ss arbitrary: l w' rule: rev_induct)
  case Nil
  then show ?case using assms(2) by (auto simp: building_def)
next
  case (snoc s ss)
  obtain l0 w0 where fold: "fold (add_header lib) ss (None, w) = (l0, w0)" by fastforce
  then have step: "add_header lib s (l0, w0) = (l, w')" using snoc.prems by simp
  obtain new u' where IH: "calls w0 = calls w @ new" "usage_of w0 = Some u'" "building u ss l0 u' (\<not> list_ex append_failed new)"
    using snoc.IH [OF fold] by auto
  obtain u'' where u'': "usage_of w' = Some u''"
    "building u (ss @ [s]) l u'' (\<not> list_ex append_failed new \<and> l \<noteq> None)"
    using add_header_building [OF assms(1) IH(2,3) step] by auto
  have "calls w' = calls w @ new @ [SlistAppend l0 (c_string s) l]"
    using add_header_frame [OF step] IH(1) by simp
  moreover have "(\<not> list_ex append_failed (new @ [SlistAppend l0 (c_string s) l])) = (\<not> list_ex append_failed new \<and> l \<noteq> None)"
    by (auto simp: append_failed_def split: option.splits)
  ultimately show ?case using u'' by (intro exI [of _ "new @ [SlistAppend l0 (c_string s) l]"] exI [of _ u'']) simp
qed

section \<open>Options and callbacks\<close>

lemma calls_set_options [simp]: "calls (set_options h opts w) = calls w @ map (EasySetopt h) opts"
  by (induction opts arbitrary: w) (simp_all add: set_options_def)

lemma usage_set_options:
  assumes "usage_of w = Some u" "handles u h = Some os"
    "\<forall>opt\<in>set opts. \<forall>l. the_header_list opt = Some l \<longrightarrow> list_live u l"
  shows "usage_of (set_options h opts w) = Some (u\<lparr>handles := (handles u)(h \<mapsto> rev opts @ os)\<rparr>)"
  using assms
proof (induction opts arbitrary: w u os)
  case Nil
  then have "(handles u)(h \<mapsto> os) = handles u" by auto
  with Nil show ?case by (simp add: set_options_def)
next
  case (Cons opt opts)
  let ?u = "u\<lparr>handles := (handles u)(h \<mapsto> opt # os)\<rparr>"
  have "usage_of (issue (EasySetopt h opt) w) = Some ?u"
    using Cons.prems by (auto split: option.splits)
  moreover have "\<forall>o'\<in>set opts. \<forall>l. the_header_list o' = Some l \<longrightarrow> list_live ?u l"
    using Cons.prems(3) by simp
  ultimately have "usage_of (set_options h opts (issue (EasySetopt h opt) w)) =
      Some (?u\<lparr>handles := (handles ?u)(h \<mapsto> rev opts @ opt # os)\<rparr>)"
    by (intro Cons.IH) simp_all
  then show ?case by (simp add: set_options_def fun_upd_def if_distrib cong: if_cong)
qed

lemma add_pool_calls: "add_pool ssl x now cs (store, w) = Inr (store', w') \<Longrightarrow> calls w' = calls w"
proof (induction cs arbitrary: store w)
  case (Cons c cs)
  then show ?case
    by (auto simp: Let_def add_failed_def split: if_splits prod.splits dest: Cons.IH)
qed simp

lemma run_callback_calls: "run_callback ssl x now opts c (r, w) = Inr (r', w') \<Longrightarrow> calls w' = calls w"
  by (cases c) (auto simp: sslCtxFunction_def split: if_splits option.splits prod.splits dest: add_pool_calls)

lemma run_callbacks_calls: "run_callbacks ssl x now opts cs (r, w) = Inr (r', w') \<Longrightarrow> calls w' = calls w"
proof (induction cs arbitrary: r w)
  case (Cons c cs)
  then obtain r1 w1 where "run_callback ssl x now opts c (r, w) = Inr (r1, w1)"
    "run_callbacks ssl x now opts cs (r1, w1) = Inr (r', w')" by auto
  with Cons.IH run_callback_calls show ?case by metis
qed simp

text \<open>A callback can only fail by reading outside what it is given.\<close>

lemma add_pool_failure: "add_pool ssl x now cs (store, w) = Inl e \<Longrightarrow> e = OutOfBounds"
proof (induction cs arbitrary: store w)
  case (Cons c cs)
  show ?case
  proof (cases "pool_message ssl x c")
    case (Inl d)
    then have "d = OutOfBounds"
      by (auto simp: pool_message_def map_result_def getSubjectKeyIdentifier_def Let_def split: sum.splits if_splits option.splits)
    with Inl Cons.prems show ?thesis by simp
  next
    case (Inr m)
    with Cons.prems show ?thesis by (auto simp: Let_def split: if_splits dest: Cons.IH)
  qed
qed simp

lemma run_callback_failure: "run_callback ssl x now opts c (r, w) = Inl e \<Longrightarrow> e = OutOfBounds"
  by (cases c) (auto simp: sslCtxFunction_def into_def writeCallback_def headerCallback_def map_result_def Let_def
    split: if_splits option.splits sum.splits prod.splits sink.splits dest: add_pool_failure)

lemma run_callbacks_failure: "run_callbacks ssl x now opts cs (r, w) = Inl e \<Longrightarrow> e = OutOfBounds"
proof (induction cs arbitrary: r w)
  case (Cons c cs)
  show ?case
  proof (cases "run_callback ssl x now opts c (r, w)")
    case (Inl d)
    with Cons.prems run_callback_failure show ?thesis by auto
  next
    case (Inr rw)
    with Cons.prems Cons.IH show ?thesis by (cases rw) auto
  qed
qed simp

lemma usage_of_calls: "calls w' = calls w \<Longrightarrow> usage_of w' = usage_of w"
  by (simp add: usage_of_def)

section \<open>The transfer keeps the rules\<close>

lemma list_options [simp]:
  "opt \<in> set (post_options url port heads jsonData certPool verboseOutput config) \<Longrightarrow>
   the_header_list opt = Some l \<longleftrightarrow> opt = OPT_HTTPHEADER heads \<and> l = heads"
  by (auto simp: post_options_def mutual_tls_options_def the_header_list_def split: if_splits)

lemma latest_header_list:
  "latest the_header_list (rev (post_options url port heads jsonData certPool verboseOutput config)) = Some heads"
  by (simp add: latest_def post_options_def mutual_tls_options_def the_header_list_def map_filter_simps)

text \<open>After the release, the handle and the list under construction are gone.\<close>

lemma usage_release:
  assumes "usage_of w = Some u" "handles u h \<noteq> None" "list_live u l"
  shows "usage_of (release h l w) = Some (u\<lparr>handles := (handles u)(h := None), slists := free_list l (slists u)\<rparr>)"
  using assms by (simp add: release_def)

lemma try_post_usage:
  assumes u: "usage_of w = Some u" "handles u h = Some []" and l: "list_live u l"
    and opts: "opts = post_options url port l jsonData certPool verboseOutput config"
    and t: "try_post lib ssl x now h l opts w = (r, w')" and r: "r \<noteq> Inl OutOfBounds"
  shows "\<exists>new. calls w' = calls w @ new \<and> \<not> list_ex append_failed new \<and>
     usage_of w' = (if r = Inl Thrown then Some (u\<lparr>handles := (handles u)(h \<mapsto> rev opts)\<rparr>)
       else Some (u\<lparr>handles := (handles u)(h := None), slists := free_list l (slists u)\<rparr>))"
proof -
  let ?w1 = "set_options h opts w" and ?u1 = "u\<lparr>handles := (handles u)(h \<mapsto> rev opts)\<rparr>"
  obtain cbs res where p: "lib_perform lib (calls ?w1) h = (cbs, res)" by fastforce
  let ?w2 = "issue (EasyPerform h res) ?w1"
  have u1: "usage_of ?w1 = Some ?u1"
    using usage_set_options [OF u, of opts] l opts by simp
  have u2: "usage_of ?w2 = Some ?u1"
    using u1 l opts by (simp add: latest_header_list)
  show ?thesis
  proof (cases "run_callbacks ssl x now (rev opts) cbs (\<lparr>body = [], statusCode = None, headers = []\<rparr>, ?w2)")
    case (Inl e)
    then have "r = Inl OutOfBounds"
      using t p by (auto simp: try_post_def Let_def dest: run_callbacks_failure)
    with r show ?thesis by simp
  next
    case (Inr rw)
    obtain response w3 where rw: "rw = (response, w3)" by (cases rw)
    have c3: "calls w3 = calls ?w2" using Inr rw run_callbacks_calls by metis
    have u3: "usage_of w3 = Some ?u1" using usage_of_calls [OF c3] u2 by simp
    show ?thesis
    proof (cases "res = 0")
      case False
      then have "r = Inl Thrown" "w' = w3" using t p Inr rw by (simp_all add: try_post_def Let_def)
      then show ?thesis using u3 c3 by (simp add: list_ex_iff append_failed_def)
    next
      case True
      let ?w4 = "issue (EasyGetinfo h (lib_status lib (calls w3) h)) w3"
      have res: "r \<noteq> Inl Thrown" "w' = release h l ?w4" using t p Inr rw True by (auto simp: try_post_def Let_def)
      have "usage_of ?w4 = Some ?u1" using u3 by simp
      then have "usage_of w' = Some (?u1\<lparr>handles := (handles ?u1)(h := None), slists := free_list l (slists ?u1)\<rparr>)"
        unfolding res(2) using l by (intro usage_release) simp_all
      then show ?thesis using res c3 by (simp add: release_def list_ex_iff append_failed_def)
    qed
  qed
qed

section \<open>Sample libraries\<close>

text \<open>A library that numbers handles and lists afresh; it performs a transfer with given callbacks, result and status.\<close>

definition new_id :: "'c call list \<Rightarrow> nat" where
  "new_id cs = Suc (sum_list (map (\<lambda>c. case c of EasyInit (Some h) \<Rightarrow> h | SlistAppend l s (Some r) \<Rightarrow> r | _ \<Rightarrow> 0) cs))"

definition sample_curl :: "'c callback list \<Rightarrow> int \<Rightarrow> int \<Rightarrow> 'c libcurl" where
  "sample_curl cbs res status =
     \<lparr>lib_easy_init = (\<lambda>cs. Some (new_id cs)),
      lib_slist_append = (\<lambda>cs l s. Some (case l of None \<Rightarrow> new_id cs | Some a \<Rightarrow> a)),
      lib_perform = (\<lambda>cs h. (cbs, res)), lib_status = (\<lambda>cs h. status)\<rparr>"

text \<open>A library that runs out of memory when a second header is appended.\<close>

definition failing_curl :: "'c libcurl" where
  "failing_curl = (sample_curl [] 0 200)\<lparr>lib_slist_append := (\<lambda>cs l s. case l of None \<Rightarrow> Some (new_id cs) | Some a \<Rightarrow> None)\<rparr>"

lemma new_id_append: "new_id cs \<le> new_id (cs @ [c])"
  by (simp add: new_id_def)

lemma ids_below_new_id:
  "check usage_start cs = Some u \<Longrightarrow> dom (handles u) \<union> dom (slists u) \<subseteq> {..<new_id cs}"
proof (induction cs arbitrary: u rule: rev_induct)
  case Nil
  then show ?case by (auto simp: usage_start_def)
next
  case (snoc c cs)
  then obtain u0 where u0: "check usage_start cs = Some u0" "curl_step u0 c = Some u"
    by (auto simp: check_append split: option.splits)
  have IH: "dom (handles u0) \<union> dom (slists u0) \<subseteq> {..<new_id cs}" using snoc.IH [OF u0(1)] .
  let ?n = "case c of EasyInit (Some h) \<Rightarrow> h | SlistAppend l s (Some r) \<Rightarrow> r | _ \<Rightarrow> 0"
  have "dom (handles u) \<union> dom (slists u) \<subseteq> insert ?n (dom (handles u0) \<union> dom (slists u0))"
    using u0(2) by (cases "(u0, c)" rule: curl_step.cases)
      (auto simp: free_list_def split: if_splits option.splits)
  moreover have "?n < new_id (cs @ [c])" "new_id cs \<le> new_id (cs @ [c])"
    by (simp_all add: new_id_def)
  ultimately show ?case using IH by fastforce
qed

lemma new_id_fresh:
  "check usage_start cs = Some u \<Longrightarrow> handles u (new_id cs) = None \<and> slists u (new_id cs) = None"
  using ids_below_new_id [of cs u] by (auto simp: subset_iff domIff)

lemma sample_curl_ok: "lib_ok (sample_curl cbs res status)"
  by (simp add: lib_ok_def sample_curl_def new_id_fresh)

lemma failing_curl_ok: "lib_ok failing_curl"
  by (simp add: lib_ok_def failing_curl_def sample_curl_def new_id_fresh)

definition start_world :: "'c world" where
  "start_world = \<lparr>calls = [], err_queue = [], cout = [], contexts = []\<rparr>"

lemma usage_start_world: "usage_of start_world = Some usage_start"
  by (simp add: usage_of_def start_world_def)

section \<open>Resources\<close>

text \<open>
  C22. Whatever libcurl answers, an HTTP request keeps its rules and leaves every handle that is in use before
  as it was, and no other: on success, when the transfer fails, and when no handle can be created. It leaves no header
  list behind either, unless libcurl fails to append a header.
\<close>

theorem postJson_releases:
  assumes "lib_ok lib" and "usage_of w = Some u"
    and "http_postJson lib ssl x now url port jsonData certPool verboseOutput config w = (r, w')" and "r \<noteq> Inl OutOfBounds"
  shows "\<exists>new u'. calls w' = calls w @ new \<and> usage_of w' = Some u' \<and> handles u' = handles u \<and> slists u \<subseteq>\<^sub>m slists u' \<and>
    (\<not> list_ex append_failed new \<longrightarrow> slists u' = slists u)"
proof (cases "lib_easy_init lib (calls w)")
  case None
  then have "w' = issue (EasyInit None) w" using assms(3) by (simp add: http_postJson_def Let_def)
  then show ?thesis using assms(2) by (intro exI [of _ "[EasyInit None]"] exI [of _ u]) simp
next
  case (Some h)
  let ?u0 = "u\<lparr>handles := (handles u)(h \<mapsto> [])\<rparr>" and ?w0 = "issue (EasyInit (Some h)) w"
  have unused: "handles u h = None" using lib_okD(1) [OF assms(1,2) Some] .
  have u0: "usage_of ?w0 = Some ?u0" using assms(2) unused by simp
  obtain l w1 where mk: "make_headers lib config ?w0 = (l, w1)" by fastforce
  let ?opts = "post_options url port l jsonData certPool verboseOutput config"
  obtain rt w2 where t: "try_post lib ssl x now h l ?opts w1 = (rt, w2)" by fastforce
  obtain new1 u1 where b: "calls w1 = calls ?w0 @ new1" "usage_of w1 = Some u1"
      "building ?u0 (post_headers config) l u1 (\<not> list_ex append_failed new1)"
    using headers_building [OF assms(1) u0] mk unfolding make_headers_def by blast
  have u1: "handles u1 = (handles u)(h \<mapsto> [])" "slists u \<subseteq>\<^sub>m slists u1" "list_live u1 l" "\<forall>a. l = Some a \<longrightarrow> slists u a = None"
    using b(3) by (simp_all add: building_def)
  have r: "rt \<noteq> Inl OutOfBounds" and fin: "r = rt" "w' = (if rt = Inl Thrown then release h l w2 else w2)"
    using assms(3,4) Some mk t by (auto simp: http_postJson_def Let_def split: if_splits)
  obtain new2 where n2: "calls w2 = calls w1 @ new2" "\<not> list_ex append_failed new2"
      "usage_of w2 = (if rt = Inl Thrown then Some (u1\<lparr>handles := (handles u1)(h \<mapsto> rev ?opts)\<rparr>)
         else Some (u1\<lparr>handles := (handles u1)(h := None), slists := free_list l (slists u1)\<rparr>))"
    using try_post_usage [OF b(2) _ u1(3) refl t r] u1(1) by auto
  let ?u2 = "u1\<lparr>handles := (handles u1)(h := None), slists := free_list l (slists u1)\<rparr>"
  have undo: "(handles u)(h := None) = handles u" using unused by auto
  have "usage_of w' = Some ?u2"
    using n2(3) u1(3) fin(2) usage_release [of w2 _ h l] by (auto split: if_splits)
  moreover have "handles ?u2 = handles u" using u1(1) undo by simp
  moreover have "slists u \<subseteq>\<^sub>m slists ?u2" using u1(2,4) by (auto simp: free_list_def map_le_def split: option.split)
  moreover obtain new where "calls w' = calls w @ new" "list_ex append_failed new = list_ex append_failed new1"
    using fin(2) n2(1,2) b(1) by (auto simp: release_def append_failed_def split: if_splits)
  moreover have "\<not> list_ex append_failed new1 \<Longrightarrow> slists ?u2 = slists u"
    using b(3) u1(4) by (auto simp: building_def free_list_def split: option.splits)
  ultimately show ?thesis by metis
qed

definition plain_config :: post_config where
  "plain_config = \<lparr>useMutualTLS = False, clientCertPath = [], clientKeyPath = [], includeAdminProtocolHeader = False,
     contentType = ''application/json''\<rparr>"

lemma run_no_callbacks:
  "fst (http_postJson (sample_curl [] res status) ssl x now url port jsonData certPool v config w) \<noteq> Inl OutOfBounds"
  by (simp add: http_postJson_def try_post_def sample_curl_def Let_def split: prod.split)

lemma postJson_releases_witness:
  "\<forall>ssl x. \<exists>u'. usage_of (snd (http_postJson (sample_curl [] 7 200) (ssl :: (nat, nat, nat) openssl) (x :: (nat, nat) x509_api)
     ''now'' ''https://server'' 443 ''{}'' [1] False plain_config start_world)) = Some u' \<and> handles u' = handles usage_start"
proof (intro allI)
  fix ssl :: "(nat, nat, nat) openssl" and x :: "(nat, nat) x509_api"
  show "\<exists>u'. usage_of (snd (http_postJson (sample_curl [] 7 200) ssl x
     ''now'' ''https://server'' 443 ''{}'' [1] False plain_config start_world)) = Some u' \<and> handles u' = handles usage_start"
    using postJson_releases [OF sample_curl_ok usage_start_world prod.collapse [symmetric] run_no_callbacks] by metis
qed

text \<open>
  When appending the second header fails, the null pointer replaces the list with the first, which is lost: it is
  still allocated after the request.
\<close>

lemma failed_append_leaks:
  "\<exists>u'. usage_of (snd (http_postJson failing_curl ssl x ''now'' ''https://server'' 443 ''{}'' [] False plain_config start_world)) = Some u' \<and>
     dom (slists u') \<noteq> {}"
  by (simp add: http_postJson_def try_post_def make_headers_def add_header_def failing_curl_def sample_curl_def Let_def
      start_world_def plain_config_def post_headers_def new_id_def release_def set_options_def post_options_def
      mutual_tls_options_def usage_start_def usage_of_def issue_def free_list_def the_header_list_def latest_def map_filter_simps)

end
