(* ===== verification/HTTP_Refinement.thy ===== *)
theory HTTP_Refinement
  imports HTTP_Usage "HOL-Library.Sublist"
begin

text \<open>
  What a request of the HTTP client amounts to: the calls of libcurl implement the transfer of one
  request, \<open>postJson\<close> of the client's model, and the TLS contexts that are set up trust the client's certificates
  and verify the peer.
\<close>

section \<open>The request of a handle\<close>

text \<open>The request that the options of a handle and its header list describe.\<close>

definition request_of :: "'c usage \<Rightarrow> 'c curl_option list \<Rightarrow> 'c http_request" where
  "request_of u os = \<lparr>
     rq_url = the (latest the_url os),
     rq_port = the (latest the_port os),
     rq_headers = (case latest the_header_list os of Some (Some l) \<Rightarrow> the (slists u l) | _ \<Rightarrow> []),
     rq_body = take (the (latest the_postfieldsize os)) (the (latest the_postfields os)),
     rq_certs = (if OPT_SSL_CTX_FUNCTION \<in> set os then the (latest the_ctx_data os) else []),
     rq_client_cert = (case latest the_sslcert os of None \<Rightarrow> None | Some c \<Rightarrow> Some (c, the (latest the_sslcerttype os))),
     rq_client_key = latest the_sslkey os\<rparr>"

text \<open>
  A library whose transfers depend on the request: \<open>server\<close> gives the callbacks of a request, the result and
  the status. Every call for memory succeeds.
\<close>

definition serves :: "'c libcurl \<Rightarrow> ('c http_request \<Rightarrow> 'c callback list \<times> int \<times> int) \<Rightarrow> bool" where
  "serves lib server \<longleftrightarrow>
     (\<forall>cs u h os. check usage_start cs = Some u \<longrightarrow> handles u h = Some os \<longrightarrow>
        (case server (request_of u os) of (cbs, res, status) \<Rightarrow>
           lib_perform lib cs h = (cbs, res) \<and> lib_status lib (cs @ [EasyPerform h res]) h = status)) \<and>
     (\<forall>cs. lib_easy_init lib cs \<noteq> None) \<and> (\<forall>cs l s. lib_slist_append lib cs l s \<noteq> None)"

lemma servesD:
  assumes "serves lib server" "check usage_start cs = Some u" "handles u h = Some os"
    "server (request_of u os) = (cbs, res, status)"
  shows "lib_perform lib cs h = (cbs, res) \<and> lib_status lib (cs @ [EasyPerform h res]) h = status"
proof -
  have "case server (request_of u os) of (cbs, res, status) \<Rightarrow>
      lib_perform lib cs h = (cbs, res) \<and> lib_status lib (cs @ [EasyPerform h res]) h = status"
    using assms(1-3) by (simp add: serves_def)
  then show ?thesis unfolding assms(4) by simp
qed

text \<open>The data of the body; sizes that describe the data as libcurl documents them; what a transfer amounts to.\<close>

definition written :: "'c callback \<Rightarrow> string" where
  "written cb = (case cb of WriteData data n m \<Rightarrow> data | _ \<Rightarrow> [])"

definition sizes_ok :: "'c callback \<Rightarrow> bool" where
  "sizes_ok cb \<longleftrightarrow> (case cb of WriteData data n m \<Rightarrow> unat (n * m) = length data
     | HeaderData data n m \<Rightarrow> unat (n * m) = length data | SetupTls st \<Rightarrow> True)"

definition outcome :: "('c http_request \<Rightarrow> 'c callback list \<times> int \<times> int) \<Rightarrow> 'c http_request \<Rightarrow> (string \<times> int) result" where
  "outcome server rq = (case server rq of (cbs, res, status) \<Rightarrow>
     if res \<noteq> 0 then Inl Thrown else Inr (concat (map written cbs), status))"

section \<open>Setting up TLS\<close>

lemma contexts_add_failed [simp]: "contexts (add_failed x store c w) = contexts w"
  by (simp add: add_failed_def case_prod_beta)

lemma add_pool_store:
  "add_pool ssl x now cs (store, w) = Inr (store', w') \<Longrightarrow>
   \<exists>added. store' = store @ added \<and> subseq added cs \<and> contexts w' = contexts w \<and>
     ((\<forall>st c. store_add_cert ssl st c = StoreAdded) \<longrightarrow> added = cs)"
proof (induction cs arbitrary: store w)
  case (Cons c cs)
  from Cons.prems obtain store1 w1 where step: "add_pool ssl x now cs (store1, w1) = Inr (store', w')"
      "contexts w1 = contexts w" "store1 = (if store_add_cert ssl store c = StoreAdded then store @ [c] else store)"
    by (cases "store_add_cert ssl store c = StoreAdded") (auto simp: Let_def)
  from Cons.IH [OF step(1)] obtain added where "store' = store1 @ added" "subseq added cs" "contexts w' = contexts w1"
      "(\<forall>st c. store_add_cert ssl st c = StoreAdded) \<longrightarrow> added = cs" by auto
  with step(2,3) show ?case
    by (cases "store_add_cert ssl store c = StoreAdded") auto
qed simp

text \<open>A context whose certificates beside its own come from the pool, and that verifies the peer.\<close>

definition context_ok :: "('c, 'p, 'k) openssl \<Rightarrow> 'c list \<Rightarrow> 'c tls_context \<Rightarrow> bool" where
  "context_ok ssl pool ctx \<longleftrightarrow> verify_peer ctx \<and>
     (\<exists>added. ctx_store ctx = store_before ctx @ added \<and> subseq added pool \<and>
        ((\<forall>st c. store_add_cert ssl st c = StoreAdded) \<longrightarrow> added = pool))"

lemma sslCtxFunction_context:
  assumes "sslCtxFunction ssl x now pool store w = Inr (code, w')"
  shows "\<exists>ctx. contexts w' = contexts w @ [ctx] \<and> context_ok ssl pool ctx \<and> store_before ctx = store"
proof -
  obtain store' w1 where "add_pool ssl x now pool (store, w) = Inr (store', w1)"
    "w' = w1\<lparr>contexts := contexts w1 @ [\<lparr>store_before = store, ctx_store = store', verify_peer = True\<rparr>]\<rparr>"
    using assms by (auto simp: sslCtxFunction_def)
  with add_pool_store [of ssl x now pool store w store' w1] show ?thesis by (auto simp: context_ok_def)
qed

lemma run_callbacks_contexts:
  assumes "latest the_ctx_data opts = Some pool" "run_callbacks ssl x now opts cbs (r, w) = Inr (r', w')"
  shows "\<exists>ctxs. contexts w' = contexts w @ ctxs \<and> list_all (context_ok ssl pool) ctxs \<and>
    (OPT_SSL_CTX_FUNCTION \<in> set opts \<longrightarrow>
       map store_before ctxs = List.map_filter (\<lambda>cb. case cb of SetupTls st \<Rightarrow> Some st | _ \<Rightarrow> None) cbs)"
  using assms(2)
proof (induction cbs arbitrary: r w)
  case Nil
  then show ?case by (simp add: map_filter_simps)
next
  case (Cons cb cbs)
  obtain r1 w1 where step: "run_callback ssl x now opts cb (r, w) = Inr (r1, w1)"
      and rest: "run_callbacks ssl x now opts cbs (r1, w1) = Inr (r', w')"
    using Cons.prems by auto
  have "\<exists>ctxs. contexts w1 = contexts w @ ctxs \<and> list_all (context_ok ssl pool) ctxs \<and>
    (OPT_SSL_CTX_FUNCTION \<in> set opts \<longrightarrow> map store_before ctxs = (case cb of SetupTls st \<Rightarrow> [st] | _ \<Rightarrow> []))"
  proof (cases cb)
    case (SetupTls st)
    show ?thesis
    proof (cases "OPT_SSL_CTX_FUNCTION \<in> set opts")
      case True
      then obtain code where "sslCtxFunction ssl x now pool st w = Inr (code, w1)"
        using step SetupTls assms(1) by auto
      from sslCtxFunction_context [OF this] show ?thesis using SetupTls by auto
    qed (use step SetupTls in auto)
  qed (use step in \<open>auto split: if_splits\<close>)
  moreover obtain ctxs' where "contexts w' = contexts w1 @ ctxs'" "list_all (context_ok ssl pool) ctxs'"
      "OPT_SSL_CTX_FUNCTION \<in> set opts \<longrightarrow>
       map store_before ctxs' = List.map_filter (\<lambda>cb. case cb of SetupTls st \<Rightarrow> Some st | _ \<Rightarrow> None) cbs"
    using Cons.IH [OF rest] by auto
  ultimately show ?case by (auto simp: map_filter_simps split: callback.splits)
qed

section \<open>The options of a request\<close>

lemma post_options_latest:
  assumes "opts = rev (post_options url port l data pool v config)"
  shows "latest the_url opts = Some (c_string url)" "latest the_port opts = Some port"
    "latest the_header_list opts = Some l" "latest the_postfields opts = Some data"
    "latest the_postfieldsize opts = Some (length data)" "latest the_ctx_data opts = Some pool"
    "latest the_writedata opts = Some ToBody" "latest the_headerdata opts = Some ToHeaders"
    "latest the_verifypeer opts = Some 1" "latest the_verifyhost opts = Some 2"
    "OPT_SSL_CTX_FUNCTION \<in> set opts" "OPT_WRITEFUNCTION \<in> set opts" "OPT_HEADERFUNCTION \<in> set opts"
    "latest the_sslcert opts = (if useMutualTLS config \<and> clientCertPath config \<noteq> [] then Some (c_string (clientCertPath config)) else None)"
    "latest the_sslkey opts = (if useMutualTLS config \<and> clientKeyPath config \<noteq> [] then Some (c_string (clientKeyPath config)) else None)"
    "useMutualTLS config \<Longrightarrow> clientCertPath config \<noteq> [] \<Longrightarrow> latest the_sslcerttype opts =
       Some (if contains (clientCertPath config) ''.der'' \<or> contains (clientCertPath config) ''.DER'' then ''DER'' else ''PEM'')"
  unfolding assms
  by (simp_all add: latest_def post_options_def mutual_tls_options_def option_kind_defs map_filter_simps)

section \<open>Callbacks that libcurl makes as documented\<close>

lemma ski_failure: "getSubjectKeyIdentifier ssl c = Inl e \<Longrightarrow> e = OutOfBounds"
  by (auto simp: getSubjectKeyIdentifier_def Let_def split: if_splits option.splits)

lemma run_callbacks_data:
  assumes opts: "latest the_writedata opts = Some ToBody" "latest the_headerdata opts = Some ToHeaders"
      "latest the_ctx_data opts = Some pool" "OPT_WRITEFUNCTION \<in> set opts" "OPT_HEADERFUNCTION \<in> set opts"
      "OPT_SSL_CTX_FUNCTION \<in> set opts"
    and ski: "\<forall>c\<in>set pool. getSubjectKeyIdentifier ssl c \<noteq> Inl OutOfBounds"
    and cbs: "list_all sizes_ok cbs"
  shows "\<exists>r' w'. run_callbacks ssl x now opts cbs (r, w) = Inr (r', w') \<and> body r' = body r @ concat (map written cbs)"
  using cbs
proof (induction cbs arbitrary: r w)
  case (Cons cb cbs)
  have pool: "\<exists>s w'. add_pool ssl x now cs (st, w) = Inr (s, w')" if "set cs \<subseteq> set pool" for cs st w
    using that
  proof (induction cs arbitrary: st w)
    case (Cons c cs)
    then obtain ski' where "getSubjectKeyIdentifier ssl c = Inr ski'"
      using ski ski_failure [of ssl c] by (cases "getSubjectKeyIdentifier ssl c") auto
    with Cons show ?case by (simp add: pool_message_def Let_def)
  qed simp
  have "\<exists>r1 w1. run_callback ssl x now opts cb (r, w) = Inr (r1, w1) \<and> body r1 = body r @ written cb"
  proof (cases cb)
    case (SetupTls st)
    obtain s w' where "add_pool ssl x now pool (st, w) = Inr (s, w')" using pool [of pool st w] by auto
    then show ?thesis using SetupTls opts by (simp add: sslCtxFunction_def written_def)
  qed (use Cons.prems opts in \<open>simp_all add: into_def writeCallback_def headerCallback_def sizes_ok_def written_def Let_def\<close>)
  then obtain r1 w1 where 1: "run_callback ssl x now opts cb (r, w) = Inr (r1, w1)" "body r1 = body r @ written cb" by auto
  obtain r' w' where "run_callbacks ssl x now opts cbs (r1, w1) = Inr (r', w')" "body r' = body r1 @ concat (map written cbs)"
    using Cons by fastforce
  with 1 show ?case by (simp del: bind_result_eq_Inr)
qed simp

lemma no_append_fails:
  assumes "\<forall>cs l s. lib_slist_append lib cs l s \<noteq> None" "fold (add_header lib) ss (None, w) = (l, w')" "calls w' = calls w @ new"
  shows "\<not> list_ex append_failed new"
  using assms(2,3)
proof (induction ss arbitrary: l w' new rule: rev_induct)
  case (snoc s ss)
  obtain l0 w0 where fold: "fold (add_header lib) ss (None, w) = (l0, w0)" by fastforce
  then have step: "add_header lib s (l0, w0) = (l, w')" using snoc.prems by simp
  have "\<exists>new0. calls w0 = calls w @ new0"
    using fold by (induction ss arbitrary: l0 w0 rule: rev_induct) (fastforce simp: add_header_def Let_def split: prod.splits)+
  then obtain new0 where new0: "calls w0 = calls w @ new0" ..
  have "l \<noteq> None" using step assms(1) by (auto simp: add_header_def Let_def)
  moreover have "new = new0 @ [SlistAppend l0 (c_string s) l]"
    using add_header_frame [OF step] snoc.prems(2) new0 by simp
  ultimately show ?case using snoc.IH [OF fold new0] by (auto simp: append_failed_def)
qed simp

section \<open>Refinement\<close>

text \<open>Texts without the null character, which libcurl gets whole.\<close>

definition plain :: "post_config \<Rightarrow> bool" where
  "plain config \<longleftrightarrow> c_string (contentType config) = contentType config \<and>
     c_string (clientCertPath config) = clientCertPath config \<and> c_string (clientKeyPath config) = clientKeyPath config"

lemma c_string_append: "c_string s = s \<Longrightarrow> c_string (s @ t) = s @ c_string t"
  by (auto simp: c_string_def takeWhile_eq_all_conv takeWhile_append)

lemma plain_headers: "plain config \<Longrightarrow> map c_string (post_headers config) = post_headers config"
proof -
  assume "plain config"
  then have c: "c_string (contentType config) = contentType config" by (simp add: plain_def)
  have lits: "c_string ''Content-Type: '' = ''Content-Type: ''" "c_string ''Accept: '' = ''Accept: ''"
    "c_string '';charset=UTF-8'' = '';charset=UTF-8''" "c_string ''Accept: application/json'' = ''Accept: application/json''"
    "c_string ''X-Admin-Protocol: gsma/rsp/v2.5.0'' = ''X-Admin-Protocol: gsma/rsp/v2.5.0''"
    "c_string ''application/json'' = ''application/json''"
    by code_simp+
  have "c_string (''Content-Type: '' @ contentType config) = ''Content-Type: '' @ contentType config"
    "c_string ((''Content-Type: '' @ contentType config) @ '';charset=UTF-8'') = (''Content-Type: '' @ contentType config) @ '';charset=UTF-8''"
    "c_string (''Accept: '' @ contentType config) = ''Accept: '' @ contentType config"
    "c_string (''Accept: '' @ ''application/json'') = ''Accept: '' @ ''application/json''"
    using c lits by (simp_all only: c_string_append)
  with lits show ?thesis unfolding post_headers_def Let_def
    by (simp only: list.map map_append if_distrib [of c_string] if_distrib [of "map c_string"] split: if_split) simp
qed

text \<open>The state in which the transfer of a request is made.\<close>

lemma serves_perform:
  assumes lib: "lib_ok lib" "serves lib server" and u: "usage_of w = Some u" and plain: "plain config" "c_string url = url"
    and h: "lib_easy_init lib (calls w) = Some h" and mk: "make_headers lib config (issue (EasyInit (Some h)) w) = (l, w1)"
    and server: "server \<lparr> rq_url = url, rq_port = port, rq_headers = post_headers config, rq_body = jsonData, rq_certs = pool,
       rq_client_cert = (if useMutualTLS config \<and> clientCertPath config \<noteq> [] then
          Some (clientCertPath config, if contains (clientCertPath config) ''.der'' \<or> contains (clientCertPath config) ''.DER''
            then ''DER'' else ''PEM'') else None),
       rq_client_key = (if useMutualTLS config \<and> clientKeyPath config \<noteq> [] then Some (clientKeyPath config) else None) \<rparr>
       = (cbs, res, status)"
    and w2: "w2 = set_options h (post_options url port l jsonData pool v config) w1"
  shows "lib_perform lib (calls w2) h = (cbs, res) \<and> lib_status lib (calls w2 @ [EasyPerform h res]) h = status"
proof -
  let ?w0 = "issue (EasyInit (Some h)) w" and ?u0 = "u\<lparr>handles := (handles u)(h \<mapsto> [])\<rparr>"
  let ?opts = "post_options url port l jsonData pool v config"
  have u0: "usage_of ?w0 = Some ?u0" using u lib_okD(1) [OF lib(1) u h] by simp
  obtain new u1 where b: "calls w1 = calls ?w0 @ new" "usage_of w1 = Some u1"
      "building ?u0 (post_headers config) l u1 (\<not> list_ex append_failed new)"
    using headers_building [OF lib(1) u0] mk unfolding make_headers_def by blast
  have "\<not> list_ex append_failed new"
    using no_append_fails [OF _ _ b(1)] lib(2) mk unfolding serves_def make_headers_def by blast
  moreover have "post_headers config \<noteq> []" by (simp add: post_headers_def Let_def)
  ultimately obtain a where a: "l = Some a" "slists u1 = (slists u)(a \<mapsto> map c_string (post_headers config))"
    using b(3) by (auto simp: building_def split: option.splits)
  have u1: "handles u1 h = Some []" "list_live u1 l" using b(3) by (simp_all add: building_def)
  let ?u2 = "u1\<lparr>handles := (handles u1)(h \<mapsto> rev ?opts)\<rparr>"
  have u2: "usage_of w2 = Some ?u2"
    using usage_set_options [OF b(2) u1(1), of ?opts] u1(2) w2 by simp
  note latest = post_options_latest [where url = url and port = port and l = "Some a" and data = jsonData and pool = pool and v = v and config = config, OF refl]
  have heads: "slists (u1\<lparr>handles := m\<rparr>) a = Some (post_headers config)" for m
    using a(2) plain_headers [OF plain(1)] by simp
  have body: "take (length jsonData) jsonData = jsonData" by simp
  have ctx: "OPT_SSL_CTX_FUNCTION \<in> set (post_options url port (Some a) jsonData pool v config)"
    by (simp add: post_options_def)
  have cert: "(case latest the_sslcert (rev (post_options url port (Some a) jsonData pool v config)) of None \<Rightarrow> None
      | Some c \<Rightarrow> Some (c, the (latest the_sslcerttype (rev (post_options url port (Some a) jsonData pool v config))))) =
      (if useMutualTLS config \<and> clientCertPath config \<noteq> [] then
          Some (clientCertPath config, if contains (clientCertPath config) ''.der'' \<or> contains (clientCertPath config) ''.DER''
            then ''DER'' else ''PEM'') else None)"
    using plain(1) latest(16) unfolding latest(14) by (simp add: plain_def)
  have key: "latest the_sslkey (rev (post_options url port (Some a) jsonData pool v config)) =
      (if useMutualTLS config \<and> clientKeyPath config \<noteq> [] then Some (clientKeyPath config) else None)"
    using plain(1) unfolding latest(15) by (simp add: plain_def)
  have "request_of ?u2 (rev ?opts) = \<lparr> rq_url = url, rq_port = port, rq_headers = post_headers config, rq_body = jsonData, rq_certs = pool,
       rq_client_cert = (if useMutualTLS config \<and> clientCertPath config \<noteq> [] then
          Some (clientCertPath config, if contains (clientCertPath config) ''.der'' \<or> contains (clientCertPath config) ''.DER''
            then ''DER'' else ''PEM'') else None),
       rq_client_key = (if useMutualTLS config \<and> clientKeyPath config \<noteq> [] then Some (clientKeyPath config) else None) \<rparr>"
    unfolding request_of_def a(1) latest(1-6) set_rev cert key
    by (simp only: ctx if_True option.sel option.case heads plain(2) body)
  moreover have "check usage_start (calls w2) = Some ?u2" "handles ?u2 h = Some (rev ?opts)"
    using u2 by (simp_all add: usage_of_def)
  ultimately show ?thesis using servesD [OF lib(2)] server by metis
qed

text \<open>
  C16. The calls of libcurl that the HTTP client makes implement the abstract transfer: with a library whose
  transfers depend on the request that the handle's options describe, the body and the status, or the
  exception, are those of the client's model for that request, whatever was called before.
\<close>

theorem http_postJson_refines:
  assumes lib: "lib_ok lib" "serves lib server" and u: "usage_of w = Some u" and plain: "plain config" "c_string url = url"
    and cbs: "\<forall>rq. list_all sizes_ok (fst (server rq))"
    and ski: "\<forall>c\<in>set pool. getSubjectKeyIdentifier ssl c \<noteq> Inl OutOfBounds"
  shows "map_result (\<lambda>r. (body r, the (statusCode r))) (fst (http_postJson lib ssl x now url port jsonData pool v config w)) =
    postJson (env\<lparr>curl_perform := outcome server\<rparr>) url port jsonData pool config"
proof -
  have "lib_easy_init lib (calls w) \<noteq> None" using lib(2) unfolding serves_def by blast
  then obtain h where h: "lib_easy_init lib (calls w) = Some h" by blast
  obtain l w1 where mk: "make_headers lib config (issue (EasyInit (Some h)) w) = (l, w1)" by fastforce
  let ?opts = "post_options url port l jsonData pool v config"
  define w2 where "w2 = set_options h ?opts w1"
  define rq where "rq = \<lparr> rq_url = url, rq_port = port, rq_headers = post_headers config, rq_body = jsonData, rq_certs = pool,
       rq_client_cert = (if useMutualTLS config \<and> clientCertPath config \<noteq> [] then
          Some (clientCertPath config, if contains (clientCertPath config) ''.der'' \<or> contains (clientCertPath config) ''.DER''
            then ''DER'' else ''PEM'') else None),
       rq_client_key = (if useMutualTLS config \<and> clientKeyPath config \<noteq> [] then Some (clientKeyPath config) else None) \<rparr>"
  obtain cbs res status where server: "server rq = (cbs, res, status)" by (metis prod_cases3)
  have perform: "lib_perform lib (calls w2) h = (cbs, res)" "lib_status lib (calls w2 @ [EasyPerform h res]) h = status"
    using serves_perform [OF lib u plain h mk server [unfolded rq_def] w2_def] by simp_all
  have "list_all sizes_ok cbs" using cbs server by (metis fst_conv)
  then obtain r' w3 where run: "run_callbacks ssl x now (rev ?opts) cbs
        (\<lparr>body = [], statusCode = None, headers = []\<rparr>, issue (EasyPerform h res) w2) = Inr (r', w3)"
      "body r' = concat (map written cbs)"
    using run_callbacks_data [OF post_options_latest(7,8,6,12,13,11) [OF refl] ski] by fastforce
  have "calls w3 = calls w2 @ [EasyPerform h res]" using run_callbacks_calls [OF run(1)] by simp
  then have "map_result (\<lambda>r. (body r, the (statusCode r))) (fst (try_post lib ssl x now h l ?opts w1)) =
      (if res \<noteq> 0 then Inl Thrown else Inr (concat (map written cbs), status))"
    using perform run by (cases "res = 0") (simp_all add: try_post_def Let_def w2_def [symmetric])
  then have "map_result (\<lambda>r. (body r, the (statusCode r))) (fst (http_postJson lib ssl x now url port jsonData pool v config w)) =
      (if res \<noteq> 0 then Inl Thrown else Inr (concat (map written cbs), status))"
    using h mk by (cases "try_post lib ssl x now h l ?opts w1") (auto simp: http_postJson_def Let_def split: if_splits)
  then show ?thesis by (simp add: postJson_def outcome_def server [unfolded rq_def])
qed

text \<open>A server that answers with a body in two pieces, after the context was set up.\<close>

definition sample_callbacks :: "nat callback list" where
  "sample_callbacks = [SetupTls [7], HeaderData ''HTTP/2 200'' 1 10, WriteData ''{ok'' 1 3, WriteData ''}'' 1 1]"

definition sample_pool_ssl :: "(nat, nat, nat) openssl \<Rightarrow> (nat, nat, nat) openssl" where
  "sample_pool_ssl ssl = ssl\<lparr>ski_extension := (\<lambda>c. []), store_add_cert := (\<lambda>st c. StoreAdded)\<rparr>"

lemma http_postJson_refines_witness:
  "\<forall>ssl x env. map_result (\<lambda>r. (body r, the (statusCode r))) (fst (http_postJson (sample_curl sample_callbacks 0 200)
      (sample_pool_ssl ssl) (x :: (nat, nat) x509_api) ''now'' ''https://server'' 443 ''{}'' [1, 2] False plain_config start_world)) =
    postJson ((env :: (nat, nat, nat) environment)\<lparr>curl_perform := outcome (\<lambda>rq. (sample_callbacks, 0, 200))\<rparr>)
      ''https://server'' 443 ''{}'' [1, 2] plain_config"
proof (intro allI)
  fix ssl :: "(nat, nat, nat) openssl" and x :: "(nat, nat) x509_api" and env :: "(nat, nat, nat) environment"
  have serves: "serves (sample_curl sample_callbacks 0 200) (\<lambda>rq. (sample_callbacks, 0, 200))"
    by (simp add: serves_def sample_curl_def)
  have plain: "plain plain_config" "c_string ''https://server'' = ''https://server''"
    by (simp_all add: plain_def plain_config_def c_string_def)
  have ok: "\<forall>rq :: nat http_request. list_all sizes_ok (fst ((\<lambda>rq. (sample_callbacks, 0 :: int, 200 :: int)) rq))"
    by (simp add: sample_callbacks_def sizes_ok_def)
  have ski: "\<forall>c\<in>set [1, 2]. getSubjectKeyIdentifier (sample_pool_ssl ssl) c \<noteq> Inl OutOfBounds"
    by (simp add: getSubjectKeyIdentifier_def sample_pool_ssl_def Let_def)
  show "map_result (\<lambda>r. (body r, the (statusCode r))) (fst (http_postJson (sample_curl sample_callbacks 0 200)
      (sample_pool_ssl ssl) x ''now'' ''https://server'' 443 ''{}'' [1, 2] False plain_config start_world)) =
    postJson (env\<lparr>curl_perform := outcome (\<lambda>rq. (sample_callbacks, 0, 200))\<rparr>) ''https://server'' 443 ''{}'' [1, 2] plain_config"
    by (rule http_postJson_refines [OF sample_curl_ok serves usage_start_world plain ok ski])
qed

lemma fold_add_header_contexts: "contexts (snd (fold (add_header lib) ss (l, w))) = contexts w"
  by (induction ss arbitrary: l w) (simp_all add: add_header_def issue_def Let_def)

text \<open>
  C11. A request that succeeds is transferred after libcurl was told to verify the server's certificate and its
  host name. Every TLS context that libcurl then offers is set up: it verifies the peer and trusts, beside what it trusted
  before, certificates of the client's pool and no others; all of them when OpenSSL takes every certificate.
\<close>

theorem postJson_verifies_peer:
  assumes "http_postJson lib ssl x now url port jsonData pool v config w = (Inr response, w')"
  shows "\<exists>pre opts h res rest ctxs.
    calls w' = pre @ map (EasySetopt h) opts @ EasyPerform h res # rest \<and>
    latest the_verifypeer (rev opts) = Some 1 \<and> latest the_verifyhost (rev opts) = Some 2 \<and>
    contexts w' = contexts w @ ctxs \<and> list_all (context_ok ssl pool) ctxs \<and>
    map store_before ctxs = List.map_filter (\<lambda>cb. case cb of SetupTls st \<Rightarrow> Some st | _ \<Rightarrow> None)
      (fst (lib_perform lib (pre @ map (EasySetopt h) opts) h))"
proof -
  obtain h where h: "lib_easy_init lib (calls w) = Some h"
    using assms by (cases "lib_easy_init lib (calls w)") (simp_all add: http_postJson_def Let_def)
  obtain l w1 where mk: "make_headers lib config (issue (EasyInit (Some h)) w) = (l, w1)" by fastforce
  let ?opts = "post_options url port l jsonData pool v config" and ?init = "\<lparr>body = [], statusCode = None, headers = []\<rparr>"
  let ?w2 = "set_options h ?opts w1"
  have contexts_issue: "contexts (issue c w) = contexts w" for c :: "'a call" and w by (simp add: issue_def)
  have "contexts w1 = contexts (issue (EasyInit (Some h)) w)"
    using fold_add_header_contexts [of lib "post_headers config" None "issue (EasyInit (Some h)) w"] mk by (simp add: make_headers_def)
  moreover have "contexts (set_options h os w1) = contexts w1" for os
    by (induction os arbitrary: w1) (simp_all add: set_options_def contexts_issue)
  ultimately have frame: "contexts (issue (EasyPerform h res) ?w2) = contexts w" for res by (simp add: contexts_issue)
  obtain cbs res where p: "lib_perform lib (calls ?w2) h = (cbs, res)" by fastforce
  have "try_post lib ssl x now h l ?opts w1 = (Inr response, w')"
    using assms h mk by (cases "try_post lib ssl x now h l ?opts w1") (auto simp: http_postJson_def Let_def split: if_splits)
  then obtain r3 w3 c where run: "run_callbacks ssl x now (rev ?opts) cbs (?init, issue (EasyPerform h res) ?w2) = Inr (r3, w3)"
      "contexts w' = contexts w3" "calls w' = calls w3 @ c"
    using p by (auto simp: try_post_def Let_def release_def contexts_issue split: sum.splits if_splits prod.splits)
  have "calls w' = calls w1 @ map (EasySetopt h) ?opts @ EasyPerform h res # c"
    using run(3) run_callbacks_calls [OF run(1)] by simp
  moreover obtain ctxs where "contexts w3 = contexts w @ ctxs" "list_all (context_ok ssl pool) ctxs"
      "map store_before ctxs = List.map_filter (\<lambda>cb. case cb of SetupTls st \<Rightarrow> Some st | _ \<Rightarrow> None) cbs"
    using run_callbacks_contexts [OF post_options_latest(6) [OF refl] run(1)]
      post_options_latest(11) [OF refl, of url port l jsonData pool v config] frame by auto
  moreover have "fst (lib_perform lib (calls w1 @ map (EasySetopt h) ?opts) h) = cbs" using p by simp
  ultimately show ?thesis using run(2) post_options_latest(9,10) [OF refl] by metis
qed

lemma postJson_verifies_peer_witness:
  "\<forall>ssl x. \<exists>response w' ctxs. http_postJson (sample_curl sample_callbacks 0 200) (sample_pool_ssl ssl) (x :: (nat, nat) x509_api) ''now''
      ''https://server'' 443 ''{}'' [1, 2] False plain_config start_world = (Inr response, w') \<and>
    contexts w' = ctxs \<and> list_all (context_ok (sample_pool_ssl ssl) [1, 2]) ctxs"
proof (intro allI)
  fix ssl :: "(nat, nat, nat) openssl" and x :: "(nat, nat) x509_api"
  let ?run = "http_postJson (sample_curl sample_callbacks 0 200) (sample_pool_ssl ssl) x ''now'' ''https://server'' 443 ''{}'' [1, 2] False plain_config start_world"
  have "\<exists>response w'. ?run = (Inr response, w')"
    by (simp add: http_postJson_def try_post_def sample_curl_def sample_callbacks_def Let_def into_def writeCallback_def
        headerCallback_def sslCtxFunction_def pool_message_def getSubjectKeyIdentifier_def sample_pool_ssl_def
        post_options_latest [OF refl] post_options_latest(11-13) [OF refl, unfolded set_rev] case_prod_beta)
  then obtain response w' where run: "?run = (Inr response, w')" by blast
  from postJson_verifies_peer [OF run] show "\<exists>response w' ctxs. ?run = (Inr response, w') \<and>
      contexts w' = ctxs \<and> list_all (context_ok (sample_pool_ssl ssl) [1, 2]) ctxs"
    using run by (auto simp: start_world_def)
qed

end
