(* ===== verification/HTTP_Lifetime.thy ===== *)
theory HTTP_Lifetime
  imports SMDPP_Props HTTP_Client
begin

text \<open>
  When libcurl is initialised: every client of the registry makes an HTTP client for its first request, which
  initialises libcurl, and its destruction cleans up. libcurl counts initialisations and cleanups. The operations
  of the registry are those of \<^verbatim>\<open>smdpp_Tests_Functions.cc\<close>, here with what they do to libcurl.
\<close>

section \<open>The process\<close>

text \<open>The registry, the handles of the clients that have an HTTP client, and libcurl's count.\<close>

record ('c, 'k) process =
  proc_registry :: "('c, 'k) registry"
  http_made :: "int set"
  curl_users :: int

definition process_start :: "('c, 'k) process" where
  "process_start = \<lparr>proc_registry = registry_start, http_made = {}, curl_users = 0\<rparr>"

definition HttpClient_new :: "int \<Rightarrow> ('c, 'k) process \<Rightarrow> ('c, 'k) process" where
  "HttpClient_new h p = p\<lparr>http_made := insert h (http_made p), curl_users := curl_users p + 1\<rparr>"

definition HttpClient_delete :: "int \<Rightarrow> ('c, 'k) process \<Rightarrow> ('c, 'k) process" where
  "HttpClient_delete h p = p\<lparr>http_made := http_made p - {h}, curl_users := curl_users p - 1\<rparr>"

definition need_http :: "int \<Rightarrow> ('c, 'k) process \<Rightarrow> ('c, 'k) process" where
  "need_http h p = (if h \<in> http_made p then p else HttpClient_new h p)"

text \<open>
  A request on a handle: the method runs after the HTTP client was made. Destroying a client destroys its HTTP
  client; destroying all destroys them one after the other.
\<close>

definition proc_request :: "int \<Rightarrow> 'a \<Rightarrow> ('c, 'k, 'a) client_method \<Rightarrow> ('c, 'k) process \<Rightarrow> 'a result \<times> ('c, 'k) process" where
  "proc_request h error_value f p =
     (let p = (if m_clients (proc_registry p) h = None then p else need_http h p);
          (r, reg) = with_client h error_value f (proc_registry p)
      in (r, p\<lparr>proc_registry := reg\<rparr>))"

definition proc_destroy :: "int \<Rightarrow> ('c, 'k) process \<Rightarrow> int result \<times> ('c, 'k) process" where
  "proc_destroy h p =
     (let (r, reg) = ext_destroy h (proc_registry p); p = p\<lparr>proc_registry := reg\<rparr>
      in (r, if h \<in> http_made p then HttpClient_delete h p else p))"

definition proc_destroyAll :: "int list \<Rightarrow> ('c, 'k) process \<Rightarrow> int result \<times> ('c, 'k) process" where
  "proc_destroyAll hs p =
     (let (r, reg) = ext_destroyAll (proc_registry p); p = p\<lparr>proc_registry := reg\<rparr>
      in (r, fold (\<lambda>h p. if h \<in> http_made p then HttpClient_delete h p else p) hs p))"

text \<open>
  The steps: creating a client, a call that changes one, making the HTTP client for a request, destroying one or all,
  where \<open>hs\<close> are the keys of the map of clients in its order. A request is a step of making and a call.
\<close>

inductive process_step :: "('c, 'p, 'k) openssl \<Rightarrow> ('c, 'p, 'k) environment \<Rightarrow> ('c, 'k) process \<Rightarrow> ('c, 'k) process \<Rightarrow> bool"
  for ssl :: "('c, 'p, 'k) openssl" and env :: "('c, 'p, 'k) environment" where
  create: "ext_create ssl env url path nameFilter (proc_registry p) = (r, reg) \<Longrightarrow> process_step ssl env p (p\<lparr>proc_registry := reg\<rparr>)"
| call: "registry_step ssl env (proc_registry p) reg \<Longrightarrow> dom (m_clients (proc_registry p)) \<subseteq> dom (m_clients reg) \<Longrightarrow>
    process_step ssl env p (p\<lparr>proc_registry := reg\<rparr>)"
| need: "m_clients (proc_registry p) h = Some cl \<Longrightarrow> process_step ssl env p (need_http h p)"
| destroy: "proc_destroy h p = (r, p') \<Longrightarrow> process_step ssl env p p'"
| destroyAll: "set hs = dom (m_clients (proc_registry p)) \<Longrightarrow> proc_destroyAll hs p = (r, p') \<Longrightarrow> process_step ssl env p p'"

inductive_cases process_stepE: "process_step ssl env p p'"

section \<open>The count\<close>

definition process_ok :: "('c, 'k) process \<Rightarrow> bool" where
  "process_ok p \<longleftrightarrow> finite (http_made p) \<and> http_made p \<subseteq> dom (m_clients (proc_registry p)) \<and> curl_users p = int (card (http_made p))"

lemma with_client_dom: "with_client h v f reg = (r, reg') \<Longrightarrow> dom (m_clients reg') = dom (m_clients reg)"
  by (auto simp: with_client_def split: option.splits if_splits)

lemma process_ok_grow:
  "process_ok p \<Longrightarrow> dom (m_clients (proc_registry p)) \<subseteq> dom (m_clients reg) \<Longrightarrow> process_ok (p\<lparr>proc_registry := reg\<rparr>)"
  by (auto simp: process_ok_def dest: subsetD) (meson domD domI subsetD)

lemma process_count: "process_ok q \<Longrightarrow> h \<in> http_made q \<Longrightarrow> curl_users q = int (card (http_made q)) \<and> 0 < curl_users q"
  by (auto simp: process_ok_def card_gt_0_iff)

lemma need_http_ok:
  "process_ok p \<Longrightarrow> m_clients (proc_registry p) h \<noteq> None \<Longrightarrow> process_ok (need_http h p) \<and> h \<in> http_made (need_http h p)"
  by (auto simp: process_ok_def need_http_def HttpClient_new_def)

lemma destroy_fold:
  assumes "finite (http_made p)" "curl_users p = int (card (http_made p))" "http_made p \<subseteq> set hs"
  defines "p' \<equiv> fold (\<lambda>h p. if h \<in> http_made p then HttpClient_delete h p else p) hs p"
  shows "http_made p' = {} \<and> curl_users p' = 0 \<and> proc_registry p' = proc_registry p"
  using assms(1-3) unfolding p'_def
proof (induction hs arbitrary: p)
  case (Cons h hs)
  let ?p = "if h \<in> http_made p then HttpClient_delete h p else p"
  have "finite (http_made ?p)" "curl_users ?p = int (card (http_made ?p))" "http_made ?p \<subseteq> set hs"
    "proc_registry ?p = proc_registry p"
    using Cons.prems card_Suc_Diff1 [of "http_made p" h] by (auto simp: HttpClient_delete_def)
  from Cons.IH [OF this(1-3)] this(4) show ?case by simp
qed simp

lemma process_step_ok: "process_step ssl env p p' \<Longrightarrow> process_ok p \<Longrightarrow> process_ok p'"
proof (induction rule: process_step.induct)
  case (create url path nameFilter p r reg)
  have "dom (m_clients (proc_registry p)) \<subseteq> dom (m_clients reg)"
    using ext_create_cases [OF create(1)] by auto
  with create(2) show ?case by (rule process_ok_grow)
next
  case (call p reg)
  then show ?case by (intro process_ok_grow)
next
  case (need p h cl)
  then show ?case using need_http_ok by auto
next
  case (destroy h p r p')
  then show ?case using card_Suc_Diff1 [of "http_made p" h]
    by (auto simp: proc_destroy_def ext_destroy_def destroyClient_def process_ok_def HttpClient_delete_def Let_def split: if_splits)
next
  case (destroyAll hs p r p')
  then have "http_made p \<subseteq> set hs" "finite (http_made p)" "curl_users p = int (card (http_made p))"
    by (auto simp: process_ok_def)
  with destroyAll(2) show ?case
    using destroy_fold [of "p\<lparr>proc_registry := destroyAllClients (proc_registry p)\<rparr>" hs]
    by (auto simp: proc_destroyAll_def ext_destroyAll_def process_ok_def Let_def)
qed

lemma proc_request_steps:
  assumes "proc_request h v f p = (r, p')"
  shows "(process_step ssl env)\<^sup>*\<^sup>* p p'"
proof (cases "m_clients (proc_registry p) h")
  case None
  then show ?thesis using assms by (simp add: proc_request_def with_client_dead)
next
  case (Some cl)
  obtain reg where reg: "with_client h v f (proc_registry p) = (r, reg)" "p' = (need_http h p)\<lparr>proc_registry := reg\<rparr>"
    using assms Some by (auto simp: proc_request_def need_http_def HttpClient_new_def Let_def split: prod.splits if_splits)
  have "process_step ssl env p (need_http h p)" using Some by (rule process_step.need)
  moreover have same: "proc_registry (need_http h p) = proc_registry p" by (simp add: need_http_def HttpClient_new_def)
  have kept: "(need_http h p)\<lparr>proc_registry := proc_registry p\<rparr> = need_http h p"
    by (simp add: need_http_def HttpClient_new_def)
  have "p' = need_http h p \<or> process_step ssl env (need_http h p) p'"
    using with_client_step [OF reg(1), of ssl env] with_client_dom [OF reg(1)] process_step.call [of ssl env "need_http h p" reg]
    unfolding reg(2) same by (auto simp: same kept)
  ultimately show ?thesis by (auto intro: converse_rtranclp_into_rtranclp)
qed

lemma process_reachable_ok: "(process_step ssl env)\<^sup>*\<^sup>* process_start p \<Longrightarrow> process_ok p"
proof (induction rule: rtranclp_induct)
  case base
  show ?case by (simp add: process_ok_def process_start_def)
qed (rule process_step_ok)

section \<open>Requests find libcurl initialised\<close>

text \<open>
  C27. In every reachable state libcurl has been initialised exactly once for each client that has sent a request
  and still exists. So a request on a live handle finds it initialised, it stays initialised when other
  clients are destroyed, and it is cleaned up completely when all are.
\<close>

theorem curl_initialised:
  assumes "(process_step ssl env)\<^sup>*\<^sup>* process_start p" and "m_clients (proc_registry p) h = Some cl"
    and "proc_request h v f p = (r, p')"
  shows "curl_users p' = int (card (http_made p')) \<and> 0 < curl_users p' \<and>
    (\<forall>h'. h' \<noteq> h \<longrightarrow> 0 < curl_users (snd (proc_destroy h' p'))) \<and>
    (\<forall>hs. set hs = dom (m_clients (proc_registry p')) \<longrightarrow> curl_users (snd (proc_destroyAll hs p')) = 0)"
proof -
  have ok: "process_ok p'"
    using process_reachable_ok rtranclp_trans [OF assms(1) proc_request_steps [OF assms(3)]] by blast
  have made: "h \<in> http_made p'"
    using assms(2,3) by (auto simp: proc_request_def need_http_def HttpClient_new_def Let_def split: prod.splits if_splits)
  have "0 < curl_users (snd (proc_destroy h' p'))" if "h' \<noteq> h" for h'
  proof -
    have "process_ok (snd (proc_destroy h' p'))"
      using process_step_ok [OF process_step.destroy [OF prod.collapse [symmetric]] ok] .
    moreover have "h \<in> http_made (snd (proc_destroy h' p'))"
      using made that by (auto simp: proc_destroy_def HttpClient_delete_def Let_def split: prod.split)
    ultimately show ?thesis using process_count by blast
  qed
  moreover have "curl_users (snd (proc_destroyAll hs p')) = 0" if "set hs = dom (m_clients (proc_registry p'))" for hs
    using destroy_fold [of "p'\<lparr>proc_registry := destroyAllClients (proc_registry p')\<rparr>" hs] ok that
    by (auto simp: proc_destroyAll_def ext_destroyAll_def process_ok_def Let_def)
  ultimately show ?thesis using process_count [OF ok made] by blast
qed

theorem curl_initialised_witness:
  "(let f = answer_method (sendHttpsPost example_ssl example_env ''/gsma'' ''{}'' 443);
        p = process_start\<lparr>proc_registry := example_registry\<rparr> in
    0 < curl_users (snd (proc_request 1 ([], 0) f p)))"
proof -
  let ?f = "answer_method (sendHttpsPost example_ssl example_env ''/gsma'' ''{}'' 443)"
  let ?p = "process_start\<lparr>proc_registry := example_registry\<rparr>"
  have "process_step example_ssl example_env process_start ?p"
    using process_step.create [of example_ssl example_env "''smdp''" "''certs''" "''NIST''" process_start] example_create
    by (simp add: process_start_def)
  then have "(process_step example_ssl example_env)\<^sup>*\<^sup>* process_start ?p" by (rule r_into_rtranclp)
  moreover have "m_clients (proc_registry ?p) 1 = Some example_client" by (simp add: example_registry_def)
  moreover obtain r p' where "proc_request 1 ([], 0) ?f ?p = (r, p')" by fastforce
  ultimately show ?thesis
    using curl_initialised [of example_ssl example_env ?p 1 example_client "([], 0)" ?f r p'] by (simp add: Let_def)
qed

end
