(* ===== verification/ASN1_EncDec.thy ===== *)
theory ASN1_EncDec
  imports Prelude
begin

text \<open>
  The encoders and decoders of the ASN.1 protocols: NGAP, S1AP, SBC-AP, SABP, RUA, RANAP and HNBAP in aligned
  packed encoding rules, TCAP and the RSPRO protocol of \<^verbatim>\<open>remsim\<close> in basic encoding rules. What the TITAN compiler generates from the
  ASN.1 modules, an encoder and a decoder for each type descriptor, is an argument; every function of the sources
  names a descriptor, a coding and its flavour. A value of any of the types is a value of \<^typ>\<open>'v\<close>.
\<close>

section \<open>Generated codecs and the buffer\<close>

datatype coding = CT_PER | CT_BER

datatype flavour = PER_ALIGNED | BER_ENCODE_DER | BER_ACCEPT_ALL

datatype descriptor =
    NGAP_PDU_descr
  | PDUSessionResourceSetupRequestTransfer_descr
  | PDUSessionResourceSetupResponseTransfer_descr
  | PDUSessionResourceModifyRequestTransfer_descr
  | PDUSessionResourceModifyResponseTransfer_descr
  | PDUSessionResourceModifyIndicationTransfer_descr
  | UEContextSuspendRequestTransfer_descr
  | PathSwitchRequestTransfer_descr
  | HandoverRequiredTransfer_descr
  | HandoverRequestAcknowledgeTransfer_descr
  | SecondaryRATDataUsageReportTransfer_descr
  | S1AP_PDU_descr
  | Global_ENB_ID_descr
  | SBC_AP_PDU_descr
  | SABP_PDU_descr
  | RUA_PDU_descr
  | RANAP_PDU_descr
  | HNBAP_PDU_descr
  | TCMessage_descr
  | RsproPDU_descr

text \<open>An encoder appends octets to the buffer, a decoder yields a value and what it leaves of the buffer; both may fail.\<close>

record 'v generated =
  gen_encode :: "descriptor \<Rightarrow> coding \<Rightarrow> flavour \<Rightarrow> 'v \<Rightarrow> octets result"
  gen_decode :: "descriptor \<Rightarrow> coding \<Rightarrow> flavour \<Rightarrow> octets \<Rightarrow> ('v \<times> octets) result"

text \<open>\<^verbatim>\<open>TTCN_Buffer\<close>: created empty, cleared, filled, encoded into and decoded from.\<close>

type_synonym ttcn_buffer = octets

definition buffer_new :: ttcn_buffer where
  "buffer_new = []"

definition buffer_clear :: "ttcn_buffer \<Rightarrow> ttcn_buffer" where
  "buffer_clear buf = []"

definition put_os :: "octets \<Rightarrow> ttcn_buffer \<Rightarrow> ttcn_buffer" where
  "put_os stream buf = buf @ stream"

definition encode_into :: "'v generated \<Rightarrow> descriptor \<Rightarrow> coding \<Rightarrow> flavour \<Rightarrow> 'v \<Rightarrow> ttcn_buffer \<Rightarrow> ttcn_buffer result" where
  "encode_into gen d c f v buf = map_result (\<lambda>os. buf @ os) (gen_encode gen d c f v)"

definition decode_from :: "'v generated \<Rightarrow> descriptor \<Rightarrow> coding \<Rightarrow> flavour \<Rightarrow> ttcn_buffer \<Rightarrow> 'v result" where
  "decode_from gen d c f buf = map_result fst (gen_decode gen d c f buf)"

section \<open>\<^verbatim>\<open>library/ngap/NGAP_EncDec.cc\<close>\<close>

definition enc_NGAP_PDU :: "'v generated \<Rightarrow> 'v \<Rightarrow> octets result" where
  "enc_NGAP_PDU gen pdu = encode_into gen NGAP_PDU_descr CT_PER PER_ALIGNED pdu (buffer_clear buffer_new)"

definition dec_NGAP_PDU :: "'v generated \<Rightarrow> octets \<Rightarrow> 'v result" where
  "dec_NGAP_PDU gen stream = decode_from gen NGAP_PDU_descr CT_PER PER_ALIGNED (put_os stream (buffer_clear buffer_new))"

definition enc_NGAP_PDUSessionResourceSetupRequestTransfer :: "'v generated \<Rightarrow> 'v \<Rightarrow> octets result" where
  "enc_NGAP_PDUSessionResourceSetupRequestTransfer gen pdu = encode_into gen PDUSessionResourceSetupRequestTransfer_descr CT_PER PER_ALIGNED pdu (buffer_clear buffer_new)"

definition dec_NGAP_PDUSessionResourceSetupRequestTransfer :: "'v generated \<Rightarrow> octets \<Rightarrow> 'v result" where
  "dec_NGAP_PDUSessionResourceSetupRequestTransfer gen stream = decode_from gen PDUSessionResourceSetupRequestTransfer_descr CT_PER PER_ALIGNED (put_os stream (buffer_clear buffer_new))"

definition enc_NGAP_PDUSessionResourceSetupResponseTransfer :: "'v generated \<Rightarrow> 'v \<Rightarrow> octets result" where
  "enc_NGAP_PDUSessionResourceSetupResponseTransfer gen pdu = encode_into gen PDUSessionResourceSetupResponseTransfer_descr CT_PER PER_ALIGNED pdu (buffer_clear buffer_new)"

definition dec_NGAP_PDUSessionResourceSetupResponseTransfer :: "'v generated \<Rightarrow> octets \<Rightarrow> 'v result" where
  "dec_NGAP_PDUSessionResourceSetupResponseTransfer gen stream = decode_from gen PDUSessionResourceSetupResponseTransfer_descr CT_PER PER_ALIGNED (put_os stream (buffer_clear buffer_new))"

definition enc_NGAP_PDUSessionResourceModifyRequestTransfer :: "'v generated \<Rightarrow> 'v \<Rightarrow> octets result" where
  "enc_NGAP_PDUSessionResourceModifyRequestTransfer gen pdu = encode_into gen PDUSessionResourceModifyRequestTransfer_descr CT_PER PER_ALIGNED pdu (buffer_clear buffer_new)"

definition dec_NGAP_PDUSessionResourceModifyRequestTransfer :: "'v generated \<Rightarrow> octets \<Rightarrow> 'v result" where
  "dec_NGAP_PDUSessionResourceModifyRequestTransfer gen stream = decode_from gen PDUSessionResourceModifyRequestTransfer_descr CT_PER PER_ALIGNED (put_os stream (buffer_clear buffer_new))"

definition enc_NGAP_PDUSessionResourceModifyResponseTransfer :: "'v generated \<Rightarrow> 'v \<Rightarrow> octets result" where
  "enc_NGAP_PDUSessionResourceModifyResponseTransfer gen pdu = encode_into gen PDUSessionResourceModifyResponseTransfer_descr CT_PER PER_ALIGNED pdu (buffer_clear buffer_new)"

definition dec_NGAP_PDUSessionResourceModifyResponseTransfer :: "'v generated \<Rightarrow> octets \<Rightarrow> 'v result" where
  "dec_NGAP_PDUSessionResourceModifyResponseTransfer gen stream = decode_from gen PDUSessionResourceModifyResponseTransfer_descr CT_PER PER_ALIGNED (put_os stream (buffer_clear buffer_new))"

definition enc_NGAP_PDUSessionResourceModifyIndicationTransfer :: "'v generated \<Rightarrow> 'v \<Rightarrow> octets result" where
  "enc_NGAP_PDUSessionResourceModifyIndicationTransfer gen pdu = encode_into gen PDUSessionResourceModifyIndicationTransfer_descr CT_PER PER_ALIGNED pdu (buffer_clear buffer_new)"

definition dec_NGAP_PDUSessionResourceModifyIndicationTransfer :: "'v generated \<Rightarrow> octets \<Rightarrow> 'v result" where
  "dec_NGAP_PDUSessionResourceModifyIndicationTransfer gen stream = decode_from gen PDUSessionResourceModifyIndicationTransfer_descr CT_PER PER_ALIGNED (put_os stream (buffer_clear buffer_new))"

definition enc_NGAP_UEContextSuspendRequestTransfer :: "'v generated \<Rightarrow> 'v \<Rightarrow> octets result" where
  "enc_NGAP_UEContextSuspendRequestTransfer gen pdu = encode_into gen UEContextSuspendRequestTransfer_descr CT_PER PER_ALIGNED pdu (buffer_clear buffer_new)"

definition dec_NGAP_UEContextSuspendRequestTransfer :: "'v generated \<Rightarrow> octets \<Rightarrow> 'v result" where
  "dec_NGAP_UEContextSuspendRequestTransfer gen stream = decode_from gen UEContextSuspendRequestTransfer_descr CT_PER PER_ALIGNED (put_os stream (buffer_clear buffer_new))"

definition enc_NGAP_PathSwitchRequestTransfer :: "'v generated \<Rightarrow> 'v \<Rightarrow> octets result" where
  "enc_NGAP_PathSwitchRequestTransfer gen pdu = encode_into gen PathSwitchRequestTransfer_descr CT_PER PER_ALIGNED pdu (buffer_clear buffer_new)"

definition dec_NGAP_PathSwitchRequestTransfer :: "'v generated \<Rightarrow> octets \<Rightarrow> 'v result" where
  "dec_NGAP_PathSwitchRequestTransfer gen stream = decode_from gen PathSwitchRequestTransfer_descr CT_PER PER_ALIGNED (put_os stream (buffer_clear buffer_new))"

definition enc_NGAP_HandoverRequiredTransfer :: "'v generated \<Rightarrow> 'v \<Rightarrow> octets result" where
  "enc_NGAP_HandoverRequiredTransfer gen pdu = encode_into gen HandoverRequiredTransfer_descr CT_PER PER_ALIGNED pdu (buffer_clear buffer_new)"

definition dec_NGAP_HandoverRequiredTransfer :: "'v generated \<Rightarrow> octets \<Rightarrow> 'v result" where
  "dec_NGAP_HandoverRequiredTransfer gen stream = decode_from gen HandoverRequiredTransfer_descr CT_PER PER_ALIGNED (put_os stream (buffer_clear buffer_new))"

definition enc_NGAP_HandoverRequestAcknowledgeTransfer :: "'v generated \<Rightarrow> 'v \<Rightarrow> octets result" where
  "enc_NGAP_HandoverRequestAcknowledgeTransfer gen pdu = encode_into gen HandoverRequestAcknowledgeTransfer_descr CT_PER PER_ALIGNED pdu (buffer_clear buffer_new)"

definition dec_NGAP_HandoverRequestAcknowledgeTransfer :: "'v generated \<Rightarrow> octets \<Rightarrow> 'v result" where
  "dec_NGAP_HandoverRequestAcknowledgeTransfer gen stream = decode_from gen HandoverRequestAcknowledgeTransfer_descr CT_PER PER_ALIGNED (put_os stream (buffer_clear buffer_new))"

definition enc_NGAP_SecondaryRATDataUsageReportTransfer :: "'v generated \<Rightarrow> 'v \<Rightarrow> octets result" where
  "enc_NGAP_SecondaryRATDataUsageReportTransfer gen pdu = encode_into gen SecondaryRATDataUsageReportTransfer_descr CT_PER PER_ALIGNED pdu (buffer_clear buffer_new)"

definition dec_NGAP_SecondaryRATDataUsageReportTransfer :: "'v generated \<Rightarrow> octets \<Rightarrow> 'v result" where
  "dec_NGAP_SecondaryRATDataUsageReportTransfer gen stream = decode_from gen SecondaryRATDataUsageReportTransfer_descr CT_PER PER_ALIGNED (put_os stream (buffer_clear buffer_new))"

section \<open>\<^verbatim>\<open>library/s1ap/S1AP_EncDec.cc\<close>\<close>

definition enc_S1AP_PDU :: "'v generated \<Rightarrow> 'v \<Rightarrow> octets result" where
  "enc_S1AP_PDU gen pdu = encode_into gen S1AP_PDU_descr CT_PER PER_ALIGNED pdu (buffer_clear buffer_new)"

definition dec_S1AP_PDU :: "'v generated \<Rightarrow> octets \<Rightarrow> 'v result" where
  "dec_S1AP_PDU gen stream = decode_from gen S1AP_PDU_descr CT_PER PER_ALIGNED (put_os stream (buffer_clear buffer_new))"

definition enc_S1AP_Global_ENB_ID :: "'v generated \<Rightarrow> 'v \<Rightarrow> octets result" where
  "enc_S1AP_Global_ENB_ID gen pdu = encode_into gen Global_ENB_ID_descr CT_PER PER_ALIGNED pdu (buffer_clear buffer_new)"

definition dec_S1AP_Global_ENB_ID :: "'v generated \<Rightarrow> octets \<Rightarrow> 'v result" where
  "dec_S1AP_Global_ENB_ID gen stream = decode_from gen Global_ENB_ID_descr CT_PER PER_ALIGNED (put_os stream (buffer_clear buffer_new))"

section \<open>\<^verbatim>\<open>library/sbcap/SBC_AP_EncDec.cc\<close>\<close>

definition enc_SBC_AP_PDU :: "'v generated \<Rightarrow> 'v \<Rightarrow> octets result" where
  "enc_SBC_AP_PDU gen pdu = encode_into gen SBC_AP_PDU_descr CT_PER PER_ALIGNED pdu (buffer_clear buffer_new)"

definition dec_SBC_AP_PDU :: "'v generated \<Rightarrow> octets \<Rightarrow> 'v result" where
  "dec_SBC_AP_PDU gen stream = decode_from gen SBC_AP_PDU_descr CT_PER PER_ALIGNED (put_os stream (buffer_clear buffer_new))"

section \<open>\<^verbatim>\<open>library/sabp/SABP_EncDec.cc\<close>\<close>

definition enc_SABP_PDU :: "'v generated \<Rightarrow> 'v \<Rightarrow> octets result" where
  "enc_SABP_PDU gen pdu = encode_into gen SABP_PDU_descr CT_PER PER_ALIGNED pdu (buffer_clear buffer_new)"

definition dec_SABP_PDU :: "'v generated \<Rightarrow> octets \<Rightarrow> 'v result" where
  "dec_SABP_PDU gen stream = decode_from gen SABP_PDU_descr CT_PER PER_ALIGNED (put_os stream (buffer_clear buffer_new))"

section \<open>\<^verbatim>\<open>library/rua/RUA_EncDec.cc\<close>\<close>

definition enc_RUA_PDU :: "'v generated \<Rightarrow> 'v \<Rightarrow> octets result" where
  "enc_RUA_PDU gen pdu = encode_into gen RUA_PDU_descr CT_PER PER_ALIGNED pdu (buffer_clear buffer_new)"

definition dec_RUA_PDU :: "'v generated \<Rightarrow> octets \<Rightarrow> 'v result" where
  "dec_RUA_PDU gen stream = decode_from gen RUA_PDU_descr CT_PER PER_ALIGNED (put_os stream (buffer_clear buffer_new))"

section \<open>\<^verbatim>\<open>library/ranap/RANAP_EncDec.cc\<close>\<close>

definition enc_RANAP_PDU :: "'v generated \<Rightarrow> 'v \<Rightarrow> octets result" where
  "enc_RANAP_PDU gen pdu = encode_into gen RANAP_PDU_descr CT_PER PER_ALIGNED pdu (buffer_clear buffer_new)"

definition dec_RANAP_PDU :: "'v generated \<Rightarrow> octets \<Rightarrow> 'v result" where
  "dec_RANAP_PDU gen stream = decode_from gen RANAP_PDU_descr CT_PER PER_ALIGNED (put_os stream (buffer_clear buffer_new))"

section \<open>\<^verbatim>\<open>library/hnbap/HNBAP_EncDec.cc\<close>\<close>

definition enc_HNBAP_PDU :: "'v generated \<Rightarrow> 'v \<Rightarrow> octets result" where
  "enc_HNBAP_PDU gen pdu = encode_into gen HNBAP_PDU_descr CT_PER PER_ALIGNED pdu (buffer_clear buffer_new)"

definition dec_HNBAP_PDU :: "'v generated \<Rightarrow> octets \<Rightarrow> 'v result" where
  "dec_HNBAP_PDU gen stream = decode_from gen HNBAP_PDU_descr CT_PER PER_ALIGNED (put_os stream (buffer_clear buffer_new))"

section \<open>\<^verbatim>\<open>library/tcap/TCAP_EncDec.cc\<close>\<close>

definition enc_TCAP_TCMessage :: "'v generated \<Rightarrow> 'v \<Rightarrow> octets result" where
  "enc_TCAP_TCMessage gen pdu = encode_into gen TCMessage_descr CT_BER BER_ENCODE_DER pdu (buffer_clear buffer_new)"

definition dec_TCAP_TCMessage :: "'v generated \<Rightarrow> octets \<Rightarrow> 'v result" where
  "dec_TCAP_TCMessage gen stream = decode_from gen TCMessage_descr CT_BER BER_ACCEPT_ALL (put_os stream (buffer_clear buffer_new))"

section \<open>\<^verbatim>\<open>remsim/RSPRO_EncDec.cc\<close>\<close>

definition enc_RsproPDU :: "'v generated \<Rightarrow> 'v \<Rightarrow> octets result" where
  "enc_RsproPDU gen pdu = encode_into gen RsproPDU_descr CT_BER BER_ENCODE_DER pdu (buffer_clear buffer_new)"

definition dec_RsproPDU :: "'v generated \<Rightarrow> octets \<Rightarrow> 'v result" where
  "dec_RsproPDU gen stream = decode_from gen RsproPDU_descr CT_BER BER_ACCEPT_ALL (put_os stream buffer_new)"

section \<open>All pairs\<close>

definition codecs :: "(('v generated \<Rightarrow> 'v \<Rightarrow> octets result) \<times> ('v generated \<Rightarrow> octets \<Rightarrow> 'v result)) list" where
  "codecs =
     [(enc_NGAP_PDU, dec_NGAP_PDU),
      (enc_NGAP_PDUSessionResourceSetupRequestTransfer, dec_NGAP_PDUSessionResourceSetupRequestTransfer),
      (enc_NGAP_PDUSessionResourceSetupResponseTransfer, dec_NGAP_PDUSessionResourceSetupResponseTransfer),
      (enc_NGAP_PDUSessionResourceModifyRequestTransfer, dec_NGAP_PDUSessionResourceModifyRequestTransfer),
      (enc_NGAP_PDUSessionResourceModifyResponseTransfer, dec_NGAP_PDUSessionResourceModifyResponseTransfer),
      (enc_NGAP_PDUSessionResourceModifyIndicationTransfer, dec_NGAP_PDUSessionResourceModifyIndicationTransfer),
      (enc_NGAP_UEContextSuspendRequestTransfer, dec_NGAP_UEContextSuspendRequestTransfer),
      (enc_NGAP_PathSwitchRequestTransfer, dec_NGAP_PathSwitchRequestTransfer),
      (enc_NGAP_HandoverRequiredTransfer, dec_NGAP_HandoverRequiredTransfer),
      (enc_NGAP_HandoverRequestAcknowledgeTransfer, dec_NGAP_HandoverRequestAcknowledgeTransfer),
      (enc_NGAP_SecondaryRATDataUsageReportTransfer, dec_NGAP_SecondaryRATDataUsageReportTransfer),
      (enc_S1AP_PDU, dec_S1AP_PDU),
      (enc_S1AP_Global_ENB_ID, dec_S1AP_Global_ENB_ID),
      (enc_SBC_AP_PDU, dec_SBC_AP_PDU),
      (enc_SABP_PDU, dec_SABP_PDU),
      (enc_RUA_PDU, dec_RUA_PDU),
      (enc_RANAP_PDU, dec_RANAP_PDU),
      (enc_HNBAP_PDU, dec_HNBAP_PDU),
      (enc_TCAP_TCMessage, dec_TCAP_TCMessage),
      (enc_RsproPDU, dec_RsproPDU)]"

text \<open>
  The documented behaviour of the generated codecs, on values that can be encoded: decoding in the coding of the encoding, where all of
  BER is accepted for DER, gives the value back and stops after its encoding.
\<close>

definition generated_ok :: "'v generated \<Rightarrow> bool" where
  "generated_ok gen \<longleftrightarrow> (\<forall>d v os rest.
     (gen_encode gen d CT_PER PER_ALIGNED v = Inr os \<longrightarrow> gen_decode gen d CT_PER PER_ALIGNED (os @ rest) = Inr (v, rest)) \<and>
     (gen_encode gen d CT_BER BER_ENCODE_DER v = Inr os \<longrightarrow> gen_decode gen d CT_BER BER_ACCEPT_ALL (os @ rest) = Inr (v, rest)))"

lemma encode_decode:
  assumes "generated_ok gen" and "(c, f, f') \<in> {(CT_PER, PER_ALIGNED, PER_ALIGNED), (CT_BER, BER_ENCODE_DER, BER_ACCEPT_ALL)}"
    and "encode_into gen d c f v buf = Inr (buf @ os)"
  shows "decode_from gen d c f' (os @ rest) = Inr v"
  using assms by (auto simp: generated_ok_def encode_into_def decode_from_def)

text \<open>
  Every decoder undoes its encoder: each pair of functions names the same type, and codings that fit. Octets
  behind the encoding are ignored without an error.
\<close>

theorem codecs_roundtrip:
  assumes "generated_ok gen" and "(enc, dec) \<in> set codecs" and "enc gen v = Inr os"
  shows "dec gen (os @ rest) = Inr v"
  using assms(2,3) encode_decode [OF assms(1), where buf = "[]" and os = os and rest = rest and v = v]
  unfolding codecs_def list.set
  by (elim insertE emptyE)
    (simp_all add: buffer_clear_def buffer_new_def put_os_def
      enc_NGAP_PDU_def
      dec_NGAP_PDU_def
      enc_NGAP_PDUSessionResourceSetupRequestTransfer_def
      dec_NGAP_PDUSessionResourceSetupRequestTransfer_def
      enc_NGAP_PDUSessionResourceSetupResponseTransfer_def
      dec_NGAP_PDUSessionResourceSetupResponseTransfer_def
      enc_NGAP_PDUSessionResourceModifyRequestTransfer_def
      dec_NGAP_PDUSessionResourceModifyRequestTransfer_def
      enc_NGAP_PDUSessionResourceModifyResponseTransfer_def
      dec_NGAP_PDUSessionResourceModifyResponseTransfer_def
      enc_NGAP_PDUSessionResourceModifyIndicationTransfer_def
      dec_NGAP_PDUSessionResourceModifyIndicationTransfer_def
      enc_NGAP_UEContextSuspendRequestTransfer_def
      dec_NGAP_UEContextSuspendRequestTransfer_def
      enc_NGAP_PathSwitchRequestTransfer_def
      dec_NGAP_PathSwitchRequestTransfer_def
      enc_NGAP_HandoverRequiredTransfer_def
      dec_NGAP_HandoverRequiredTransfer_def
      enc_NGAP_HandoverRequestAcknowledgeTransfer_def
      dec_NGAP_HandoverRequestAcknowledgeTransfer_def
      enc_NGAP_SecondaryRATDataUsageReportTransfer_def
      dec_NGAP_SecondaryRATDataUsageReportTransfer_def
      enc_S1AP_PDU_def
      dec_S1AP_PDU_def
      enc_S1AP_Global_ENB_ID_def
      dec_S1AP_Global_ENB_ID_def
      enc_SBC_AP_PDU_def
      dec_SBC_AP_PDU_def
      enc_SABP_PDU_def
      dec_SABP_PDU_def
      enc_RUA_PDU_def
      dec_RUA_PDU_def
      enc_RANAP_PDU_def
      dec_RANAP_PDU_def
      enc_HNBAP_PDU_def
      dec_HNBAP_PDU_def
      enc_TCAP_TCMessage_def
      dec_TCAP_TCMessage_def
      enc_RsproPDU_def
      dec_RsproPDU_def)

text \<open>A generated codec for values that are octets, written with their length in front.\<close>

definition sample_generated :: "octets generated" where
  "sample_generated = \<lparr>
     gen_encode = (\<lambda>d c f v. if length v < 256 then Inr (word_of_nat (length v) # v) else Inl TtcnError),
     gen_decode = (\<lambda>d c f os. case os of [] \<Rightarrow> Inl TtcnError
       | n # os \<Rightarrow> if unat n \<le> length os then Inr (take (unat n) os, drop (unat n) os) else Inl TtcnError)\<rparr>"

lemma sample_generated_ok: "generated_ok sample_generated"
  by (auto simp: generated_ok_def sample_generated_def unat_of_nat take_bit_nat_eq_self split: if_splits)

theorem codecs_roundtrip_witness:
  "dec_NGAP_PathSwitchRequestTransfer sample_generated ([2, 0x20, 0x15] @ [0xff]) = Inr [0x20, 0x15]"
proof (rule codecs_roundtrip [OF sample_generated_ok])
  show "(enc_NGAP_PathSwitchRequestTransfer, dec_NGAP_PathSwitchRequestTransfer) \<in> set codecs"
    by (simp add: codecs_def)
  show "enc_NGAP_PathSwitchRequestTransfer sample_generated [0x20, 0x15] = Inr [2, 0x20, 0x15]"
    by (simp add: enc_NGAP_PathSwitchRequestTransfer_def encode_into_def sample_generated_def buffer_clear_def)
qed

end
