(* ===== verification/CodecPort_CtrlFunct.thy ===== *)
theory CodecPort_CtrlFunct
  imports Prelude
begin

text \<open>
  The control functions of the codec ports, the files \<^verbatim>\<open>*_CtrlFunctDef.cc\<close>: how a test opens, connects and
  closes the transport under a protocol's port. Each function calls the function of the transport's provider port, which is
  an argument; the state is that of the provider behind a port. Host names are strings, port numbers and connection
  identifiers integers; the protocol tuple, options, user data, message length functions and results are the provider's.
\<close>

section \<open>Providers\<close>

record ('s, 'p, 'o, 'u, 'f, 'r) ipl4_provider =
  provider_listen :: "'s \<Rightarrow> string \<Rightarrow> int \<Rightarrow> 'p \<Rightarrow> 'o \<Rightarrow> 'r \<times> 's"
  provider_connect :: "'s \<Rightarrow> string \<Rightarrow> int \<Rightarrow> string \<Rightarrow> int \<Rightarrow> int \<Rightarrow> 'p \<Rightarrow> 'o \<Rightarrow> 'r \<times> 's"
  provider_close :: "'s \<Rightarrow> int \<Rightarrow> 'p \<Rightarrow> 'r \<times> 's"
  provider_setUserData :: "'s \<Rightarrow> int \<Rightarrow> 'u \<Rightarrow> 'r \<times> 's"
  provider_getUserData :: "'s \<Rightarrow> int \<Rightarrow> 'u \<Rightarrow> ('r \<times> 'u) \<times> 's"
  provider_setGetMsgLen :: "'s \<Rightarrow> int \<Rightarrow> 'f \<Rightarrow> int list \<Rightarrow> 's"

text \<open>The functions of a codec port, where a protocol has them; those that a protocol lacks are \<^term>\<open>None\<close>.\<close>

record ('s, 'p, 'o, 'u, 'f, 'r) port_control =
  f_listen :: "'s \<Rightarrow> string \<Rightarrow> int \<Rightarrow> 'p \<Rightarrow> 'o \<Rightarrow> 'r \<times> 's"
  f_connect :: "('s \<Rightarrow> string \<Rightarrow> int \<Rightarrow> string \<Rightarrow> int \<Rightarrow> int \<Rightarrow> 'p \<Rightarrow> 'o \<Rightarrow> 'r \<times> 's) option"
  f_close :: "('s \<Rightarrow> int \<Rightarrow> 'p \<Rightarrow> 'r \<times> 's) option"
  f_setUserData :: "('s \<Rightarrow> int \<Rightarrow> 'u \<Rightarrow> 'r \<times> 's) option"
  f_getUserData :: "('s \<Rightarrow> int \<Rightarrow> 'u \<Rightarrow> ('r \<times> 'u) \<times> 's) option"
  f_setGetMsgLen :: "('s \<Rightarrow> int \<Rightarrow> 'f \<Rightarrow> int list \<Rightarrow> 's) option"

type_synonym ('s, 'p, 'o, 'u, 'f, 'r) port_functions =
  "('s, 'p, 'o, 'u, 'f, 'r) ipl4_provider \<Rightarrow> ('s, 'p, 'o, 'u, 'f, 'r) port_control"

section \<open>The ports\<close>

definition CBSP_CodecPort_CtrlFunct :: "('s, 'p, 'o, 'u, 'f, 'r) port_functions" where
  "CBSP_CodecPort_CtrlFunct prov = \<lparr>
     f_listen = (\<lambda>portRef locName locPort proto options. provider_listen prov portRef locName locPort proto options),
     f_connect = Some (\<lambda>portRef remName remPort locName locPort connId proto options. provider_connect prov portRef remName remPort locName locPort connId proto options),
     f_close = Some (\<lambda>portRef connId proto. provider_close prov portRef connId proto),
     f_setUserData = Some (\<lambda>portRef connId userData. provider_setUserData prov portRef connId userData),
     f_getUserData = Some (\<lambda>portRef connId userData. provider_getUserData prov portRef connId userData),
     f_setGetMsgLen = Some (\<lambda>portRef connId f msgLenArgs. provider_setGetMsgLen prov portRef connId f msgLenArgs)\<rparr>"

definition DIAMETER_CodecPort_CtrlFunct :: "('s, 'p, 'o, 'u, 'f, 'r) port_functions" where
  "DIAMETER_CodecPort_CtrlFunct prov = \<lparr>
     f_listen = (\<lambda>portRef locName locPort proto options. provider_listen prov portRef locName locPort proto options),
     f_connect = Some (\<lambda>portRef remName remPort locName locPort connId proto options. provider_connect prov portRef remName remPort locName locPort connId proto options),
     f_close = Some (\<lambda>portRef connId proto. provider_close prov portRef connId proto),
     f_setUserData = Some (\<lambda>portRef connId userData. provider_setUserData prov portRef connId userData),
     f_getUserData = Some (\<lambda>portRef connId userData. provider_getUserData prov portRef connId userData),
     f_setGetMsgLen = None\<rparr>"

definition GTPv1C_CodecPort_CtrlFunct :: "('s, 'p, 'o, 'u, 'f, 'r) port_functions" where
  "GTPv1C_CodecPort_CtrlFunct prov = \<lparr>
     f_listen = (\<lambda>portRef locName locPort proto options. provider_listen prov portRef locName locPort proto options),
     f_connect = Some (\<lambda>portRef remName remPort locName locPort connId proto options. provider_connect prov portRef remName remPort locName locPort connId proto options),
     f_close = Some (\<lambda>portRef connId proto. provider_close prov portRef connId proto),
     f_setUserData = Some (\<lambda>portRef connId userData. provider_setUserData prov portRef connId userData),
     f_getUserData = Some (\<lambda>portRef connId userData. provider_getUserData prov portRef connId userData),
     f_setGetMsgLen = None\<rparr>"

definition GTPv1U_CodecPort_CtrlFunct :: "('s, 'p, 'o, 'u, 'f, 'r) port_functions" where
  "GTPv1U_CodecPort_CtrlFunct prov = \<lparr>
     f_listen = (\<lambda>portRef locName locPort proto options. provider_listen prov portRef locName locPort proto options),
     f_connect = None,
     f_close = None,
     f_setUserData = None,
     f_getUserData = None,
     f_setGetMsgLen = None\<rparr>"

definition GTPv2_CodecPort_CtrlFunct :: "('s, 'p, 'o, 'u, 'f, 'r) port_functions" where
  "GTPv2_CodecPort_CtrlFunct prov = \<lparr>
     f_listen = (\<lambda>portRef locName locPort proto options. provider_listen prov portRef locName locPort proto options),
     f_connect = Some (\<lambda>portRef remName remPort locName locPort connId proto options. provider_connect prov portRef remName remPort locName locPort connId proto options),
     f_close = Some (\<lambda>portRef connId proto. provider_close prov portRef connId proto),
     f_setUserData = Some (\<lambda>portRef connId userData. provider_setUserData prov portRef connId userData),
     f_getUserData = Some (\<lambda>portRef connId userData. provider_getUserData prov portRef connId userData),
     f_setGetMsgLen = None\<rparr>"

definition IPA_CodecPort_CtrlFunct :: "('s, 'p, 'o, 'u, 'f, 'r) port_functions" where
  "IPA_CodecPort_CtrlFunct prov = \<lparr>
     f_listen = (\<lambda>portRef locName locPort proto options. provider_listen prov portRef locName locPort proto options),
     f_connect = Some (\<lambda>portRef remName remPort locName locPort connId proto options. provider_connect prov portRef remName remPort locName locPort connId proto options),
     f_close = Some (\<lambda>portRef connId proto. provider_close prov portRef connId proto),
     f_setUserData = Some (\<lambda>portRef connId userData. provider_setUserData prov portRef connId userData),
     f_getUserData = Some (\<lambda>portRef connId userData. provider_getUserData prov portRef connId userData),
     f_setGetMsgLen = Some (\<lambda>portRef connId f msgLenArgs. provider_setGetMsgLen prov portRef connId f msgLenArgs)\<rparr>"

definition IPL4_GSMTAP_CtrlFunct :: "('s, 'p, 'o, 'u, 'f, 'r) port_functions" where
  "IPL4_GSMTAP_CtrlFunct prov = \<lparr>
     f_listen = (\<lambda>portRef locName locPort proto options. provider_listen prov portRef locName locPort proto options),
     f_connect = Some (\<lambda>portRef remName remPort locName locPort connId proto options. provider_connect prov portRef remName remPort locName locPort connId proto options),
     f_close = Some (\<lambda>portRef connId proto. provider_close prov portRef connId proto),
     f_setUserData = Some (\<lambda>portRef connId userData. provider_setUserData prov portRef connId userData),
     f_getUserData = Some (\<lambda>portRef connId userData. provider_getUserData prov portRef connId userData),
     f_setGetMsgLen = None\<rparr>"

definition Iuh_CodecPort_CtrlFunct :: "('s, 'p, 'o, 'u, 'f, 'r) port_functions" where
  "Iuh_CodecPort_CtrlFunct prov = \<lparr>
     f_listen = (\<lambda>portRef locName locPort proto options. provider_listen prov portRef locName locPort proto options),
     f_connect = Some (\<lambda>portRef remName remPort locName locPort connId proto options. provider_connect prov portRef remName remPort locName locPort connId proto options),
     f_close = Some (\<lambda>portRef connId proto. provider_close prov portRef connId proto),
     f_setUserData = Some (\<lambda>portRef connId userData. provider_setUserData prov portRef connId userData),
     f_getUserData = Some (\<lambda>portRef connId userData. provider_getUserData prov portRef connId userData),
     f_setGetMsgLen = None\<rparr>"

text \<open>The port of the L1 control protocol sits on the provider for Unix domain sockets, here its one function that is used.\<close>

definition L1CTL_PortType_CtrlFunct :: "('s \<Rightarrow> int \<Rightarrow> 'f \<Rightarrow> int list \<Rightarrow> 's) \<Rightarrow> 's \<Rightarrow> int \<Rightarrow> 'f \<Rightarrow> int list \<Rightarrow> 's" where
  "L1CTL_PortType_CtrlFunct ud_setGetMsgLen = (\<lambda>portRef ident f msgLenArgs. ud_setGetMsgLen portRef ident f msgLenArgs)"

definition M3UA_CodecPort_CtrlFunct :: "('s, 'p, 'o, 'u, 'f, 'r) port_functions" where
  "M3UA_CodecPort_CtrlFunct prov = \<lparr>
     f_listen = (\<lambda>portRef locName locPort proto options. provider_listen prov portRef locName locPort proto options),
     f_connect = Some (\<lambda>portRef remName remPort locName locPort connId proto options. provider_connect prov portRef remName remPort locName locPort connId proto options),
     f_close = Some (\<lambda>portRef connId proto. provider_close prov portRef connId proto),
     f_setUserData = Some (\<lambda>portRef connId userData. provider_setUserData prov portRef connId userData),
     f_getUserData = Some (\<lambda>portRef connId userData. provider_getUserData prov portRef connId userData),
     f_setGetMsgLen = Some (\<lambda>portRef connId f msgLenArgs. provider_setGetMsgLen prov portRef connId f msgLenArgs)\<rparr>"

definition MGCP_CodecPort_CtrlFunct :: "('s, 'p, 'o, 'u, 'f, 'r) port_functions" where
  "MGCP_CodecPort_CtrlFunct prov = \<lparr>
     f_listen = (\<lambda>portRef locName locPort proto options. provider_listen prov portRef locName locPort proto options),
     f_connect = Some (\<lambda>portRef remName remPort locName locPort connId proto options. provider_connect prov portRef remName remPort locName locPort connId proto options),
     f_close = Some (\<lambda>portRef connId proto. provider_close prov portRef connId proto),
     f_setUserData = Some (\<lambda>portRef connId userData. provider_setUserData prov portRef connId userData),
     f_getUserData = Some (\<lambda>portRef connId userData. provider_getUserData prov portRef connId userData),
     f_setGetMsgLen = None\<rparr>"

definition NGAP_CodecPort_CtrlFunct :: "('s, 'p, 'o, 'u, 'f, 'r) port_functions" where
  "NGAP_CodecPort_CtrlFunct prov = \<lparr>
     f_listen = (\<lambda>portRef locName locPort proto options. provider_listen prov portRef locName locPort proto options),
     f_connect = Some (\<lambda>portRef remName remPort locName locPort connId proto options. provider_connect prov portRef remName remPort locName locPort connId proto options),
     f_close = Some (\<lambda>portRef connId proto. provider_close prov portRef connId proto),
     f_setUserData = Some (\<lambda>portRef connId userData. provider_setUserData prov portRef connId userData),
     f_getUserData = Some (\<lambda>portRef connId userData. provider_getUserData prov portRef connId userData),
     f_setGetMsgLen = None\<rparr>"

definition OPCAP_CodecPort_CtrlFunct :: "('s, 'p, 'o, 'u, 'f, 'r) port_functions" where
  "OPCAP_CodecPort_CtrlFunct prov = \<lparr>
     f_listen = (\<lambda>portRef locName locPort proto options. provider_listen prov portRef locName locPort proto options),
     f_connect = Some (\<lambda>portRef remName remPort locName locPort connId proto options. provider_connect prov portRef remName remPort locName locPort connId proto options),
     f_close = Some (\<lambda>portRef connId proto. provider_close prov portRef connId proto),
     f_setUserData = Some (\<lambda>portRef connId userData. provider_setUserData prov portRef connId userData),
     f_getUserData = Some (\<lambda>portRef connId userData. provider_getUserData prov portRef connId userData),
     f_setGetMsgLen = Some (\<lambda>portRef connId f msgLenArgs. provider_setGetMsgLen prov portRef connId f msgLenArgs)\<rparr>"

definition OSMUX_CodecPort_CtrlFunct :: "('s, 'p, 'o, 'u, 'f, 'r) port_functions" where
  "OSMUX_CodecPort_CtrlFunct prov = \<lparr>
     f_listen = (\<lambda>portRef locName locPort proto options. provider_listen prov portRef locName locPort proto options),
     f_connect = Some (\<lambda>portRef remName remPort locName locPort connId proto options. provider_connect prov portRef remName remPort locName locPort connId proto options),
     f_close = Some (\<lambda>portRef connId proto. provider_close prov portRef connId proto),
     f_setUserData = Some (\<lambda>portRef connId userData. provider_setUserData prov portRef connId userData),
     f_getUserData = Some (\<lambda>portRef connId userData. provider_getUserData prov portRef connId userData),
     f_setGetMsgLen = None\<rparr>"

definition PFCP_CodecPort_CtrlFunct :: "('s, 'p, 'o, 'u, 'f, 'r) port_functions" where
  "PFCP_CodecPort_CtrlFunct prov = \<lparr>
     f_listen = (\<lambda>portRef locName locPort proto options. provider_listen prov portRef locName locPort proto options),
     f_connect = Some (\<lambda>portRef remName remPort locName locPort connId proto options. provider_connect prov portRef remName remPort locName locPort connId proto options),
     f_close = Some (\<lambda>portRef connId proto. provider_close prov portRef connId proto),
     f_setUserData = Some (\<lambda>portRef connId userData. provider_setUserData prov portRef connId userData),
     f_getUserData = Some (\<lambda>portRef connId userData. provider_getUserData prov portRef connId userData),
     f_setGetMsgLen = None\<rparr>"

definition RTP_CodecPort_CtrlFunct :: "('s, 'p, 'o, 'u, 'f, 'r) port_functions" where
  "RTP_CodecPort_CtrlFunct prov = \<lparr>
     f_listen = (\<lambda>portRef locName locPort proto options. provider_listen prov portRef locName locPort proto options),
     f_connect = Some (\<lambda>portRef remName remPort locName locPort connId proto options. provider_connect prov portRef remName remPort locName locPort connId proto options),
     f_close = Some (\<lambda>portRef connId proto. provider_close prov portRef connId proto),
     f_setUserData = Some (\<lambda>portRef connId userData. provider_setUserData prov portRef connId userData),
     f_getUserData = Some (\<lambda>portRef connId userData. provider_getUserData prov portRef connId userData),
     f_setGetMsgLen = None\<rparr>"

definition S1AP_CodecPort_CtrlFunct :: "('s, 'p, 'o, 'u, 'f, 'r) port_functions" where
  "S1AP_CodecPort_CtrlFunct prov = \<lparr>
     f_listen = (\<lambda>portRef locName locPort proto options. provider_listen prov portRef locName locPort proto options),
     f_connect = Some (\<lambda>portRef remName remPort locName locPort connId proto options. provider_connect prov portRef remName remPort locName locPort connId proto options),
     f_close = Some (\<lambda>portRef connId proto. provider_close prov portRef connId proto),
     f_setUserData = Some (\<lambda>portRef connId userData. provider_setUserData prov portRef connId userData),
     f_getUserData = Some (\<lambda>portRef connId userData. provider_getUserData prov portRef connId userData),
     f_setGetMsgLen = None\<rparr>"

definition SGsAP_CodecPort_CtrlFunct :: "('s, 'p, 'o, 'u, 'f, 'r) port_functions" where
  "SGsAP_CodecPort_CtrlFunct prov = \<lparr>
     f_listen = (\<lambda>portRef locName locPort proto options. provider_listen prov portRef locName locPort proto options),
     f_connect = Some (\<lambda>portRef remName remPort locName locPort connId proto options. provider_connect prov portRef remName remPort locName locPort connId proto options),
     f_close = Some (\<lambda>portRef connId proto. provider_close prov portRef connId proto),
     f_setUserData = Some (\<lambda>portRef connId userData. provider_setUserData prov portRef connId userData),
     f_getUserData = Some (\<lambda>portRef connId userData. provider_getUserData prov portRef connId userData),
     f_setGetMsgLen = None\<rparr>"

definition SMPP_CodecPort_CtrlFunct :: "('s, 'p, 'o, 'u, 'f, 'r) port_functions" where
  "SMPP_CodecPort_CtrlFunct prov = \<lparr>
     f_listen = (\<lambda>portRef locName locPort proto options. provider_listen prov portRef locName locPort proto options),
     f_connect = Some (\<lambda>portRef remName remPort locName locPort connId proto options. provider_connect prov portRef remName remPort locName locPort connId proto options),
     f_close = Some (\<lambda>portRef connId proto. provider_close prov portRef connId proto),
     f_setUserData = Some (\<lambda>portRef connId userData. provider_setUserData prov portRef connId userData),
     f_getUserData = Some (\<lambda>portRef connId userData. provider_getUserData prov portRef connId userData),
     f_setGetMsgLen = Some (\<lambda>portRef connId f msgLenArgs. provider_setGetMsgLen prov portRef connId f msgLenArgs)\<rparr>"

definition StatsD_CodecPort_CtrlFunct :: "('s, 'p, 'o, 'u, 'f, 'r) port_functions" where
  "StatsD_CodecPort_CtrlFunct prov = \<lparr>
     f_listen = (\<lambda>portRef locName locPort proto options. provider_listen prov portRef locName locPort proto options),
     f_connect = Some (\<lambda>portRef remName remPort locName locPort connId proto options. provider_connect prov portRef remName remPort locName locPort connId proto options),
     f_close = Some (\<lambda>portRef connId proto. provider_close prov portRef connId proto),
     f_setUserData = Some (\<lambda>portRef connId userData. provider_setUserData prov portRef connId userData),
     f_getUserData = Some (\<lambda>portRef connId userData. provider_getUserData prov portRef connId userData),
     f_setGetMsgLen = None\<rparr>"

definition TRXC_CodecPort_CtrlFunct :: "('s, 'p, 'o, 'u, 'f, 'r) port_functions" where
  "TRXC_CodecPort_CtrlFunct prov = \<lparr>
     f_listen = (\<lambda>portRef locName locPort proto options. provider_listen prov portRef locName locPort proto options),
     f_connect = Some (\<lambda>portRef remName remPort locName locPort connId proto options. provider_connect prov portRef remName remPort locName locPort connId proto options),
     f_close = Some (\<lambda>portRef connId proto. provider_close prov portRef connId proto),
     f_setUserData = Some (\<lambda>portRef connId userData. provider_setUserData prov portRef connId userData),
     f_getUserData = Some (\<lambda>portRef connId userData. provider_getUserData prov portRef connId userData),
     f_setGetMsgLen = None\<rparr>"

definition VPCD_CodecPort_CtrlFunct :: "('s, 'p, 'o, 'u, 'f, 'r) port_functions" where
  "VPCD_CodecPort_CtrlFunct prov = \<lparr>
     f_listen = (\<lambda>portRef locName locPort proto options. provider_listen prov portRef locName locPort proto options),
     f_connect = Some (\<lambda>portRef remName remPort locName locPort connId proto options. provider_connect prov portRef remName remPort locName locPort connId proto options),
     f_close = Some (\<lambda>portRef connId proto. provider_close prov portRef connId proto),
     f_setUserData = Some (\<lambda>portRef connId userData. provider_setUserData prov portRef connId userData),
     f_getUserData = Some (\<lambda>portRef connId userData. provider_getUserData prov portRef connId userData),
     f_setGetMsgLen = Some (\<lambda>portRef connId f msgLenArgs. provider_setGetMsgLen prov portRef connId f msgLenArgs)\<rparr>"

definition SABP_CodecPort_CtrlFunct :: "('s, 'p, 'o, 'u, 'f, 'r) port_functions" where
  "SABP_CodecPort_CtrlFunct prov = \<lparr>
     f_listen = (\<lambda>portRef locName locPort proto options. provider_listen prov portRef locName locPort proto options),
     f_connect = Some (\<lambda>portRef remName remPort locName locPort connId proto options. provider_connect prov portRef remName remPort locName locPort connId proto options),
     f_close = Some (\<lambda>portRef connId proto. provider_close prov portRef connId proto),
     f_setUserData = Some (\<lambda>portRef connId userData. provider_setUserData prov portRef connId userData),
     f_getUserData = Some (\<lambda>portRef connId userData. provider_getUserData prov portRef connId userData),
     f_setGetMsgLen = Some (\<lambda>portRef connId f msgLenArgs. provider_setGetMsgLen prov portRef connId f msgLenArgs)\<rparr>"

definition SBC_AP_CodecPort_CtrlFunct :: "('s, 'p, 'o, 'u, 'f, 'r) port_functions" where
  "SBC_AP_CodecPort_CtrlFunct prov = \<lparr>
     f_listen = (\<lambda>portRef locName locPort proto options. provider_listen prov portRef locName locPort proto options),
     f_connect = Some (\<lambda>portRef remName remPort locName locPort connId proto options. provider_connect prov portRef remName remPort locName locPort connId proto options),
     f_close = Some (\<lambda>portRef connId proto. provider_close prov portRef connId proto),
     f_setUserData = Some (\<lambda>portRef connId userData. provider_setUserData prov portRef connId userData),
     f_getUserData = Some (\<lambda>portRef connId userData. provider_getUserData prov portRef connId userData),
     f_setGetMsgLen = None\<rparr>"

section \<open>The ports agree with their providers\<close>

text \<open>The functions of a provider as those of a port, with the length function for stream protocols.\<close>

definition provider_control :: "('s, 'p, 'o, 'u, 'f, 'r) port_functions" where
  "provider_control prov = \<lparr>f_listen = provider_listen prov, f_connect = Some (provider_connect prov),
     f_close = Some (provider_close prov), f_setUserData = Some (provider_setUserData prov),
     f_getUserData = Some (provider_getUserData prov), f_setGetMsgLen = Some (provider_setGetMsgLen prov)\<rparr>"

text \<open>The ports of stream protocols have them all; the others have no message length function, and that of GTP-U only listens.\<close>

lemma stream_ports:
  "\<forall>port\<in>set [CBSP_CodecPort_CtrlFunct, IPA_CodecPort_CtrlFunct, M3UA_CodecPort_CtrlFunct, OPCAP_CodecPort_CtrlFunct, SMPP_CodecPort_CtrlFunct, VPCD_CodecPort_CtrlFunct, SABP_CodecPort_CtrlFunct].
     port prov = provider_control prov"
  by (simp add: provider_control_def CBSP_CodecPort_CtrlFunct_def IPA_CodecPort_CtrlFunct_def M3UA_CodecPort_CtrlFunct_def OPCAP_CodecPort_CtrlFunct_def SMPP_CodecPort_CtrlFunct_def VPCD_CodecPort_CtrlFunct_def SABP_CodecPort_CtrlFunct_def)

lemma message_ports:
  "\<forall>port\<in>set [DIAMETER_CodecPort_CtrlFunct,
       GTPv1C_CodecPort_CtrlFunct,
       GTPv2_CodecPort_CtrlFunct,
       IPL4_GSMTAP_CtrlFunct,
       Iuh_CodecPort_CtrlFunct,
       MGCP_CodecPort_CtrlFunct,
       NGAP_CodecPort_CtrlFunct,
       OSMUX_CodecPort_CtrlFunct,
       PFCP_CodecPort_CtrlFunct,
       RTP_CodecPort_CtrlFunct,
       S1AP_CodecPort_CtrlFunct,
       SGsAP_CodecPort_CtrlFunct,
       StatsD_CodecPort_CtrlFunct,
       TRXC_CodecPort_CtrlFunct,
       SBC_AP_CodecPort_CtrlFunct].
     port prov = (provider_control prov)\<lparr>f_setGetMsgLen := None\<rparr>"
  by (simp add: provider_control_def DIAMETER_CodecPort_CtrlFunct_def
      GTPv1C_CodecPort_CtrlFunct_def
      GTPv2_CodecPort_CtrlFunct_def
      IPL4_GSMTAP_CtrlFunct_def
      Iuh_CodecPort_CtrlFunct_def
      MGCP_CodecPort_CtrlFunct_def
      NGAP_CodecPort_CtrlFunct_def
      OSMUX_CodecPort_CtrlFunct_def
      PFCP_CodecPort_CtrlFunct_def
      RTP_CodecPort_CtrlFunct_def
      S1AP_CodecPort_CtrlFunct_def
      SGsAP_CodecPort_CtrlFunct_def
      StatsD_CodecPort_CtrlFunct_def
      TRXC_CodecPort_CtrlFunct_def
      SBC_AP_CodecPort_CtrlFunct_def)

end
