(* ===== verification/Key_Files.thy ===== *)
theory Key_Files
  imports RSP_Client
begin

text \<open>
  How \<^verbatim>\<open>rsp_client.cc\<close> reads a key file: \<^verbatim>\<open>readFileToBIO\<close> hands out a memory BIO over the octets of a local
  string, which the function's end destroys. Strings are objects of an explicit memory. BIOs and the PEM readers are OpenSSL's and
  arguments, the readers with the memory that they are called in, so that reading through a BIO whose octets are gone
  can be told from reading a key: by OpenSSL's documentation the octets have to stay as they were for as long as the BIO is used. The client
  model, which takes the key in a file as an argument, describes the runs in which the read goes well all the same. The helpers that read a
  public key, an extension and a subject's name out of OpenSSL's objects stand at the end.
\<close>

section \<open>Memory and BIOs\<close>

text \<open>The strings that live, at their addresses, and the next address.\<close>

record memory =
  string_at :: "nat \<Rightarrow> octets option"
  fresh_at :: nat

definition new_string :: "octets \<Rightarrow> memory \<Rightarrow> nat \<times> memory" where
  "new_string s m = (fresh_at m, m\<lparr>string_at := (string_at m)(fresh_at m \<mapsto> s), fresh_at := fresh_at m + 1\<rparr>)"

definition delete_string :: "nat \<Rightarrow> memory \<Rightarrow> memory" where
  "delete_string a m = m\<lparr>string_at := (string_at m)(a := None)\<rparr>"

text \<open>
  What the loading functions are given: files, OpenSSL's memory BIOs and PEM readers, the octets of a public key. A reader
  that does what the language or the library leaves undefined fails with \<^const>\<open>Undefined\<close>.
\<close>

record ('b, 'p, 'k) key_source =
  key_file_exists :: "string \<Rightarrow> bool"
  key_file :: "string \<Rightarrow> octets option"
  BIO_new_mem_buf :: "nat \<Rightarrow> memory \<Rightarrow> 'b option"
  PEM_read_bio_PrivateKey :: "'b \<Rightarrow> memory \<Rightarrow> 'k option result"
  PEM_read_bio_PUBKEY :: "'b \<Rightarrow> memory \<Rightarrow> 'p option result"
  private_octets :: "'k \<Rightarrow> octets result"
  public_key_octets :: "'p \<Rightarrow> octets result"

text \<open>
  The string is made, the BIO over it, and the string is destroyed when the function returns and when it throws.
\<close>

definition readFileToBIO :: "('b, 'p, 'k) key_source \<Rightarrow> string \<Rightarrow> memory \<Rightarrow> 'b result \<times> memory" where
  "readFileToBIO src filePath m =
     (case key_file src filePath of None \<Rightarrow> (Inl Thrown, m)
      | Some s \<Rightarrow>
          let (content_at, m) = new_string s m;
              r = (case BIO_new_mem_buf src content_at m of None \<Rightarrow> Inl Thrown | Some b \<Rightarrow> Inr b)
          in (r, delete_string content_at m))"

section \<open>Public key, extension and subject of OpenSSL's objects\<close>

text \<open>
  The two calls of \<^verbatim>\<open>EVP_PKEY_get_octet_string_param\<close>: without a buffer for the size, with a buffer of that size
  for the octets, of which those not written stay 0. The vector keeps the size of the first call.
\<close>

definition extractPublicKeyData ::
    "('k \<Rightarrow> nat option) \<Rightarrow> ('k \<Rightarrow> nat \<Rightarrow> octets option) \<Rightarrow> 'k \<Rightarrow> octets result" where
  "extractPublicKeyData param_size param_octets key =
     (case param_size key of None \<Rightarrow> Inl Thrown
      | Some pub_len \<Rightarrow>
          (case param_octets key pub_len of None \<Rightarrow> Inl Thrown
           | Some data \<Rightarrow> if length data > pub_len then Inl OutOfBounds
                          else Inr (data @ replicate (pub_len - length data) 0)))"

definition getCertificateExtension ::
    "('c \<Rightarrow> int \<Rightarrow> int) \<Rightarrow> ('c \<Rightarrow> int \<Rightarrow> 'e option) \<Rightarrow> ('e \<Rightarrow> octets option) \<Rightarrow> 'c \<Rightarrow> int \<Rightarrow> octets" where
  "getCertificateExtension get_ext_by_NID get_ext get_data cert nid =
     (let loc = get_ext_by_NID cert nid in
      if loc < 0 then []
      else case get_ext cert loc of None \<Rightarrow> []
           | Some ext \<Rightarrow> (case get_data ext of None \<Rightarrow> [] | Some data \<Rightarrow> data))"

text \<open>
  \<^verbatim>\<open>X509_NAME_oneline\<close> writes into 256 characters, the last of them 0; its failure is not looked at and leaves
  the characters without a value.
\<close>

definition getSubjectName :: "('c \<Rightarrow> nat \<Rightarrow> string option) \<Rightarrow> 'c \<Rightarrow> string result" where
  "getSubjectName oneline cert =
     (case oneline cert 256 of None \<Rightarrow> Inl OutOfBounds
      | Some s \<Rightarrow> if length s \<ge> 256 then Inl OutOfBounds else Inr (c_string s))"

section \<open>Loading keys\<close>

text \<open>
  Exceptions are caught, logged and thrown again; undefined behaviour is no exception. The storage is given
  the outcome of the PEM reader before it is looked at, so a failure empties it.
\<close>

definition xx_loadPrivateKey ::
    "('b, 'p, 'k) key_source \<Rightarrow> string \<Rightarrow> 'k option \<Rightarrow> memory \<Rightarrow> unit result \<times> 'k option \<times> memory" where
  "xx_loadPrivateKey src keyPath keyStorage m =
     (if \<not> key_file_exists src keyPath then (Inl Thrown, keyStorage, m)
      else case readFileToBIO src keyPath m of
        (Inl e, m) \<Rightarrow> (Inl e, keyStorage, m)
      | (Inr keyBio, m) \<Rightarrow>
          (case PEM_read_bio_PrivateKey src keyBio m of Inl e \<Rightarrow> (Inl e, keyStorage, m)
           | Inr None \<Rightarrow> (Inl Thrown, None, m)
           | Inr (Some k) \<Rightarrow> (Inr (), Some k, m)))"

text \<open>Here every exception becomes the answer false.\<close>

definition xx_loadPublicKey ::
    "('b, 'p, 'k) key_source \<Rightarrow> string \<Rightarrow> octets \<Rightarrow> memory \<Rightarrow> bool result \<times> octets \<times> memory" where
  "xx_loadPublicKey src pubKeyPath publicKeyStorage m =
     (if \<not> key_file_exists src pubKeyPath then (Inr False, publicKeyStorage, m)
      else case readFileToBIO src pubKeyPath m of
        (Inl e, m) \<Rightarrow> (Inr False, publicKeyStorage, m)
      | (Inr keyBio, m) \<Rightarrow>
          (case PEM_read_bio_PUBKEY src keyBio m of Inl e \<Rightarrow> (Inl e, publicKeyStorage, m)
           | Inr None \<Rightarrow> (Inr False, publicKeyStorage, m)
           | Inr (Some p) \<Rightarrow> (case public_key_octets src p of
                     Inl Thrown \<Rightarrow> (Inr False, publicKeyStorage, m)
                   | Inl e \<Rightarrow> (Inl e, publicKeyStorage, m)
                   | Inr pub \<Rightarrow> (Inr True, pub, m))))"

definition xx_generatePublicKeyFromPrivate ::
    "('b, 'p, 'k) key_source \<Rightarrow> 'k option \<Rightarrow> octets \<Rightarrow> unit result \<times> octets" where
  "xx_generatePublicKeyFromPrivate src privateKey publicKeyStorage =
     (case privateKey of None \<Rightarrow> (Inl Thrown, publicKeyStorage)
      | Some k \<Rightarrow> (case private_octets src k of Inl e \<Rightarrow> (Inl e, publicKeyStorage) | Inr pub \<Rightarrow> (Inr (), pub)))"

definition loadKeyPair_files ::
    "('b, 'p, 'k) key_source \<Rightarrow> string \<Rightarrow> string \<Rightarrow> 'k option \<times> octets \<Rightarrow> memory \<Rightarrow>
     unit result \<times> ('k option \<times> octets) \<times> memory" where
  "loadKeyPair_files src privateKeyPath publicKeyPath storage m =
     (case xx_loadPrivateKey src privateKeyPath (fst storage) m of
        (Inl e, key, m) \<Rightarrow> (Inl e, (key, snd storage), m)
      | (Inr _, key, m) \<Rightarrow>
          (case (if publicKeyPath = [] then (Inr False, snd storage, m)
                 else xx_loadPublicKey src publicKeyPath (snd storage) m) of
             (Inl e, pub, m) \<Rightarrow> (Inl e, (key, pub), m)
           | (Inr True, pub, m) \<Rightarrow> (Inr (), (key, pub), m)
           | (Inr False, pub, m) \<Rightarrow>
               (case xx_generatePublicKeyFromPrivate src key pub of (r, pub) \<Rightarrow> (r, (key, pub), m))))"

section \<open>The BIO outlives its octets\<close>

text \<open>
  What OpenSSL documents of \<^verbatim>\<open>BIO_new_mem_buf\<close>: the octets are not copied, and must be there, unchanged, for as long as the BIO
  is used. A reader that is called when they are gone is undefined.
\<close>

definition mem_buf_ok :: "('b, 'p, 'k) key_source \<Rightarrow> bool" where
  "mem_buf_ok src \<longleftrightarrow> (\<forall>a m b m'. BIO_new_mem_buf src a m = Some b \<longrightarrow> string_at m' a \<noteq> string_at m a \<longrightarrow>
     PEM_read_bio_PrivateKey src b m' = Inl Undefined \<and> PEM_read_bio_PUBKEY src b m' = Inl Undefined)"

lemma readFileToBIO_cases:
  "readFileToBIO src path m =
     (case key_file src path of None \<Rightarrow> (Inl Thrown, m)
      | Some s \<Rightarrow>
          (case BIO_new_mem_buf src (fresh_at m) (m\<lparr>string_at := (string_at m)(fresh_at m \<mapsto> s), fresh_at := fresh_at m + 1\<rparr>) of
             None \<Rightarrow> Inl Thrown | Some b \<Rightarrow> Inr b,
           m\<lparr>string_at := (string_at m)(fresh_at m := None), fresh_at := fresh_at m + 1\<rparr>))"
  by (simp add: readFileToBIO_def new_string_def delete_string_def split: option.splits)

lemma private_key_reads_freed:
  assumes "mem_buf_ok src"
  shows "fst (xx_loadPrivateKey src path storage m) =
    (if key_file_exists src path \<and> (\<exists>b. fst (readFileToBIO src path m) = Inr b) then Inl Undefined else Inl Thrown)"
  using assms by (fastforce simp: xx_loadPrivateKey_def readFileToBIO_cases mem_buf_ok_def split: option.splits)

text \<open>
  No key pair is ever loaded in a way that C++ and OpenSSL define: without a file that exists and opens, or without a BIO, loading
  throws; otherwise it is undefined, since the octets that the BIO points to went with the local string of \<^verbatim>\<open>readFileToBIO\<close>.
\<close>

theorem loadKeyPair_reads_freed:
  assumes "mem_buf_ok src"
  shows "fst (loadKeyPair_files src privateKeyPath publicKeyPath storage m) =
    (if key_file_exists src privateKeyPath \<and> (\<exists>b. fst (readFileToBIO src privateKeyPath m) = Inr b) then Inl Undefined else Inl Thrown)"
  using private_key_reads_freed [OF assms, of privateKeyPath "fst storage" m]
  by (auto simp: loadKeyPair_files_def split: prod.split sum.split)

text \<open>BIOs that know the octets that they were made for, and a file with a key.\<close>

definition example_source :: "(nat \<times> octets, octets, octets) key_source" where
  "example_source = \<lparr>key_file_exists = (\<lambda>p. p = ''sk.pem''), key_file = (\<lambda>p. if p = ''sk.pem'' then Some [7, 8] else None),
     BIO_new_mem_buf = (\<lambda>a m. map_option (Pair a) (string_at m a)),
     PEM_read_bio_PrivateKey = (\<lambda>b m. if string_at m (fst b) = Some (snd b) then Inr (Some (snd b)) else Inl Undefined),
     PEM_read_bio_PUBKEY = (\<lambda>b m. if string_at m (fst b) = Some (snd b) then Inr (Some (snd b)) else Inl Undefined),
     private_octets = (\<lambda>k. Inr (4 # k)), public_key_octets = (\<lambda>p. Inr p)\<rparr>"

theorem loadKeyPair_reads_freed_witness:
  "fst (loadKeyPair_files example_source ''sk.pem'' [] (None, []) \<lparr>string_at = (\<lambda>_. None), fresh_at = 0\<rparr>) = Inl Undefined \<and>
   PEM_read_bio_PrivateKey example_source (0, [7, 8]) \<lparr>string_at = [0 \<mapsto> [7, 8]], fresh_at = 1\<rparr> = Inr (Some [7, 8])"
proof -
  have "mem_buf_ok example_source" by (auto simp: mem_buf_ok_def example_source_def)
  from loadKeyPair_reads_freed [OF this, of "''sk.pem''" "[]" "(None, [])" "\<lparr>string_at = (\<lambda>_. None), fresh_at = 0\<rparr>"]
  show ?thesis by (simp add: readFileToBIO_cases) (simp add: example_source_def)
qed

text \<open>
  With the documented calls, the size first and then as many octets, the octets extracted are those of the key.
\<close>

lemma extractPublicKeyData_octets:
  assumes "param_size key = Some (length pub)" "param_octets key (length pub) = Some pub"
  shows "extractPublicKeyData param_size param_octets key = Inr pub"
  using assms by (simp add: extractPublicKeyData_def)

lemma extractPublicKeyData_length:
  assumes "extractPublicKeyData param_size param_octets key = Inr pub"
  shows "param_size key = Some (length pub)"
  using assms by (auto simp: extractPublicKeyData_def split: option.splits if_splits)

end
