(* ===== verification/Spec2Isabelle.thy ===== *)
theory Spec2Isabelle
  imports Snow3G_F8F9 BSSGP_Helper IuUP_EncDec Milenage Key_Derivation BSP_Session BSP_Robustness BPP_Delivery RLCMAC_Roundtrip MNCC_Robustness
    SMDPP_Threads SMDPP_Console Native_Roundtrip HTTP_Refinement HTTP_Lifetime ASN1_EncDec CodecPort_CtrlFunct Key_Files
begin

text \<open>
  A model of the C and C++ code of osmo-ttcn3-hacks, with its correctness.

  \<^bold>\<open>The program.\<close> The repository holds TTCN-3 test suites for the network elements of Osmocom. What TTCN-3
  cannot express is written in C and C++: external functions that the test cases call, and the codecs behind them.
  These are the code modelled here. The parts do not call each other, except where noted: each is a set of external functions
  with the library code below it.

  \<^item> \<^verbatim>\<open>library/snow_3g\<close>: the SNOW 3G cipher, the confidentiality function f8 and the integrity function f9.
    Theories \<^theory_text>\<open>Snow3G\<close> (field arithmetic, shift register and state machine, initialisation) and \<^theory_text>\<open>Snow3G_F8F9\<close> (f8, f9,
    the two external functions). The global registers are the record \<open>snow3g\<close>.
  \<^item> \<^verbatim>\<open>library/milenage\<close>, \<^verbatim>\<open>library/ng_crypto\<close>, \<^verbatim>\<open>library/lte_crypto\<close> with their external functions: authentication and
    the key hierarchies. Theories \<^theory_text>\<open>Milenage\<close> and \<^theory_text>\<open>Key_Derivation\<close>.
  \<^item> \<^verbatim>\<open>library/BSSGP_Helper.cc\<close>, \<^verbatim>\<open>library/IuUP_EncDec.cc\<close>: length conversions, checksums. Theories \<^theory_text>\<open>BSSGP_Helper\<close> and
    \<^theory_text>\<open>IuUP_EncDec\<close>.
  \<^item> \<^verbatim>\<open>library/RLCMAC_EncDec.cc\<close>: the codec of GPRS and EGPRS blocks. Theories \<^theory_text>\<open>RLCMAC_Types\<close> (the records of the TTCN-3
    modules), \<^theory_text>\<open>RLCMAC_Bits\<close> (the C structures with bit fields, copies at a bit offset), \<^theory_text>\<open>RLCMAC_EncDec\<close> (both directions)
    and \<^theory_text>\<open>RLCMAC_Roundtrip\<close>.
  \<^item> \<^verbatim>\<open>library/MNCC_EncDec.cc\<close> over the structures of \<^verbatim>\<open>library/mncc.h\<close>: the codec of the call control socket. Theories
    \<^theory_text>\<open>MNCC_EncDec\<close> (values, memory layout, both directions), \<^theory_text>\<open>MNCC_Roundtrip\<close> and \<^theory_text>\<open>MNCC_Robustness\<close> (reads of received
    messages).
  \<^item> \<^verbatim>\<open>library/Native_FunctionDefs.cc\<close>: internet addresses and letter case. Theories \<^theory_text>\<open>C_Library\<close>, \<^theory_text>\<open>Native_Functions\<close>,
    \<^theory_text>\<open>Native_Roundtrip\<close>.
  \<^item> \<^verbatim>\<open>smdpp/bsp_crypto.cc\<close>: the protection of bound profile packages for eSIMs. Theories \<^theory_text>\<open>BSP_Crypto\<close> (keys, segments,
    processing), \<^theory_text>\<open>BSP_Session\<close> (two ends that exchange segments), \<^theory_text>\<open>DER_Codec\<close> (X.690), \<^theory_text>\<open>BPP_ASN1\<close> (the templates of the code as data, the layout of SGP.22),
    \<^theory_text>\<open>BPP_Delivery\<close> (from octets to results) and \<^theory_text>\<open>BSP_Robustness\<close> (how the processing can end).
  \<^item> \<^verbatim>\<open>smdpp/rsp_client.cc\<close> and \<^verbatim>\<open>smdpp/smdpp_Tests_Functions.cc\<close>: the client of the provisioning server, and the external
    functions, which keep clients in a registry, turn exceptions into error values and call the client and \<^theory_text>\<open>BSP_Crypto\<close>. Theories
    \<^theory_text>\<open>RSP_Certificates\<close> (certificates, chains, signatures), \<^theory_text>\<open>RSP_Client\<close> (the state of a client and its methods),
    \<^theory_text>\<open>Key_Files\<close> (how a key file is read, through an explicit memory),
    \<^theory_text>\<open>SMDPP_Functions\<close> (registry and external functions), \<^theory_text>\<open>RSP_Certificate_Props\<close> and \<^theory_text>\<open>SMDPP_Props\<close>; \<^theory_text>\<open>SMDPP_Threads\<close> has the
    registry between threads, \<^theory_text>\<open>SMDPP_Console\<close> the functions that write to the console.
  \<^item> The HTTP client in \<^verbatim>\<open>smdpp/rsp_client.cc\<close> and \<^verbatim>\<open>smdpp/http_client.h\<close>, with the functions libcurl calls back. Theories
    \<^theory_text>\<open>HTTP_Client\<close> (calls of libcurl, callbacks), \<^theory_text>\<open>HTTP_Usage\<close> (the rules of libcurl), \<^theory_text>\<open>HTTP_Refinement\<close> (the transfer of
    \<^theory_text>\<open>RSP_Client\<close>, verification of the server) and \<^theory_text>\<open>HTTP_Lifetime\<close> (initialisation of libcurl).
  \<^item> \<^verbatim>\<open>smdpp/logger.h\<close> and \<^verbatim>\<open>smdpp/helpers.h\<close>: log lines, OpenSSL's error queue, hexadecimal text, Base64. Theories \<^theory_text>\<open>Logger\<close>
    and \<^theory_text>\<open>SMDPP_Helpers\<close>.
  \<^item> The encoders and decoders of ASN.1 protocols (\<^verbatim>\<open>library/ngap\<close>, \<^verbatim>\<open>s1ap\<close>, \<^verbatim>\<open>sbcap\<close>, \<^verbatim>\<open>sabp\<close>, \<^verbatim>\<open>rua\<close>, \<^verbatim>\<open>ranap\<close>, \<^verbatim>\<open>hnbap\<close>, \<^verbatim>\<open>tcap\<close>,
    \<^verbatim>\<open>remsim\<close>): theory \<^theory_text>\<open>ASN1_EncDec\<close>. The control functions of codec ports (\<^verbatim>\<open>*_CtrlFunctDef.cc\<close>): theory
    \<^theory_text>\<open>CodecPort_CtrlFunct\<close>, tables of what each forwards to.

  \<^theory_text>\<open>Prelude\<close> has what all share: words of 8 to 64 bits, octet strings as lists of 8-bit words, the failures
  (reading or writing outside an array, other undefined behaviour, an error of the TITAN runtime, a C++ exception, the end of the process) with
  the type \<open>'a result\<close>, and big-endian conversions. \<^theory_text>\<open>Xor_Linear\<close> has the interfaces of functions that commute with exclusive
  or, whose instances are the field arithmetic of SNOW 3G and the checksums.

  \<^bold>\<open>Correspondence.\<close> A definition has the name of the function, structure or member it models. Integers keep their width.
  Functions that change an object or a global take the state and return it; a state-changing step that may fail returns the
  failure and the state it leaves, so that what was written before an exception is visible afterwards. Loops are recursive
  functions that stop for the reasons the code's loops stop for. The loop over the permitted EINs and those over OpenSSL's error queue need not end, and are
  partial functions into \<open>option\<close>, with \<open>None\<close> for a run without end; no definition that models code uses fuel.

  \<^bold>\<open>Parameters.\<close> Code that is not in the repository is an argument: OpenSSL in the records \<open>openssl\<close> (one of
  \<^theory_text>\<open>Milenage\<close>, one of \<^theory_text>\<open>RSP_Certificates\<close>) and \<open>evp\<close> (\<^theory_text>\<open>BSP_Crypto\<close>), the codecs TITAN generates in the record \<open>titan\<close>
  (\<^theory_text>\<open>RLCMAC_EncDec\<close>), the runtime's conversions in \<open>titan_rt\<close> (\<^theory_text>\<open>MNCC_EncDec\<close>), HMAC-SHA-256 in \<^theory_text>\<open>Key_Derivation\<close>, files, random
  numbers, keys and HTTP transfer in the record \<open>environment\<close> (\<^theory_text>\<open>RSP_Client\<close>), the functions of libcurl in \<open>libcurl\<close>, whose answers
  may depend on all calls before, and names of certificates and the error queue in \<open>x509_api\<close> (\<^theory_text>\<open>HTTP_Client\<close>) and
  \<open>error_api\<close> (\<^theory_text>\<open>Logger\<close>), memory BIOs and PEM readers in \<open>key_source\<close> (\<^theory_text>\<open>Key_Files\<close>), the decoders and encoders OpenSSL makes of
  templates in \<open>asn1_library\<close> (\<^theory_text>\<open>DER_Codec\<close>), generated ASN.1 codecs in \<open>generated\<close> (\<^theory_text>\<open>ASN1_EncDec\<close>), test ports in \<open>ipl4_provider\<close>
  (\<^theory_text>\<open>CodecPort_CtrlFunct\<close>), the contents of uninitialised memory where the code reads it. What a property needs of them is a named predicate (\<open>evp_ok\<close>, \<open>der_ok\<close>, \<open>key_ok\<close>, \<open>verify_reports\<close>, \<open>agreement_ok\<close>,
  \<open>titan_rt_ok\<close>, \<open>lib_ok\<close>, \<open>asn1_library_ok\<close> and others) of documented behaviour, which an example instance in the same theory satisfies.

  \<^bold>\<open>What is shown.\<close>
  \<^item> Ciphers and checksums: f9 is the polynomial evaluation of the specification, f8 is its own inverse, initialisation loses
    no key material; the table-driven CRC-24 is the bitwise one and detects all changes within three octets; the checksums that
    the IuUP encoder inserts are those a receiver computes.
  \<^item> Authentication: Milenage computes the functions of TS 35.206; a card accepts exactly the tokens of the network for a
    higher counter, and resynchronises otherwise; the derivations are those of TS 33.220 and its users.
  \<^item> Codecs: expansion of BSSGP messages accepts exactly sequences of well-formed elements, and compaction
    inverts it; RLC/MAC blocks and MNCC messages survive encoding and decoding, under stated conditions that the findings explain; a
    received MNCC message of full size whose lengths stay inside is
    decoded without a read outside it; internet addresses survive being written as text and read, every shortened
    form of version 6 included.
  \<^item> Provisioning: a step relation of two ends of a session, with the invariant that the receiver holds a prefix of what was
    sent, in order, and can always finish, up to an empty datum that is only authenticated, which the code sends and refuses; accepted segments are authentic; packages come out as they were put in, from a common secret and
    identifiers through key derivation and the octets of SGP.22 to the parts, with and without replacement of keys; apart
    from a package that cannot be decoded or is malformed, for which a value that was never set is read, no argument makes the processing
    throw, read outside its data or end the process. Handles of destroyed clients are dead until the counter of handles overflows; signatures verify,
    key agreement agrees, a chain that is accepted ends at the given root; the check of an EID range is the prefix
    test on well-formed extensions, and runs for ever on some others. In threads, a method of a client is a sequence of accesses to its object, which interleave
    with those of other methods: the calls have the results of atomic ones as long as no client is destroyed during a call on it and calls on
    one client overlap only if they just read; otherwise a call works on freed memory or on another client, or two calls mix their effects. No key
    pair is loaded from a file without a read of octets that are gone.
  \<^item> HTTP: the calls of libcurl implement the transfer that the client's model assumes; they keep the rules of libcurl and leave
    no handle behind on any path; a request that succeeds has verified its server with the pool's certificates; libcurl stays initialised
    while a client needs it.
  \<^item> Helpers: a loop over OpenSSL's error queue ends with every error reported once; hexadecimal text and Base64 read back.

  The last theorem, below, is the whole way of a profile: key agreement, key derivation, protection, processing.

  Interfaces are locales, each interpreted on the code's model: \<open>xor_linear\<close> and its extensions, \<open>element_walk\<close> (both
  length conversions), \<open>packed_struct\<close> (the three uplink headers), \<open>segment_channel\<close> (ciphered and authenticated segments) and
  \<open>handle_table\<close> (the registry). Interfaces to code outside of the repository are the records above.

  \<^bold>\<open>Bounds.\<close> f9 is shown for messages of up to \<open>2 ^ 35\<close> bits, in reach of the 32-bit counters of its loops. The memory layout of the MNCC
  structures is little-endian with natural alignment; \<^theory_text>\<open>Native_Functions\<close> assumes a
  little-endian machine too. The counter of clients is an \<^verbatim>\<open>int\<close>, whose overflow is undefined. Allocations of the runtime succeed, except where a result code of OpenSSL or libcurl is checked. Packages are shorter than
  \<open>2 ^ 31\<close> octets, the limit of OpenSSL's lengths. A decoder of X.690 in \<^theory_text>\<open>DER_Codec\<close> recurs with as many rounds as there are
  octets, enough because every element takes one.

  \<^bold>\<open>Not modelled.\<close> The lines that functions write to the log or the console on their way, beside the functions whose purpose that is; debug
  dumps that are compiled only with \<^verbatim>\<open>DEBUG\<close>. Deleters, which hand an object to the function that frees it. In threads, an
  access of a method to its object is one step; accesses to parts of a member at a time are left out. The test suites themselves, in TTCN-3.

  \<^bold>\<open>Plan.\<close> Open: the RAW codecs of the TTCN-3 records of RLC/MAC, now parameters with laws, as definitions from the
  attributes in the TTCN-3 modules, and control blocks.
\<close>

section \<open>Properties that span components\<close>

text \<open>
  C1. A profile download, from the client's one-time key to the profile: the server reads the public key that the
  client hands out, computes the common secret with its own key on the same curve, derives the session's object, and
  protects configuration, metadata and profile in it; the client, with the server's public key, computes
  its secret, and the call on the package with that secret gives exactly the three parts.
\<close>

theorem profile_download:
  assumes "evp_ok evp" and "agreement_ok env curve K"
    and client: "m_clients reg h = Some cl" "getEUICCCurveNID ssl cl = Inr curve"
      "ext_generateEUICCOtpk ssl env h reg = (Inr otpk, reg1)" "otpk \<noteq> []"
    and server: "k \<in> K" "public_octets env k = Some pub" "peer_key env curve otpk = Some p" "ecdh env k p = Some secret"
      "from_kdf evp secret (word_of_int keyType) (word_of_int keyLength) host eid = Inr s"
      "encrypt_and_mac_one evp 0x87 isdp s = (Inr w87, s1)" "mac_only_seg evp 0x88 meta s1 = (Inr ws88, s2)"
      "encrypt_and_mac_seg evp 0x86 profile s2 = (Inr ws86, s3)"
    and "d2i_bpp package = Some \<lparr>bpp_firstSequenceOf87 = Some [w87], bpp_sequenceOf88 = Some ws88,
      bpp_secondSequenceOf87 = None, bpp_sequenceOf86 = Some ws86\<rparr>"
  shows "\<exists>z. ext_computeSharedSecret ssl env h pub reg1 = (Inr z, reg1) \<and>
    ext_processBoundProfilePackage evp d2i_bpp d2i_rsk z keyType keyLength host (hex_of eid) package =
    Inr \<lparr>pb_configureIsdp = isdp, pb_storeMetadata = meta, pb_hasReplaceSessionKeys = False, pb_ppkEnc = None, pb_ppkMac = None,
      pb_ppkInitialMCV = None, pb_profileData = profile\<rparr>"
  using shared_secret_of [OF client assms(2) server(1-3)] server(4)
    package_delivered [where d2i_bpp = d2i_bpp and package = package, OF assms(1) server(5-8) assms(15)] by auto

theorem profile_download_witness:
  "\<exists>otpk reg1 z bpp. ext_generateEUICCOtpk example_ssl example_env 1 example_registry = (Inr otpk, reg1) \<and>
    ext_computeSharedSecret example_ssl example_env 1 [4, 6, 5] reg1 = (Inr z, reg1) \<and>
    ext_processBoundProfilePackage toy_evp (\<lambda>package. if package = [0xbf, 0x36] then Some bpp else None) (\<lambda>_. None)
      z 0x88 0x10 [8] ''8904'' [0xbf, 0x36] =
    Inr \<lparr>pb_configureIsdp = [1], pb_storeMetadata = [2, 3], pb_hasReplaceSessionKeys = False, pb_ppkEnc = None, pb_ppkMac = None,
      pb_ppkInitialMCV = None, pb_profileData = [4, 5, 6]\<rparr>"
proof -
  obtain reg1 where g: "ext_generateEUICCOtpk example_ssl example_env 1 example_registry = (Inr (4 # replicate 64 5), reg1)"
    using example_otpk by blast
  have cl: "m_clients example_registry 1 = Some example_client" by (simp add: example_registry_def)
  have nid: "getEUICCCurveNID example_ssl example_client = Inr P256" by (rule example_curve)
  have keys: "[4, 6, 5] \<in> example_keys P256" "public_octets example_env [4, 6, 5] = Some [4, 6, 5]" "peer_key example_env P256 (4 # replicate 64 5) = Some (4 # replicate 64 5)"
    "ecdh example_env [4, 6, 5] (4 # replicate 64 5) = Some [3]" by (simp_all add: example_env_def example_keys_def curve_mark_def)
  have eid: "hex_of [0x89, 0x04] = ''8904''" by code_simp
  obtain s where s: "from_kdf toy_evp [3] (word_of_int 0x88) (word_of_int 0x10) [8] [0x89, 0x04] = Inr s"
    using toy_from_kdf [of "[8]" "[0x89, 0x04]" "[3]" "word_of_int 0x88" "word_of_int 0x10"] by auto
  obtain w87 s1 ws88 s2 ws86 s3 where w: "encrypt_and_mac_one toy_evp 0x87 [1] s = (Inr w87, s1)"
    "mac_only_seg toy_evp 0x88 [2, 3] s1 = (Inr ws88, s2)" "encrypt_and_mac_seg toy_evp 0x86 [4, 5, 6] s2 = (Inr ws86, s3)"
    using toy_sender [OF from_kdf_wf [OF s]] by blast
  show ?thesis
    using profile_download [OF toy_evp_ok example_agreement_ok cl nid g _ keys s w,
        of "\<lambda>package. if package = [0xbf, 0x36] then
              Some \<lparr>bpp_firstSequenceOf87 = Some [w87], bpp_sequenceOf88 = Some ws88,
                bpp_secondSequenceOf87 = None, bpp_sequenceOf86 = Some ws86\<rparr> else None" "[0xbf, 0x36]" "\<lambda>_. None"] g
    unfolding eid by fastforce
qed

end
